(* ===== verification/Prelude.thy ===== *)
theory Prelude
  imports Main "HOL-Library.While_Combinator" "HOL-Library.Sublist"
begin

text \<open>
  What every component of the development shares: the fact collections of the
  automation, generic lemmas on lists, finite relations and maps, and the reading of
  Go's data used throughout.

  Go's \<open>string\<close> is a byte sequence and is modelled by \<^typ>\<open>string\<close> (a list of 8-bit
  characters).  A \<open>map[K]V\<close> that is only looked up is a HOL map; one that is ranged over
  is an association list with distinct keys, whose order stands for the iteration order
  the Go runtime happened to choose (every theorem holds for every such order).  A read
  of a missing key of a \<open>map[string][]int\<close> yields \<open>nil\<close>, so such a map is a total
  function with the empty list as default.
\<close>

named_theorems gostr_simps "evaluation of the Go string helpers"

section \<open>Lists\<close>

lemma filter_upt_Suc [simp]:
  "filter P [0..<Suc n] = filter P [0..<n] @ (if P n then [n] else [])"
  by simp

lemma set_filter_upt [simp]: "set (filter P [0..<n]) = {i. i < n \<and> P i}"
  by auto

lemma filter_index_snoc:
  "[i \<leftarrow> [0..<length (xs @ [x])]. P ((xs @ [x]) ! i)] =
     [i \<leftarrow> [0..<length xs]. P (xs ! i)] @ (if P x then [length xs] else [])"
proof -
  have "filter (\<lambda>i. P ((xs @ [x]) ! i)) [0..<length xs] = filter (\<lambda>i. P (xs ! i)) [0..<length xs]"
    by (intro filter_cong) (auto simp: nth_append)
  then show ?thesis by simp
qed

text \<open>Duplicate detection with a set of seen elements, as the validators do it.\<close>

fun first_dup :: "'a list \<Rightarrow> 'a set \<Rightarrow> 'a option" where
  "first_dup [] seen = None"
| "first_dup (x # xs) seen = (if x \<in> seen then Some x else first_dup xs (insert x seen))"

lemma first_dup_None: "first_dup xs seen = None \<longleftrightarrow> distinct xs \<and> set xs \<inter> seen = {}"
  by (induction xs arbitrary: seen) auto

text \<open>The first failing check of a sequence of checks, each an optional message.\<close>

fun first_msg :: "('a \<Rightarrow> 'm option) \<Rightarrow> 'a list \<Rightarrow> 'm option" where
  "first_msg f [] = None"
| "first_msg f (x # xs) = (case f x of None \<Rightarrow> first_msg f xs | Some m \<Rightarrow> Some m)"

lemma first_msg_None [simp]: "first_msg f xs = None \<longleftrightarrow> (\<forall>x\<in>set xs. f x = None)"
  by (induction xs) (auto split: option.splits)

lemma first_msg_Some: "first_msg f xs = Some m \<Longrightarrow> \<exists>x\<in>set xs. f x = Some m"
  by (induction xs) (auto split: option.splits)

definition orElse :: "'m option \<Rightarrow> 'm option \<Rightarrow> 'm option" where
  "orElse a b = (case a of None \<Rightarrow> b | Some m \<Rightarrow> Some m)"

lemma orElse_None [simp]: "orElse a b = None \<longleftrightarrow> a = None \<and> b = None"
  by (auto simp: orElse_def split: option.splits)

lemma orElse_simps [simp]: "orElse None b = b" "orElse (Some m) b = Some m"
  by (simp_all add: orElse_def)

section \<open>Finite relations\<close>

text \<open>A relation that a numbering strictly increases along has no cycle.\<close>

lemma acyclic_by_rank:
  assumes "\<And>a b. (a, b) \<in> R \<Longrightarrow> f a < (f b :: nat)"
  shows "acyclic R"
proof (rule acyclicI, intro allI notI)
  fix x assume "(x, x) \<in> R\<^sup>+"
  have "f a < f b" if "(a, b) \<in> R\<^sup>+" for a b
    using that by induction (auto dest: assms intro: less_trans)
  with \<open>(x, x) \<in> R\<^sup>+\<close> show False by blast
qed

text \<open>
  Walking predecessors inside a finite set that always offers one ends on a cycle: every
  element of the set is reachable from an element that lies on a cycle.
\<close>

lemma backward_walk_hits_cycle:
  assumes fin: "finite R" and pre: "\<And>x. x \<in> X \<Longrightarrow> \<exists>y\<in>X. (y, x) \<in> R" and x: "x \<in> X"
  shows "\<exists>c. (c, c) \<in> R\<^sup>+ \<and> (c, x) \<in> R\<^sup>*"
proof (rule ccontr)
  assume no: "\<not> ?thesis"
  let ?S = "{(a, b). (a, b) \<in> R \<and> (b, x) \<in> R\<^sup>*}"
  have sub: "?S \<subseteq> R" by blast
  have "acyclic ?S"
  proof (rule acyclicI, intro allI notI)
    fix c assume c: "(c, c) \<in> ?S\<^sup>+"
    then have "(c, c) \<in> R\<^sup>+" using sub by (auto intro: trancl_mono)
    moreover from c have "(c, x) \<in> R\<^sup>*"
      by (cases rule: tranclE) auto
    ultimately show False using no by blast
  qed
  then have "wf ?S" using fin sub by (blast intro: finite_acyclic_wf finite_subset)
  moreover have "x \<in> {y \<in> X. (y, x) \<in> R\<^sup>*}" using x by simp
  ultimately obtain z where z: "z \<in> X" "(z, x) \<in> R\<^sup>*"
    and min: "\<And>y. (y, z) \<in> ?S \<Longrightarrow> \<not> (y \<in> X \<and> (y, x) \<in> R\<^sup>*)"
    unfolding wf_eq_minimal by (metis (mono_tags, lifting) mem_Collect_eq)
  from pre[OF z(1)] obtain y where "y \<in> X" "(y, z) \<in> R" by blast
  with z min[of y] show False by (auto intro: converse_rtrancl_into_rtrancl)
qed

section \<open>Transition systems\<close>

text \<open>
  The contract of a component that runs by steps: an initial state satisfies the invariant
  and every step keeps it.
\<close>

locale invariant_system =
  fixes init :: "'s \<Rightarrow> bool" and step :: "'s \<Rightarrow> 's \<Rightarrow> bool" and inv :: "'s \<Rightarrow> bool"
  assumes init_inv: "init s \<Longrightarrow> inv s"
    and step_inv: "inv s \<Longrightarrow> step s s' \<Longrightarrow> inv s'"
begin

lemma steps_inv: "step\<^sup>*\<^sup>* s s' \<Longrightarrow> inv s \<Longrightarrow> inv s'"
  by (induction rule: rtranclp_induct) (auto intro: step_inv)

lemma reachable_inv: "init s0 \<Longrightarrow> step\<^sup>*\<^sup>* s0 s \<Longrightarrow> inv s"
  using steps_inv init_inv by blast

end

text \<open>A component whose steps only ever move forward in some order of its states.\<close>

locale forward_system = invariant_system +
  fixes le :: "'a \<Rightarrow> 'a \<Rightarrow> bool"
  assumes le_refl: "le s s"
    and le_trans: "le a b \<Longrightarrow> le b c \<Longrightarrow> le a c"
    and step_le: "inv s \<Longrightarrow> step s s' \<Longrightarrow> le s s'"
begin

lemma steps_le: "step\<^sup>*\<^sup>* s s' \<Longrightarrow> inv s \<Longrightarrow> le s s'"
proof (induction rule: rtranclp_induct)
  case (step y z)
  then show ?case using steps_inv step_le le_trans by blast
qed (rule le_refl)

end

text \<open>A component whose steps are bounded by a measure.\<close>

locale bounded_system = invariant_system +
  fixes mu :: "'a \<Rightarrow> nat"
  assumes step_mu: "inv s \<Longrightarrow> step s s' \<Longrightarrow> mu s' < mu s"
begin

lemma steps_bounded: "(step ^^ k) s s' \<Longrightarrow> inv s \<Longrightarrow> k + mu s' \<le> mu s"
proof (induction k arbitrary: s')
  case (Suc k)
  then obtain t where t: "(step ^^ k) s t" "step t s'" by auto
  then have "inv t" using steps_inv Suc.prems(2) relpowp_imp_rtranclp by metis
  with step_mu[OF this t(2)] Suc.IH[OF t(1) Suc.prems(2)] show ?case by simp
qed simp

end

section \<open>Errors as values\<close>

text \<open>
  \<open>x, err := f(); if err != nil { return err }\<close>, and a loop whose body may return an error.
\<close>

definition bindE :: "'e + 'a \<Rightarrow> ('a \<Rightarrow> 'e + 'b) \<Rightarrow> 'e + 'b" where
  "bindE r f = (case r of Inl e \<Rightarrow> Inl e | Inr x \<Rightarrow> f x)"

lemma bindE_simps [simp]: "bindE (Inl e) f = Inl e" "bindE (Inr x) f = f x"
  by (simp_all add: bindE_def)

lemma bindE_Inr [simp]: "bindE r f = Inr y \<longleftrightarrow> (\<exists>x. r = Inr x \<and> f x = Inr y)"
  by (cases r) auto

lemma bindE_det:
  assumes "\<And>q. r = Inr q \<longleftrightarrow> C \<and> q = v"
  shows "bindE r f = Inr y \<longleftrightarrow> C \<and> f v = Inr y"
  using assms by auto

lemma bindE_cong [fundef_cong]: "r = r' \<Longrightarrow> (\<And>x. r' = Inr x \<Longrightarrow> f x = f' x) \<Longrightarrow> bindE r f = bindE r' f'"
  by (cases r') auto

fun foldE :: "('a \<Rightarrow> 's \<Rightarrow> 'e + 's) \<Rightarrow> 'a list \<Rightarrow> 's \<Rightarrow> 'e + 's" where
  "foldE f [] s = Inr s"
| "foldE f (x # xs) s = bindE (f x s) (foldE f xs)"

lemma foldE_append: "foldE f (xs @ ys) s = bindE (foldE f xs s) (foldE f ys)"
  by (induction xs arbitrary: s) (auto simp: bindE_def split: sum.splits)

lemma foldE_independent:
  assumes "\<And>x s r. f x s = Inr r \<longleftrightarrow> okay x \<and> r = add x s"
  shows "foldE f xs s = Inr r \<longleftrightarrow> (\<forall>x\<in>set xs. okay x) \<and> r = fold add xs s"
  by (induction xs arbitrary: s) (auto simp: assms)

text \<open>
  A loop over independent items: each item is acceptable or not by itself, claims names nobody
  has claimed before, and adds its contribution to what was collected.  Its outcome is determined
  by the items, their names and their contributions.
\<close>

locale collecting =
  fixes body :: "'a \<Rightarrow> 'n set \<times> 's \<Rightarrow> 'e + 'n set \<times> 's"
    and okay :: "'a \<Rightarrow> bool" and names :: "'a \<Rightarrow> 'n list" and add :: "'a \<Rightarrow> 's \<Rightarrow> 's"
  assumes body: "body x (seen, s) = Inr r \<longleftrightarrow>
      okay x \<and> distinct (names x) \<and> set (names x) \<inter> seen = {} \<and> r = (seen \<union> set (names x), add x s)"
begin

lemma collect:
  "foldE body xs (seen, s) = Inr r \<longleftrightarrow>
     (\<forall>x\<in>set xs. okay x) \<and> distinct (concat (map names xs)) \<and> set (concat (map names xs)) \<inter> seen = {}
     \<and> r = (seen \<union> set (concat (map names xs)), fold add xs s)"
proof (induction xs arbitrary: seen s)
  case (Cons x xs)
  have "foldE body (x # xs) (seen, s) = Inr r \<longleftrightarrow>
      okay x \<and> distinct (names x) \<and> set (names x) \<inter> seen = {}
      \<and> foldE body xs (seen \<union> set (names x), add x s) = Inr r"
    using body by auto
  also have "\<dots> \<longleftrightarrow> (\<forall>x\<in>set (x # xs). okay x) \<and> distinct (concat (map names (x # xs)))
     \<and> set (concat (map names (x # xs))) \<inter> seen = {}
     \<and> r = (seen \<union> set (concat (map names (x # xs))), fold add (x # xs) s)"
    unfolding Cons.IH by auto
  finally show ?case .
qed auto

end

end
