(* ===== verification/Wf_Types.thy ===== *)
theory Wf_Types
  imports Prelude
begin

text \<open>
  The data of the workflow service (\<open>src/systems/workflows/types.go\<close>, \<open>graph.go\<close>,
  \<open>mapregion.go\<close>, \<open>loopregion.go\<close>, \<open>scheduler.go\<close>): steps, fan-out configurations,
  regions, routes, the runtime graph and the traversal state of one run.  A Go struct is
  a record whose fields keep the Go names behind a short prefix; the embedding of
  \<open>Step\<close> in \<open>WorkflowStep\<close> is record extension.  A pointer that may be nil is an option.
  Go's \<open>int\<close> and \<open>int64\<close> fields are \<^typ>\<open>int\<close>: they are only compared, or scaled by values
  the validators bound to 100 and 50, so their 64 bits are never exceeded.
\<close>

section \<open>Untyped configuration values\<close>

text \<open>
  \<open>map[string]any\<close> values as \<open>encoding/json\<close> produces them.  A \<open>float64\<close> is represented
  by its rendering \<open>strconv.FormatFloat(f, 'f', -1, 64)\<close>, which determines it.
\<close>

datatype gany =
    ANil
  | ABool bool
  | ANum string
  | AStr string
  | AArr "gany list"
  | AObj "(string \<times> gany) list"

section \<open>Steps and their fan-out\<close>

record PermissionSpec =
  ps_Service :: string
  ps_Action :: string
  ps_Resource :: string

record MatrixConfig =
  mx_Var :: string
  mx_Values :: "string list"
  mx_ValuesFrom :: string
  mx_MaxConcurrent :: int
  mx_Sequential :: bool
  mx_AllowEmpty :: bool

record ScatterConfig =
  sca_Volume :: string
  sca_MountPath :: string
  sca_Regex :: string
  sca_Mode :: string
  sca_MaxDepth :: int
  sca_PathsFrom :: string
  sca_Outputs :: "string list"
  sca_ShareBase :: bool
  sca_SizeMB :: int
  sca_Medium :: string
  sca_MaxConcurrent :: int

record ApprovalGate =
  ap_Message :: string
  ap_Approvers :: "string list"

record Step =
  st_StepID :: string
  st_Name :: string
  st_Description :: string
  st_Action :: string
  st_With :: "(string \<times> gany) list"
  st_Timeout :: int
  st_AllowUnresolved :: bool
  st_Permissions :: "PermissionSpec list"
  st_CreatedBy :: string
  st_OrgID :: string
  st_Active :: bool
  st_CreatedAt :: int
  st_UpdatedAt :: int

record WorkflowStep = Step +
  ws_Matrix :: "MatrixConfig option"
  ws_Scatter :: "ScatterConfig option"
  ws_Approval :: "ApprovalGate option"
  ws_MapID :: string
  ws_LoopID :: string

definition ActionApproval :: string where
  "ActionApproval = ''approval''"

section \<open>Regions, routes\<close>

record MapDef =
  md_ID :: string
  md_Var :: string
  md_Values :: "string list"
  md_ValuesFrom :: string
  md_MaxConcurrent :: int
  md_Sequential :: bool
  md_FailureTolerance :: int
  md_AllowEmpty :: bool
  md_Volume :: string
  md_MountPath :: string
  md_SizeMB :: int
  md_Medium :: string
  md_Outputs :: "string list"

record LoopDef =
  ld_ID :: string
  ld_Limit :: int
  ld_Until :: string
  ld_Var :: string
  ld_Parent :: string

record WorkflowRoute =
  r_From :: string
  r_To :: string
  r_When :: string
  r_Name :: string

record mapRegion =
  mr_def :: MapDef
  mr_nodes :: "string list"
  mr_firstIndex :: nat

record loopRegion =
  lr_def :: LoopDef
  lr_nodes :: "string list"
  lr_firstIndex :: nat

text \<open>The limits of the service, as the constants of the source.\<close>

definition maxRoutes :: nat where "maxRoutes = 200"
definition maxWhenLen :: nat where "maxWhenLen = 1000"
definition maxMapValues :: nat where "maxMapValues = 50"
definition loopHardMax :: int where "loopHardMax = 50"
definition maxParallelSteps :: int where "maxParallelSteps = 10"
definition defaultFanoutConcurrency :: int where "defaultFanoutConcurrency = 3"

section \<open>The runtime graph\<close>

text \<open>
  \<open>'p\<close> is the type of a compiled condition: \<open>*vm.Program\<close> of \<open>expr-lang/expr\<close>, which is
  not part of the repository.  The maps \<open>regions\<close> and \<open>loops\<close> are ranged over, hence
  association lists.
\<close>

record 'p workflowGraph =
  g_steps :: "WorkflowStep list"
  g_routes :: "WorkflowRoute list"
  g_index :: "string \<rightharpoonup> nat"
  g_out :: "string \<Rightarrow> nat list"
  g_in :: "string \<Rightarrow> nat list"
  g_entries :: "string list"
  g_programs :: "'p option list"
  g_ancestors :: "string \<rightharpoonup> string set"
  g_regions :: "(string \<times> mapRegion) list"
  g_regionOf :: "string \<rightharpoonup> string"
  g_loops :: "(string \<times> loopRegion) list"
  g_loopOf :: "string \<rightharpoonup> string"
  g_outerIndex :: "(string \<rightharpoonup> nat) option"

abbreviation names_of :: "WorkflowStep list \<Rightarrow> string list" where
  "names_of steps \<equiv> map st_Name steps"

section \<open>Concrete steps for examples\<close>

text \<open>A plain step and a plain route, used by the witnesses.\<close>

definition plain_step :: "string \<Rightarrow> WorkflowStep" where
  "plain_step n = \<lparr>st_StepID = n, st_Name = n, st_Description = [], st_Action = ''http'',
     st_With = [], st_Timeout = 30, st_AllowUnresolved = False, st_Permissions = [],
     st_CreatedBy = [], st_OrgID = [], st_Active = True, st_CreatedAt = 0, st_UpdatedAt = 0,
     ws_Matrix = None, ws_Scatter = None, ws_Approval = None, ws_MapID = [], ws_LoopID = []\<rparr>"

definition gate_step :: "string \<Rightarrow> WorkflowStep" where
  "gate_step n = (plain_step n)\<lparr>st_Action := ActionApproval\<rparr>"

definition plain_route :: "string \<Rightarrow> string \<Rightarrow> WorkflowRoute" where
  "plain_route a b = \<lparr>r_From = a, r_To = b, r_When = [], r_Name = []\<rparr>"

lemma plain_step_simps [simp]:
  "st_Name (plain_step n) = n" "st_Action (plain_step n) = ''http''"
  "ws_Matrix (plain_step n) = None" "ws_Scatter (plain_step n) = None"
  "ws_Approval (plain_step n) = None" "ws_MapID (plain_step n) = []" "ws_LoopID (plain_step n) = []"
  by (simp_all add: plain_step_def)

lemma gate_step_simps [simp]:
  "st_Name (gate_step n) = n" "st_Action (gate_step n) = ActionApproval"
  "ws_Matrix (gate_step n) = None" "ws_Scatter (gate_step n) = None"
  "ws_Approval (gate_step n) = None" "ws_MapID (gate_step n) = []" "ws_LoopID (gate_step n) = []"
  by (simp_all add: gate_step_def)

lemma plain_route_simps [simp]:
  "r_From (plain_route a b) = a" "r_To (plain_route a b) = b" "r_When (plain_route a b) = []"
  "r_Name (plain_route a b) = []"
  by (simp_all add: plain_route_def)

end
