(* ===== verification/Wf_Graph.thy ===== *)
theory Wf_Graph
  imports Wf_Types
begin

text \<open>
  The graph view of a workflow (\<open>src/systems/workflows/graph.go\<close>): derivation of routes,
  indexing of a node set and its edges, the ancestor closure, output visibility and Kahn's
  algorithm.  The condition compiler \<open>expr.Compile\<close> is third-party code; it enters as the
  parameter \<open>compile :: string \<Rightarrow> string + 'p\<close> (a message, or a program).
\<close>

section \<open>Compiling route conditions\<close>

text \<open>\<open>compileWhen\<close>: an empty condition has no program.\<close>

definition compileWhen :: "(string \<Rightarrow> string + 'p) \<Rightarrow> string \<Rightarrow> string + 'p option" where
  "compileWhen compile src =
     (if src = [] then Inr None
      else case compile src of Inl e \<Rightarrow> Inl e | Inr p \<Rightarrow> Inr (Some p))"

section \<open>Building the graph\<close>

definition deriveRoutes :: "WorkflowStep list \<Rightarrow> WorkflowRoute list" where
  "deriveRoutes steps =
     map (\<lambda>i. \<lparr>r_From = st_Name (steps ! (i - 1)), r_To = st_Name (steps ! i),
               r_When = [], r_Name = []\<rparr>) [1..<length steps]"

definition groupNames :: "WorkflowStep list \<Rightarrow> string list" where
  "groupNames steps = names_of steps"

text \<open>\<open>for i, ws := range steps { g.index[ws.Name] = i }\<close>\<close>

definition buildIndex :: "WorkflowStep list \<Rightarrow> (string \<rightharpoonup> nat)" where
  "buildIndex steps = fold (\<lambda>(i, ws) m. m(st_Name ws \<mapsto> i)) (enumerate 0 steps) Map.empty"

text \<open>The loop that files every route with known ends under its source and its target.\<close>

definition fileRoute ::
  "(string \<rightharpoonup> nat) \<Rightarrow> nat \<times> WorkflowRoute
   \<Rightarrow> (string \<Rightarrow> nat list) \<times> (string \<Rightarrow> nat list)
   \<Rightarrow> (string \<Rightarrow> nat list) \<times> (string \<Rightarrow> nat list)" where
  "fileRoute index = (\<lambda>(ri, r) (out, inn).
     if index (r_From r) = None then (out, inn)
     else if index (r_To r) = None then (out, inn)
     else (out(r_From r := out (r_From r) @ [ri]), inn(r_To r := inn (r_To r) @ [ri])))"

definition fileRoutes ::
  "(string \<rightharpoonup> nat) \<Rightarrow> WorkflowRoute list \<Rightarrow> (string \<Rightarrow> nat list) \<times> (string \<Rightarrow> nat list)" where
  "fileRoutes index routes = fold (fileRoute index) (enumerate 0 routes) (\<lambda>_. [], \<lambda>_. [])"

text \<open>
  \<open>buildAncestors\<close>: one pass over the routes (with the \<open>changed\<close> flag), repeated until a
  pass changes nothing.
\<close>

definition ancestorStep ::
  "(string \<rightharpoonup> nat) \<Rightarrow> WorkflowRoute \<Rightarrow> bool \<times> (string \<rightharpoonup> string set)
   \<Rightarrow> bool \<times> (string \<rightharpoonup> string set)" where
  "ancestorStep index r = (\<lambda>(changed, anc).
     if index (r_From r) = None then (changed, anc)
     else case anc (r_To r) of
       None \<Rightarrow> (changed, anc)
     | Some to \<Rightarrow>
         (let fromAnc = (case anc (r_From r) of None \<Rightarrow> {} | Some s \<Rightarrow> s);
              new = insert (r_From r) fromAnc
          in (changed \<or> \<not> new \<subseteq> to, anc(r_To r \<mapsto> to \<union> new))))"

definition ancestorPass ::
  "(string \<rightharpoonup> nat) \<Rightarrow> WorkflowRoute list \<Rightarrow> (string \<rightharpoonup> string set)
   \<Rightarrow> bool \<times> (string \<rightharpoonup> string set)" where
  "ancestorPass index routes anc = fold (ancestorStep index) routes (False, anc)"

definition emptyAncestors :: "WorkflowStep list \<Rightarrow> (string \<rightharpoonup> string set)" where
  "emptyAncestors steps = fold (\<lambda>ws m. m(st_Name ws \<mapsto> {})) steps Map.empty"

definition ancestorLoop ::
  "WorkflowStep list \<Rightarrow> WorkflowRoute list \<Rightarrow> (string \<rightharpoonup> nat)
   \<Rightarrow> (bool \<times> (string \<rightharpoonup> string set)) option" where
  "ancestorLoop steps routes index =
     while_option fst (\<lambda>(_, anc). ancestorPass index routes anc) (True, emptyAncestors steps)"

definition buildAncestors ::
  "WorkflowStep list \<Rightarrow> WorkflowRoute list \<Rightarrow> (string \<rightharpoonup> nat) \<Rightarrow> (string \<rightharpoonup> string set)" where
  "buildAncestors steps routes index =
     (case ancestorLoop steps routes index of None \<Rightarrow> Map.empty | Some (_, anc) \<Rightarrow> anc)"

definition newGraph ::
  "(string \<Rightarrow> string + 'p) \<Rightarrow> WorkflowStep list \<Rightarrow> WorkflowRoute list \<Rightarrow> 'p workflowGraph" where
  "newGraph compile steps routes =
     (let index = buildIndex steps; (out, inn) = fileRoutes index routes
      in \<lparr>g_steps = steps, g_routes = routes, g_index = index, g_out = out, g_in = inn,
          g_entries = filter (\<lambda>n. inn n = []) (names_of steps),
          g_programs = map (\<lambda>r. case compileWhen compile (r_When r) of
                                   Inl _ \<Rightarrow> None | Inr p \<Rightarrow> p) routes,
          g_ancestors = buildAncestors steps routes index,
          g_regions = [], g_regionOf = Map.empty, g_loops = [], g_loopOf = Map.empty,
          g_outerIndex = None\<rparr>)"

definition stepIndex :: "'p workflowGraph \<Rightarrow> string \<Rightarrow> nat" where
  "stepIndex g n =
     (case (case g_outerIndex g of None \<Rightarrow> None | Some oi \<Rightarrow> oi n) of
        Some i \<Rightarrow> i
      | None \<Rightarrow> (case g_index g n of Some i \<Rightarrow> i | None \<Rightarrow> 0))"

section \<open>Visibility of outputs\<close>

definition visibleFor :: "'p workflowGraph \<Rightarrow> string \<Rightarrow> (string \<rightharpoonup> string) \<Rightarrow> (string \<rightharpoonup> string)" where
  "visibleFor g node outputs =
     (case g_ancestors g node of None \<Rightarrow> Map.empty
      | Some anc \<Rightarrow> (\<lambda>n. if n \<in> anc then outputs n else None))"

definition stepNames :: "'p workflowGraph \<Rightarrow> string set" where
  "stepNames g = set (names_of (g_steps g))"

section \<open>What the index and the edge lists hold\<close>

lemma fold_index_other:
  "n \<notin> set (names_of steps) \<Longrightarrow>
   fold (\<lambda>(i, ws) m. m(st_Name ws \<mapsto> i)) (enumerate k steps) m n = m n"
  by (induction steps arbitrary: k m) auto

lemma buildIndex_append:
  "buildIndex (steps @ [ws]) = (buildIndex steps)(st_Name ws \<mapsto> length steps)"
  by (simp add: buildIndex_def enumerate_append_eq)

lemma dom_buildIndex [simp]: "dom (buildIndex steps) = set (names_of steps)"
proof (induction steps rule: rev_induct)
  case Nil
  then show ?case by (simp add: buildIndex_def)
qed (simp add: buildIndex_append del: fun_upd_apply)

lemma buildIndex_None [simp]: "buildIndex steps n = None \<longleftrightarrow> n \<notin> set (names_of steps)"
  by (metis dom_buildIndex domIff)

lemma buildIndex_Some:
  "buildIndex steps n = Some i \<Longrightarrow> i < length steps \<and> st_Name (steps ! i) = n"
proof (induction steps rule: rev_induct)
  case Nil
  then show ?case by (simp add: buildIndex_def)
next
  case (snoc ws steps)
  then show ?case by (auto simp: buildIndex_append nth_append split: if_splits)
qed

lemma buildIndex_nth:
  assumes "distinct (names_of steps)" and "i < length steps"
  shows "buildIndex steps (st_Name (steps ! i)) = Some i"
proof -
  obtain j where j: "buildIndex steps (st_Name (steps ! i)) = Some j"
    using assms(2) by (metis buildIndex_None length_map not_Some_eq nth_map nth_mem)
  with buildIndex_Some have "j < length steps" "names_of steps ! j = names_of steps ! i"
    using assms(2) by (fastforce simp: nth_map)+
  with assms have "j = i" by (metis length_map nth_eq_iff_index_eq)
  with j show ?thesis by simp
qed

text \<open>A route the graph files: both of its ends are steps.\<close>

abbreviation routeKnown :: "(string \<rightharpoonup> nat) \<Rightarrow> WorkflowRoute \<Rightarrow> bool" where
  "routeKnown index r \<equiv> index (r_From r) \<noteq> None \<and> index (r_To r) \<noteq> None"

lemma fileRoutes_snoc:
  "fileRoutes index (routes @ [r]) = fileRoute index (length routes, r) (fileRoutes index routes)"
  by (simp add: fileRoutes_def enumerate_append_eq)

lemma fileRoute_split:
  "fileRoute index (ri, r) (out, inn) =
     (\<lambda>n. out n @ (if routeKnown index r \<and> r_From r = n then [ri] else []),
      \<lambda>n. inn n @ (if routeKnown index r \<and> r_To r = n then [ri] else []))"
  by (auto simp: fileRoute_def fun_eq_iff)

lemma fileRoutes_eq:
  "fileRoutes index routes =
     (\<lambda>n. [i \<leftarrow> [0..<length routes]. routeKnown index (routes ! i) \<and> r_From (routes ! i) = n],
      \<lambda>n. [i \<leftarrow> [0..<length routes]. routeKnown index (routes ! i) \<and> r_To (routes ! i) = n])"
proof (induction routes rule: rev_induct)
  case Nil
  then show ?case by (simp add: fileRoutes_def)
next
  case (snoc r routes)
  show ?case
    by (simp only: fileRoutes_snoc snoc.IH fileRoute_split
        filter_index_snoc[where P = "\<lambda>r. routeKnown index r \<and> r_From r = _"]
        filter_index_snoc[where P = "\<lambda>r. routeKnown index r \<and> r_To r = _"])
qed

lemma newGraph_simps [simp]:
  "g_steps (newGraph c steps routes) = steps"
  "g_routes (newGraph c steps routes) = routes"
  "g_index (newGraph c steps routes) = buildIndex steps"
  "g_ancestors (newGraph c steps routes) = buildAncestors steps routes (buildIndex steps)"
  "g_regions (newGraph c steps routes) = []" "g_regionOf (newGraph c steps routes) = Map.empty"
  "g_loops (newGraph c steps routes) = []" "g_loopOf (newGraph c steps routes) = Map.empty"
  "g_outerIndex (newGraph c steps routes) = None"
  by (simp_all add: newGraph_def Let_def split: prod.split)

lemma newGraph_entries [simp]:
  "g_entries (newGraph c steps routes) =
     filter (\<lambda>n. g_in (newGraph c steps routes) n = []) (names_of steps)"
  by (simp add: newGraph_def Let_def split: prod.split)

lemma newGraph_programs [simp]:
  "g_programs (newGraph c steps routes) =
     map (\<lambda>r. case compileWhen c (r_When r) of Inl _ \<Rightarrow> None | Inr p \<Rightarrow> p) routes"
  by (simp add: newGraph_def Let_def split: prod.split)

text \<open>The edge relation of a node set and its routes; unknown ends are no nodes.\<close>

definition edges_of :: "WorkflowStep list \<Rightarrow> WorkflowRoute list \<Rightarrow> (string \<times> string) set" where
  "edges_of steps routes =
     {(r_From r, r_To r) | r. r \<in> set routes \<and> r_From r \<in> set (names_of steps)
                              \<and> r_To r \<in> set (names_of steps)}"

lemma edges_of_finite [simp]: "finite (edges_of steps routes)"
proof -
  have "edges_of steps routes \<subseteq> (\<lambda>r. (r_From r, r_To r)) ` set routes"
    by (auto simp: edges_of_def)
  then show ?thesis by (rule finite_subset) simp
qed

lemma edges_of_names:
  "(a, b) \<in> edges_of steps routes \<Longrightarrow> a \<in> set (names_of steps) \<and> b \<in> set (names_of steps)"
  unfolding edges_of_def by blast

lemma trancl_edges_names:
  "(a, b) \<in> (edges_of steps routes)\<^sup>+ \<Longrightarrow> a \<in> set (names_of steps) \<and> b \<in> set (names_of steps)"
  by (induction rule: trancl_induct) (auto dest: edges_of_names)

lemma g_out_eq:
  "g_out (newGraph c steps routes) n =
     [i \<leftarrow> [0..<length routes]. r_From (routes ! i) \<in> set (names_of steps)
        \<and> r_To (routes ! i) \<in> set (names_of steps) \<and> r_From (routes ! i) = n]"
  by (simp add: newGraph_def Let_def fileRoutes_eq del: not_None_eq)

lemma g_in_eq:
  "g_in (newGraph c steps routes) n =
     [i \<leftarrow> [0..<length routes]. r_From (routes ! i) \<in> set (names_of steps)
        \<and> r_To (routes ! i) \<in> set (names_of steps) \<and> r_To (routes ! i) = n]"
  by (simp add: newGraph_def Let_def fileRoutes_eq del: not_None_eq)

lemma g_in_iff [simp]:
  "ri \<in> set (g_in (newGraph c steps routes) n) \<longleftrightarrow>
     ri < length routes \<and> r_To (routes ! ri) = n
     \<and> r_From (routes ! ri) \<in> set (names_of steps) \<and> n \<in> set (names_of steps)"
  by (auto simp: g_in_eq)

lemma g_out_iff [simp]:
  "ri \<in> set (g_out (newGraph c steps routes) n) \<longleftrightarrow>
     ri < length routes \<and> r_From (routes ! ri) = n
     \<and> r_To (routes ! ri) \<in> set (names_of steps) \<and> n \<in> set (names_of steps)"
  by (auto simp: g_out_eq)

lemma out_in_range: "ri \<in> set (g_out (newGraph c steps routes) n) \<Longrightarrow> ri < length routes"
  by simp

lemma edges_of_iff_in:
  "(a, b) \<in> edges_of steps routes \<longleftrightarrow>
     (\<exists>ri \<in> set (g_in (newGraph c steps routes) b). r_From (routes ! ri) = a)"
proof
  assume "(a, b) \<in> edges_of steps routes"
  then obtain i where "i < length routes" "a = r_From (routes ! i)" "b = r_To (routes ! i)"
    "a \<in> set (names_of steps)" "b \<in> set (names_of steps)"
    unfolding edges_of_def by (auto simp only: mem_Collect_eq in_set_conv_nth)
  then show "\<exists>ri \<in> set (g_in (newGraph c steps routes) b). r_From (routes ! ri) = a"
    by (intro bexI[of _ i]) simp_all
next
  assume "\<exists>ri \<in> set (g_in (newGraph c steps routes) b). r_From (routes ! ri) = a"
  then show "(a, b) \<in> edges_of steps routes"
    unfolding edges_of_def by (force simp del: in_set_conv_nth)
qed

section \<open>The ancestor closure is reachability\<close>

text \<open>The pairs an ancestor map holds.\<close>

definition ancPairs :: "(string \<rightharpoonup> string set) \<Rightarrow> (string \<times> string) set" where
  "ancPairs anc = {(a, n). \<exists>s. anc n = Some s \<and> a \<in> s}"

definition ancClosed :: "(string \<rightharpoonup> nat) \<Rightarrow> WorkflowRoute \<Rightarrow> (string \<rightharpoonup> string set) \<Rightarrow> bool" where
  "ancClosed index r anc \<longleftrightarrow>
     (index (r_From r) \<noteq> None \<and> anc (r_To r) \<noteq> None \<longrightarrow>
        (r_From r, r_To r) \<in> ancPairs anc
        \<and> (\<forall>a. (a, r_From r) \<in> ancPairs anc \<longrightarrow> (a, r_To r) \<in> ancPairs anc))"

lemma ancPairs_grow:
  "anc n = Some to \<Longrightarrow> ancPairs (anc(n \<mapsto> to \<union> new)) = ancPairs anc \<union> new \<times> {n}"
  by (auto simp: ancPairs_def)

lemma ancPairs_iff: "anc n = Some s \<Longrightarrow> (a, n) \<in> ancPairs anc \<longleftrightarrow> a \<in> s"
  by (simp add: ancPairs_def)

lemma ancPairs_None: "anc n = None \<Longrightarrow> (a, n) \<notin> ancPairs anc"
  by (simp add: ancPairs_def)

text \<open>The sources a route contributes to its target.\<close>

definition ancNew :: "WorkflowRoute \<Rightarrow> (string \<rightharpoonup> string set) \<Rightarrow> string set" where
  "ancNew r anc = insert (r_From r) (case anc (r_From r) of None \<Rightarrow> {} | Some s \<Rightarrow> s)"

lemma ancNew_iff: "a \<in> ancNew r anc \<longleftrightarrow> a = r_From r \<or> (a, r_From r) \<in> ancPairs anc"
  by (auto simp: ancNew_def ancPairs_def split: option.splits)

lemma ancestorStep_cases:
  assumes "ancestorStep index r (c, anc) = (c', anc')"
  shows "dom anc' = dom anc" and "ancPairs anc \<subseteq> ancPairs anc'"
    and "c' \<Longrightarrow> c \<or> ancPairs anc \<noteq> ancPairs anc'"
    and "\<not> c' \<Longrightarrow> \<not> c \<and> anc' = anc \<and> ancClosed index r anc"
    and "ancPairs anc' \<subseteq> ancPairs anc \<union>
           (if index (r_From r) \<noteq> None \<and> anc (r_To r) \<noteq> None then ancNew r anc \<times> {r_To r} else {})"
proof -
  consider (skip) "index (r_From r) = None \<or> anc (r_To r) = None" "c' = c" "anc' = anc"
    | (grow) to where "index (r_From r) \<noteq> None" "anc (r_To r) = Some to"
        "c' = (c \<or> \<not> ancNew r anc \<subseteq> to)" "anc' = anc(r_To r \<mapsto> to \<union> ancNew r anc)"
    using assms
    by (auto simp: ancestorStep_def ancNew_def Let_def split: if_splits option.splits)
  then have "dom anc' = dom anc \<and> ancPairs anc \<subseteq> ancPairs anc'
    \<and> (c' \<longrightarrow> c \<or> ancPairs anc \<noteq> ancPairs anc')
    \<and> (\<not> c' \<longrightarrow> \<not> c \<and> anc' = anc \<and> ancClosed index r anc)
    \<and> ancPairs anc' \<subseteq> ancPairs anc \<union>
           (if index (r_From r) \<noteq> None \<and> anc (r_To r) \<noteq> None then ancNew r anc \<times> {r_To r} else {})"
  proof cases
    case skip
    then show ?thesis by (auto simp: ancClosed_def)
  next
    case (grow to)
    note pairs = ancPairs_grow[of anc "r_To r" to "ancNew r anc", OF grow(2)]
    have sub: "ancNew r anc \<subseteq> to \<longleftrightarrow> ancNew r anc \<times> {r_To r} \<subseteq> ancPairs anc"
      using ancPairs_iff[of anc "r_To r" to, OF grow(2)] by auto
    have same: "anc(r_To r \<mapsto> to \<union> ancNew r anc) = anc" if "ancNew r anc \<subseteq> to"
    proof -
      from that have "to \<union> ancNew r anc = to" by blast
      then show ?thesis by (simp add: fun_eq_iff grow(2))
    qed
    have closed: "ancClosed index r anc" if "ancNew r anc \<subseteq> to"
      using that sub by (auto simp: ancClosed_def ancNew_iff)
    show ?thesis
      using grow pairs sub same closed by auto
  qed
  then show "dom anc' = dom anc" "ancPairs anc \<subseteq> ancPairs anc'"
    "c' \<Longrightarrow> c \<or> ancPairs anc \<noteq> ancPairs anc'"
    "\<not> c' \<Longrightarrow> \<not> c \<and> anc' = anc \<and> ancClosed index r anc"
    "ancPairs anc' \<subseteq> ancPairs anc \<union>
       (if index (r_From r) \<noteq> None \<and> anc (r_To r) \<noteq> None then ancNew r anc \<times> {r_To r} else {})"
    by blast+
qed

lemma ancestorFold_cases:
  assumes "fold (ancestorStep index) rs (c, anc) = (c', anc')"
  shows "dom anc' = dom anc \<and> ancPairs anc \<subseteq> ancPairs anc'
    \<and> (c' \<longrightarrow> c \<or> ancPairs anc \<noteq> ancPairs anc')
    \<and> (\<not> c' \<longrightarrow> \<not> c \<and> anc' = anc \<and> (\<forall>r\<in>set rs. ancClosed index r anc))"
  using assms
proof (induction rs arbitrary: c anc)
  case Nil
  then show ?case by simp
next
  case (Cons r rs)
  obtain c1 anc1 where step: "ancestorStep index r (c, anc) = (c1, anc1)" by fastforce
  with Cons.prems have rest: "fold (ancestorStep index) rs (c1, anc1) = (c', anc')" by simp
  note h = ancestorStep_cases[OF step] and ih = Cons.IH[OF rest]
  show ?case
  proof (intro conjI impI)
    show "dom anc' = dom anc" "ancPairs anc \<subseteq> ancPairs anc'" using h ih by auto
    show "c \<or> ancPairs anc \<noteq> ancPairs anc'" if c' using h(2,3) ih that by blast
    show "\<not> c" "anc' = anc" "\<forall>r\<in>set (r # rs). ancClosed index r anc" if "\<not> c'"
      using h(4) ih that by auto
  qed
qed

lemma ancestorFold_sound:
  assumes "fold (ancestorStep index) rs (c, anc) = (c', anc')"
    and "ancPairs anc \<subseteq> E\<^sup>+"
    and "\<And>r. r \<in> set rs \<Longrightarrow> index (r_From r) \<noteq> None \<Longrightarrow> anc (r_To r) \<noteq> None
           \<Longrightarrow> (r_From r, r_To r) \<in> E"
  shows "ancPairs anc' \<subseteq> E\<^sup>+"
  using assms
proof (induction rs arbitrary: c anc)
  case Nil
  then show ?case by simp
next
  case (Cons r rs)
  obtain c1 anc1 where step: "ancestorStep index r (c, anc) = (c1, anc1)" by fastforce
  note h = ancestorStep_cases[OF step]
  have "ancPairs anc1 \<subseteq> E\<^sup>+"
  proof
    fix x assume "x \<in> ancPairs anc1"
    with h(5) consider "x \<in> ancPairs anc"
      | a where "x = (a, r_To r)" "a \<in> ancNew r anc" "index (r_From r) \<noteq> None" "anc (r_To r) \<noteq> None"
      by (auto split: if_splits)
    then show "x \<in> E\<^sup>+"
    proof cases
      case 2
      then have "(r_From r, r_To r) \<in> E" using Cons.prems(3) by simp
      with 2 Cons.prems(2) show ?thesis
        by (auto simp: ancNew_iff intro: trancl_into_trancl)
    qed (use Cons.prems(2) in blast)
  qed
  moreover have "anc1 (r_To r') \<noteq> None \<Longrightarrow> anc (r_To r') \<noteq> None" for r'
    using h(1) by (metis domIff)
  ultimately show ?case
    using Cons.IH[of c1 anc1] Cons.prems(1,3) step
    by (metis fold_simps(2) list.set_intros(2))
qed

lemma emptyAncestors_eq:
  "emptyAncestors steps = (\<lambda>n. if n \<in> set (names_of steps) then Some {} else None)"
proof -
  have "fold (\<lambda>ws m. m(st_Name ws \<mapsto> {})) steps m =
          (\<lambda>n. if n \<in> set (names_of steps) then Some {} else m n)" for m :: "string \<rightharpoonup> string set"
    by (induction steps arbitrary: m) (auto simp: fun_eq_iff)
  then show ?thesis by (simp add: emptyAncestors_def)
qed

text \<open>The loop invariant: the map is on the nodes and holds only reachable pairs.\<close>

definition ancInv :: "WorkflowStep list \<Rightarrow> WorkflowRoute list \<Rightarrow> (string \<rightharpoonup> string set) \<Rightarrow> bool" where
  "ancInv steps routes anc \<longleftrightarrow>
     dom anc = set (names_of steps) \<and> ancPairs anc \<subseteq> (edges_of steps routes)\<^sup>+"

lemma ancInv_empty: "ancInv steps routes (emptyAncestors steps)"
  by (auto simp: ancInv_def emptyAncestors_eq ancPairs_def dom_def split: if_splits)

lemma ancPass_inv:
  assumes inv: "ancInv steps routes anc"
    and pass: "ancestorPass (buildIndex steps) routes anc = (c', anc')"
  shows "ancInv steps routes anc'"
proof -
  have "(r_From r, r_To r) \<in> edges_of steps routes"
    if "r \<in> set routes" "buildIndex steps (r_From r) \<noteq> None" "anc (r_To r) \<noteq> None" for r
    using that inv unfolding edges_of_def ancInv_def
    by (auto simp del: not_None_eq simp: domIff[symmetric])
  with inv pass show ?thesis
    unfolding ancInv_def ancestorPass_def
    using ancestorFold_sound[of "buildIndex steps" routes False anc c' anc' "edges_of steps routes"]
      ancestorFold_cases[of "buildIndex steps" routes False anc c' anc'] by simp
qed

lemma ancestorLoop_terminates:
  "\<exists>r. ancestorLoop steps routes (buildIndex steps) = Some r"
proof -
  let ?T = "(edges_of steps routes)\<^sup>+"
  let ?m = "\<lambda>(c, anc). 2 * card (?T - ancPairs anc) + (if c then 1 else 0)"
  let ?P = "\<lambda>(c, anc). ancInv steps routes anc"
  have fin: "finite ?T" by (simp add: finite_trancl)
  have dec: "?P (ancestorPass (buildIndex steps) routes anc)
      \<and> ?m (ancestorPass (buildIndex steps) routes anc) < ?m (True, anc)"
    if inv: "ancInv steps routes anc" for anc
  proof -
    obtain c' anc' where pass: "ancestorPass (buildIndex steps) routes anc = (c', anc')" by fastforce
    note inv' = ancPass_inv[OF inv pass]
    have h: "ancPairs anc \<subseteq> ancPairs anc'" "c' \<Longrightarrow> ancPairs anc \<noteq> ancPairs anc'"
      using pass ancestorFold_cases[of "buildIndex steps" routes False anc c' anc']
      by (auto simp: ancestorPass_def)
    have le: "card (?T - ancPairs anc') \<le> card (?T - ancPairs anc)"
      using h(1) fin by (intro card_mono) auto
    have "card (?T - ancPairs anc') < card (?T - ancPairs anc)" if c'
    proof (rule psubset_card_mono)
      show "?T - ancPairs anc' \<subset> ?T - ancPairs anc"
        using h(1) h(2)[OF that] inv' unfolding ancInv_def by blast
    qed (use fin in simp)
    with le inv' pass show ?thesis by auto
  qed
  have "\<exists>t. while_option fst (\<lambda>(_, anc). ancestorPass (buildIndex steps) routes anc)
      (True, emptyAncestors steps) = Some t"
  proof (rule measure_while_option_Some[where P = ?P and f = ?m])
    fix s assume "?P s" "fst s"
    moreover obtain c anc where "s = (c, anc)" by fastforce
    ultimately show "?P (case s of (_, anc) \<Rightarrow> ancestorPass (buildIndex steps) routes anc)
        \<and> ?m (case s of (_, anc) \<Rightarrow> ancestorPass (buildIndex steps) routes anc) < ?m s"
      using dec[of anc] by simp
  qed (simp add: ancInv_empty)
  then show ?thesis by (simp add: ancestorLoop_def)
qed

lemma ancestorLoop_result:
  assumes "ancestorLoop steps routes (buildIndex steps) = Some (c, anc)"
  shows "ancInv steps routes anc \<and> (\<forall>r\<in>set routes. ancClosed (buildIndex steps) r anc)"
proof -
  let ?P = "\<lambda>(c, anc). ancInv steps routes anc
     \<and> (\<not> c \<longrightarrow> (\<forall>r\<in>set routes. ancClosed (buildIndex steps) r anc))"
  have step: "?P (ancestorPass (buildIndex steps) routes anc)" if "ancInv steps routes anc" for anc
  proof -
    obtain c' anc' where pass: "ancestorPass (buildIndex steps) routes anc = (c', anc')" by fastforce
    then show ?thesis
      using ancPass_inv[OF that pass] ancestorFold_cases[of "buildIndex steps" routes False anc c' anc']
      by (auto simp: ancestorPass_def)
  qed
  have "?P (c, anc)"
  proof (rule while_option_rule[where P = ?P and b = fst
          and c = "\<lambda>(_, anc). ancestorPass (buildIndex steps) routes anc"
          and s = "(True, emptyAncestors steps)"])
    show "while_option fst (\<lambda>(_, anc). ancestorPass (buildIndex steps) routes anc)
            (True, emptyAncestors steps) = Some (c, anc)"
      using assms by (simp only: ancestorLoop_def)
    show "?P (True, emptyAncestors steps)" by (simp add: ancInv_empty)
    fix s assume "?P s"
    moreover obtain c0 anc0 where "s = (c0, anc0)" by fastforce
    ultimately show "?P (case s of (_, anc) \<Rightarrow> ancestorPass (buildIndex steps) routes anc)"
      using step[of anc0] by (simp only: prod.case)
  qed
  moreover have "\<not> c"
    using while_option_stop[OF assms[unfolded ancestorLoop_def]] by simp
  ultimately show ?thesis by simp
qed

lemma ancClosed_trancl:
  assumes inv: "ancInv steps routes anc"
    and closed: "\<forall>r\<in>set routes. ancClosed (buildIndex steps) r anc"
    and path: "(a, n) \<in> (edges_of steps routes)\<^sup>+"
  shows "(a, n) \<in> ancPairs anc"
proof -
  have edge: "(u, v) \<in> ancPairs anc \<and> (\<forall>x. (x, u) \<in> ancPairs anc \<longrightarrow> (x, v) \<in> ancPairs anc)"
    if "(u, v) \<in> edges_of steps routes" for u v
  proof -
    from that obtain r where r: "r \<in> set routes" "u = r_From r" "v = r_To r"
      "u \<in> set (names_of steps)" "v \<in> set (names_of steps)"
      unfolding edges_of_def by blast
    then have "buildIndex steps u \<noteq> None" "anc v \<noteq> None"
      using inv unfolding ancInv_def by (auto simp del: not_None_eq simp: domIff[symmetric])
    with r closed show ?thesis unfolding ancClosed_def by auto
  qed
  from path show ?thesis
    by (induction rule: trancl_induct) (use edge in blast)+
qed

text \<open>
  The fixpoint loop always stops, and the set it leaves at a node is exactly the set of
  nodes that can reach it.
\<close>

lemma buildAncestors_eq:
  "buildAncestors steps routes (buildIndex steps) =
     (\<lambda>n. if n \<in> set (names_of steps) then Some {a. (a, n) \<in> (edges_of steps routes)\<^sup>+} else None)"
proof -
  obtain c anc where loop: "ancestorLoop steps routes (buildIndex steps) = Some (c, anc)"
    using ancestorLoop_terminates by (metis surj_pair)
  note res = ancestorLoop_result[OF loop]
  have eq: "ancPairs anc = (edges_of steps routes)\<^sup>+"
    using res ancClosed_trancl unfolding ancInv_def by auto
  have dom: "anc n = None \<longleftrightarrow> n \<notin> set (names_of steps)" for n
    using res unfolding ancInv_def by (metis domIff)
  have "anc n = Some {a. (a, n) \<in> (edges_of steps routes)\<^sup>+}" if "n \<in> set (names_of steps)" for n
  proof -
    from that dom[of n] obtain s where s: "anc n = Some s" by blast
    then have "s = {a. (a, n) \<in> ancPairs anc}" by (auto simp: ancPairs_def)
    with s eq show ?thesis by simp
  qed
  with dom show ?thesis
    by (simp only: buildAncestors_def loop option.case prod.case fun_eq_iff) simp
qed

lemma visibleFor_newGraph:
  "visibleFor (newGraph c steps routes) node outputs =
     (\<lambda>n. if (n, node) \<in> (edges_of steps routes)\<^sup>+ then outputs n else None)"
  by (auto simp: visibleFor_def buildAncestors_eq fun_eq_iff dest: trancl_edges_names)

section \<open>The derived chain\<close>

lemma edges_of_deriveRoutes:
  "edges_of steps (deriveRoutes steps) =
     {(st_Name (steps ! i), st_Name (steps ! Suc i)) | i. Suc i < length steps}"
proof -
  have "x \<in> set [1..<length steps] \<longleftrightarrow> (\<exists>i. x = Suc i \<and> Suc i < length steps)" for x
    by (cases x) auto
  then show ?thesis
    unfolding edges_of_def deriveRoutes_def by (force simp: image_iff)
qed

lemma chain_trancl:
  assumes "i < j" and "j < length steps"
  shows "(st_Name (steps ! i), st_Name (steps ! j)) \<in> (edges_of steps (deriveRoutes steps))\<^sup>+"
  using assms
proof (induction j)
  case (Suc j)
  have e: "(st_Name (steps ! j), st_Name (steps ! Suc j)) \<in> edges_of steps (deriveRoutes steps)"
    using Suc.prems by (auto simp: edges_of_deriveRoutes)
  show ?case
  proof (cases "i = j")
    case True
    with e show ?thesis by auto
  next
    case False
    with Suc show ?thesis by (auto intro: trancl_into_trancl[OF _ e])
  qed
qed simp

lemma chain_trancl_less:
  assumes "distinct (names_of steps)"
    and "(a, b) \<in> (edges_of steps (deriveRoutes steps))\<^sup>+"
  shows "\<exists>i j. i < j \<and> j < length steps \<and> a = st_Name (steps ! i) \<and> b = st_Name (steps ! j)"
  using assms(2)
proof (induction rule: trancl_induct)
  case (base b)
  then show ?case by (fastforce simp: edges_of_deriveRoutes)
next
  case (step b c)
  then obtain i j k where ij: "i < j" "j < length steps" "a = st_Name (steps ! i)"
      "b = st_Name (steps ! j)" and k: "b = st_Name (steps ! k)" "c = st_Name (steps ! Suc k)"
      "Suc k < length steps"
    by (auto simp: edges_of_deriveRoutes)
  then have "j = k"
    using assms(1) by (metis Suc_lessD length_map nth_eq_iff_index_eq nth_map)
  with ij k show ?case by (intro exI[of _ i] exI[of _ "Suc k"]) auto
qed

end
