(* ===== verification/Wf_Topo.thy ===== *)
theory Wf_Topo
  imports Wf_Graph
begin

text \<open>
  Kahn's algorithm of \<open>topoOrder\<close> (\<open>src/systems/workflows/graph.go\<close>): the loop stops on every
  graph, orders an acyclic graph topologically, and on a cyclic one names exactly the nodes
  on or downstream of a cycle.
\<close>

section \<open>The algorithm\<close>

text \<open>
  The routes a node's outbound indices denote.  Go would panic on an index past the end of
  \<open>g.routes\<close>; \<open>newGraph\<close> only files indices in range (lemma \<open>out_in_range\<close>), so the guard
  never drops one.
\<close>

definition targetsOf :: "'p workflowGraph \<Rightarrow> string \<Rightarrow> string list" where
  "targetsOf g n =
     map (\<lambda>ri. r_To (g_routes g ! ri)) (filter (\<lambda>ri. ri < length (g_routes g)) (g_out g n))"

text \<open>The inner loop: decrement the target's in-degree, enqueue it when it reaches zero.\<close>

fun relaxTargets :: "string list \<Rightarrow> (string \<Rightarrow> int) \<Rightarrow> string list \<Rightarrow> (string \<Rightarrow> int) \<times> string list" where
  "relaxTargets [] indeg queue = (indeg, queue)"
| "relaxTargets (to # tos) indeg queue =
     (let indeg' = indeg(to := indeg to - 1)
      in relaxTargets tos indeg' (if indeg' to = 0 then queue @ [to] else queue))"

definition positiveTargets :: "'p workflowGraph \<Rightarrow> (string \<Rightarrow> int) \<Rightarrow> nat" where
  "positiveTargets g indeg = card {t \<in> r_To ` set (g_routes g). 0 < indeg t}"

lemma relaxTargets_measure:
  assumes "set tos \<subseteq> r_To ` set (g_routes g)" and "relaxTargets tos indeg queue = (indeg', queue')"
  shows "positiveTargets g indeg' + length queue' \<le> positiveTargets g indeg + length queue"
  using assms
proof (induction tos arbitrary: indeg queue)
  case Nil
  then show ?case by simp
next
  case (Cons to tos)
  let ?d = "indeg(to := indeg to - 1)"
  let ?q = "if ?d to = 0 then queue @ [to] else queue"
  from Cons have "positiveTargets g indeg' + length queue' \<le> positiveTargets g ?d + length ?q"
    by (simp add: Let_def)
  moreover have "positiveTargets g ?d + length ?q \<le> positiveTargets g indeg + length queue"
  proof (cases "indeg to = 1")
    case True
    let ?A = "{t \<in> r_To ` set (g_routes g). 0 < indeg t}"
    have eq: "{t \<in> r_To ` set (g_routes g). 0 < ?d t} = ?A - {to}"
      using True by auto
    have "to \<in> ?A" using Cons.prems(1) True by auto
    then have "card (?A - {to}) + 1 = card ?A"
      using card_Suc_Diff1[of ?A to] by simp
    with eq show ?thesis by (simp add: positiveTargets_def True)
  next
    case False
    have "{t \<in> r_To ` set (g_routes g). 0 < ?d t} \<subseteq> {t \<in> r_To ` set (g_routes g). 0 < indeg t}"
      by auto
    then have "positiveTargets g ?d \<le> positiveTargets g indeg"
      unfolding positiveTargets_def by (intro card_mono) auto
    with False show ?thesis by simp
  qed
  ultimately show ?case by linarith
qed

lemma targetsOf_subset: "set (targetsOf g n) \<subseteq> r_To ` set (g_routes g)"
  by (auto simp: targetsOf_def split: if_splits)

function kahnLoop ::
  "'p workflowGraph \<Rightarrow> (string \<Rightarrow> int) \<Rightarrow> string list \<Rightarrow> string list
   \<Rightarrow> string list \<times> (string \<Rightarrow> int)" where
  "kahnLoop g indeg [] order = (order, indeg)"
| "kahnLoop g indeg (n # queue) order =
     (case relaxTargets (targetsOf g n) indeg queue of
        (indeg', queue') \<Rightarrow> kahnLoop g indeg' queue' (order @ [n]))"
  by pat_completeness auto
termination
  by (relation "measure (\<lambda>(g, indeg, queue, order). positiveTargets g indeg + length queue)")
     (auto dest!: relaxTargets_measure[OF targetsOf_subset, OF sym])

text \<open>\<open>for _, ws := range g.steps { indeg[ws.Name] = len(g.in[ws.Name]) }\<close>\<close>

definition initialDegrees :: "'p workflowGraph \<Rightarrow> string \<Rightarrow> int" where
  "initialDegrees g =
     fold (\<lambda>ws m. m(st_Name ws := int (length (g_in g (st_Name ws))))) (g_steps g) (\<lambda>_. 0)"

text \<open>\<open>topoOrder\<close> returns (order, residual, ok).\<close>

definition topoOrder :: "'p workflowGraph \<Rightarrow> string list \<times> string list \<times> bool" where
  "topoOrder g =
     (let indeg0 = initialDegrees g;
          queue0 = filter (\<lambda>n. indeg0 n = 0) (names_of (g_steps g));
          (order, indeg) = kahnLoop g indeg0 queue0 []
      in if length order = length (g_steps g) then (order, [], True)
         else (order, filter (\<lambda>n. 0 < indeg n) (names_of (g_steps g)), False))"

section \<open>The loop invariant\<close>

text \<open>The inbound edges of a node whose source has not been emitted yet.\<close>

definition pendingIn :: "WorkflowStep list \<Rightarrow> WorkflowRoute list \<Rightarrow> string set \<Rightarrow> string \<Rightarrow> nat list" where
  "pendingIn steps routes done n =
     [i \<leftarrow> [0..<length routes]. r_From (routes ! i) \<in> set (names_of steps)
        \<and> r_To (routes ! i) = n \<and> r_From (routes ! i) \<notin> done]"

lemma pendingIn_empty:
  "n \<in> set (names_of steps) \<Longrightarrow> pendingIn steps routes {} n = g_in (newGraph c steps routes) n"
  by (auto simp: pendingIn_def g_in_eq intro!: filter_cong)

lemma pendingIn_Nil:
  "pendingIn steps routes done n = [] \<longleftrightarrow>
     (\<forall>i < length routes. r_From (routes ! i) \<in> set (names_of steps) \<longrightarrow> r_To (routes ! i) = n
        \<longrightarrow> r_From (routes ! i) \<in> done)"
  by (auto simp: pendingIn_def filter_empty_conv)

lemma pendingIn_preds:
  assumes "n \<in> set (names_of steps)"
  shows "pendingIn steps routes done n = [] \<longleftrightarrow> (\<forall>a. (a, n) \<in> edges_of steps routes \<longrightarrow> a \<in> done)"
proof
  assume h: "pendingIn steps routes done n = []"
  show "\<forall>a. (a, n) \<in> edges_of steps routes \<longrightarrow> a \<in> done"
  proof (intro allI impI)
    fix a assume "(a, n) \<in> edges_of steps routes"
    then obtain r where "r \<in> set routes" "a = r_From r" "n = r_To r" "a \<in> set (names_of steps)"
      unfolding edges_of_def by blast
    moreover from this obtain i where "i < length routes" "routes ! i = r"
      by (meson in_set_conv_nth)
    ultimately show "a \<in> done" using h unfolding pendingIn_Nil by blast
  qed
next
  assume h: "\<forall>a. (a, n) \<in> edges_of steps routes \<longrightarrow> a \<in> done"
  show "pendingIn steps routes done n = []"
    unfolding pendingIn_Nil
  proof (intro allI impI)
    fix i assume "i < length routes" "r_From (routes ! i) \<in> set (names_of steps)"
      "r_To (routes ! i) = n"
    with assms have "(r_From (routes ! i), n) \<in> edges_of steps routes"
      unfolding edges_of_def using nth_mem by blast
    with h show "r_From (routes ! i) \<in> done" by blast
  qed
qed

text \<open>What the inner loop does to the in-degrees and the queue.\<close>

lemma relaxTargets_eq:
  assumes "relaxTargets tos indeg queue = (indeg', queue')"
  shows "indeg' = (\<lambda>t. indeg t - int (count_list tos t))"
  using assms
proof (induction tos arbitrary: indeg queue)
  case (Cons to tos)
  then show ?case by (fastforce simp: Let_def fun_eq_iff)
qed (simp add: fun_eq_iff)

lemma relaxTargets_queue:
  assumes "relaxTargets tos indeg queue = (indeg', queue')"
    and "\<And>t. 0 \<le> indeg t - int (count_list tos t)"
  shows "\<exists>new. queue' = queue @ new \<and> distinct new
     \<and> set new = {t \<in> set tos. indeg t = int (count_list tos t)}"
  using assms
proof (induction tos arbitrary: indeg queue)
  case Nil
  then show ?case by simp
next
  case (Cons to tos)
  let ?d = "indeg(to := indeg to - 1)"
  let ?q = "if ?d to = 0 then queue @ [to] else queue"
  have rest: "relaxTargets tos ?d ?q = (indeg', queue')"
    using Cons.prems(1) by (simp add: Let_def)
  have nonneg: "0 \<le> ?d t - int (count_list tos t)" for t
    using Cons.prems(2)[of t] by (auto split: if_splits)
  obtain new where new: "queue' = ?q @ new" "distinct new"
      "set new = {t \<in> set tos. ?d t = int (count_list tos t)}"
    using Cons.IH[OF rest nonneg] by blast
  have step: "indeg t = int (count_list (to # tos) t) \<longleftrightarrow> ?d t = int (count_list tos t)" for t
    by auto
  show ?case
  proof (cases "indeg to = 1")
    case True
    then have zero: "count_list tos to = 0" using Cons.prems(2)[of to] by simp
    then have notin: "to \<notin> set tos" by (simp add: count_list_0_iff)
    have "set (to # new) = {t \<in> set (to # tos). indeg t = int (count_list (to # tos) t)}"
      unfolding step using new(3) True zero by auto
    moreover have "distinct (to # new)" using new(2,3) notin by simp
    ultimately show ?thesis using new(1) True by (intro exI[of _ "to # new"]) simp
  next
    case False
    then have "to \<in> set tos" if "?d to = int (count_list tos to)"
      using that by (cases "to \<in> set tos") simp_all
    then have "set new = {t \<in> set (to # tos). indeg t = int (count_list (to # tos) t)}"
      unfolding step using new(3) by auto
    then show ?thesis using new(1,2) False by (intro exI[of _ new]) simp
  qed
qed

text \<open>The targets of a node, and how emitting it lowers the pending counts.\<close>

lemma targetsOf_eq:
  "targetsOf (newGraph c steps routes) n =
     map (\<lambda>i. r_To (routes ! i)) (g_out (newGraph c steps routes) n)"
proof -
  have "filter (\<lambda>ri. ri < length routes) (g_out (newGraph c steps routes) n)
          = g_out (newGraph c steps routes) n"
    by (rule filter_True) simp
  then show ?thesis by (simp add: targetsOf_def)
qed

lemma count_targets:
  assumes "n \<in> set (names_of steps)" "n \<notin> done" "t \<in> set (names_of steps)"
  shows "length (pendingIn steps routes (insert n done) t)
           + count_list (targetsOf (newGraph c steps routes) n) t
         = length (pendingIn steps routes done t)"
proof -
  have cl: "count_list (map f xs) t = length (filter (\<lambda>i. f i = t) xs)" for f :: "nat \<Rightarrow> string" and xs
    by (induction xs) auto
  have split: "length (filter P xs) = length (filter Q xs) + length (filter R xs)"
    if "\<And>i. i \<in> set xs \<Longrightarrow> P i \<longleftrightarrow> Q i \<or> R i" "\<And>i. i \<in> set xs \<Longrightarrow> \<not> (Q i \<and> R i)"
    for P Q R and xs :: "nat list"
    using that by (induction xs) auto
  show ?thesis
    unfolding targetsOf_eq cl pendingIn_def g_out_eq filter_filter
    by (rule split[symmetric]) (use assms in auto)
qed

definition kahnInv ::
  "WorkflowStep list \<Rightarrow> WorkflowRoute list \<Rightarrow> (string \<Rightarrow> int) \<Rightarrow> string list \<Rightarrow> string list \<Rightarrow> bool" where
  "kahnInv steps routes indeg queue order \<longleftrightarrow>
     distinct (order @ queue)
     \<and> set (order @ queue) = {n \<in> set (names_of steps). indeg n = 0}
     \<and> (\<forall>n. indeg n = (if n \<in> set (names_of steps)
                          then int (length (pendingIn steps routes (set order) n)) else 0))
     \<and> (\<forall>i < length (order @ queue). \<forall>a. (a, (order @ queue) ! i) \<in> edges_of steps routes
           \<longrightarrow> a \<in> set (take i order))"

lemma targetsOf_names:
  "t \<in> set (targetsOf (newGraph c steps routes) n) \<Longrightarrow> t \<in> set (names_of steps)"
  unfolding targetsOf_eq using g_out_iff[of _ c steps routes n] by auto

lemma kahnInv_step:
  assumes inv: "kahnInv steps routes indeg (n # queue) order"
    and relax: "relaxTargets (targetsOf (newGraph c steps routes) n) indeg queue = (indeg', queue')"
  shows "kahnInv steps routes indeg' queue' (order @ [n])"
proof -
  let ?tos = "targetsOf (newGraph c steps routes) n"
  let ?old = "order @ n # queue"
  from inv have dist: "distinct ?old"
    and old: "set ?old = {n \<in> set (names_of steps). indeg n = 0}"
    and deg: "\<And>m. indeg m = (if m \<in> set (names_of steps)
                then int (length (pendingIn steps routes (set order) m)) else 0)"
    and pos: "\<And>i a. i < length ?old \<Longrightarrow> (a, ?old ! i) \<in> edges_of steps routes \<Longrightarrow> a \<in> set (take i order)"
    unfolding kahnInv_def by blast+
  have n: "n \<in> set (names_of steps)" "n \<notin> set order" using old dist by auto
  have count0: "count_list ?tos t = 0" if "t \<notin> set (names_of steps)" for t
    using targetsOf_names that by (metis count_list_0_iff)
  have deg': "indeg t - int (count_list ?tos t) = (if t \<in> set (names_of steps)
                then int (length (pendingIn steps routes (set (order @ [n])) t)) else 0)" for t
    using deg[of t] count_targets[OF n, of t routes c] count0[of t] by (auto simp: insert_commute)
  then have nonneg: "0 \<le> indeg t - int (count_list ?tos t)" for t by simp
  have indeg': "indeg' = (\<lambda>t. indeg t - int (count_list ?tos t))"
    using relaxTargets_eq[OF relax] .
  obtain new where new: "queue' = queue @ new" "distinct new"
      "set new = {t \<in> set ?tos. indeg t = int (count_list ?tos t)}"
    using relaxTargets_queue[OF relax nonneg] by blast
  have newpos: "0 < indeg t" if "t \<in> set new" for t
    using that new(3) by (auto simp: count_list_0_iff intro!: Nat.gr0I)
  have "distinct ((order @ [n]) @ queue')"
    using dist new(1,2) newpos old by fastforce
  moreover have "set ((order @ [n]) @ queue') = {m \<in> set (names_of steps). indeg' m = 0}"
  proof (intro set_eqI iffI)
    fix m assume "m \<in> set ((order @ [n]) @ queue')"
    then consider "m \<in> set ?old" | "m \<in> set new" using new(1) by auto
    then show "m \<in> {m \<in> set (names_of steps). indeg' m = 0}"
    proof cases
      case 1
      with old nonneg[of m] indeg' show ?thesis by auto
    next
      case 2
      with new(3) indeg' targetsOf_names show ?thesis by auto
    qed
  next
    fix m assume "m \<in> {m \<in> set (names_of steps). indeg' m = 0}"
    then have m: "m \<in> set (names_of steps)" "indeg m = int (count_list ?tos m)"
      using indeg' by auto
    show "m \<in> set ((order @ [n]) @ queue')"
    proof (cases "m \<in> set ?tos")
      case True
      with m new show ?thesis by simp
    next
      case False
      with m have "m \<in> set ?old" using old by (simp add: count_list_0_iff)
      with new(1) show ?thesis by auto
    qed
  qed
  moreover have "a \<in> set (take i (order @ [n]))"
    if i: "i < length ((order @ [n]) @ queue')"
      and a: "(a, ((order @ [n]) @ queue') ! i) \<in> edges_of steps routes" for i a
  proof (cases "i < length ?old")
    case True
    then have "((order @ [n]) @ queue') ! i = ?old ! i"
      using new(1) nth_append_left[of i ?old new] by simp
    with a True pos[of i a] show ?thesis by (auto dest: set_take_subset_set_take[THEN subsetD])
  next
    case False
    let ?t = "((order @ [n]) @ queue') ! i"
    have whole: "(order @ [n]) @ queue' = ?old @ new" using new(1) by simp
    then have "?t = new ! (i - length ?old)" using False by (simp only: nth_append if_False)
    moreover have "i - length ?old < length new"
      using i False unfolding whole by (simp only: length_append)
    ultimately have "?t \<in> set new" by (simp only: nth_mem)
    then have "?t \<in> set (names_of steps)" "indeg ?t - int (count_list ?tos ?t) = 0"
      using new(3) targetsOf_names by auto
    with deg'[of ?t] have "pendingIn steps routes (set (order @ [n])) ?t = []" by simp
    with a have "a \<in> set (order @ [n])"
      using pendingIn_preds[OF \<open>?t \<in> set (names_of steps)\<close>] by blast
    with False show ?thesis by simp
  qed
  moreover have "indeg' m = (if m \<in> set (names_of steps)
      then int (length (pendingIn steps routes (set (order @ [n])) m)) else 0)" for m
    using deg'[of m] indeg' by simp
  ultimately show ?thesis unfolding kahnInv_def by blast
qed

lemma kahnLoop_inv:
  assumes "kahnInv steps routes indeg queue order"
    and "kahnLoop (newGraph c steps routes) indeg queue order = (order', indeg')"
  shows "kahnInv steps routes indeg' [] order'"
  using assms
proof (induction "newGraph c steps routes" indeg queue order rule: kahnLoop.induct)
  case (1 indeg order)
  then show ?case by simp
next
  case (2 indeg n queue order)
  obtain indeg1 queue1
    where relax: "relaxTargets (targetsOf (newGraph c steps routes) n) indeg queue = (indeg1, queue1)"
    by fastforce
  show ?case
    using 2(1)[OF relax[symmetric] kahnInv_step[OF 2(2) relax]] 2(3) relax by simp
qed

lemma initialDegrees_eq:
  "initialDegrees g n = (if n \<in> set (names_of (g_steps g)) then int (length (g_in g n)) else 0)"
proof -
  have "fold (\<lambda>ws m. m(st_Name ws := f (st_Name ws))) xs m n
          = (if n \<in> set (names_of xs) then f n else m n)"
    for f :: "string \<Rightarrow> int" and xs m
    by (induction xs arbitrary: m) auto
  from this[of "\<lambda>n. int (length (g_in g n))" "g_steps g" "\<lambda>_. 0"] show ?thesis
    by (simp add: initialDegrees_def)
qed

lemma kahnInv_initial:
  assumes "distinct (names_of steps)"
  shows "kahnInv steps routes (initialDegrees (newGraph c steps routes))
    (filter (\<lambda>n. initialDegrees (newGraph c steps routes) n = 0) (names_of steps)) []"
proof -
  let ?d = "initialDegrees (newGraph c steps routes)"
  have deg: "?d n = (if n \<in> set (names_of steps) then int (length (pendingIn steps routes {} n)) else 0)" for n
    using pendingIn_empty[of n steps routes c] by (simp add: initialDegrees_eq)
  have pred: "(a, n) \<notin> edges_of steps routes" if "n \<in> set (names_of steps)" "?d n = 0" for a n
    using that deg[of n] pendingIn_preds[of n steps routes "{}"] by auto
  show ?thesis
    unfolding kahnInv_def
  proof (intro conjI allI impI)
    show "distinct ([] @ filter (\<lambda>n. ?d n = 0) (names_of steps))" using assms by simp
    show "set ([] @ filter (\<lambda>n. ?d n = 0) (names_of steps)) = {n \<in> set (names_of steps). ?d n = 0}"
      by auto
    show "?d n = (if n \<in> set (names_of steps)
        then int (length (pendingIn steps routes (set []) n)) else 0)" for n
      using deg by simp
    fix i a
    assume i: "i < length ([] @ filter (\<lambda>n. ?d n = 0) (names_of steps))"
      and a: "(a, ([] @ filter (\<lambda>n. ?d n = 0) (names_of steps)) ! i) \<in> edges_of steps routes"
    have "filter (\<lambda>n. ?d n = 0) (names_of steps) ! i \<in> set (filter (\<lambda>n. ?d n = 0) (names_of steps))"
      using i by (intro nth_mem) simp
    then show "a \<in> set (take i [])" using a pred by fastforce
  qed
qed

section \<open>What the algorithm decides\<close>

lemma topoOrder_final:
  assumes "distinct (names_of steps)"
    and "topoOrder (newGraph c steps routes) = (order, residual, ok)"
  obtains indeg where "kahnInv steps routes indeg [] order"
    and "ok \<longleftrightarrow> length order = length steps"
    and "residual = (if ok then [] else filter (\<lambda>n. 0 < indeg n) (names_of steps))"
proof -
  let ?g = "newGraph c steps routes"
  obtain indeg where loop: "kahnLoop ?g (initialDegrees ?g)
      (filter (\<lambda>n. initialDegrees ?g n = 0) (names_of steps)) [] = (order, indeg)"
    and ok: "ok \<longleftrightarrow> length order = length steps"
    and res: "residual = (if ok then [] else filter (\<lambda>n. 0 < indeg n) (names_of steps))"
    using assms(2) by (auto simp: topoOrder_def Let_def split: prod.splits if_splits)
  show thesis
    by (rule that[OF kahnLoop_inv[OF kahnInv_initial[OF assms(1)] loop] ok res])
qed

lemma kahn_done_sub:
  assumes "kahnInv steps routes indeg [] order"
  shows "distinct order" "set order \<subseteq> set (names_of steps)"
    "\<And>i a. i < length order \<Longrightarrow> (a, order ! i) \<in> edges_of steps routes \<Longrightarrow> a \<in> set (take i order)"
    "\<And>n. n \<in> set (names_of steps) \<Longrightarrow> 0 < indeg n \<longleftrightarrow> n \<notin> set order"
    "\<And>n. n \<in> set (names_of steps) \<Longrightarrow> n \<notin> set order
       \<Longrightarrow> \<exists>a. (a, n) \<in> edges_of steps routes \<and> a \<notin> set order"
proof -
  from assms have inv: "distinct order" "set order = {n \<in> set (names_of steps). indeg n = 0}"
    "\<And>n. indeg n = (if n \<in> set (names_of steps)
        then int (length (pendingIn steps routes (set order) n)) else 0)"
    "\<And>i a. i < length order \<Longrightarrow> (a, order ! i) \<in> edges_of steps routes \<Longrightarrow> a \<in> set (take i order)"
    unfolding kahnInv_def append_Nil2 by blast+
  show "distinct order" "set order \<subseteq> set (names_of steps)" using inv by auto
  show "\<And>i a. i < length order \<Longrightarrow> (a, order ! i) \<in> edges_of steps routes \<Longrightarrow> a \<in> set (take i order)"
    using inv(4) .
  show deg: "0 < indeg n \<longleftrightarrow> n \<notin> set order" if "n \<in> set (names_of steps)" for n
    using that inv(2) inv(3)[of n] by auto
  show "\<exists>a. (a, n) \<in> edges_of steps routes \<and> a \<notin> set order"
    if "n \<in> set (names_of steps)" "n \<notin> set order" for n
    using deg[of n] that inv(3)[of n] pendingIn_preds[of n steps routes "set order"] by auto
qed

text \<open>Every emitted node has all its predecessors emitted before it, so none is on a cycle.\<close>

lemma emitted_before:
  assumes "kahnInv steps routes indeg [] order" and "(a, n) \<in> (edges_of steps routes)\<^sup>+"
    and "i < length order" "order ! i = n"
  shows "\<exists>j < i. order ! j = a"
  using assms(2-4)
proof (induction arbitrary: i rule: trancl_induct)
  case (base n)
  then have "a \<in> set (take i order)" using kahn_done_sub(3)[OF assms(1)] by blast
  then show ?case using base.prems by (auto simp: in_set_conv_nth)
next
  case (step m n)
  then have "m \<in> set (take i order)" using kahn_done_sub(3)[OF assms(1)] by blast
  then obtain j where "j < i" "order ! j = m" "j < length order"
    using step.prems by (auto simp: in_set_conv_nth)
  with step.IH[of j] show ?case by (meson less_trans)
qed

lemma not_emitted_iff:
  assumes inv: "kahnInv steps routes indeg [] order" and n: "n \<in> set (names_of steps)"
  shows "n \<notin> set order \<longleftrightarrow>
    (\<exists>c. (c, c) \<in> (edges_of steps routes)\<^sup>+ \<and> (c, n) \<in> (edges_of steps routes)\<^sup>*)"
proof
  let ?X = "set (names_of steps) - set order"
  assume "n \<notin> set order"
  with n have "n \<in> ?X" by simp
  moreover have "\<exists>a\<in>?X. (a, x) \<in> edges_of steps routes" if "x \<in> ?X" for x
    using that kahn_done_sub(5)[OF inv, of x] edges_of_names by blast
  ultimately show "\<exists>c. (c, c) \<in> (edges_of steps routes)\<^sup>+ \<and> (c, n) \<in> (edges_of steps routes)\<^sup>*"
    by (intro backward_walk_hits_cycle[of _ ?X]) simp_all
next
  assume "\<exists>c. (c, c) \<in> (edges_of steps routes)\<^sup>+ \<and> (c, n) \<in> (edges_of steps routes)\<^sup>*"
  then obtain c where c: "(c, c) \<in> (edges_of steps routes)\<^sup>+" "(c, n) \<in> (edges_of steps routes)\<^sup>*"
    by blast
  show "n \<notin> set order"
  proof
    assume "n \<in> set order"
    then obtain i where i: "i < length order" "order ! i = n" by (auto simp: in_set_conv_nth)
    then obtain k where "k < length order" "order ! k = c"
      using c(2) emitted_before[OF inv, of c n i]
      by (metis less_trans rtrancl_eq_or_trancl)
    moreover have "False" if "k < length order" "order ! k = c" for k
      using that
    proof (induction k rule: less_induct)
      case (less k)
      then obtain j where "j < k" "order ! j = c" using emitted_before[OF inv c(1), of k] by blast
      with less show ?case by (meson less_trans)
    qed
    ultimately show False by blast
  qed
qed

lemma length_order_iff:
  assumes "distinct (names_of steps)" "kahnInv steps routes indeg [] order"
  shows "length order = length steps \<longleftrightarrow> set order = set (names_of steps)"
proof
  assume len: "length order = length steps"
  have "card (set order) = card (set (names_of steps))"
    using len assms(1) kahn_done_sub(1)[OF assms(2)] by (simp only: distinct_card length_map)
  then show "set order = set (names_of steps)"
    using kahn_done_sub(2)[OF assms(2)] by (intro card_subset_eq) auto
next
  assume "set order = set (names_of steps)"
  then have "card (set order) = card (set (names_of steps))" by simp
  then show "length order = length steps"
    using assms(1) kahn_done_sub(1)[OF assms(2)] by (simp only: distinct_card length_map)
qed

text \<open>\<open>ok\<close> is acyclicity.\<close>

lemma topo_ok_iff:
  assumes "distinct (names_of steps)"
  shows "snd (snd (topoOrder (newGraph c steps routes))) \<longleftrightarrow> acyclic (edges_of steps routes)"
proof -
  obtain order residual ok where t: "topoOrder (newGraph c steps routes) = (order, residual, ok)"
    by (metis prod_cases3)
  obtain indeg where inv: "kahnInv steps routes indeg [] order"
    and ok: "ok \<longleftrightarrow> length order = length steps"
    by (rule topoOrder_final[OF assms t])
  have "ok \<longleftrightarrow> (\<forall>n \<in> set (names_of steps). n \<in> set order)"
    using ok length_order_iff[OF assms inv] kahn_done_sub(2)[OF inv] by blast
  also have "\<dots> \<longleftrightarrow> acyclic (edges_of steps routes)"
  proof
    assume all: "\<forall>n \<in> set (names_of steps). n \<in> set order"
    show "acyclic (edges_of steps routes)"
    proof (rule acyclicI, intro allI notI)
      fix x assume x: "(x, x) \<in> (edges_of steps routes)\<^sup>+"
      then have "x \<in> set (names_of steps)" by (auto dest: trancl_edges_names)
      with all x show False using not_emitted_iff[OF inv, of x] by blast
    qed
  next
    assume "acyclic (edges_of steps routes)"
    then show "\<forall>n \<in> set (names_of steps). n \<in> set order"
      using not_emitted_iff[OF inv] unfolding acyclic_def by blast
  qed
  finally show ?thesis using t by simp
qed

text \<open>A cleared graph has a rank that every edge raises, and an entry node.\<close>

lemma acyclic_rank:
  assumes "distinct (names_of steps)" "acyclic (edges_of steps routes)"
  obtains rank :: "string \<Rightarrow> nat"
  where "\<And>a b. (a, b) \<in> (edges_of steps routes)\<^sup>+ \<Longrightarrow> rank a < rank b"
proof -
  have wf: "wf (edges_of steps routes)" using assms(2) by (simp add: finite_acyclic_wf)
  define rank where "rank n = card {a. (a, n) \<in> (edges_of steps routes)\<^sup>+}" for n
  have fin: "finite {a. (a, n) \<in> (edges_of steps routes)\<^sup>+}" for n
    by (rule finite_subset[of _ "set (names_of steps)"]) (auto dest: trancl_edges_names)
  have "rank a < rank b" if "(a, b) \<in> (edges_of steps routes)\<^sup>+" for a b
    unfolding rank_def
  proof (rule psubset_card_mono[OF fin])
    have "(a, a) \<notin> (edges_of steps routes)\<^sup>+" using assms(2) by (simp add: acyclic_def)
    with that show "{x. (x, a) \<in> (edges_of steps routes)\<^sup>+} \<subset> {x. (x, b) \<in> (edges_of steps routes)\<^sup>+}"
      by (blast intro: trancl_trans)
  qed
  then show thesis by (rule that)
qed

lemma acyclic_has_entry:
  assumes "acyclic (edges_of steps routes)" "steps \<noteq> []"
  shows "g_entries (newGraph c steps routes) \<noteq> []"
proof
  assume none: "g_entries (newGraph c steps routes) = []"
  have "\<exists>a\<in>set (names_of steps). (a, n) \<in> edges_of steps routes" if "n \<in> set (names_of steps)" for n
  proof -
    from none that have "g_in (newGraph c steps routes) n \<noteq> []"
      unfolding newGraph_entries filter_empty_conv by blast
    then obtain ri where "ri \<in> set (g_in (newGraph c steps routes) n)" by (meson last_in_set)
    then have "(r_From (routes ! ri), n) \<in> edges_of steps routes"
      using edges_of_iff_in[of _ n steps routes c] by blast
    then show ?thesis using edges_of_names by blast
  qed
  moreover have "st_Name (hd steps) \<in> set (names_of steps)" using assms(2) by simp
  ultimately show False
    using backward_walk_hits_cycle[of "edges_of steps routes" "set (names_of steps)"] assms(1)
    unfolding acyclic_def by (metis edges_of_finite)
qed

end
