(* ===== verification/Go_Strings.thy ===== *)
theory Go_Strings
  imports Prelude "HOL-Library.Char_ord"
begin

text \<open>
  The functions of Go's package \<open>strings\<close> that the modelled code calls, on byte strings.
  \<open>TrimSpace\<close> is exact for UTF-8: the white-space code points beyond ASCII are matched as
  the byte sequences that encode them, and no such sequence is part of another code point.
\<close>

section \<open>Prefixes, search\<close>

definition HasPrefix :: "string \<Rightarrow> string \<Rightarrow> bool" where
  "HasPrefix s p \<longleftrightarrow> take (length p) s = p"

definition HasSuffix :: "string \<Rightarrow> string \<Rightarrow> bool" where
  "HasSuffix s p \<longleftrightarrow> length p \<le> length s \<and> drop (length s - length p) s = p"

text \<open>\<open>strings.CutPrefix\<close>: the rest, when the prefix is there.\<close>

definition CutPrefix :: "string \<Rightarrow> string \<Rightarrow> string option" where
  "CutPrefix s p = (if HasPrefix s p then Some (drop (length p) s) else None)"

definition TrimPrefix :: "string \<Rightarrow> string \<Rightarrow> string" where
  "TrimPrefix s p = (if HasPrefix s p then drop (length p) s else s)"

definition TrimSuffix :: "string \<Rightarrow> string \<Rightarrow> string" where
  "TrimSuffix s p = (if HasSuffix s p then take (length s - length p) s else s)"

text \<open>\<open>strings.Index\<close>; \<open>None\<close> is the result -1.\<close>

fun strIndex :: "string \<Rightarrow> string \<Rightarrow> nat option" where
  "strIndex s sub =
     (if HasPrefix s sub then Some 0
      else case s of [] \<Rightarrow> None | _ # s' \<Rightarrow> map_option Suc (strIndex s' sub))"

declare strIndex.simps [simp del]
lemma strIndex_Nil [gostr_simps]: "strIndex [] sub = (if sub = [] then Some 0 else None)"
  by (auto simp: strIndex.simps HasPrefix_def)
lemma strIndex_Cons [gostr_simps]:
  "strIndex (c # s) sub = (if HasPrefix (c # s) sub then Some 0 else map_option Suc (strIndex s sub))"
  by (simp add: strIndex.simps)

definition strContains :: "string \<Rightarrow> string \<Rightarrow> bool" where
  "strContains s sub \<longleftrightarrow> strIndex s sub \<noteq> None"

definition ContainsAny :: "string \<Rightarrow> string \<Rightarrow> bool" where
  "ContainsAny s chars \<longleftrightarrow> (\<exists>c \<in> set s. c \<in> set chars)"

text \<open>\<open>strings.Split\<close> by a one-byte separator.\<close>

fun splitChar :: "char \<Rightarrow> string \<Rightarrow> string list" where
  "splitChar sep [] = [[]]"
| "splitChar sep (c # s) =
     (if c = sep then [] # splitChar sep s
      else case splitChar sep s of [] \<Rightarrow> [[c]] | w # ws \<Rightarrow> (c # w) # ws)"

section \<open>White space\<close>

text \<open>
  The encodings of the code points \<open>unicode.IsSpace\<close> accepts: ASCII tab to carriage return and
  blank, U+0085, U+00A0, U+1680, U+2000 to U+200A, U+2028, U+2029, U+202F, U+205F, U+3000.
\<close>

definition asciiSpaces :: "char list" where
  "asciiSpaces = [CHR 0x09, CHR 0x0A, CHR 0x0B, CHR 0x0C, CHR 0x0D, CHR '' '']"

definition spaceSeqs :: "string list" where
  "spaceSeqs = map (\<lambda>c. [c]) asciiSpaces
     @ [[CHR 0xC2, CHR 0x85], [CHR 0xC2, CHR 0xA0], [CHR 0xE1, CHR 0x9A, CHR 0x80],
        [CHR 0xE2, CHR 0x80, CHR 0x80], [CHR 0xE2, CHR 0x80, CHR 0x81], [CHR 0xE2, CHR 0x80, CHR 0x82],
        [CHR 0xE2, CHR 0x80, CHR 0x83], [CHR 0xE2, CHR 0x80, CHR 0x84], [CHR 0xE2, CHR 0x80, CHR 0x85],
        [CHR 0xE2, CHR 0x80, CHR 0x86], [CHR 0xE2, CHR 0x80, CHR 0x87], [CHR 0xE2, CHR 0x80, CHR 0x88],
        [CHR 0xE2, CHR 0x80, CHR 0x89], [CHR 0xE2, CHR 0x80, CHR 0x8A], [CHR 0xE2, CHR 0x80, CHR 0xA8],
        [CHR 0xE2, CHR 0x80, CHR 0xA9], [CHR 0xE2, CHR 0x80, CHR 0xAF], [CHR 0xE2, CHR 0x81, CHR 0x9F],
        [CHR 0xE3, CHR 0x80, CHR 0x80]]"

text \<open>The length of the white-space sequence a string starts with, 0 if it starts with none.\<close>

definition spaceLen :: "string \<Rightarrow> nat" where
  "spaceLen s = (case find (HasPrefix s) spaceSeqs of None \<Rightarrow> 0 | Some p \<Rightarrow> length p)"

definition spaceLenEnd :: "string \<Rightarrow> nat" where
  "spaceLenEnd s = (case find (HasSuffix s) spaceSeqs of None \<Rightarrow> 0 | Some p \<Rightarrow> length p)"

lemma spaceSeqs_nonempty: "p \<in> set spaceSeqs \<Longrightarrow> 0 < length p"
  by (auto simp: spaceSeqs_def)

lemma find_mem: "find P xs = Some x \<Longrightarrow> x \<in> set xs \<and> P x"
  by (auto simp: find_Some_iff)

lemma spaceLen_le: "spaceLen s \<le> length s"
proof (cases "find (HasPrefix s) spaceSeqs")
  case (Some p)
  then have "take (length p) s = p" by (auto dest: find_mem simp: HasPrefix_def)
  then have "length p \<le> length s" by (metis length_take min.cobounded1)
  with Some show ?thesis by (simp add: spaceLen_def)
qed (simp add: spaceLen_def)

lemma spaceLenEnd_le: "spaceLenEnd s \<le> length s"
  by (auto simp: spaceLenEnd_def HasSuffix_def split: option.splits dest: find_mem)

function trimLeft :: "string \<Rightarrow> string" where
  "trimLeft s = (if spaceLen s = 0 then s else trimLeft (drop (spaceLen s) s))"
  by pat_completeness auto
termination
  by (relation "measure length") (auto, metis diff_less length_0_conv length_greater_0_conv
      less_nat_zero_code linorder_neqE_nat spaceLen_le le_zero_eq)

function trimRight :: "string \<Rightarrow> string" where
  "trimRight s = (if spaceLenEnd s = 0 then s else trimRight (take (length s - spaceLenEnd s) s))"
  by pat_completeness auto
termination
proof (relation "measure length")
  fix s assume "spaceLenEnd s \<noteq> 0"
  then show "(take (length s - spaceLenEnd s) s, s) \<in> measure length"
    using spaceLenEnd_le[of s] by simp
qed simp

declare trimLeft.simps [simp del] trimRight.simps [simp del]

definition TrimSpace :: "string \<Rightarrow> string" where
  "TrimSpace s = trimRight (trimLeft s)"

section \<open>Facts\<close>

lemma HasPrefix_append [simp]: "HasPrefix (p @ s) p"
  by (simp add: HasPrefix_def)

lemma HasPrefix_iff: "HasPrefix s p \<longleftrightarrow> (\<exists>r. s = p @ r)"
  by (metis HasPrefix_append HasPrefix_def append_take_drop_id)

lemma HasPrefix_Nil [simp]: "HasPrefix s []"
  by (simp add: HasPrefix_def)

lemma HasPrefix_Nil2 [simp]: "HasPrefix [] p \<longleftrightarrow> p = []"
  by (auto simp: HasPrefix_def)

lemma HasPrefix_Cons [simp]: "HasPrefix (c # s) (d # p) \<longleftrightarrow> c = d \<and> HasPrefix s p"
  by (simp add: HasPrefix_def)

lemma CutPrefix_append [simp]: "CutPrefix (p @ s) p = Some s"
  by (simp add: CutPrefix_def)

lemma CutPrefix_Some: "CutPrefix s p = Some r \<longleftrightarrow> s = p @ r"
  by (auto simp: CutPrefix_def HasPrefix_iff)

lemma CutPrefix_None: "CutPrefix s p = None \<longleftrightarrow> \<not> HasPrefix s p"
  by (simp add: CutPrefix_def)

lemma HasSuffix_iff: "HasSuffix s p \<longleftrightarrow> (\<exists>r. s = r @ p)"
proof
  assume "HasSuffix s p"
  then show "\<exists>r. s = r @ p"
    unfolding HasSuffix_def by (metis append_take_drop_id)
qed (auto simp: HasSuffix_def)

lemma TrimSuffix_append [simp]: "TrimSuffix (s @ p) p = s"
  by (simp add: TrimSuffix_def HasSuffix_def)

text \<open>\<open>Index\<close> returns the first position at which the substring starts.\<close>

lemma strIndex_Some_iff:
  "strIndex s sub = Some i \<longleftrightarrow>
     i \<le> length s \<and> HasPrefix (drop i s) sub \<and> (\<forall>j < i. \<not> HasPrefix (drop j s) sub)"
proof (induction s arbitrary: i)
  case Nil
  then show ?case by (auto simp: strIndex_Nil)
next
  case (Cons c s)
  show ?case
  proof (cases i)
    case 0
    then show ?thesis by (auto simp: strIndex_Cons)
  next
    case (Suc k)
    have "(\<forall>j < Suc k. \<not> HasPrefix (drop j (c # s)) sub) \<longleftrightarrow>
      \<not> HasPrefix (c # s) sub \<and> (\<forall>j < k. \<not> HasPrefix (drop j s) sub)"
      by (auto simp: less_Suc_eq_0_disj)
    then show ?thesis using Suc Cons.IH[of k] by (auto simp: strIndex_Cons)
  qed
qed

lemma strIndex_bound: "strIndex s sub = Some i \<Longrightarrow> i + length sub \<le> length s"
proof -
  assume "strIndex s sub = Some i"
  then have "i \<le> length s" "take (length sub) (drop i s) = sub"
    by (auto simp: strIndex_Some_iff HasPrefix_def)
  then show ?thesis by (metis add.commute le_diff_conv2 length_drop length_take min.cobounded1)
qed

lemma strIndex_exists: "HasPrefix (drop j s) sub \<Longrightarrow> j \<le> length s \<Longrightarrow> \<exists>i \<le> j. strIndex s sub = Some i"
proof (induction s arbitrary: j)
  case (Cons c s)
  then show ?case by (cases j) (fastforce simp: strIndex_Cons)+
qed (auto simp: strIndex_Nil)

lemma splitChar_nonempty [simp]: "splitChar sep s \<noteq> []"
  by (induction s) (auto split: list.splits)

lemma splitChar_parts: "w \<in> set (splitChar sep s) \<Longrightarrow> sep \<notin> set w"
proof (induction s arbitrary: w)
  case (Cons c s)
  then show ?case by (cases "splitChar sep s") (auto split: if_splits)
qed simp

text \<open>Splitting and joining are inverse.\<close>

fun joinChar :: "char \<Rightarrow> string list \<Rightarrow> string" where
  "joinChar sep [] = []"
| "joinChar sep [w] = w"
| "joinChar sep (w # ws) = w @ [sep] @ joinChar sep ws"

lemma join_split: "joinChar sep (splitChar sep s) = s"
proof (induction s)
  case (Cons c s)
  then obtain w ws where ws: "splitChar sep s = w # ws" by (meson splitChar_nonempty neq_Nil_conv)
  with Cons show ?case by (cases ws) auto
qed simp

lemma splitChar_append_sep: "sep \<notin> set w \<Longrightarrow> splitChar sep (w @ sep # s) = w # splitChar sep s"
  by (induction w) auto

lemma splitChar_no_sep: "sep \<notin> set w \<Longrightarrow> splitChar sep w = [w]"
  by (induction w) auto

lemma split_join:
  "ws \<noteq> [] \<Longrightarrow> \<forall>w\<in>set ws. sep \<notin> set w \<Longrightarrow> splitChar sep (joinChar sep ws) = ws"
  by (induction sep ws rule: joinChar.induct) (auto simp: splitChar_no_sep splitChar_append_sep)

lemma trimLeft_idem [simp]: "spaceLen s = 0 \<Longrightarrow> trimLeft s = s"
  by (subst trimLeft.simps) simp

lemma spaceLen_trimLeft: "spaceLen (trimLeft s) = 0"
  by (induction s rule: trimLeft.induct) (subst trimLeft.simps, simp)

lemma trimRight_idem [simp]: "spaceLenEnd s = 0 \<Longrightarrow> trimRight s = s"
  by (subst trimRight.simps) simp

lemma spaceLenEnd_trimRight: "spaceLenEnd (trimRight s) = 0"
  by (induction s rule: trimRight.induct) (subst trimRight.simps, simp)

text \<open>A string of ASCII characters that are not white space is trimmed to itself.\<close>

lemma spaceSeqs_bytes: "p \<in> set spaceSeqs \<Longrightarrow> c \<in> set p \<Longrightarrow> c \<in> set asciiSpaces \<or> 128 \<le> (of_char c :: nat)"
proof -
  have "list_all (list_all (\<lambda>c. c \<in> set asciiSpaces \<or> 128 \<le> (of_char c :: nat))) spaceSeqs" by code_simp
  then show "p \<in> set spaceSeqs \<Longrightarrow> c \<in> set p \<Longrightarrow> c \<in> set asciiSpaces \<or> 128 \<le> (of_char c :: nat)"
    unfolding list_all_iff by blast
qed

lemma no_space_affix:
  assumes "\<And>c. c \<in> set s \<Longrightarrow> c \<notin> set asciiSpaces \<and> (of_char c :: nat) < 128" "p \<in> set spaceSeqs"
  shows "\<not> HasPrefix s p \<and> \<not> HasSuffix s p"
proof -
  obtain c where c: "c \<in> set p" using spaceSeqs_nonempty[OF assms(2)] by fastforce
  then have "c \<notin> set s" using spaceSeqs_bytes[OF assms(2) c] assms(1)[of c] by fastforce
  then show ?thesis using c by (auto simp: HasPrefix_iff HasSuffix_iff)
qed

lemma TrimSpace_plain:
  assumes "\<And>c. c \<in> set s \<Longrightarrow> c \<notin> set asciiSpaces \<and> (of_char c :: nat) < 128"
  shows "TrimSpace s = s"
proof -
  have "find (HasPrefix s) spaceSeqs = None" "find (HasSuffix s) spaceSeqs = None"
    using no_space_affix[OF assms] by (auto simp: find_None_iff)
  then show ?thesis by (simp add: TrimSpace_def spaceLen_def spaceLenEnd_def)
qed

text \<open>A character that is no part of white space is kept.\<close>

lemma trim_keeps:
  assumes c: "c \<notin> set asciiSpaces" "(of_char c :: nat) < 128"
  shows trimLeft_keeps: "c \<in> set s \<Longrightarrow> c \<in> set (trimLeft s)"
    and trimRight_keeps: "c \<in> set s \<Longrightarrow> c \<in> set (trimRight s)"
proof -
  have seq: "c \<notin> set p" if "p \<in> set spaceSeqs" for p
    using spaceSeqs_bytes[OF that, of c] c by auto
  have left: "c \<notin> set (take (spaceLen s) s)" for s
    using seq by (auto simp: spaceLen_def HasPrefix_def split: option.splits dest!: find_mem)
  have right: "c \<notin> set (drop (length s - spaceLenEnd s) s)" for s
    using seq by (auto simp: spaceLenEnd_def HasSuffix_def split: option.splits dest!: find_mem)
  show "c \<in> set s \<Longrightarrow> c \<in> set (trimLeft s)"
  proof (induction s rule: trimLeft.induct)
    case (1 s)
    have "c \<in> set (drop (spaceLen s) s)"
      using 1(2) left[of s] by (metis append_take_drop_id Un_iff set_append)
    with 1 show ?case by (subst trimLeft.simps) simp
  qed
  show "c \<in> set s \<Longrightarrow> c \<in> set (trimRight s)"
  proof (induction s rule: trimRight.induct)
    case (1 s)
    have "c \<in> set (take (length s - spaceLenEnd s) s)"
      using 1(2) right[of s] by (metis append_take_drop_id Un_iff set_append)
    with 1 show ?case by (subst trimRight.simps) simp
  qed
qed

lemma TrimSpace_keeps:
  "c \<in> set s \<Longrightarrow> c \<notin> set asciiSpaces \<Longrightarrow> (of_char c :: nat) < 128 \<Longrightarrow> c \<in> set (TrimSpace s)"
  unfolding TrimSpace_def by (intro trimRight_keeps trimLeft_keeps)

end
