(* ===== verification/Wf_Regions.thy ===== *)
theory Wf_Regions
  imports Wf_Topo Go_Strings "HOL-Library.AList"
begin

text \<open>
  Map regions and loops as a structure over the node set (\<open>mapregion.go\<close>, \<open>loopregion.go\<close>):
  grouping steps into regions, loop nesting, the sub-graph of a region, and the validation
  of regions, loops and routes (\<open>validateMaps\<close>, \<open>validateLoops\<close>, \<open>validateGraph\<close>).  A
  validator returns a message or nothing; the messages are the constructors of \<open>vmsg\<close>,
  with the values the source formats into the text.

  A Go map keyed by region id is an association list with distinct keys; the definitions
  list it in order of first declaration, one of the orders a Go \<open>range\<close> may take.
\<close>

section \<open>Grouping steps into regions\<close>

definition addMapMember ::
  "nat \<times> WorkflowStep \<Rightarrow> (string \<times> mapRegion) list \<Rightarrow> (string \<times> mapRegion) list" where
  "addMapMember = (\<lambda>(i, ws) byID.
     if ws_MapID ws = [] then byID
     else case map_of byID (ws_MapID ws) of
       None \<Rightarrow> byID
     | Some r \<Rightarrow> AList.update (ws_MapID ws)
         (r\<lparr>mr_firstIndex := (if mr_nodes r = [] then i else mr_firstIndex r),
            mr_nodes := mr_nodes r @ [st_Name ws]\<rparr>) byID)"

definition regionsOf :: "WorkflowStep list \<Rightarrow> MapDef list \<Rightarrow> (string \<times> mapRegion) list" where
  "regionsOf steps defs =
     (let byID0 = fold (\<lambda>d m. AList.update (md_ID d)
                              \<lparr>mr_def = d, mr_nodes = [], mr_firstIndex = 0\<rparr> m) defs [];
          byID = fold addMapMember (enumerate 0 steps) byID0
      in filter (\<lambda>(id, r). mr_nodes r \<noteq> []) byID)"

definition regionOfNode :: "(string \<times> mapRegion) list \<Rightarrow> (string \<rightharpoonup> string)" where
  "regionOfNode regions =
     fold (\<lambda>(id, r) m. fold (\<lambda>n m. m(n \<mapsto> id)) (mr_nodes r) m) regions Map.empty"

definition withMaps :: "'p workflowGraph \<Rightarrow> MapDef list \<Rightarrow> 'p workflowGraph" where
  "withMaps g defs =
     (let rs = regionsOf (g_steps g) defs in g\<lparr>g_regions := rs, g_regionOf := regionOfNode rs\<rparr>)"

text \<open>
  A nested loop's steps belong to it and to every ancestor loop: the walk up \<open>Parent\<close>, with
  the \<open>seen\<close> guard.
\<close>

definition parentOf :: "LoopDef list \<Rightarrow> (string \<times> string) list" where
  "parentOf defs = fold (\<lambda>d m. AList.update (ld_ID d) (ld_Parent d) m) defs []"

definition lookupStr :: "(string \<times> string) list \<Rightarrow> string \<Rightarrow> string" where
  "lookupStr m k = (case map_of m k of None \<Rightarrow> [] | Some v \<Rightarrow> v)"

definition addLoopNode :: "nat \<Rightarrow> string \<Rightarrow> loopRegion \<Rightarrow> loopRegion" where
  "addLoopNode i n l =
     l\<lparr>lr_firstIndex := (if lr_nodes l = [] then i else lr_firstIndex l),
       lr_nodes := lr_nodes l @ [n]\<rparr>"

lemma seen_grows:
  assumes "map_of m k = Some x" and "k \<notin> seen"
  shows "card (fst ` set m - insert k seen) < card (fst ` set m - seen)"
proof (rule psubset_card_mono)
  have "k \<in> fst ` set m" using assms(1) by (metis domI dom_map_of_conv_image_fst)
  then show "fst ` set m - insert k seen \<subset> fst ` set m - seen" using assms(2) by blast
qed simp

lemma update_keys_same:
  "map_of m k = Some x \<Longrightarrow> fst ` set (AList.update k y m) = fst ` set m"
proof -
  assume m: "map_of m k = Some x"
  have "fst ` set (AList.update k y m) = dom (map_of (AList.update k y m))"
    by (simp only: dom_map_of_conv_image_fst)
  also have "\<dots> = dom (map_of m)" using m by (auto simp: update_conv')
  finally show ?thesis by (simp only: dom_map_of_conv_image_fst)
qed

function climbLoops ::
  "(string \<times> string) list \<Rightarrow> nat \<Rightarrow> string \<Rightarrow> string \<Rightarrow> string set
   \<Rightarrow> (string \<times> loopRegion) list \<Rightarrow> (string \<times> loopRegion) list" where
  "climbLoops parent i n k seen byID =
     (if k = [] \<or> k \<in> seen then byID
      else case map_of byID k of
        None \<Rightarrow> byID
      | Some l \<Rightarrow> climbLoops parent i n (lookupStr parent k) (insert k seen)
                   (AList.update k (addLoopNode i n l) byID))"
  by pat_completeness auto
termination
  by (relation "measure (\<lambda>(parent, i, n, k, seen, byID). card (fst ` set byID - seen))")
     (auto simp: update_keys_same seen_grows)

declare climbLoops.simps [simp del]

definition addLoopMember ::
  "(string \<times> string) list \<Rightarrow> nat \<times> WorkflowStep
   \<Rightarrow> (string \<times> loopRegion) list \<Rightarrow> (string \<times> loopRegion) list" where
  "addLoopMember parent = (\<lambda>(i, ws) byID.
     if ws_LoopID ws = [] then byID
     else climbLoops parent i (st_Name ws) (ws_LoopID ws) {} byID)"

definition loopsOf :: "WorkflowStep list \<Rightarrow> LoopDef list \<Rightarrow> (string \<times> loopRegion) list" where
  "loopsOf steps defs =
     (let byID0 = fold (\<lambda>d m. AList.update (ld_ID d)
                              \<lparr>lr_def = d, lr_nodes = [], lr_firstIndex = 0\<rparr> m) defs [];
          byID = fold (addLoopMember (parentOf defs)) (enumerate 0 steps) byID0
      in filter (\<lambda>(id, l). lr_nodes l \<noteq> []) byID)"

function outermostFrom :: "(string \<times> loopRegion) list \<Rightarrow> string \<Rightarrow> string set \<Rightarrow> string" where
  "outermostFrom loops k seen =
     (case map_of loops k of
        None \<Rightarrow> k
      | Some l \<Rightarrow>
          if ld_Parent (lr_def l) = [] \<or> map_of loops (ld_Parent (lr_def l)) = None \<or> k \<in> seen
          then k
          else outermostFrom loops (ld_Parent (lr_def l)) (insert k seen))"
  by pat_completeness auto
termination
  by (relation "measure (\<lambda>(loops, k, seen). card (fst ` set loops - seen))") (auto simp: seen_grows)

declare outermostFrom.simps [simp del]

definition outermostLoop :: "(string \<times> loopRegion) list \<Rightarrow> string \<Rightarrow> string" where
  "outermostLoop loops k = outermostFrom loops k {}"

definition loopOfNode :: "(string \<times> loopRegion) list \<Rightarrow> (string \<rightharpoonup> string)" where
  "loopOfNode loops =
     fold (\<lambda>(id, l) m. fold (\<lambda>n m. m(n \<mapsto> outermostLoop loops id)) (lr_nodes l) m) loops Map.empty"

definition withLoops :: "'p workflowGraph \<Rightarrow> LoopDef list \<Rightarrow> 'p workflowGraph" where
  "withLoops g defs =
     (let ls = loopsOf (g_steps g) defs in g\<lparr>g_loops := ls, g_loopOf := loopOfNode ls\<rparr>)"

text \<open>\<open>descendantLoopDefs\<close>: the walk from a loop's parent up to \<open>parentID\<close>.\<close>

function hasAncestorLoop ::
  "(string \<times> loopRegion) list \<Rightarrow> string \<Rightarrow> string \<Rightarrow> string set \<Rightarrow> bool" where
  "hasAncestorLoop loops parentID k seen =
     (if k = [] \<or> k \<in> seen then False
      else if k = parentID then True
      else case map_of loops k of
        None \<Rightarrow> False
      | Some pl \<Rightarrow> hasAncestorLoop loops parentID (ld_Parent (lr_def pl)) (insert k seen))"
  by pat_completeness auto
termination
  by (relation "measure (\<lambda>(loops, parentID, k, seen). card (fst ` set loops - seen))")
     (auto simp: seen_grows)

declare hasAncestorLoop.simps [simp del]

definition descendantLoopDefs :: "'p workflowGraph \<Rightarrow> string \<Rightarrow> LoopDef list" where
  "descendantLoopDefs g parentID =
     map (\<lambda>(id, l). lr_def l)
       (filter (\<lambda>(id, l). hasAncestorLoop (g_loops g) parentID (ld_Parent (lr_def l)) {}) (g_loops g))"

text \<open>\<open>subGraph\<close>: a region's nodes and the routes with both ends inside it.\<close>

definition subGraph ::
  "(string \<Rightarrow> string + 'p) \<Rightarrow> 'p workflowGraph \<Rightarrow> string list \<Rightarrow> 'p workflowGraph" where
  "subGraph compile g nodes =
     (let steps = filter (\<lambda>ws. st_Name ws \<in> set nodes) (g_steps g);
          routes = filter (\<lambda>r. r_From r \<in> set nodes \<and> r_To r \<in> set nodes) (g_routes g)
      in (newGraph compile steps routes)
           \<lparr>g_outerIndex := Some (fold (\<lambda>ws m. m(st_Name ws \<mapsto> stepIndex g (st_Name ws)))
                                       steps Map.empty)\<rparr>)"

definition buildGraph ::
  "(string \<Rightarrow> string + 'p) \<Rightarrow> WorkflowStep list \<Rightarrow> WorkflowRoute list \<Rightarrow> MapDef list \<Rightarrow> LoopDef list
   \<Rightarrow> 'p workflowGraph" where
  "buildGraph compile steps routes maps loops =
     withLoops (withMaps (newGraph compile steps
        (if routes = [] then deriveRoutes steps else routes)) maps) loops"

section \<open>Structure of the regions\<close>

lemma map_of_filter_snd:
  assumes "distinct (map fst xs)"
  shows "map_of (filter (\<lambda>(k, v). P v) xs) k =
    (case map_of xs k of None \<Rightarrow> None | Some v \<Rightarrow> if P v then Some v else None)"
  using assms
proof (induction xs)
  case (Cons x xs)
  have "map_of (filter (\<lambda>(k, v). P v) xs) (fst x) = None" if "\<not> P (snd x)"
    using Cons by (auto simp: map_of_eq_None_iff split: option.splits)
  with Cons show ?case by (cases x) auto
qed simp

lemma fold_update_defs:
  assumes "distinct (map fst m)"
  shows "distinct (map fst (fold (\<lambda>d m. AList.update (f d) (g d) m) defs m))"
    and "map_of (fold (\<lambda>d m. AList.update (f d) (g d) m) defs m) k =
      (case find (\<lambda>d. f d = k) (rev defs) of None \<Rightarrow> map_of m k | Some d \<Rightarrow> Some (g d))"
  using assms
proof (induction defs rule: rev_induct)
  case (snoc d defs)
  {
    case 1
    with snoc show ?case by (simp add: distinct_update)
  next
    case 2
    with snoc show ?case by (auto simp: update_conv')
  }
qed auto

text \<open>What the walk over the steps leaves in the map of regions.\<close>

definition membersOf :: "WorkflowStep list \<Rightarrow> string \<Rightarrow> string list" where
  "membersOf steps k = map st_Name (filter (\<lambda>ws. ws_MapID ws = k) steps)"

lemma addMapMembers:
  assumes "distinct (map fst m)" and "\<forall>k r. map_of m k = Some r \<longrightarrow> mr_nodes r = []"
  shows "distinct (map fst (fold addMapMember (enumerate 0 steps) m))
    \<and> dom (map_of (fold addMapMember (enumerate 0 steps) m)) = dom (map_of m)
    \<and> (\<forall>k r. map_of (fold addMapMember (enumerate 0 steps) m) k = Some r \<longrightarrow>
          mr_nodes r = (if k = [] then [] else membersOf steps k)
          \<and> map_option mr_def (map_of m k) = Some (mr_def r))"
proof (induction steps rule: rev_induct)
  case Nil
  then show ?case using assms by (auto simp: membersOf_def)
next
  case (snoc ws steps)
  let ?m = "fold addMapMember (enumerate 0 steps) m"
  have step: "fold addMapMember (enumerate 0 (steps @ [ws])) m = addMapMember (length steps, ws) ?m"
    by (simp add: enumerate_append_eq)
  show ?case
  proof (cases "ws_MapID ws = [] \<or> map_of ?m (ws_MapID ws) = None")
    case True
    then have same: "addMapMember (length steps, ws) ?m = ?m"
      by (auto simp: addMapMember_def)
    show ?thesis
      unfolding step same using snoc.IH True by (auto simp: membersOf_def)
  next
    case False
    then obtain r where r: "map_of ?m (ws_MapID ws) = Some r" and ne: "ws_MapID ws \<noteq> []" by auto
    define r' where "r' = r\<lparr>mr_firstIndex := (if mr_nodes r = [] then length steps else mr_firstIndex r),
         mr_nodes := mr_nodes r @ [st_Name ws]\<rparr>"
    have upd: "addMapMember (length steps, ws) ?m = AList.update (ws_MapID ws) r' ?m"
      using r ne by (simp add: addMapMember_def r'_def)
    have look: "map_of (addMapMember (length steps, ws) ?m) = (map_of ?m)(ws_MapID ws \<mapsto> r')"
      by (simp only: upd update_conv')
    have r'_nodes: "mr_nodes r' = membersOf (steps @ [ws]) (ws_MapID ws)" and r'_def': "mr_def r' = mr_def r"
      using snoc.IH r ne by (simp_all add: r'_def membersOf_def)
    have other: "membersOf (steps @ [ws]) k = membersOf steps k" if "k \<noteq> ws_MapID ws" for k
      using that by (simp add: membersOf_def)
    show ?thesis
      unfolding step look
    proof (intro conjI allI impI)
      show "distinct (map fst (addMapMember (length steps, ws) ?m))"
        using snoc.IH by (simp only: upd distinct_update)
      show "dom ((map_of ?m)(ws_MapID ws \<mapsto> r')) = dom (map_of m)"
      proof -
        have "ws_MapID ws \<in> dom (map_of ?m)" using r by blast
        then show ?thesis using snoc.IH by (simp only: dom_fun_upd option.distinct if_False insert_absorb)
      qed
      fix k ra assume k: "((map_of ?m)(ws_MapID ws \<mapsto> r')) k = Some ra"
      show "mr_nodes ra = (if k = [] then [] else membersOf (steps @ [ws]) k)"
        "map_option mr_def (map_of m k) = Some (mr_def ra)"
        using k snoc.IH r ne r'_nodes r'_def' other
        by (cases "k = ws_MapID ws"; simp)+
    qed
  qed
qed

lemma regionsOf_map_of:
  "map_of (regionsOf steps defs) k = Some r \<Longrightarrow>
     mr_nodes r = membersOf steps k \<and> k \<noteq> [] \<and> membersOf steps k \<noteq> []
     \<and> md_ID (mr_def r) = k \<and> mr_def r \<in> set defs"
  and regionsOf_distinct: "distinct (map fst (regionsOf steps defs))"
  and regionsOf_exists:
  "k \<in> md_ID ` set defs \<Longrightarrow> k \<noteq> [] \<Longrightarrow> membersOf steps k \<noteq> [] \<Longrightarrow> map_of (regionsOf steps defs) k \<noteq> None"
proof -
  let ?base = "fold (\<lambda>d m. AList.update (md_ID d) \<lparr>mr_def = d, mr_nodes = [], mr_firstIndex = 0\<rparr> m) defs []"
  let ?m = "fold addMapMember (enumerate 0 steps) ?base"
  note base = fold_update_defs[of "[]" md_ID "\<lambda>d. \<lparr>mr_def = d, mr_nodes = [], mr_firstIndex = 0\<rparr>" defs]
  have empty: "\<forall>k r. map_of ?base k = Some r \<longrightarrow> mr_nodes r = []"
    using base(2) by (auto split: option.splits)
  have "distinct (map fst ?base)" using base(1) by simp
  note mem = addMapMembers[OF this empty]
  have reg: "regionsOf steps defs = filter (\<lambda>(k, r). mr_nodes r \<noteq> []) ?m"
    by (simp add: regionsOf_def Let_def)
  have look: "map_of (regionsOf steps defs) k =
      (case map_of ?m k of None \<Rightarrow> None | Some r \<Rightarrow> if mr_nodes r \<noteq> [] then Some r else None)" for k
    unfolding reg using mem by (intro map_of_filter_snd) blast
  show "distinct (map fst (regionsOf steps defs))"
    unfolding reg using mem by (simp add: distinct_map_filter)
  {
    assume "map_of (regionsOf steps defs) k = Some r"
    then have r: "map_of ?m k = Some r" "mr_nodes r \<noteq> []"
      unfolding look by (simp_all split: option.splits if_splits)
    then have n: "mr_nodes r = (if k = [] then [] else membersOf steps k)"
      "map_option mr_def (map_of ?base k) = Some (mr_def r)" using mem by blast+
    then obtain d where d: "find (\<lambda>d. md_ID d = k) (rev defs) = Some d" "mr_def r = d"
      using base(2)[of k] by (cases "find (\<lambda>d. md_ID d = k) (rev defs)") simp_all
    then have "md_ID (mr_def r) = k" "mr_def r \<in> set defs"
      using find_mem[OF d(1)] by simp_all
    with n r(2) show "mr_nodes r = membersOf steps k \<and> k \<noteq> [] \<and> membersOf steps k \<noteq> []
      \<and> md_ID (mr_def r) = k \<and> mr_def r \<in> set defs" by (simp split: if_splits)
  next
    assume k: "k \<in> md_ID ` set defs" "k \<noteq> []" "membersOf steps k \<noteq> []"
    then have "find (\<lambda>d. md_ID d = k) (rev defs) \<noteq> None" by (auto simp: find_None_iff)
    then have "map_of ?base k \<noteq> None"
      using base(2)[of k] by (cases "find (\<lambda>d. md_ID d = k) (rev defs)") simp_all
    then have "k \<in> dom (map_of ?m)" using mem by blast
    then obtain r where r: "map_of ?m k = Some r" by blast
    then have "mr_nodes r = (if k = [] then [] else membersOf steps k)" using mem by blast
    with r k(2,3) show "map_of (regionsOf steps defs) k \<noteq> None" unfolding look by simp
  }
qed

lemma fold_nodes_upd:
  "fold (\<lambda>n m. m(n \<mapsto> k)) ns m x = (if x \<in> set ns then Some k else m x)"
  by (induction ns arbitrary: m) auto

lemma fold_region_nodes:
  "fold (\<lambda>(k, r) m. fold (\<lambda>n m. m(n \<mapsto> f k)) (h r) m) rs m n = Some v \<Longrightarrow>
     m n = Some v \<or> (\<exists>(k, r) \<in> set rs. n \<in> set (h r) \<and> v = f k)"
  by (induction rs arbitrary: m) (fastforce simp: fold_nodes_upd split: if_splits)+

lemma fold_region_nodes_None:
  "fold (\<lambda>(k, r) m. fold (\<lambda>n m. m(n \<mapsto> f k)) (h r) m) rs m n = None \<longleftrightarrow>
     m n = None \<and> (\<forall>x \<in> set rs. n \<notin> set (h (snd x)))"
proof (induction rs arbitrary: m)
  case (Cons x rs)
  then show ?case by (cases x) (simp add: fold_nodes_upd del: fun_upd_apply)
qed simp

lemma regionOfNode_Some:
  "regionOfNode rs n = Some k \<Longrightarrow> \<exists>r. (k, r) \<in> set rs \<and> n \<in> set (mr_nodes r)"
  unfolding regionOfNode_def using fold_region_nodes[of "\<lambda>k. k" mr_nodes rs Map.empty n k] by auto

lemma regionOfNode_None:
  "regionOfNode rs n = None \<longleftrightarrow> (\<forall>(k, r) \<in> set rs. n \<notin> set (mr_nodes r))"
  unfolding regionOfNode_def using fold_region_nodes_None[of "\<lambda>k. k" mr_nodes rs Map.empty n]
  by (simp add: case_prod_beta)

text \<open>
  With unique step names, a step is in the region its \<open>MapID\<close> names, when that region is
  declared, and in no other.
\<close>

lemma regionOf_step:
  assumes dist: "distinct (names_of steps)" and ws: "ws \<in> set steps"
  shows "regionOfNode (regionsOf steps defs) (st_Name ws) =
    (if ws_MapID ws \<noteq> [] \<and> ws_MapID ws \<in> md_ID ` set defs then Some (ws_MapID ws) else None)"
proof -
  have mem: "st_Name ws \<in> set (membersOf steps k) \<longleftrightarrow> ws_MapID ws = k" for k
  proof
    assume "st_Name ws \<in> set (membersOf steps k)"
    then obtain ws' where "ws' \<in> set steps" "st_Name ws = st_Name ws'" "ws_MapID ws' = k"
      by (auto simp: membersOf_def)
    moreover have "inj_on st_Name (set steps)" using dist by (simp add: distinct_map)
    ultimately show "ws_MapID ws = k" using ws by (metis inj_onD)
  qed (use ws in \<open>auto simp: membersOf_def\<close>)
  have inr: "(k, r) \<in> set (regionsOf steps defs) \<longleftrightarrow> map_of (regionsOf steps defs) k = Some r" for k r
    by (simp add: regionsOf_distinct)
  show ?thesis
  proof (cases "regionOfNode (regionsOf steps defs) (st_Name ws)")
    case None
    have "\<not> (ws_MapID ws \<noteq> [] \<and> ws_MapID ws \<in> md_ID ` set defs)"
    proof
      assume h: "ws_MapID ws \<noteq> [] \<and> ws_MapID ws \<in> md_ID ` set defs"
      have "membersOf steps (ws_MapID ws) \<noteq> []" using mem[of "ws_MapID ws"] by auto
      with h obtain r where r: "map_of (regionsOf steps defs) (ws_MapID ws) = Some r"
        using regionsOf_exists by blast
      then have "st_Name ws \<in> set (mr_nodes r)" using regionsOf_map_of(1) mem by metis
      with r None show False by (auto simp: regionOfNode_None inr)
    qed
    with None show ?thesis by simp
  next
    case (Some k)
    then obtain r where "map_of (regionsOf steps defs) k = Some r" "st_Name ws \<in> set (mr_nodes r)"
      using regionOfNode_Some inr by blast
    note r = this and reg = regionsOf_map_of(1)[OF this(1)]
    then have "ws_MapID ws = k" using mem[of k] by simp
    moreover have "k \<in> md_ID ` set defs" using reg by (metis image_eqI)
    ultimately show ?thesis using reg Some by simp
  qed
qed

end
