(* ===== verification/Wf_Validate.thy ===== *)
theory Wf_Validate
  imports Wf_Regions
begin

text \<open>
  Authoring-time validation of a workflow graph: map definitions and membership
  (\<open>mapregion.go\<close>), loop definitions, nesting and membership (\<open>loopregion.go\<close>), route
  conditions and the route set (\<open>graph.go\<close>).  \<open>None\<close> is the empty message, i.e. valid.
\<close>

section \<open>Messages\<close>

datatype vmsg =
    MapUndeclared nat string string
  | MapIDRequired
  | MapDuplicate string
  | MapVarRequired string
  | MapVarChars string
  | MapValuesOrFrom string
  | MapTooManyValues string nat
  | MapNegativeConcurrency string
  | MapToleranceRange string
  | MapWithMatrix nat string
  | MapWithScatter nat string
  | MapWithApproval nat string
  | MapEmpty string
  | MapCross string string string string
  | LoopUndeclared nat string string
  | LoopIDRequired
  | LoopDuplicate string
  | LoopLimitLow string
  | LoopLimitHigh string int
  | LoopUntil string string
  | LoopParentUndeclared string string
  | LoopParentCyclic string
  | LoopAndMap nat string
  | LoopWithMatrix nat string
  | LoopWithScatter nat string
  | LoopWithApproval nat string
  | LoopEmpty string
  | LoopCross string string string string
  | TooManyRoutes nat
  | RouteEndsRequired
  | RouteUnknownStep string string string
  | RouteToItself string string
  | RouteDuplicate string string
  | WhenTooLong string string
  | WhenInvalid string string string
  | RoutesCycle "string list"
  | NoEntryStep

section \<open>Map regions\<close>

definition validateMapDef :: "MapDef \<Rightarrow> vmsg option" where
  "validateMapDef d =
     (if TrimSpace (md_Var d) = [] then Some (MapVarRequired (md_ID d))
      else if ContainsAny (md_Var d) [CHR '' '', CHR 0x09, CHR ''$'', CHR ''{'', CHR ''}'']
        then Some (MapVarChars (md_ID d))
      else if (md_Values d \<noteq> []) = (md_ValuesFrom d \<noteq> []) then Some (MapValuesOrFrom (md_ID d))
      else if length (md_Values d) > maxMapValues
        then Some (MapTooManyValues (md_ID d) (length (md_Values d)))
      else if md_MaxConcurrent d < 0 then Some (MapNegativeConcurrency (md_ID d))
      else if md_FailureTolerance d < 0 \<or> md_FailureTolerance d > 100
        then Some (MapToleranceRange (md_ID d))
      else None)"

text \<open>The loop over the definitions, with the set of ids seen so far.\<close>

fun mapDefsMsg :: "MapDef list \<Rightarrow> string set \<Rightarrow> vmsg option" where
  "mapDefsMsg [] seen = None"
| "mapDefsMsg (d # ds) seen =
     (if md_ID d = [] then Some MapIDRequired
      else if md_ID d \<in> seen then Some (MapDuplicate (md_ID d))
      else orElse (validateMapDef d) (mapDefsMsg ds (insert (md_ID d) seen)))"

definition mapStepMsg :: "string set \<Rightarrow> nat \<times> WorkflowStep \<Rightarrow> vmsg option" where
  "mapStepMsg seen = (\<lambda>(i, ws).
     if ws_MapID ws = [] then None
     else if ws_MapID ws \<notin> seen then Some (MapUndeclared i (st_Name ws) (ws_MapID ws))
     else if ws_Matrix ws \<noteq> None then Some (MapWithMatrix i (st_Name ws))
     else if ws_Scatter ws \<noteq> None then Some (MapWithScatter i (st_Name ws))
     else if ws_Approval ws \<noteq> None \<or> st_Action ws = ActionApproval
       then Some (MapWithApproval i (st_Name ws))
     else None)"

text \<open>\<open>regionOf\<close> as the boundary check builds it: every step that names a map.\<close>

definition mapIDOf :: "WorkflowStep list \<Rightarrow> string \<Rightarrow> string" where
  "mapIDOf steps n =
     fold (\<lambda>ws v. if ws_MapID ws \<noteq> [] \<and> st_Name ws = n then ws_MapID ws else v) steps []"

definition boundaryMsg ::
  "(string \<Rightarrow> string) \<Rightarrow> (string \<Rightarrow> string \<Rightarrow> string \<Rightarrow> string \<Rightarrow> vmsg) \<Rightarrow> WorkflowRoute \<Rightarrow> vmsg option" where
  "boundaryMsg rof msg r =
     (if rof (r_From r) \<noteq> [] \<and> rof (r_To r) \<noteq> [] \<and> rof (r_From r) \<noteq> rof (r_To r)
      then Some (msg (r_From r) (r_To r) (rof (r_From r)) (rof (r_To r))) else None)"

definition validateRegionBoundary :: "WorkflowStep list \<Rightarrow> WorkflowRoute list \<Rightarrow> vmsg option" where
  "validateRegionBoundary steps routes = first_msg (boundaryMsg (mapIDOf steps) MapCross) routes"

definition validateMaps ::
  "WorkflowStep list \<Rightarrow> MapDef list \<Rightarrow> WorkflowRoute list \<Rightarrow> vmsg option" where
  "validateMaps steps defs routes =
     (if defs = [] then
        first_msg (\<lambda>(i, ws). if ws_MapID ws \<noteq> [] then Some (MapUndeclared i (st_Name ws) (ws_MapID ws))
                              else None) (enumerate 0 steps)
      else
        orElse (mapDefsMsg defs {})
       (orElse (first_msg (mapStepMsg (md_ID ` set defs)) (enumerate 0 steps))
       (orElse (first_msg (\<lambda>d. if md_ID d \<notin> ws_MapID ` set steps then Some (MapEmpty (md_ID d))
                                else None) defs)
               (validateRegionBoundary steps routes))))"

section \<open>Loops\<close>

definition validateLoopDef :: "(string \<Rightarrow> string + 'p) \<Rightarrow> LoopDef \<Rightarrow> vmsg option" where
  "validateLoopDef compile d =
     (if ld_Limit d \<le> 0 then Some (LoopLimitLow (ld_ID d))
      else if ld_Limit d > loopHardMax then Some (LoopLimitHigh (ld_ID d) (ld_Limit d))
      else case compileWhen compile (ld_Until d) of
        Inl err \<Rightarrow> Some (LoopUntil (ld_ID d) err) | Inr _ \<Rightarrow> None)"

fun loopDefsMsg :: "(string \<Rightarrow> string + 'p) \<Rightarrow> LoopDef list \<Rightarrow> string set \<Rightarrow> vmsg option" where
  "loopDefsMsg compile [] seen = None"
| "loopDefsMsg compile (d # ds) seen =
     (if ld_ID d = [] then Some LoopIDRequired
      else if ld_ID d \<in> seen then Some (LoopDuplicate (ld_ID d))
      else orElse (validateLoopDef compile d) (loopDefsMsg compile ds (insert (ld_ID d) seen)))"

text \<open>The walk up the parent chain; it meets a visited loop exactly when the chain cycles.\<close>

function parentCyclic :: "(string \<times> string) list \<Rightarrow> string \<Rightarrow> string set \<Rightarrow> bool" where
  "parentCyclic parent k visited =
     (if k = [] then False
      else if k \<in> visited then True
      else parentCyclic parent (lookupStr parent k) (insert k visited))"
  by pat_completeness auto
termination
proof (relation "measure (\<lambda>(parent, k, visited). 2 * card (fst ` set parent - visited)
                                                   + (if k = [] then 0 else 1))")
  fix parent :: "(string \<times> string) list" and k :: string and visited
  assume k: "k \<noteq> []" "k \<notin> visited"
  show "((parent, lookupStr parent k, insert k visited), (parent, k, visited))
    \<in> measure (\<lambda>(parent, k, visited). 2 * card (fst ` set parent - visited) + (if k = [] then 0 else 1))"
  proof (cases "map_of parent k")
    case None
    then have "k \<notin> fst ` set parent" by (simp add: map_of_eq_None_iff)
    then have "fst ` set parent - insert k visited = fst ` set parent - visited" by blast
    with None k show ?thesis by (simp add: lookupStr_def)
  next
    case (Some p)
    from seen_grows[OF this k(2)] k show ?thesis by simp
  qed
qed simp

declare parentCyclic.simps [simp del]

definition loopParentMsg :: "LoopDef list \<Rightarrow> LoopDef \<Rightarrow> vmsg option" where
  "loopParentMsg defs d =
     (if ld_Parent d = [] then None
      else if ld_Parent d \<notin> ld_ID ` set defs then Some (LoopParentUndeclared (ld_ID d) (ld_Parent d))
      else if parentCyclic (parentOf defs) (ld_Parent d) {ld_ID d} then Some (LoopParentCyclic (ld_ID d))
      else None)"

definition loopStepMsg :: "string set \<Rightarrow> nat \<times> WorkflowStep \<Rightarrow> vmsg option" where
  "loopStepMsg seen = (\<lambda>(i, ws).
     if ws_LoopID ws = [] then None
     else if ws_LoopID ws \<notin> seen then Some (LoopUndeclared i (st_Name ws) (ws_LoopID ws))
     else if ws_MapID ws \<noteq> [] then Some (LoopAndMap i (st_Name ws))
     else if ws_Matrix ws \<noteq> None then Some (LoopWithMatrix i (st_Name ws))
     else if ws_Scatter ws \<noteq> None then Some (LoopWithScatter i (st_Name ws))
     else if ws_Approval ws \<noteq> None \<or> st_Action ws = ActionApproval
       then Some (LoopWithApproval i (st_Name ws))
     else None)"

text \<open>
  \<open>outer\<close> of \<open>validateLoopBoundary\<close>: up the parents while they are declared.  \<open>parent\<close> and
  \<open>declared\<close> are filled from the same definitions, so \<open>declared\<close> is the key set.
\<close>

function outerDeclared :: "(string \<times> string) list \<Rightarrow> string \<Rightarrow> string set \<Rightarrow> string" where
  "outerDeclared parent k seen =
     (case map_of parent k of
        None \<Rightarrow> k
      | Some p \<Rightarrow> if k \<in> seen then k
                   else if map_of parent p = None then k
                   else outerDeclared parent p (insert k seen))"
  by pat_completeness auto
termination
  by (relation "measure (\<lambda>(parent, k, seen). card (fst ` set parent - seen))") (auto simp: seen_grows)

declare outerDeclared.simps [simp del]

definition loopIDOf :: "WorkflowStep list \<Rightarrow> LoopDef list \<Rightarrow> string \<Rightarrow> string" where
  "loopIDOf steps defs n =
     fold (\<lambda>ws v. if ws_LoopID ws \<noteq> [] \<and> st_Name ws = n
                   then outerDeclared (parentOf defs) (ws_LoopID ws) {} else v) steps []"

definition validateLoopBoundary ::
  "WorkflowStep list \<Rightarrow> LoopDef list \<Rightarrow> WorkflowRoute list \<Rightarrow> vmsg option" where
  "validateLoopBoundary steps defs routes =
     first_msg (boundaryMsg (loopIDOf steps defs) LoopCross) routes"

definition validateLoops ::
  "(string \<Rightarrow> string + 'p) \<Rightarrow> WorkflowStep list \<Rightarrow> LoopDef list \<Rightarrow> WorkflowRoute list \<Rightarrow> vmsg option" where
  "validateLoops compile steps defs routes =
     (if defs = [] then
        first_msg (\<lambda>(i, ws). if ws_LoopID ws \<noteq> [] then Some (LoopUndeclared i (st_Name ws) (ws_LoopID ws))
                              else None) (enumerate 0 steps)
      else
        orElse (loopDefsMsg compile defs {})
       (orElse (first_msg (loopParentMsg defs) defs)
       (orElse (first_msg (loopStepMsg (ld_ID ` set defs)) (enumerate 0 steps))
       (orElse (first_msg (\<lambda>d. if ld_ID d \<notin> ws_LoopID ` set steps then Some (LoopEmpty (ld_ID d))
                                else None) defs)
               (validateLoopBoundary steps defs routes)))))"

section \<open>Routes and the graph\<close>

definition compileWhenErr :: "(string \<Rightarrow> string + 'p) \<Rightarrow> WorkflowRoute \<Rightarrow> vmsg option" where
  "compileWhenErr compile r =
     (case compileWhen compile (r_When r) of
        Inl err \<Rightarrow> Some (WhenInvalid (r_From r) (r_To r) err) | Inr _ \<Rightarrow> None)"

definition validateWhen :: "(string \<Rightarrow> string + 'p) \<Rightarrow> WorkflowRoute \<Rightarrow> vmsg option" where
  "validateWhen compile r =
     (if r_When r = [] then None
      else if length (r_When r) > maxWhenLen then Some (WhenTooLong (r_From r) (r_To r))
      else compileWhenErr compile r)"

text \<open>The loop over the routes; \<open>seen\<close> is keyed by the whole route (the struct).\<close>

fun routesMsg ::
  "(string \<Rightarrow> string + 'p) \<Rightarrow> string set \<Rightarrow> WorkflowRoute list \<Rightarrow> WorkflowRoute set \<Rightarrow> vmsg option" where
  "routesMsg compile known [] seen = None"
| "routesMsg compile known (r # rs) seen =
     (if r_From r = [] \<or> r_To r = [] then Some RouteEndsRequired
      else if r_From r \<notin> known then Some (RouteUnknownStep (r_From r) (r_To r) (r_From r))
      else if r_To r \<notin> known then Some (RouteUnknownStep (r_From r) (r_To r) (r_To r))
      else if r_From r = r_To r then Some (RouteToItself (r_From r) (r_To r))
      else if r \<in> seen then Some (RouteDuplicate (r_From r) (r_To r))
      else orElse (validateWhen compile r) (routesMsg compile known rs (insert r seen)))"

definition cycleMsg :: "'p workflowGraph \<Rightarrow> vmsg option" where
  "cycleMsg g = (case topoOrder g of (order, residual, ok) \<Rightarrow>
     if \<not> ok then Some (RoutesCycle residual)
     else if g_entries g = [] then Some NoEntryStep else None)"

definition validateGraph ::
  "(string \<Rightarrow> string + 'p) \<Rightarrow> WorkflowStep list \<Rightarrow> WorkflowRoute list \<Rightarrow> MapDef list \<Rightarrow> LoopDef list
   \<Rightarrow> vmsg option" where
  "validateGraph compile steps routes maps loops =
     orElse (validateMaps steps maps routes)
    (orElse (validateLoops compile steps loops routes)
    (if routes = [] then None
     else if length routes > maxRoutes then Some (TooManyRoutes (length routes))
     else orElse (routesMsg compile (set (names_of steps)) routes {})
                 (cycleMsg (newGraph compile steps routes))))"

section \<open>What passing validation means\<close>

lemma mapDefsMsg_None:
  "mapDefsMsg defs seen = None \<longleftrightarrow>
     (\<forall>d\<in>set defs. md_ID d \<noteq> [] \<and> validateMapDef d = None)
     \<and> distinct (map md_ID defs) \<and> md_ID ` set defs \<inter> seen = {}"
  by (induction defs arbitrary: seen) auto

lemma routesMsg_None:
  "routesMsg compile known routes seen = None \<longleftrightarrow>
     (\<forall>r\<in>set routes. r_From r \<noteq> [] \<and> r_To r \<noteq> [] \<and> r_From r \<in> known \<and> r_To r \<in> known
        \<and> r_From r \<noteq> r_To r \<and> validateWhen compile r = None)
     \<and> distinct routes \<and> set routes \<inter> seen = {}"
  by (induction routes arbitrary: seen) auto

lemma cycleMsg_None:
  assumes "distinct (names_of steps)" "steps \<noteq> []"
  shows "cycleMsg (newGraph compile steps routes) = None \<longleftrightarrow> acyclic (edges_of steps routes)"
proof -
  obtain order residual ok where t: "topoOrder (newGraph compile steps routes) = (order, residual, ok)"
    by (metis prod_cases3)
  have ok: "ok \<longleftrightarrow> acyclic (edges_of steps routes)"
    using topo_ok_iff[OF assms(1), of compile routes] by (simp add: t)
  show ?thesis
    using acyclic_has_entry[OF _ assms(2), of routes compile] by (simp add: cycleMsg_def t ok)
qed

lemma cycleMsg_never_NoEntry:
  assumes "distinct (names_of steps)" "steps \<noteq> []"
  shows "cycleMsg (newGraph compile steps routes) \<noteq> Some NoEntryStep"
proof -
  obtain order residual ok where t: "topoOrder (newGraph compile steps routes) = (order, residual, ok)"
    by (metis prod_cases3)
  have ok: "ok \<longleftrightarrow> acyclic (edges_of steps routes)"
    using topo_ok_iff[OF assms(1), of compile routes] by (simp add: t)
  show ?thesis
    using acyclic_has_entry[OF _ assms(2), of routes compile] by (auto simp: cycleMsg_def t ok)
qed

lemma mapIDOf_step:
  assumes "distinct (names_of steps)" "ws \<in> set steps"
  shows "mapIDOf steps (st_Name ws) = ws_MapID ws"
proof -
  have other: "fold (\<lambda>ws v. if ws_MapID ws \<noteq> [] \<and> st_Name ws = n then ws_MapID ws else v) xs v = v"
    if "n \<notin> set (names_of xs)" for n xs and v
    using that by (induction xs arbitrary: v) auto
  have "fold (\<lambda>ws v. if ws_MapID ws \<noteq> [] \<and> st_Name ws = st_Name w then ws_MapID ws else v) xs []
      = ws_MapID w" if "distinct (names_of xs)" "w \<in> set xs" for w xs
    using that
  proof (induction xs)
    case (Cons x xs)
    show ?case
    proof (cases "w = x")
      case True
      then show ?thesis using Cons.prems other[of "st_Name x" xs] by simp
    next
      case False
      then have "w \<in> set xs" "st_Name x \<noteq> st_Name w" using Cons.prems by auto
      then show ?thesis using Cons by simp
    qed
  qed simp
  from this[OF assms] show ?thesis by (simp add: mapIDOf_def)
qed

end
