(* ===== verification/Wf_Scheduler.thy ===== *)
theory Wf_Scheduler
  imports Wf_Regions
begin

text \<open>
  The frontier scheduler of a run (\<open>src/systems/workflows/scheduler.go\<close>, with the condition
  environment of \<open>expressions.go\<close>).  The traversal state is owned by one goroutine; worker
  goroutines only report results over a channel.  The loop body of \<open>runGraph\<close> is therefore
  two deterministic functions on the state, \<open>topStep\<close> (launch what is ready, decide whether
  the frontier is drained) and \<open>collectStep\<close> (take one result off the channel), and the
  nondeterminism of the run, which launched unit reports next, with what result, and whether
  the context is cancelled meanwhile, is the step relation \<open>sched_step\<close>.

  Calls that leave the process (step-run rows, the ticket reporter, the progress hint) are
  recorded in order in the state's effect log.
\<close>

section \<open>Node and edge states\<close>

datatype nodeState =
    NodePending | NodeRunning | NodeCompleted | NodeFailed | NodeSkipped | NodeAwaiting | NodeCancelled

fun terminal :: "nodeState \<Rightarrow> bool" where
  "terminal NodeCompleted = True"
| "terminal NodeFailed = True"
| "terminal NodeSkipped = True"
| "terminal NodeCancelled = True"
| "terminal _ = False"

fun nodeStateString :: "nodeState \<Rightarrow> string" where
  "nodeStateString NodePending = ''pending''"
| "nodeStateString NodeRunning = ''running''"
| "nodeStateString NodeCompleted = ''completed''"
| "nodeStateString NodeFailed = ''failed''"
| "nodeStateString NodeSkipped = ''skipped''"
| "nodeStateString NodeAwaiting = ''awaiting''"
| "nodeStateString NodeCancelled = ''cancelled''"

datatype edgeState = EdgePending | EdgeTaken | EdgeNotTaken

text \<open>Run statuses a group of steps or a graph can end with.\<close>

datatype runStatus = StatusCompleted | StatusFailed | StatusCancelled | StatusPaused

fun statusToNodeState :: "runStatus \<Rightarrow> nodeState" where
  "statusToNodeState StatusCompleted = NodeCompleted"
| "statusToNodeState StatusCancelled = NodeCancelled"
| "statusToNodeState _ = NodeFailed"

datatype effect =
    RouteFailedRun nat string string string
  | TicketStepDone string nodeState nat
  | TicketRetitle
  | PublishCurrentStep nat

record runState =
  rs_nodes :: "string \<rightharpoonup> nodeState"
  rs_edges :: "edgeState list"
  rs_outputs :: "string \<rightharpoonup> string"
  rs_log :: "effect list"

definition newRunState :: "'p workflowGraph \<Rightarrow> (string \<rightharpoonup> string) \<Rightarrow> string set \<Rightarrow> runState" where
  "newRunState g outputs completed =
     \<lparr>rs_nodes = fold (\<lambda>ws m. m(st_Name ws \<mapsto> (if st_Name ws \<in> completed then NodeCompleted
                                                 else NodePending))) (g_steps g) Map.empty,
      rs_edges = replicate (length (g_routes g)) EdgePending,
      rs_outputs = outputs, rs_log = []\<rparr>"

text \<open>
  Reading an edge.  \<open>st.edges\<close> has one entry per route and the indices come from
  \<open>g.in\<close>/\<open>g.out\<close>, so the out-of-range case (a panic in Go) does not arise.
\<close>

definition edgeAt :: "runState \<Rightarrow> nat \<Rightarrow> edgeState" where
  "edgeAt st ri = (if ri < length (rs_edges st) then rs_edges st ! ri else EdgeNotTaken)"

section \<open>Route conditions\<close>

record stepView =
  sv_Status :: string
  sv_Output :: string
  sv_JSON :: "(string \<times> gany) list option"

record exprEnv =
  ee_Inputs :: "string \<rightharpoonup> string"
  ee_Steps :: "string \<rightharpoonup> stepView"
  ee_RunID :: string

text \<open>
  What the evaluation of a condition needs from outside the repository: running a compiled
  program of \<open>expr-lang/expr\<close> (\<open>None\<close>: no result within \<open>exprEvalTimeout\<close>; \<open>Inl\<close>: an error),
  and reading an output as a JSON object.
\<close>

record 'p condEngine =
  ce_run :: "'p \<Rightarrow> exprEnv \<Rightarrow> (string + gany) option"
  ce_object :: "string \<Rightarrow> (string \<times> gany) list option"

definition buildExprEnv ::
  "'p condEngine \<Rightarrow> (string \<rightharpoonup> string) \<Rightarrow> string \<Rightarrow> (string \<rightharpoonup> nodeState) \<Rightarrow> (string \<rightharpoonup> string) \<Rightarrow> exprEnv" where
  "buildExprEnv E inputs runID states outputs =
     \<lparr>ee_Inputs = inputs,
      ee_Steps = (\<lambda>name. case states name of
          None \<Rightarrow> None
        | Some s \<Rightarrow>
            if \<not> terminal s then None
            else (let out = (case outputs name of None \<Rightarrow> [] | Some v \<Rightarrow> v)
                  in Some \<lparr>sv_Status = nodeStateString s, sv_Output = out,
                           sv_JSON = (if out = [] then None else ce_object E out)\<rparr>)),
      ee_RunID = runID\<rparr>"

definition evalWhen :: "'p condEngine \<Rightarrow> 'p option \<Rightarrow> exprEnv \<Rightarrow> string + bool" where
  "evalWhen E prog env =
     (case prog of
        None \<Rightarrow> Inr True
      | Some p \<Rightarrow>
          (case ce_run E p env of
             None \<Rightarrow> Inl ''condition timed out''
           | Some (Inl err) \<Rightarrow> Inl err
           | Some (Inr (ABool b)) \<Rightarrow> Inr b
           | Some (Inr _) \<Rightarrow> Inl ''condition returned a value that is no bool''))"

section \<open>Resolving the routes of a terminal node\<close>

text \<open>What a run carries unchanged: the condition engine, the run id and its inputs.\<close>

record 'p runCtx =
  rc_engine :: "'p condEngine"
  rc_runID :: string
  rc_inputs :: "string \<rightharpoonup> string"
  rc_inbound :: "string \<rightharpoonup> string"

definition decideRoute ::
  "'p runCtx \<Rightarrow> 'p workflowGraph \<Rightarrow> runState \<Rightarrow> nat \<Rightarrow> nodeState option \<Rightarrow> edgeState \<times> effect list" where
  "decideRoute C g st ri src =
     (let r = g_routes g ! ri in
      if src = Some NodeSkipped \<or> src = Some NodeCancelled then (EdgeNotTaken, [])
      else if r_When r = [] then
        ((if src = Some NodeCompleted then EdgeTaken else EdgeNotTaken), [])
      else
        (case evalWhen (rc_engine C) (g_programs g ! ri)
                (buildExprEnv (rc_engine C) (rc_inputs C) (rc_runID C) (rs_nodes st) (rs_outputs st)) of
           Inl err \<Rightarrow> (EdgeNotTaken, [RouteFailedRun (stepIndex g (r_To r)) (r_From r) (r_To r) err])
         | Inr ok \<Rightarrow> ((if ok then EdgeTaken else EdgeNotTaken), [])))"

definition allResolved :: "'p workflowGraph \<Rightarrow> runState \<Rightarrow> string \<Rightarrow> bool" where
  "allResolved g st node \<longleftrightarrow> (\<forall>ri\<in>set (g_in g node). edgeAt st ri \<noteq> EdgePending)"

definition anyTaken :: "'p workflowGraph \<Rightarrow> runState \<Rightarrow> string \<Rightarrow> bool" where
  "anyTaken g st node \<longleftrightarrow> (\<exists>ri\<in>set (g_in g node). edgeAt st ri = EdgeTaken)"

text \<open>Deciding one route.\<close>

definition setEdge :: "'p runCtx \<Rightarrow> 'p workflowGraph \<Rightarrow> nat \<Rightarrow> nodeState option \<Rightarrow> runState \<Rightarrow> runState" where
  "setEdge C g ri src st =
     (case decideRoute C g st ri src of (e, eff) \<Rightarrow>
        st\<lparr>rs_edges := (rs_edges st)[ri := e], rs_log := rs_log st @ eff\<rparr>)"

definition skipsNow :: "'p workflowGraph \<Rightarrow> runState \<Rightarrow> string \<Rightarrow> bool" where
  "skipsNow g st to \<longleftrightarrow> rs_nodes st to = Some NodePending \<and> allResolved g st to \<and> \<not> anyTaken g st to"

text \<open>The inner loop of \<open>resolveOutbound\<close>, over the outbound routes of one node.\<close>

fun resolveEdges ::
  "'p runCtx \<Rightarrow> 'p workflowGraph \<Rightarrow> nodeState option \<Rightarrow> nat list \<Rightarrow> runState \<Rightarrow> string list
   \<Rightarrow> runState \<times> string list" where
  "resolveEdges C g src [] st queue = (st, queue)"
| "resolveEdges C g src (ri # ris) st queue =
     (if edgeAt st ri \<noteq> EdgePending then resolveEdges C g src ris st queue
      else (let st1 = setEdge C g ri src st; to = r_To (g_routes g ! ri)
            in if skipsNow g st1 to
               then resolveEdges C g src ris (st1\<lparr>rs_nodes := (rs_nodes st1)(to \<mapsto> NodeSkipped)\<rparr>)
                      (queue @ [to])
               else resolveEdges C g src ris st1 queue))"

definition pendingEdges :: "runState \<Rightarrow> nat" where
  "pendingEdges st = length (filter (\<lambda>e. e = EdgePending) (rs_edges st))"

lemma decideRoute_decides: "fst (decideRoute C g st ri src) \<noteq> EdgePending"
  by (simp add: decideRoute_def Let_def split: sum.split)

lemma filter_update_less:
  "i < length xs \<Longrightarrow> P (xs ! i) \<Longrightarrow> \<not> P y \<Longrightarrow> length (filter P (xs[i := y])) + 1 = length (filter P xs)"
  by (induction xs arbitrary: i) (auto split: nat.splits)

lemma setEdge_pending:
  assumes "edgeAt st ri = EdgePending"
  shows "pendingEdges (setEdge C g ri src st) + 1 = pendingEdges st"
proof -
  have "ri < length (rs_edges st)" "rs_edges st ! ri = EdgePending"
    using assms by (auto simp: edgeAt_def split: if_splits)
  then show ?thesis
    using decideRoute_decides[of C g st ri src]
      filter_update_less[of ri "rs_edges st" "\<lambda>e. e = EdgePending" "fst (decideRoute C g st ri src)"]
    by (cases "decideRoute C g st ri src") (simp add: setEdge_def pendingEdges_def)
qed

lemma resolveEdges_measure:
  "resolveEdges C g src ris st queue = (st', queue') \<Longrightarrow>
     pendingEdges st' + length queue' \<le> pendingEdges st + length queue"
proof (induction ris arbitrary: st queue)
  case (Cons ri ris)
  have same: "pendingEdges (st\<lparr>rs_nodes := ns\<rparr>) = pendingEdges st" for st ns
    by (simp add: pendingEdges_def)
  show ?case
  proof (cases "edgeAt st ri = EdgePending")
    case True
    then have "pendingEdges (setEdge C g ri src st) + 1 = pendingEdges st" by (rule setEdge_pending)
    with True Cons.prems Cons.IH show ?thesis by (fastforce simp: Let_def same split: if_splits)
  next
    case False
    with Cons show ?thesis by simp
  qed
qed simp

text \<open>The cascade: nodes skipped on the way are resolved in turn.\<close>

function resolveQueue ::
  "'p runCtx \<Rightarrow> 'p workflowGraph \<Rightarrow> runState \<Rightarrow> string list \<Rightarrow> runState" where
  "resolveQueue C g st [] = st"
| "resolveQueue C g st (n # queue) =
     (case resolveEdges C g (rs_nodes st n) (g_out g n) st queue of
        (st', queue') \<Rightarrow> resolveQueue C g st' queue')"
  by pat_completeness auto
termination
  apply (relation "measure (\<lambda>(C, g, st, queue). pendingEdges st + length queue)")
   apply simp
  subgoal premises prems for C g st n queue st' queue'
  proof -
    from prems have r: "resolveEdges C g (rs_nodes st n) (g_out g n) st queue = (st', queue')" by simp
    show ?thesis using resolveEdges_measure[OF r] by simp
  qed
  done

definition resolveOutbound :: "'p runCtx \<Rightarrow> 'p workflowGraph \<Rightarrow> string \<Rightarrow> runState \<Rightarrow> runState" where
  "resolveOutbound C g name st = resolveQueue C g st [name]"

section \<open>Readiness\<close>

definition nodeReady :: "'p workflowGraph \<Rightarrow> runState \<Rightarrow> string \<Rightarrow> bool" where
  "nodeReady g st n \<longleftrightarrow>
     rs_nodes st n = Some NodePending \<and> (g_in g n = [] \<or> allResolved g st n \<and> anyTaken g st n)"

definition readyNodes :: "'p workflowGraph \<Rightarrow> runState \<Rightarrow> string list" where
  "readyNodes g st =
     filter (\<lambda>n. g_regionOf g n = None \<and> g_loopOf g n = None \<and> nodeReady g st n) (names_of (g_steps g))"

definition inboundOf :: "'p workflowGraph \<Rightarrow> string list \<Rightarrow> nat list" where
  "inboundOf g nodes =
     concat (map (\<lambda>n. filter (\<lambda>ri. r_From (g_routes g ! ri) \<notin> set nodes) (g_in g n)) nodes)"

definition regionReady :: "'p workflowGraph \<Rightarrow> runState \<Rightarrow> string list \<Rightarrow> bool" where
  "regionReady g st nodes \<longleftrightarrow>
     nodes \<noteq> [] \<and> (\<forall>n\<in>set nodes. rs_nodes st n = Some NodePending)
     \<and> (let inbound = inboundOf g nodes
        in inbound = [] \<or> (\<forall>ri\<in>set inbound. edgeAt st ri \<noteq> EdgePending)
                          \<and> (\<exists>ri\<in>set inbound. edgeAt st ri = EdgeTaken))"

definition regionSkipped :: "'p workflowGraph \<Rightarrow> runState \<Rightarrow> string list \<Rightarrow> bool" where
  "regionSkipped g st nodes \<longleftrightarrow>
     (\<forall>n\<in>set nodes. rs_nodes st n = Some NodePending)
     \<and> (let inbound = inboundOf g nodes
        in inbound \<noteq> [] \<and> (\<forall>ri\<in>set inbound. edgeAt st ri = EdgeNotTaken))"

definition readyRegions :: "'p workflowGraph \<Rightarrow> runState \<Rightarrow> mapRegion list" where
  "readyRegions g st =
     concat (map (\<lambda>n. case g_regionOf g n of None \<Rightarrow> []
       | Some k \<Rightarrow> (case map_of (g_regions g) k of None \<Rightarrow> []
         | Some r \<Rightarrow> if mr_nodes r \<noteq> [] \<and> hd (mr_nodes r) = n \<and> regionReady g st (mr_nodes r)
                      then [r] else [])) (names_of (g_steps g)))"

definition readyLoops :: "'p workflowGraph \<Rightarrow> runState \<Rightarrow> loopRegion list" where
  "readyLoops g st =
     concat (map (\<lambda>n. case g_loopOf g n of None \<Rightarrow> []
       | Some k \<Rightarrow> (case map_of (g_loops g) k of None \<Rightarrow> []
         | Some l \<Rightarrow> if lr_nodes l \<noteq> [] \<and> hd (lr_nodes l) = n \<and> regionReady g st (lr_nodes l)
                      then [l] else [])) (names_of (g_steps g)))"

definition awaitingNodes :: "'p workflowGraph \<Rightarrow> runState \<Rightarrow> string list" where
  "awaitingNodes g st = filter (\<lambda>n. rs_nodes st n = Some NodeAwaiting) (names_of (g_steps g))"

definition visibleForRegion ::
  "'p workflowGraph \<Rightarrow> string list \<Rightarrow> (string \<rightharpoonup> string) \<Rightarrow> (string \<rightharpoonup> string)" where
  "visibleForRegion g nodes outputs =
     (\<lambda>a. if a \<notin> set nodes \<and> (\<exists>n\<in>set nodes. case g_ancestors g n of None \<Rightarrow> False | Some s \<Rightarrow> a \<in> s)
          then outputs a else None)"

text \<open>\<open>withInbound\<close>: the iteration's inbound outputs, under the node's own view.\<close>

definition withInbound :: "(string \<rightharpoonup> string) \<Rightarrow> (string \<rightharpoonup> string) \<Rightarrow> (string \<rightharpoonup> string)" where
  "withInbound inbound visible = inbound ++ visible"

section \<open>The frontier loop\<close>

datatype workUnit = NodeUnit string | RegionUnit mapRegion | LoopUnit loopRegion

fun unitNodes :: "workUnit \<Rightarrow> string list" where
  "unitNodes (NodeUnit n) = [n]"
| "unitNodes (RegionUnit r) = mr_nodes r"
| "unitNodes (LoopUnit l) = lr_nodes l"

datatype phase = AtTop | Collecting | Returned runStatus

record sched =
  sc_st :: runState
  sc_inflight :: "(workUnit \<times> (string \<rightharpoonup> string)) list"
  sc_final :: runStatus
  sc_cancelled :: bool
  sc_phase :: phase

definition setNodes :: "string list \<Rightarrow> nodeState \<Rightarrow> runState \<Rightarrow> runState" where
  "setNodes ns s st = st\<lparr>rs_nodes := fold (\<lambda>n m. m(n \<mapsto> s)) ns (rs_nodes st)\<rparr>"

definition launchUnit ::
  "workUnit \<Rightarrow> (string \<rightharpoonup> string) \<Rightarrow> runState \<times> (workUnit \<times> (string \<rightharpoonup> string)) list
   \<Rightarrow> runState \<times> (workUnit \<times> (string \<rightharpoonup> string)) list" where
  "launchUnit u visible = (\<lambda>(st, fl). (setNodes (unitNodes u) NodeRunning st, fl @ [(u, visible)]))"

definition launchRegion ::
  "'p runCtx \<Rightarrow> 'p workflowGraph \<Rightarrow> mapRegion \<Rightarrow> runState \<times> (workUnit \<times> (string \<rightharpoonup> string)) list
   \<Rightarrow> runState \<times> (workUnit \<times> (string \<rightharpoonup> string)) list" where
  "launchRegion C g r = (\<lambda>(st, fl). launchUnit (RegionUnit r)
     (withInbound (rc_inbound C) (visibleForRegion g (mr_nodes r) (rs_outputs st))) (st, fl))"

definition launchLoop ::
  "'p runCtx \<Rightarrow> 'p workflowGraph \<Rightarrow> loopRegion \<Rightarrow> runState \<times> (workUnit \<times> (string \<rightharpoonup> string)) list
   \<Rightarrow> runState \<times> (workUnit \<times> (string \<rightharpoonup> string)) list" where
  "launchLoop C g l = (\<lambda>(st, fl). launchUnit (LoopUnit l)
     (withInbound (rc_inbound C) (visibleForRegion g (lr_nodes l) (rs_outputs st))) (st, fl))"

text \<open>An approval gate is parked; any other ready node starts.\<close>

definition isGate :: "'p workflowGraph \<Rightarrow> string \<Rightarrow> bool" where
  "isGate g n = (case g_index g n of None \<Rightarrow> False
     | Some i \<Rightarrow> st_Action (g_steps g ! i) = ActionApproval \<or> ws_Approval (g_steps g ! i) \<noteq> None)"

definition launchNode ::
  "'p runCtx \<Rightarrow> 'p workflowGraph \<Rightarrow> string \<Rightarrow> runState \<times> (workUnit \<times> (string \<rightharpoonup> string)) list
   \<Rightarrow> runState \<times> (workUnit \<times> (string \<rightharpoonup> string)) list" where
  "launchNode C g n = (\<lambda>(st, fl).
     if isGate g n then (setNodes [n] NodeAwaiting st, fl)
     else launchUnit (NodeUnit n) (withInbound (rc_inbound C) (visibleFor g n (rs_outputs st))) (st, fl))"

text \<open>\<open>skipSkippedRegions\<close>: maps first, then top-level loops.\<close>

definition skipRegion :: "'p runCtx \<Rightarrow> 'p workflowGraph \<Rightarrow> string list \<Rightarrow> runState \<Rightarrow> runState" where
  "skipRegion C g nodes st =
     (if regionSkipped g st nodes
      then fold (resolveOutbound C g) nodes (setNodes nodes NodeSkipped st) else st)"

definition skipSkippedRegions :: "'p runCtx \<Rightarrow> 'p workflowGraph \<Rightarrow> runState \<Rightarrow> runState" where
  "skipSkippedRegions C g st =
     fold (\<lambda>(k, l) st. if outermostLoop (g_loops g) (ld_ID (lr_def l)) \<noteq> ld_ID (lr_def l) then st
                       else skipRegion C g (lr_nodes l) st)
       (g_loops g)
       (fold (\<lambda>(k, r) st. skipRegion C g (mr_nodes r) st) (g_regions g) st)"

definition publishCurrentStep :: "'p workflowGraph \<Rightarrow> runState \<Rightarrow> runState" where
  "publishCurrentStep g st =
     (let running = filter (\<lambda>n. rs_nodes st n = Some NodeRunning) (names_of (g_steps g))
      in if running = [] then st
         else st\<lparr>rs_log := rs_log st @ [PublishCurrentStep (Min (set (map (stepIndex g) running)))]\<rparr>)"

text \<open>The launch part of one iteration of the loop.\<close>

definition launchPhase ::
  "'p runCtx \<Rightarrow> 'p workflowGraph \<Rightarrow> runState \<times> (workUnit \<times> (string \<rightharpoonup> string)) list
   \<Rightarrow> runState \<times> (workUnit \<times> (string \<rightharpoonup> string)) list" where
  "launchPhase C g = (\<lambda>(st, fl).
     (let (st1, fl1) = fold (launchRegion C g) (readyRegions g st) (st, fl);
          (st2, fl2) = fold (launchLoop C g) (readyLoops g st1) (st1, fl1);
          (st3, fl3) = fold (launchNode C g) (readyNodes g st2) (st2, fl2)
      in (publishCurrentStep g (skipSkippedRegions C g st3), fl3)))"

text \<open>
  The top of the loop: launch unless cancelled (a cancelled run turns a green status into
  cancelled); leave the loop when nothing is in flight.
\<close>

definition topStep :: "'p runCtx \<Rightarrow> 'p workflowGraph \<Rightarrow> sched \<Rightarrow> sched" where
  "topStep C g s =
     (let (st, fl) = (if sc_cancelled s then (sc_st s, sc_inflight s)
                      else launchPhase C g (sc_st s, sc_inflight s));
          final = (if sc_cancelled s \<and> sc_final s = StatusCompleted then StatusCancelled else sc_final s);
          phase = (if fl \<noteq> [] then Collecting
                   else Returned (if final = StatusCompleted \<and> awaitingNodes g st \<noteq> [] then StatusPaused
                                  else final))
      in s\<lparr>sc_st := st, sc_inflight := fl, sc_final := final, sc_phase := phase\<rparr>)"

text \<open>One result off the channel.  \<open>nodeResult\<close> without its unit.\<close>

record unitResult =
  ur_status :: runStatus
  ur_output :: string
  ur_regionOutputs :: "string \<rightharpoonup> string"
  ur_legs :: nat

definition finalAfter :: "runStatus \<Rightarrow> nodeState \<Rightarrow> runStatus" where
  "finalAfter final s =
     (if s = NodeFailed then StatusFailed
      else if s = NodeCancelled \<and> final = StatusCompleted then StatusCancelled else final)"

definition recordResult :: "workUnit \<Rightarrow> unitResult \<Rightarrow> runState \<Rightarrow> runState" where
  "recordResult u r st =
     (let s = statusToNodeState (ur_status r);
          outs = (case u of NodeUnit n \<Rightarrow>
                    (if s = NodeCompleted then (rs_outputs st)(n \<mapsto> ur_output r) else rs_outputs st)
                  | _ \<Rightarrow> rs_outputs st ++ ur_regionOutputs r)
      in (setNodes (unitNodes u) s st)
           \<lparr>rs_outputs := outs,
            rs_log := rs_log st @ map (\<lambda>n. TicketStepDone n s (ur_legs r)) (unitNodes u)
                      @ [TicketRetitle]\<rparr>)"

definition collectStep ::
  "'p runCtx \<Rightarrow> 'p workflowGraph \<Rightarrow> nat \<Rightarrow> unitResult \<Rightarrow> sched \<Rightarrow> sched" where
  "collectStep C g i r s =
     (let u = fst (sc_inflight s ! i); s' = statusToNodeState (ur_status r)
      in s\<lparr>sc_st := fold (resolveOutbound C g) (unitNodes u) (recordResult u r (sc_st s)),
           sc_inflight := take i (sc_inflight s) @ drop (Suc i) (sc_inflight s),
           sc_final := finalAfter (sc_final s) s',
           sc_phase := AtTop\<rparr>)"

text \<open>The start: a resumed run's completed nodes resolve their routes before the first launch.\<close>

definition seedState :: "'p runCtx \<Rightarrow> 'p workflowGraph \<Rightarrow> runState \<Rightarrow> runState" where
  "seedState C g st =
     fold (\<lambda>n st. if rs_nodes st n = Some NodeCompleted then resolveOutbound C g n st else st)
       (names_of (g_steps g)) st"

definition initSched :: "'p runCtx \<Rightarrow> 'p workflowGraph \<Rightarrow> runState \<Rightarrow> sched" where
  "initSched C g st =
     \<lparr>sc_st = seedState C g st, sc_inflight = [], sc_final = StatusCompleted, sc_cancelled = False,
      sc_phase = AtTop\<rparr>"

inductive sched_step :: "'p runCtx \<Rightarrow> 'p workflowGraph \<Rightarrow> sched \<Rightarrow> sched \<Rightarrow> bool"
  for C :: "'p runCtx" and g :: "'p workflowGraph" where
  top: "sc_phase s = AtTop \<Longrightarrow> sched_step C g s (topStep C g s)"
| collect: "sc_phase s = Collecting \<Longrightarrow> i < length (sc_inflight s) \<Longrightarrow> ur_status r \<noteq> StatusPaused \<Longrightarrow>
    sched_step C g s (collectStep C g i r s)"
| cancel: "\<not> sc_cancelled s \<Longrightarrow> sched_step C g s (s\<lparr>sc_cancelled := True\<rparr>)"

inductive_cases sched_stepE: "sched_step C g s s'"

text \<open>The same loop driven by a list of events, for evaluation on concrete schedules.\<close>

datatype schedEvent = EvTop | EvResult nat unitResult | EvCancel

fun sched_run :: "'p runCtx \<Rightarrow> 'p workflowGraph \<Rightarrow> schedEvent list \<Rightarrow> sched \<Rightarrow> sched option" where
  "sched_run C g [] s = Some s"
| "sched_run C g (EvTop # es) s =
     (if sc_phase s = AtTop then sched_run C g es (topStep C g s) else None)"
| "sched_run C g (EvResult i r # es) s =
     (if sc_phase s = Collecting \<and> i < length (sc_inflight s) \<and> ur_status r \<noteq> StatusPaused
      then sched_run C g es (collectStep C g i r s) else None)"
| "sched_run C g (EvCancel # es) s =
     (if \<not> sc_cancelled s then sched_run C g es (s\<lparr>sc_cancelled := True\<rparr>) else None)"

lemma sched_run_steps: "sched_run C g es s = Some s' \<Longrightarrow> (sched_step C g)\<^sup>*\<^sup>* s s'"
proof (induction C g es s rule: sched_run.induct)
  case (2 C g es s)
  then show ?case
    by (auto split: if_splits intro: converse_rtranclp_into_rtranclp[of "sched_step C g"] sched_step.top)
next
  case (3 C g i r es s)
  then show ?case
    by (auto split: if_splits intro: converse_rtranclp_into_rtranclp[of "sched_step C g"] sched_step.collect)
next
  case (4 C g es s)
  then show ?case
    by (auto split: if_splits intro: converse_rtranclp_into_rtranclp[of "sched_step C g"] sched_step.cancel)
qed auto

end
