(* ===== verification/Wf_SchedInv.thy ===== *)
theory Wf_SchedInv
  imports Wf_Scheduler
begin

text \<open>
  Invariants of the frontier scheduler on graphs without regions: what is true between the
  node states and the edge states after every cascade of \<open>resolveOutbound\<close>, and what follows
  for a whole run: the life cycle of a node, the readiness rule, progress (a drained frontier
  has left no node behind), the meaning of the final status and the stability of the outputs
  a node sees.
\<close>

section \<open>Graphs the theorems are about\<close>

text \<open>A graph as \<open>newGraph\<close> builds it, with unique step names, cleared by the cycle check.\<close>

definition flatGraph :: "'p workflowGraph \<Rightarrow> bool" where
  "flatGraph g \<longleftrightarrow> (\<exists>c steps routes. g = newGraph c steps routes \<and> distinct (names_of steps)
                      \<and> acyclic (edges_of steps routes))"

abbreviation nodesOf :: "'p workflowGraph \<Rightarrow> string set" where
  "nodesOf g \<equiv> set (names_of (g_steps g))"

abbreviation edgeRel :: "'p workflowGraph \<Rightarrow> (string \<times> string) set" where
  "edgeRel g \<equiv> edges_of (g_steps g) (g_routes g)"

abbreviation srcOf :: "'p workflowGraph \<Rightarrow> nat \<Rightarrow> string" where
  "srcOf g ri \<equiv> r_From (g_routes g ! ri)"

abbreviation dstOf :: "'p workflowGraph \<Rightarrow> nat \<Rightarrow> string" where
  "dstOf g ri \<equiv> r_To (g_routes g ! ri)"

lemma flatGraphD:
  assumes "flatGraph g"
  shows "ri \<in> set (g_in g n) \<longleftrightarrow> ri < length (g_routes g) \<and> dstOf g ri = n
            \<and> srcOf g ri \<in> nodesOf g \<and> n \<in> nodesOf g"
    and "ri \<in> set (g_out g n) \<longleftrightarrow> ri < length (g_routes g) \<and> srcOf g ri = n
            \<and> dstOf g ri \<in> nodesOf g \<and> n \<in> nodesOf g"
    and "g_regionOf g = Map.empty" "g_loopOf g = Map.empty" "g_regions g = []" "g_loops g = []"
    and "distinct (names_of (g_steps g))" "acyclic (edgeRel g)"
    and "g_index g = buildIndex (g_steps g)"
    and "visibleFor g n outs = (\<lambda>a. if (a, n) \<in> (edgeRel g)\<^sup>+ then outs a else None)"
  using assms by (auto simp: flatGraph_def visibleFor_newGraph)

lemma in_edge_rel: "flatGraph g \<Longrightarrow> ri \<in> set (g_in g n) \<Longrightarrow> (srcOf g ri, n) \<in> edgeRel g"
  unfolding edges_of_def by (auto simp: flatGraphD(1))

lemma edge_rel_in:
  assumes "flatGraph g" "(a, n) \<in> edgeRel g"
  shows "\<exists>ri \<in> set (g_in g n). srcOf g ri = a"
  using assms unfolding flatGraph_def by (auto simp: edges_of_iff_in[THEN iffD1])

section \<open>What a cascade keeps\<close>

text \<open>\<open>st'\<close> is \<open>st\<close> with more routes decided and pending nodes skipped.\<close>

definition cascades :: "runState \<Rightarrow> runState \<Rightarrow> bool" where
  "cascades st st' \<longleftrightarrow>
     rs_outputs st' = rs_outputs st \<and> length (rs_edges st') = length (rs_edges st)
     \<and> (\<forall>n. rs_nodes st' n = rs_nodes st n
             \<or> rs_nodes st n = Some NodePending \<and> rs_nodes st' n = Some NodeSkipped)
     \<and> (\<forall>ri. edgeAt st ri \<noteq> EdgePending \<longrightarrow> edgeAt st' ri = edgeAt st ri)"

lemma cascades_refl [simp]: "cascades st st"
  by (simp add: cascades_def)

lemma cascades_trans: "cascades a b \<Longrightarrow> cascades b c \<Longrightarrow> cascades a c"
  unfolding cascades_def by (metis nodeState.distinct(7))

lemma cascades_terminal:
  "cascades st st' \<Longrightarrow> rs_nodes st n = Some s \<Longrightarrow> s \<noteq> NodePending \<Longrightarrow> rs_nodes st' n = Some s"
  unfolding cascades_def by (metis option.inject)

lemma cascades_resolved:
  assumes "cascades st st'" "allResolved g st n"
  shows "allResolved g st' n" "anyTaken g st' n \<longleftrightarrow> anyTaken g st n"
  using assms by (auto simp: cascades_def allResolved_def anyTaken_def)

text \<open>
  What the state of a node says about its inbound routes.  \<open>D\<close> is the set of nodes a resumed
  run starts with as completed.
\<close>

definition nodeOK :: "'p workflowGraph \<Rightarrow> string set \<Rightarrow> runState \<Rightarrow> string \<Rightarrow> nodeState \<Rightarrow> bool" where
  "nodeOK g D st n s \<longleftrightarrow>
     (n \<in> D \<longrightarrow> s = NodeCompleted)
     \<and> (s = NodePending \<longrightarrow> g_in g n = [] \<or> \<not> allResolved g st n \<or> anyTaken g st n)
     \<and> (s = NodeSkipped \<longrightarrow> g_in g n \<noteq> [] \<and> allResolved g st n \<and> \<not> anyTaken g st n)
     \<and> (s \<noteq> NodePending \<and> s \<noteq> NodeSkipped \<and> n \<notin> D \<longrightarrow>
          g_in g n = [] \<or> allResolved g st n \<and> anyTaken g st n)"

text \<open>What the state of a decided edge says about its source.\<close>

definition edgeOK :: "'p workflowGraph \<Rightarrow> runState \<Rightarrow> nat \<Rightarrow> bool" where
  "edgeOK g st ri \<longleftrightarrow> edgeAt st ri \<noteq> EdgePending \<longrightarrow>
     srcOf g ri \<in> nodesOf g \<and> dstOf g ri \<in> nodesOf g
     \<and> (\<exists>s. rs_nodes st (srcOf g ri) = Some s \<and> terminal s
          \<and> (s = NodeSkipped \<or> s = NodeCancelled \<longrightarrow> edgeAt st ri = EdgeNotTaken)
          \<and> (r_When (g_routes g ! ri) = [] \<longrightarrow> (edgeAt st ri = EdgeTaken \<longleftrightarrow> s = NodeCompleted)))"

text \<open>
  The invariant.  \<open>X\<close> is the set of outbound routes of terminal nodes a cascade in progress
  still has to decide.
\<close>

definition cascInv :: "'p workflowGraph \<Rightarrow> string set \<Rightarrow> nat set \<Rightarrow> runState \<Rightarrow> bool" where
  "cascInv g D X st \<longleftrightarrow>
     length (rs_edges st) = length (g_routes g)
     \<and> dom (rs_nodes st) = nodesOf g
     \<and> (\<forall>n s. rs_nodes st n = Some s \<longrightarrow> nodeOK g D st n s)
     \<and> (\<forall>ri < length (g_routes g). edgeOK g st ri)
     \<and> (\<forall>n s ri. rs_nodes st n = Some s \<and> terminal s \<and> ri \<in> set (g_out g n) \<and> ri \<notin> X
           \<longrightarrow> edgeAt st ri \<noteq> EdgePending)"

lemma decideRoute_value:
  assumes "src = Some s"
  shows "(s = NodeSkipped \<or> s = NodeCancelled \<longrightarrow> fst (decideRoute C g st ri src) = EdgeNotTaken)
    \<and> (r_When (g_routes g ! ri) = [] \<longrightarrow>
         (fst (decideRoute C g st ri src) = EdgeTaken \<longleftrightarrow> s = NodeCompleted))"
  using assms by (auto simp: decideRoute_def Let_def)

lemma setEdge_sel [simp]:
  "rs_nodes (setEdge C g ri src st) = rs_nodes st"
  "rs_outputs (setEdge C g ri src st) = rs_outputs st"
  "rs_edges (setEdge C g ri src st) = (rs_edges st)[ri := fst (decideRoute C g st ri src)]"
  by (simp_all add: setEdge_def split: prod.split)

lemma edgeAt_setEdge:
  "ri < length (rs_edges st) \<Longrightarrow>
   edgeAt (setEdge C g ri src st) rj =
     (if rj = ri then fst (decideRoute C g st ri src) else edgeAt st rj)"
  by (auto simp: edgeAt_def)

lemma edgeAt_nodes [simp]: "edgeAt (st\<lparr>rs_nodes := ns\<rparr>) ri = edgeAt st ri"
  by (simp add: edgeAt_def)

lemma resolved_nodes [simp]:
  "allResolved g (st\<lparr>rs_nodes := ns\<rparr>) n = allResolved g st n"
  "anyTaken g (st\<lparr>rs_nodes := ns\<rparr>) n = anyTaken g st n"
  by (simp_all add: allResolved_def anyTaken_def)

text \<open>One decided route, with the skip it may cause.\<close>

definition edgeStep :: "'p runCtx \<Rightarrow> 'p workflowGraph \<Rightarrow> nodeState option \<Rightarrow> nat \<Rightarrow> runState \<Rightarrow> runState" where
  "edgeStep C g src ri st =
     (let st1 = setEdge C g ri src st; to = dstOf g ri
      in if skipsNow g st1 to then st1\<lparr>rs_nodes := (rs_nodes st1)(to \<mapsto> NodeSkipped)\<rparr> else st1)"

lemma edgeStep_cascades:
  assumes "edgeAt st ri = EdgePending"
  shows "cascades st (edgeStep C g src ri st)"
proof -
  have "ri < length (rs_edges st)" using assms by (auto simp: edgeAt_def split: if_splits)
  then show ?thesis
    using assms
    by (auto simp: cascades_def edgeStep_def Let_def edgeAt_setEdge skipsNow_def)
qed

lemma edgeStep_inv:
  assumes g: "flatGraph g" and inv: "cascInv g D (insert ri X) st"
    and pend: "edgeAt st ri = EdgePending"
    and ri: "ri \<in> set (g_out g n)" and n: "rs_nodes st n = Some s" "terminal s"
  shows "cascInv g D (X \<union> (if skipsNow g (setEdge C g ri (Some s) st) (dstOf g ri)
                              then set (g_out g (dstOf g ri)) else {}))
           (edgeStep C g (Some s) ri st)"
proof -
  let ?st1 = "setEdge C g ri (Some s) st" and ?to = "dstOf g ri"
  let ?st2 = "edgeStep C g (Some s) ri st" and ?skip = "skipsNow g ?st1 ?to"
  let ?e = "fst (decideRoute C g st ri (Some s))"
  note flat = flatGraphD[OF g]
  have len: "length (rs_edges st) = length (g_routes g)" and dom: "dom (rs_nodes st) = nodesOf g"
    and nok: "\<And>m t. rs_nodes st m = Some t \<Longrightarrow> nodeOK g D st m t"
    and eok: "\<And>rj. rj < length (g_routes g) \<Longrightarrow> edgeOK g st rj"
    and out: "\<And>m t rj. rs_nodes st m = Some t \<Longrightarrow> terminal t \<Longrightarrow> rj \<in> set (g_out g m)
                \<Longrightarrow> rj \<noteq> ri \<Longrightarrow> rj \<notin> X \<Longrightarrow> edgeAt st rj \<noteq> EdgePending"
    using inv unfolding cascInv_def by auto
  have ri': "ri < length (g_routes g)" "srcOf g ri = n" "?to \<in> nodesOf g" "n \<in> nodesOf g"
    using ri flat(2) by auto
  have casc: "cascades st ?st2" using edgeStep_cascades[OF pend] .
  have edge2: "edgeAt ?st2 rj = (if rj = ri then ?e else edgeAt st rj)" for rj
    using ri'(1) len by (simp add: edgeStep_def Let_def edgeAt_setEdge)
  have e: "?e \<noteq> EdgePending" by (rule decideRoute_decides)
  have nodes2: "rs_nodes ?st2 m = (if ?skip \<and> m = ?to then Some NodeSkipped else rs_nodes st m)" for m
    by (simp add: edgeStep_def Let_def)
  have res: "allResolved g ?st2 m = allResolved g ?st1 m" "anyTaken g ?st2 m = anyTaken g ?st1 m" for m
    by (simp_all add: edgeStep_def Let_def)
  have stable: "allResolved g ?st2 m" "anyTaken g ?st2 m \<longleftrightarrow> anyTaken g st m" if "allResolved g st m" for m
    using cascades_resolved[OF casc that] by auto
  have other: "allResolved g ?st2 m \<longleftrightarrow> allResolved g st m" "anyTaken g ?st2 m \<longleftrightarrow> anyTaken g st m"
    if "m \<noteq> ?to" for m
  proof -
    have "ri \<notin> set (g_in g m)" using that flat(1) by auto
    then have "edgeAt ?st2 rj = edgeAt st rj" if "rj \<in> set (g_in g m)" for rj
      using that edge2[of rj] by metis
    then show "allResolved g ?st2 m \<longleftrightarrow> allResolved g st m" "anyTaken g ?st2 m \<longleftrightarrow> anyTaken g st m"
      by (auto simp: allResolved_def anyTaken_def)
  qed
  have in_to: "g_in g ?to \<noteq> []" "ri \<in> set (g_in g ?to)"
    using flat(1)[of ri ?to] ri' by auto
  have "nodeOK g D ?st2 m t" if m: "rs_nodes ?st2 m = Some t" for m t
  proof (cases "?skip \<and> m = ?to")
    case True
    then have "rs_nodes st m = Some NodePending" "allResolved g ?st2 m" "\<not> anyTaken g ?st2 m" "t = NodeSkipped"
      using m nodes2[of m] by (auto simp: skipsNow_def res)
    with nok[of m NodePending] in_to True show ?thesis by (auto simp: nodeOK_def)
  next
    case False
    then have old: "rs_nodes st m = Some t" using m nodes2[of m] by auto
    show ?thesis
    proof (cases "m = ?to")
      case True
      then have "\<not> ?skip" using False by simp
      then have "t = NodePending \<longrightarrow> \<not> allResolved g ?st2 m \<or> anyTaken g ?st2 m"
        using old True by (auto simp: skipsNow_def res)
      with nok[OF old] stable[of m] in_to True show ?thesis by (auto simp: nodeOK_def)
    next
      case False
      with nok[OF old] other[OF False] show ?thesis by (simp add: nodeOK_def)
    qed
  qed
  moreover have "edgeOK g ?st2 rj" if rj: "rj < length (g_routes g)" for rj
  proof (cases "rj = ri")
    case True
    have "rs_nodes ?st2 n = Some s" using cascades_terminal[OF casc n(1)] n(2) by (cases s) auto
    then show ?thesis
      using ri' n(2) decideRoute_value[of "Some s" s C g st ri] edge2[of ri]
      by (auto simp: edgeOK_def True)
  next
    case False
    show ?thesis
    proof (cases "edgeAt st rj = EdgePending")
      case True
      with False edge2 show ?thesis by (simp add: edgeOK_def)
    next
      case dec: False
      with eok[OF rj] obtain t where t: "rs_nodes st (srcOf g rj) = Some t" "terminal t"
        by (auto simp: edgeOK_def)
      then have "rs_nodes ?st2 (srcOf g rj) = Some t"
        using cascades_terminal[OF casc t(1)] by (cases t) auto
      with eok[OF rj] t edge2[of rj] False dec show ?thesis by (auto simp: edgeOK_def)
    qed
  qed
  moreover have "edgeAt ?st2 rj \<noteq> EdgePending"
    if "rs_nodes ?st2 m = Some t" "terminal t" "rj \<in> set (g_out g m)"
      "rj \<notin> X \<union> (if ?skip then set (g_out g ?to) else {})" for m t rj
  proof (cases "rj = ri")
    case True
    with e edge2 show ?thesis by simp
  next
    case False
    have "rs_nodes st m = Some t"
      using that nodes2[of m] by (auto split: if_splits)
    with out[of m t rj] that False edge2[of rj] show ?thesis by auto
  qed
  moreover have "length (rs_edges ?st2) = length (g_routes g)" "dom (rs_nodes ?st2) = nodesOf g"
    using casc len dom ri'(3) by (auto simp: cascades_def edgeStep_def Let_def)
  ultimately show ?thesis unfolding cascInv_def by blast
qed


lemma cascInv_drop:
  "cascInv g D (insert ri X) st \<Longrightarrow> edgeAt st ri \<noteq> EdgePending \<Longrightarrow> cascInv g D X st"
  unfolding cascInv_def by (metis insertE)

lemma cascInv_mono: "cascInv g D X st \<Longrightarrow> X \<subseteq> Y \<Longrightarrow> cascInv g D Y st"
  unfolding cascInv_def by blast

text \<open>The outbound routes of the queued nodes.\<close>

definition queueOut :: "'p workflowGraph \<Rightarrow> string list \<Rightarrow> nat set" where
  "queueOut g queue = (\<Union>q\<in>set queue. set (g_out g q))"

lemma queueOut_simps [simp]:
  "queueOut g [] = {}" "queueOut g (q # qs) = set (g_out g q) \<union> queueOut g qs"
  "queueOut g (qs @ rs) = queueOut g qs \<union> queueOut g rs"
  by (auto simp: queueOut_def)

definition allTerminal :: "runState \<Rightarrow> string list \<Rightarrow> bool" where
  "allTerminal st ns \<longleftrightarrow> (\<forall>n\<in>set ns. \<exists>s. rs_nodes st n = Some s \<and> terminal s)"

lemma cascades_allTerminal: "cascades st st' \<Longrightarrow> allTerminal st ns \<Longrightarrow> allTerminal st' ns"
  unfolding allTerminal_def by (metis cascades_terminal terminal.simps(5))

lemma resolveEdges_inv:
  assumes g: "flatGraph g"
  shows "rs_nodes st n = Some s \<Longrightarrow> terminal s \<Longrightarrow> set ris \<subseteq> set (g_out g n) \<Longrightarrow>
    cascInv g D (set ris \<union> (queueOut g queue \<union> X)) st \<Longrightarrow> allTerminal st queue \<Longrightarrow>
    resolveEdges C g (Some s) ris st queue = (st', queue') \<Longrightarrow>
    cascInv g D (queueOut g queue' \<union> X) st' \<and> allTerminal st' queue' \<and> cascades st st'"
proof (induction ris arbitrary: st queue)
  case (Cons ri ris)
  show ?case
  proof (cases "edgeAt st ri = EdgePending")
    case False
    then have "cascInv g D (set ris \<union> (queueOut g queue \<union> X)) st"
      using Cons.prems(4) cascInv_drop by fastforce
    moreover have "resolveEdges C g (Some s) ris st queue = (st', queue')"
      using Cons.prems(6) False by simp
    ultimately show ?thesis using Cons.IH[OF Cons.prems(1,2)] Cons.prems(3,5) by simp
  next
    case True
    let ?Y = "set ris \<union> (queueOut g queue \<union> X)" and ?to = "dstOf g ri"
    let ?st2 = "edgeStep C g (Some s) ri st" and ?skip = "skipsNow g (setEdge C g ri (Some s) st) (dstOf g ri)"
    let ?q2 = "if ?skip then queue @ [?to] else queue"
    have ri: "ri \<in> set (g_out g n)" "set ris \<subseteq> set (g_out g n)" using Cons.prems(3) by auto
    have casc: "cascades st ?st2" by (rule edgeStep_cascades[OF True])
    have "cascInv g D (?Y \<union> (if ?skip then set (g_out g ?to) else {})) ?st2"
      using edgeStep_inv[OF g _ True ri(1) Cons.prems(1,2), of D ?Y C] Cons.prems(4) by simp
    then have inv: "cascInv g D (set ris \<union> (queueOut g ?q2 \<union> X)) ?st2"
      by (rule cascInv_mono) (auto split: if_splits)
    have n2: "rs_nodes ?st2 n = Some s"
      using cascades_terminal[OF casc Cons.prems(1)] Cons.prems(2) by (cases s) auto
    have "rs_nodes ?st2 ?to = Some NodeSkipped" if ?skip
      using that by (simp add: edgeStep_def Let_def)
    then have q2: "allTerminal ?st2 ?q2"
      using cascades_allTerminal[OF casc Cons.prems(5)] by (auto simp: allTerminal_def)
    have "resolveEdges C g (Some s) ris ?st2 ?q2 = (st', queue')"
      using Cons.prems(6) True by (auto simp: edgeStep_def Let_def split: if_splits)
    with Cons.IH[OF n2 Cons.prems(2) ri(2) inv q2] casc show ?thesis
      using cascades_trans by blast
  qed
qed simp

lemma resolveQueue_inv:
  "flatGraph g \<Longrightarrow> cascInv g D (queueOut g queue \<union> X) st \<Longrightarrow> allTerminal st queue \<Longrightarrow>
    cascInv g D X (resolveQueue C g st queue) \<and> cascades st (resolveQueue C g st queue)"
proof (induction C g st queue rule: resolveQueue.induct)
  case (2 C g st n queue)
  obtain s where s: "rs_nodes st n = Some s" "terminal s"
    using "2.prems"(3) by (auto simp: allTerminal_def)
  obtain st' queue' where r: "resolveEdges C g (Some s) (g_out g n) st queue = (st', queue')"
    by fastforce
  have "allTerminal st queue" using "2.prems"(3) by (simp add: allTerminal_def)
  then have "cascInv g D (queueOut g queue' \<union> X) st' \<and> allTerminal st' queue' \<and> cascades st st'"
    using "2.prems"(1,2) by (intro resolveEdges_inv[OF _ s _ _ _ r]) (simp_all add: Un_assoc)
  with "2.IH" "2.prems"(1) r s show ?case using cascades_trans by (fastforce simp: s(1))
qed simp

lemma resolveOutbound_inv:
  assumes "flatGraph g" "cascInv g D (set (g_out g n) \<union> X) st" "rs_nodes st n = Some s" "terminal s"
  shows "cascInv g D X (resolveOutbound C g n st)" "cascades st (resolveOutbound C g n st)"
  using resolveQueue_inv[of g D "[n]" X st C] assms
  by (auto simp: resolveOutbound_def allTerminal_def)


section \<open>Launching and collecting on a flat graph\<close>

lemma setNodes_sel [simp]:
  "rs_outputs (setNodes ns s st) = rs_outputs st" "rs_edges (setNodes ns s st) = rs_edges st"
  "edgeAt (setNodes ns s st) ri = edgeAt st ri"
  by (simp_all add: setNodes_def edgeAt_def)

lemma setNodes_nodes [simp]:
  "rs_nodes (setNodes ns s st) n = (if n \<in> set ns then Some s else rs_nodes st n)"
proof -
  have "fold (\<lambda>n m. m(n \<mapsto> s)) ns m n = (if n \<in> set ns then Some s else m n)" for m :: "string \<rightharpoonup> nodeState"
    by (induction ns arbitrary: m) auto
  then show ?thesis by (simp add: setNodes_def)
qed

definition launched :: "'p workflowGraph \<Rightarrow> string \<Rightarrow> nodeState" where
  "launched g n = (if isGate g n then NodeAwaiting else NodeRunning)"

definition viewOf :: "'p runCtx \<Rightarrow> 'p workflowGraph \<Rightarrow> (string \<rightharpoonup> string) \<Rightarrow> string \<Rightarrow> (string \<rightharpoonup> string)" where
  "viewOf C g outs n = withInbound (rc_inbound C) (visibleFor g n outs)"

lemma launchNodes:
  assumes "fold (launchNode C g) ns (st, fl) = (st', fl')"
  shows "rs_nodes st' n = (if n \<in> set ns then Some (launched g n) else rs_nodes st n)"
    and "rs_edges st' = rs_edges st" "rs_outputs st' = rs_outputs st"
    and "fl' = fl @ map (\<lambda>n. (NodeUnit n, viewOf C g (rs_outputs st) n)) (filter (\<lambda>n. \<not> isGate g n) ns)"
proof -
  have "rs_nodes st' = (\<lambda>n. if n \<in> set ns then Some (launched g n) else rs_nodes st n)
      \<and> rs_edges st' = rs_edges st \<and> rs_outputs st' = rs_outputs st
      \<and> fl' = fl @ map (\<lambda>n. (NodeUnit n, viewOf C g (rs_outputs st) n)) (filter (\<lambda>n. \<not> isGate g n) ns)"
    using assms
  proof (induction ns arbitrary: st fl)
    case (Cons m ns)
    obtain st1 fl1 where one: "launchNode C g m (st, fl) = (st1, fl1)" by fastforce
    have st1: "rs_nodes st1 = (rs_nodes st)(m \<mapsto> launched g m)" "rs_edges st1 = rs_edges st"
      "rs_outputs st1 = rs_outputs st"
      "fl1 = fl @ map (\<lambda>n. (NodeUnit n, viewOf C g (rs_outputs st) n)) (filter (\<lambda>n. \<not> isGate g n) [m])"
      using one by (auto simp: launchNode_def launchUnit_def launched_def viewOf_def fun_eq_iff
          split: if_splits)
    have "fold (launchNode C g) ns (st1, fl1) = (st', fl')" using Cons.prems one by simp
    from Cons.IH[OF this] show ?case by (auto simp: st1 fun_eq_iff)
  qed auto
  then show "rs_nodes st' n = (if n \<in> set ns then Some (launched g n) else rs_nodes st n)"
    "rs_edges st' = rs_edges st" "rs_outputs st' = rs_outputs st"
    "fl' = fl @ map (\<lambda>n. (NodeUnit n, viewOf C g (rs_outputs st) n)) (filter (\<lambda>n. \<not> isGate g n) ns)"
    by auto
qed

lemma publish_sel [simp]:
  "rs_nodes (publishCurrentStep g st) = rs_nodes st" "rs_edges (publishCurrentStep g st) = rs_edges st"
  "rs_outputs (publishCurrentStep g st) = rs_outputs st"
  by (simp_all add: publishCurrentStep_def Let_def)

lemma concat_nils: "concat (map (\<lambda>_. []) xs) = []"
  by (induction xs) auto

lemma flat_no_regions:
  assumes "flatGraph g"
  shows "readyRegions g st = []" "readyLoops g st = []" "skipSkippedRegions C g st = st"
    "readyNodes g st = filter (nodeReady g st) (names_of (g_steps g))"
  using flatGraphD(3-6)[OF assms]
  by (simp_all add: readyRegions_def readyLoops_def skipSkippedRegions_def readyNodes_def concat_nils)

lemma launchPhase_flat:
  assumes g: "flatGraph g" and l: "launchPhase C g (st, fl) = (st', fl')"
    and dom: "dom (rs_nodes st) = nodesOf g"
  shows "rs_nodes st' n = (if nodeReady g st n then Some (launched g n) else rs_nodes st n)"
    and "edgeAt st' ri = edgeAt st ri" "length (rs_edges st') = length (rs_edges st)"
    and "rs_outputs st' = rs_outputs st"
    and "fl' = fl @ map (\<lambda>n. (NodeUnit n, viewOf C g (rs_outputs st) n))
                 (filter (\<lambda>n. nodeReady g st n \<and> \<not> isGate g n) (names_of (g_steps g)))"
proof -
  obtain st3 fl3 where f: "fold (launchNode C g) (readyNodes g st) (st, fl) = (st3, fl3)" by fastforce
  have st': "st' = publishCurrentStep g st3" "fl' = fl3"
    using l f by (simp_all add: launchPhase_def flat_no_regions[OF g])
  have ready: "n \<in> nodesOf g" if "nodeReady g st n" for n
    using that dom by (auto simp: nodeReady_def)
  note L = launchNodes[OF f, unfolded flat_no_regions(4)[OF g]]
  have st: "rs_nodes st' = rs_nodes st3" "rs_edges st' = rs_edges st3" "rs_outputs st' = rs_outputs st3"
    using st' by simp_all
  show "rs_nodes st' n = (if nodeReady g st n then Some (launched g n) else rs_nodes st n)"
    using L(1)[of n] ready[of n] unfolding st set_filter mem_Collect_eq by (cases "nodeReady g st n") simp_all
  show "edgeAt st' ri = edgeAt st ri" "length (rs_edges st') = length (rs_edges st)"
    "rs_outputs st' = rs_outputs st" using L(2,3) st by (simp_all add: edgeAt_def)
  show "fl' = fl @ map (\<lambda>n. (NodeUnit n, viewOf C g (rs_outputs st) n))
                 (filter (\<lambda>n. nodeReady g st n \<and> \<not> isGate g n) (names_of (g_steps g)))"
    using L(4) st'(2) by (simp add: conj_commute)
qed

lemma launched_live [simp]:
  "launched g n \<noteq> NodePending" "launched g n \<noteq> NodeSkipped" "\<not> terminal (launched g n)"
  "launched g n \<noteq> NodeCompleted"
  "launched g n = NodeRunning \<longleftrightarrow> \<not> isGate g n" "launched g n = NodeAwaiting \<longleftrightarrow> isGate g n"
  by (simp_all add: launched_def)

lemma launch_inv:
  assumes inv: "cascInv g D X st"
    and nodes: "\<And>n. rs_nodes st' n = (if nodeReady g st n then Some (launched g n) else rs_nodes st n)"
    and edges: "\<And>ri. edgeAt st' ri = edgeAt st ri" "length (rs_edges st') = length (rs_edges st)"
  shows "cascInv g D X st'"
proof -
  have res: "allResolved g st' n = allResolved g st n" "anyTaken g st' n = anyTaken g st n" for n
    by (simp_all add: allResolved_def anyTaken_def edges)
  have ready: "rs_nodes st n = Some NodePending" if "nodeReady g st n" for n
    using that by (simp add: nodeReady_def)
  have termN: "rs_nodes st' n = Some s \<longleftrightarrow> rs_nodes st n = Some s" if "terminal s" for n s
    using that ready[of n] nodes[of n] by (cases s) (auto simp: launched_def)
  have "nodeOK g D st' n s" if n: "rs_nodes st' n = Some s" for n s
  proof (cases "nodeReady g st n")
    case True
    then have "nodeOK g D st n NodePending" using inv ready unfolding cascInv_def by blast
    moreover have "s = launched g n" using n nodes True by simp
    ultimately show ?thesis using True by (auto simp: nodeOK_def res nodeReady_def)
  next
    case False
    then have "nodeOK g D st n s" using inv n nodes unfolding cascInv_def by simp
    then show ?thesis by (simp add: nodeOK_def res)
  qed
  moreover have "edgeOK g st' ri" if "ri < length (g_routes g)" for ri
  proof -
    have "edgeOK g st ri" using inv that unfolding cascInv_def by blast
    then show ?thesis using termN by (auto simp: edgeOK_def edges)
  qed
  moreover have "dom (rs_nodes st') = dom (rs_nodes st)"
  proof -
    have "rs_nodes st' n = None \<longleftrightarrow> rs_nodes st n = None" for n
      using nodes[of n] ready[of n] by auto
    then show ?thesis by (auto simp: dom_def)
  qed
  then have "dom (rs_nodes st') = nodesOf g" "length (rs_edges st') = length (g_routes g)"
    using inv edges(2) unfolding cascInv_def by simp_all
  moreover have "edgeAt st' ri \<noteq> EdgePending"
    if "rs_nodes st' n = Some s" "terminal s" "ri \<in> set (g_out g n)" "ri \<notin> X" for n s ri
    using inv that termN unfolding cascInv_def edges by blast
  ultimately show ?thesis unfolding cascInv_def by blast
qed

lemma recordNode [simp]:
  "rs_nodes (recordResult (NodeUnit n) r st) = (rs_nodes st)(n \<mapsto> statusToNodeState (ur_status r))"
  "rs_edges (recordResult (NodeUnit n) r st) = rs_edges st"
  "edgeAt (recordResult (NodeUnit n) r st) ri = edgeAt st ri"
  by (auto simp: recordResult_def Let_def edgeAt_def fun_eq_iff)

lemma statusToNodeState_terminal [simp]:
  "terminal (statusToNodeState x)" "statusToNodeState x \<noteq> NodeSkipped" "statusToNodeState x \<noteq> NodePending"
  "statusToNodeState x \<noteq> NodeRunning" "statusToNodeState x \<noteq> NodeAwaiting"
  "NodeRunning \<noteq> statusToNodeState x" "NodeAwaiting \<noteq> statusToNodeState x"
  by (cases x; simp)+

lemma record_inv:
  assumes g: "flatGraph g" and inv: "cascInv g D {} st" and n: "rs_nodes st n = Some NodeRunning"
  shows "cascInv g D (set (g_out g n)) (recordResult (NodeUnit n) r st)" (is "cascInv g D _ ?st")
proof -
  have res: "allResolved g ?st m = allResolved g st m" "anyTaken g ?st m = anyTaken g st m" for m
    by (simp_all add: allResolved_def anyTaken_def)
  have "nodeOK g D ?st m s" if m: "rs_nodes ?st m = Some s" for m s
  proof (cases "m = n")
    case True
    then have "nodeOK g D st n NodeRunning" using inv n unfolding cascInv_def by blast
    with m True show ?thesis by (auto simp: nodeOK_def res)
  next
    case False
    then have "nodeOK g D st m s" using inv m unfolding cascInv_def by simp
    then show ?thesis by (simp add: nodeOK_def res)
  qed
  moreover have "edgeOK g ?st ri" if "ri < length (g_routes g)" for ri
  proof -
    have "edgeOK g st ri" using inv that unfolding cascInv_def by blast
    then show ?thesis using n by (auto simp: edgeOK_def)
  qed
  moreover have "dom (rs_nodes ?st) = nodesOf g" "length (rs_edges ?st) = length (g_routes g)"
    using inv n unfolding cascInv_def by auto
  moreover have "edgeAt ?st ri \<noteq> EdgePending"
    if "rs_nodes ?st m = Some s" "terminal s" "ri \<in> set (g_out g m)" "ri \<notin> set (g_out g n)" for m s ri
    using inv that unfolding cascInv_def by (auto split: if_splits)
  ultimately show ?thesis unfolding cascInv_def by blast
qed


section \<open>The start of a run\<close>

lemma newRunState_nodes:
  "rs_nodes (newRunState g outs D) n =
     (if n \<in> nodesOf g then Some (if n \<in> D then NodeCompleted else NodePending) else None)"
proof -
  have "fold (\<lambda>ws m. m(st_Name ws \<mapsto> (if st_Name ws \<in> D then NodeCompleted else NodePending))) xs m n =
      (if n \<in> set (names_of xs) then Some (if n \<in> D then NodeCompleted else NodePending) else m n)" for xs m
    by (induction xs arbitrary: m) auto
  then show ?thesis by (simp add: newRunState_def)
qed

lemma newRunState_edges [simp]:
  "edgeAt (newRunState g outs D) ri = EdgePending \<longleftrightarrow> ri < length (g_routes g)"
  "rs_outputs (newRunState g outs D) = outs"
  "length (rs_edges (newRunState g outs D)) = length (g_routes g)"
  by (simp_all add: newRunState_def edgeAt_def)

lemma newRunState_inv:
  assumes g: "flatGraph g"
  shows "cascInv g D (queueOut g (filter (\<lambda>n. n \<in> D) (names_of (g_steps g))))
           (newRunState g outs D)" (is "cascInv g D ?X ?st")
proof -
  have pend: "\<not> allResolved g ?st n" if "g_in g n \<noteq> []" for n
  proof -
    have "hd (g_in g n) \<in> set (g_in g n)" using that by simp
    moreover from this have "hd (g_in g n) < length (g_routes g)" using flatGraphD(1)[OF g] by blast
    ultimately show ?thesis unfolding allResolved_def by (metis newRunState_edges(1))
  qed
  have "nodeOK g D ?st n s" if "rs_nodes ?st n = Some s" for n s
    using that pend[of n] by (auto simp: nodeOK_def newRunState_nodes split: if_splits)
  moreover have "edgeOK g ?st ri" if "ri < length (g_routes g)" for ri
    using that by (simp add: edgeOK_def)
  moreover have "dom (rs_nodes ?st) = nodesOf g"
    by (auto simp: dom_def newRunState_nodes split: if_splits)
  moreover have "edgeAt ?st ri \<noteq> EdgePending"
    if "rs_nodes ?st n = Some s" "terminal s" "ri \<in> set (g_out g n)" "ri \<notin> ?X" for n s ri
  proof -
    have "n \<in> nodesOf g" "n \<in> D" using that(1,2) by (auto simp: newRunState_nodes split: if_splits)
    with that show ?thesis by (auto simp: queueOut_def)
  qed
  ultimately show ?thesis using newRunState_edges(3)[of g outs D] unfolding cascInv_def by blast
qed

definition seedNode :: "'p runCtx \<Rightarrow> 'p workflowGraph \<Rightarrow> string \<Rightarrow> runState \<Rightarrow> runState" where
  "seedNode C g n st = (if rs_nodes st n = Some NodeCompleted then resolveOutbound C g n st else st)"

lemma seed_fold:
  assumes g: "flatGraph g"
  shows "cascInv g D (queueOut g (filter (\<lambda>n. rs_nodes st n = Some NodeCompleted) ns)) st \<Longrightarrow>
    cascInv g D {} (fold (seedNode C g) ns st) \<and> cascades st (fold (seedNode C g) ns st)"
proof (induction ns arbitrary: st)
  case (Cons n ns)
  let ?rest = "\<lambda>st. filter (\<lambda>n. rs_nodes st n = Some NodeCompleted) ns" and ?st1 = "seedNode C g n st"
  have st1: "cascInv g D (queueOut g (?rest st)) ?st1 \<and> cascades st ?st1"
  proof (cases "rs_nodes st n = Some NodeCompleted")
    case True
    then show ?thesis
      using resolveOutbound_inv[OF g, of D n "queueOut g (?rest st)" st NodeCompleted C] Cons.prems
      by (simp add: seedNode_def)
  next
    case False
    with Cons.prems show ?thesis by (simp add: seedNode_def)
  qed
  have "rs_nodes ?st1 m = Some NodeCompleted \<longleftrightarrow> rs_nodes st m = Some NodeCompleted" for m
  proof -
    have "rs_nodes ?st1 m = rs_nodes st m
        \<or> rs_nodes st m = Some NodePending \<and> rs_nodes ?st1 m = Some NodeSkipped"
      using st1 unfolding cascades_def by blast
    then show ?thesis by auto
  qed
  then have "?rest ?st1 = ?rest st" by (intro filter_cong) auto
  with Cons.IH[of ?st1] st1 show ?case by (auto intro: cascades_trans)
qed simp

lemma seedState_inv:
  assumes g: "flatGraph g"
  shows "cascInv g D {} (seedState C g (newRunState g outs D))"
    and "cascades (newRunState g outs D) (seedState C g (newRunState g outs D))"
proof -
  have same: "filter (\<lambda>n. rs_nodes (newRunState g outs D) n = Some NodeCompleted) (names_of (g_steps g))
      = filter (\<lambda>n. n \<in> D) (names_of (g_steps g))"
    by (intro filter_cong) (auto simp: newRunState_nodes)
  have "seedState C g st = fold (seedNode C g) (names_of (g_steps g)) st" for st
    unfolding seedState_def by (rule arg_cong[where f = "\<lambda>f. fold f _ st"]) (auto simp: fun_eq_iff seedNode_def)
  then show "cascInv g D {} (seedState C g (newRunState g outs D))"
    "cascades (newRunState g outs D) (seedState C g (newRunState g outs D))"
    using seed_fold[OF g, of D "newRunState g outs D" "names_of (g_steps g)" C]
      newRunState_inv[OF g, of D outs] unfolding same by simp_all
qed

end
