(* ===== verification/Wf_SchedRun.thy ===== *)
theory Wf_SchedRun
  imports Wf_SchedInv
begin

text \<open>
  A whole run of the frontier scheduler on a graph without regions: the invariant of the
  loop of \<open>runGraph\<close> and its consequences for every reachable state.
\<close>

section \<open>The invariant of the loop\<close>

definition finalOK :: "'p workflowGraph \<Rightarrow> runState \<Rightarrow> runStatus \<Rightarrow> bool" where
  "finalOK g st final \<longleftrightarrow>
     final \<noteq> StatusPaused
     \<and> (final = StatusFailed \<longleftrightarrow> (\<exists>n. rs_nodes st n = Some NodeFailed))
     \<and> (final = StatusCompleted \<longrightarrow> (\<forall>n. rs_nodes st n \<noteq> Some NodeCancelled))"

definition returnedOK :: "'p workflowGraph \<Rightarrow> sched \<Rightarrow> runStatus \<Rightarrow> bool" where
  "returnedOK g s x \<longleftrightarrow>
     sc_inflight s = []
     \<and> x = (if sc_final s = StatusCompleted \<and> awaitingNodes g (sc_st s) \<noteq> [] then StatusPaused
            else sc_final s)
     \<and> ((\<forall>n. \<not> nodeReady g (sc_st s) n)
         \<or> sc_cancelled s \<and> (x = StatusFailed \<or> x = StatusCancelled))"

definition flatInv :: "'p runCtx \<Rightarrow> 'p workflowGraph \<Rightarrow> string set \<Rightarrow> sched \<Rightarrow> bool" where
  "flatInv C g D s \<longleftrightarrow>
     cascInv g D {} (sc_st s)
     \<and> (\<exists>ns. map fst (sc_inflight s) = map NodeUnit ns \<and> distinct ns
           \<and> (\<forall>n. rs_nodes (sc_st s) n = Some NodeRunning \<longleftrightarrow> n \<in> set ns))
     \<and> finalOK g (sc_st s) (sc_final s)
     \<and> (sc_phase s = Collecting \<longrightarrow> sc_inflight s \<noteq> [])
     \<and> (\<forall>x. sc_phase s = Returned x \<longrightarrow> returnedOK g s x)"

lemma cascades_class:
  assumes "cascades st st'" and that: "s \<noteq> NodePending" "s \<noteq> NodeSkipped"
  shows "rs_nodes st' n = Some s \<longleftrightarrow> rs_nodes st n = Some s"
proof -
  have "rs_nodes st' n = rs_nodes st n \<or> rs_nodes st n = Some NodePending \<and> rs_nodes st' n = Some NodeSkipped"
    using assms(1) unfolding cascades_def by blast
  with that show ?thesis by auto
qed

lemma flatInv_init:
  assumes g: "flatGraph g"
  shows "flatInv C g D (initSched C g (newRunState g outs D))"
proof -
  let ?s0 = "newRunState g outs D"
  note seed = seedState_inv[OF g, where C = C and D = D and outs = outs]
  have "rs_nodes (seedState C g ?s0) n \<noteq> Some x"
    if "x \<noteq> NodePending" "x \<noteq> NodeSkipped" "x \<noteq> NodeCompleted" for n x
    using cascades_class[OF seed(2) that(1,2), of n] that by (auto simp: newRunState_nodes)
  then show ?thesis using seed(1)
    by (simp add: flatInv_def initSched_def finalOK_def)
qed

lemma flatInv_cancel:
  assumes "flatInv C g D s"
  shows "flatInv C g D (s\<lparr>sc_cancelled := True\<rparr>)"
  using assms by (auto simp: flatInv_def returnedOK_def)

text \<open>A collected result.\<close>

lemma inflight_node:
  assumes "flatInv C g D s" "i < length (sc_inflight s)"
  obtains n where "fst (sc_inflight s ! i) = NodeUnit n" "rs_nodes (sc_st s) n = Some NodeRunning"
proof -
  obtain ns where ns: "map fst (sc_inflight s) = map NodeUnit ns"
    "\<forall>n. rs_nodes (sc_st s) n = Some NodeRunning \<longleftrightarrow> n \<in> set ns"
    using assms(1) unfolding flatInv_def by blast
  then have "length ns = length (sc_inflight s)" by (metis length_map)
  then have "fst (sc_inflight s ! i) = NodeUnit (ns ! i)" "ns ! i \<in> set ns"
    using ns(1) assms(2) by (metis nth_map) (use assms(2) \<open>length ns = _\<close> in simp)
  with ns(2) that show thesis by blast
qed

lemma collect_nodes:
  assumes g: "flatGraph g" and inv: "flatInv C g D s" and i: "i < length (sc_inflight s)"
    and n: "fst (sc_inflight s ! i) = NodeUnit n" "rs_nodes (sc_st s) n = Some NodeRunning"
    and st1_def: "st1 = recordResult (NodeUnit n) r (sc_st s)"
  shows "sc_st (collectStep C g i r s) = resolveOutbound C g n st1"
    and "cascInv g D {} (sc_st (collectStep C g i r s))"
    and "cascades st1 (sc_st (collectStep C g i r s))"
proof -
  show st: "sc_st (collectStep C g i r s) = resolveOutbound C g n st1"
    by (simp add: collectStep_def Let_def n st1_def)
  have "cascInv g D (set (g_out g n) \<union> {}) st1"
    using record_inv[OF g _ n(2)] inv by (simp add: flatInv_def st1_def)
  moreover have "rs_nodes st1 n = Some (statusToNodeState (ur_status r))" by (simp add: st1_def)
  note resolveOutbound_inv[OF g calculation this statusToNodeState_terminal(1), of C]
  then show "cascInv g D {} (sc_st (collectStep C g i r s))"
    "cascades st1 (sc_st (collectStep C g i r s))"
    unfolding st by blast+
qed

lemma collect_state:
  assumes g: "flatGraph g" and inv: "flatInv C g D s" and i: "i < length (sc_inflight s)"
    and n: "fst (sc_inflight s ! i) = NodeUnit n" "rs_nodes (sc_st s) n = Some NodeRunning"
    and x: "x \<noteq> NodePending" "x \<noteq> NodeSkipped"
  shows "rs_nodes (sc_st (collectStep C g i r s)) m = Some x \<longleftrightarrow>
     (if m = n then x = statusToNodeState (ur_status r) else rs_nodes (sc_st s) m = Some x)"
  using cascades_class[OF collect_nodes(3)[OF assms(1-5) refl, of r] x, of m] by auto

lemma flatInv_collect:
  assumes g: "flatGraph g" and inv: "flatInv C g D s" and i: "i < length (sc_inflight s)"
  shows "flatInv C g D (collectStep C g i r s)"
proof -
  let ?s' = "collectStep C g i r s" and ?t = "statusToNodeState (ur_status r)"
  obtain n where n: "fst (sc_inflight s ! i) = NodeUnit n" "rs_nodes (sc_st s) n = Some NodeRunning"
    by (rule inflight_node[OF inv i])
  note state = collect_state[OF g inv i n]
  obtain ns where ns: "map fst (sc_inflight s) = map NodeUnit ns" "distinct ns"
    "\<forall>n. rs_nodes (sc_st s) n = Some NodeRunning \<longleftrightarrow> n \<in> set ns"
    using inv unfolding flatInv_def by blast
  have len: "length ns = length (sc_inflight s)" using ns(1) by (metis length_map)
  have ni: "ns ! i = n"
    using n(1) ns(1) i len by (metis nth_map workUnit.inject(1))
  let ?ns = "take i ns @ drop (Suc i) ns"
  have split: "ns = take i ns @ n # drop (Suc i) ns"
    using id_take_nth_drop[of i ns] i len ni by simp
  have dist: "distinct (take i ns @ n # drop (Suc i) ns)" using ns(2) split by simp
  have set: "set ?ns = set ns - {n}"
  proof -
    have "set ns = insert n (set ?ns)" by (subst split) auto
    moreover have "n \<notin> set ?ns" using dist by auto
    ultimately show ?thesis by blast
  qed
  have fl: "sc_inflight ?s' = take i (sc_inflight s) @ drop (Suc i) (sc_inflight s)"
    by (simp add: collectStep_def Let_def)
  have "map fst (sc_inflight ?s') = map NodeUnit ?ns"
    unfolding fl map_append take_map[symmetric] drop_map[symmetric] ns(1) ..
  moreover have "distinct ?ns" using dist by auto
  moreover have "rs_nodes (sc_st ?s') m = Some NodeRunning \<longleftrightarrow> m \<in> set ?ns" for m
    using state[of NodeRunning r m] ns(3) unfolding set by (cases "m = n") auto
  moreover have "finalOK g (sc_st ?s') (sc_final ?s')"
  proof -
    have old: "finalOK g (sc_st s) (sc_final s)" using inv unfolding flatInv_def by blast
    have fin: "sc_final ?s' = finalAfter (sc_final s) ?t" by (simp add: collectStep_def Let_def)
    have failed: "(\<exists>m. rs_nodes (sc_st ?s') m = Some NodeFailed) \<longleftrightarrow>
        ?t = NodeFailed \<or> (\<exists>m. rs_nodes (sc_st s) m = Some NodeFailed)"
      using n(2) state[of NodeFailed r] by (metis nodeState.distinct option.inject)
    have canc: "(\<exists>m. rs_nodes (sc_st ?s') m = Some NodeCancelled) \<longleftrightarrow>
        ?t = NodeCancelled \<or> (\<exists>m. rs_nodes (sc_st s) m = Some NodeCancelled)"
      using n(2) state[of NodeCancelled r] by (metis nodeState.distinct option.inject)
    show ?thesis
      using old failed canc unfolding finalOK_def fin finalAfter_def by auto
  qed
  moreover have "cascInv g D {} (sc_st ?s')" by (rule collect_nodes(2)[OF g inv i n refl])
  moreover have "sc_phase ?s' = AtTop" by (simp add: collectStep_def Let_def)
  ultimately show ?thesis unfolding flatInv_def by (metis phase.distinct(1,3))
qed

text \<open>The top of the loop, split by whether it launches.\<close>

definition launchedState :: "'p runCtx \<Rightarrow> 'p workflowGraph \<Rightarrow> sched \<Rightarrow> sched" where
  "launchedState C g s =
     (if sc_cancelled s then s
      else (case launchPhase C g (sc_st s, sc_inflight s) of (st, fl) \<Rightarrow>
              s\<lparr>sc_st := st, sc_inflight := fl\<rparr>))"

lemma topStep_eq:
  "topStep C g s =
     (let s1 = launchedState C g s;
          final = (if sc_cancelled s \<and> sc_final s = StatusCompleted then StatusCancelled else sc_final s)
      in s1\<lparr>sc_final := final,
            sc_phase := (if sc_inflight s1 \<noteq> [] then Collecting
               else Returned (if final = StatusCompleted \<and> awaitingNodes g (sc_st s1) \<noteq> []
                              then StatusPaused else final))\<rparr>)"
  by (auto simp: topStep_def launchedState_def Let_def split: prod.splits)

lemma launched_nodes:
  assumes g: "flatGraph g" and dom: "dom (rs_nodes (sc_st s)) = nodesOf g"
  shows "rs_nodes (sc_st (launchedState C g s)) n =
      (if \<not> sc_cancelled s \<and> nodeReady g (sc_st s) n then Some (launched g n) else rs_nodes (sc_st s) n)"
    and "edgeAt (sc_st (launchedState C g s)) ri = edgeAt (sc_st s) ri"
    and "length (rs_edges (sc_st (launchedState C g s))) = length (rs_edges (sc_st s))"
    and "rs_outputs (sc_st (launchedState C g s)) = rs_outputs (sc_st s)"
    and "sc_inflight (launchedState C g s) = sc_inflight s
          @ map (\<lambda>n. (NodeUnit n, viewOf C g (rs_outputs (sc_st s)) n))
              (filter (\<lambda>n. \<not> sc_cancelled s \<and> nodeReady g (sc_st s) n \<and> \<not> isGate g n) (names_of (g_steps g)))"
  using launchPhase_flat[OF g _ dom, of C "sc_inflight s"]
  by (cases "launchPhase C g (sc_st s, sc_inflight s)"; simp add: launchedState_def)+

lemma launchedState_sel [simp]:
  "sc_final (launchedState C g s) = sc_final s" "sc_cancelled (launchedState C g s) = sc_cancelled s"
  "sc_phase (launchedState C g s) = sc_phase s"
  by (simp_all add: launchedState_def split: prod.split)

lemma launched_casc:
  assumes g: "flatGraph g" and inv: "cascInv g D {} (sc_st s)"
  shows "cascInv g D {} (sc_st (launchedState C g s))"
proof (cases "sc_cancelled s")
  case False
  have "dom (rs_nodes (sc_st s)) = nodesOf g" using inv unfolding cascInv_def by blast
  note L = launched_nodes[OF g this, of C]
  show ?thesis using L(1) False by (intro launch_inv[OF inv _ L(2,3)]) simp
qed (simp add: launchedState_def inv)

text \<open>After a launch that was not cancelled nothing is ready any more.\<close>

lemma launched_not_ready:
  assumes g: "flatGraph g" and dom: "dom (rs_nodes (sc_st s)) = nodesOf g" and c: "\<not> sc_cancelled s"
  shows "\<not> nodeReady g (sc_st (launchedState C g s)) n"
proof -
  note L = launched_nodes[OF g dom, of C]
  have "allResolved g (sc_st (launchedState C g s)) n = allResolved g (sc_st s) n"
    "anyTaken g (sc_st (launchedState C g s)) n = anyTaken g (sc_st s) n"
    by (simp_all add: allResolved_def anyTaken_def L(2))
  then show ?thesis using L(1)[of n] c by (auto simp: nodeReady_def)
qed

lemma launched_running:
  assumes g: "flatGraph g" and inv: "flatInv C g D s"
  shows "\<exists>ns. map fst (sc_inflight (launchedState C g s)) = map NodeUnit ns \<and> distinct ns
     \<and> (\<forall>n. rs_nodes (sc_st (launchedState C g s)) n = Some NodeRunning \<longleftrightarrow> n \<in> set ns)"
proof -
  have dom: "dom (rs_nodes (sc_st s)) = nodesOf g" using inv unfolding flatInv_def cascInv_def by blast
  note L = launched_nodes[OF g dom, of C]
  obtain ns where ns: "map fst (sc_inflight s) = map NodeUnit ns" "distinct ns"
    "\<forall>n. rs_nodes (sc_st s) n = Some NodeRunning \<longleftrightarrow> n \<in> set ns"
    using inv unfolding flatInv_def by blast
  let ?new = "filter (\<lambda>n. \<not> sc_cancelled s \<and> nodeReady g (sc_st s) n \<and> \<not> isGate g n) (names_of (g_steps g))"
  have ready: "rs_nodes (sc_st s) n = Some NodePending" "n \<in> nodesOf g" if "nodeReady g (sc_st s) n" for n
    using that dom by (auto simp: nodeReady_def)
  have "map fst (sc_inflight (launchedState C g s)) = map NodeUnit (ns @ ?new)"
    unfolding L(5) map_append ns(1) by simp
  moreover have "distinct (ns @ ?new)"
  proof -
    have "n \<notin> set ns" if "nodeReady g (sc_st s) n" for n
      using ns(3) ready(1)[OF that] by (metis nodeState.distinct(1) option.inject)
    then have "set ns \<inter> set ?new = {}" by auto
    moreover have "distinct ?new" using flatGraphD(7)[OF g] by (rule distinct_filter)
    ultimately show ?thesis using ns(2) unfolding distinct_append by blast
  qed
  moreover have "rs_nodes (sc_st (launchedState C g s)) n = Some NodeRunning \<longleftrightarrow> n \<in> set (ns @ ?new)" for n
  proof (cases "nodeReady g (sc_st s) n")
    case True
    then have "n \<notin> set ns" using ns(3) ready(1) by (metis nodeState.distinct(1) option.inject)
    with True ready(2)[of n] show ?thesis unfolding L(1) set_append set_filter using ns(3) by auto
  next
    case False
    then show ?thesis unfolding L(1) set_append set_filter using ns(3) by simp
  qed
  ultimately show ?thesis by blast
qed

lemma launched_final:
  assumes g: "flatGraph g" and dom: "dom (rs_nodes (sc_st s)) = nodesOf g"
    and ok: "finalOK g (sc_st s) f"
  shows "finalOK g (sc_st (launchedState C g s)) f"
proof -
  have "rs_nodes (sc_st (launchedState C g s)) n = Some x \<longleftrightarrow> rs_nodes (sc_st s) n = Some x"
    if "terminal x" for n x
    using launched_nodes(1)[OF g dom, of C n] that by (cases x) (auto simp: nodeReady_def launched_def)
  from this[of NodeFailed] this[of NodeCancelled] show ?thesis using ok unfolding finalOK_def by simp
qed

lemma flatInv_top:
  assumes g: "flatGraph g" and inv: "flatInv C g D s"
  shows "flatInv C g D (topStep C g s)"
proof -
  let ?s1 = "launchedState C g s" and ?s' = "topStep C g s"
  have dom: "dom (rs_nodes (sc_st s)) = nodesOf g" using inv unfolding flatInv_def cascInv_def by blast
  have sel: "sc_st ?s' = sc_st ?s1" "sc_inflight ?s' = sc_inflight ?s1"
    "sc_final ?s' = (if sc_cancelled s \<and> sc_final s = StatusCompleted then StatusCancelled else sc_final s)"
    "sc_cancelled ?s' = sc_cancelled s"
    by (simp_all add: topStep_eq Let_def)
  have ph: "sc_phase ?s' = (if sc_inflight ?s1 \<noteq> [] then Collecting
     else Returned (if sc_final ?s' = StatusCompleted \<and> awaitingNodes g (sc_st ?s1) \<noteq> []
                    then StatusPaused else sc_final ?s'))"
    by (simp add: topStep_eq Let_def)
  have "cascInv g D {} (sc_st ?s1)" using launched_casc[OF g] inv unfolding flatInv_def by blast
  moreover note launched_running[OF g inv]
  moreover have fin: "finalOK g (sc_st ?s1) (sc_final ?s')"
  proof -
    have "finalOK g (sc_st s) (sc_final s)" using inv unfolding flatInv_def by blast
    then have "finalOK g (sc_st ?s1) (sc_final s)" by (rule launched_final[OF g dom])
    then show ?thesis unfolding sel by (auto simp: finalOK_def)
  qed
  moreover have "sc_phase ?s' = Collecting \<longrightarrow> sc_inflight ?s1 \<noteq> []" using ph by simp
  moreover have "returnedOK g ?s' x" if "sc_phase ?s' = Returned x" for x
  proof -
    have empty: "sc_inflight ?s1 = []" using ph that by (auto split: if_splits)
    then have x: "x = (if sc_final ?s' = StatusCompleted \<and> awaitingNodes g (sc_st ?s1) \<noteq> []
        then StatusPaused else sc_final ?s')" using ph that by simp
    have "(\<forall>n. \<not> nodeReady g (sc_st ?s1) n) \<or> sc_cancelled s \<and> (x = StatusFailed \<or> x = StatusCancelled)"
    proof (cases "sc_cancelled s")
      case True
      then have "sc_final ?s' \<noteq> StatusCompleted" using sel(3) by simp
      then show ?thesis using fin True x by (cases "sc_final ?s'") (auto simp: finalOK_def)
    next
      case False
      then show ?thesis using launched_not_ready[OF g dom False] by blast
    qed
    with empty x show ?thesis unfolding returnedOK_def sel by blast
  qed
  ultimately show ?thesis unfolding flatInv_def sel(1,2) by blast
qed

lemma flatInv_step:
  assumes "flatGraph g" "flatInv C g D s" "sched_step C g s s'"
  shows "flatInv C g D s'"
  using assms(3)
  by (cases rule: sched_step.cases)
     (use assms flatInv_top flatInv_collect flatInv_cancel in blast)+

section \<open>Moving forward\<close>

text \<open>The life cycle of a node.\<close>

inductive nodeMove :: "nodeState option \<Rightarrow> nodeState option \<Rightarrow> bool" where
  start: "nodeMove (Some NodePending) (Some NodeRunning)"
| park: "nodeMove (Some NodePending) (Some NodeAwaiting)"
| skip: "nodeMove (Some NodePending) (Some NodeSkipped)"
| finish: "t \<in> {NodeCompleted, NodeFailed, NodeCancelled} \<Longrightarrow> nodeMove (Some NodeRunning) (Some t)"

inductive_cases nodeMoveE: "nodeMove x y"
inductive_simps nodeMove_from:
  "nodeMove (Some NodePending) y" "nodeMove (Some NodeRunning) y" "nodeMove (Some NodeAwaiting) y"
  "nodeMove (Some NodeCompleted) y" "nodeMove (Some NodeFailed) y" "nodeMove (Some NodeSkipped) y"
  "nodeMove (Some NodeCancelled) y" "nodeMove None y"

definition nodeLe :: "nodeState option \<Rightarrow> nodeState option \<Rightarrow> bool" where
  "nodeLe x y \<longleftrightarrow> x = y \<or> nodeMove x y
     \<or> x = Some NodePending \<and> y \<in> Some ` {NodeCompleted, NodeFailed, NodeCancelled}"

lemma nodeLe_refl [simp]: "nodeLe x x"
  by (simp add: nodeLe_def)

lemma nodeLe_trans: "nodeLe a b \<Longrightarrow> nodeLe b c \<Longrightarrow> nodeLe a c"
  unfolding nodeLe_def by (auto elim!: nodeMoveE simp: nodeMove_from)

text \<open>
  What a step of the run leaves alone: a decided route stays decided, the output of a node
  that is neither pending nor running no longer changes.
\<close>

definition settled :: "nodeState option \<Rightarrow> bool" where
  "settled x \<longleftrightarrow> x \<noteq> Some NodePending \<and> x \<noteq> Some NodeRunning"

lemma nodeLe_settled: "nodeLe x y \<Longrightarrow> settled x \<Longrightarrow> y = x"
  by (auto simp: nodeLe_def settled_def elim: nodeMoveE)

definition runLe :: "runState \<Rightarrow> runState \<Rightarrow> bool" where
  "runLe st st' \<longleftrightarrow>
     (\<forall>n. nodeLe (rs_nodes st n) (rs_nodes st' n))
     \<and> (\<forall>ri. edgeAt st ri \<noteq> EdgePending \<longrightarrow> edgeAt st' ri = edgeAt st ri)
     \<and> (\<forall>n. settled (rs_nodes st n) \<longrightarrow> rs_outputs st' n = rs_outputs st n)"

lemma runLe_refl [simp]: "runLe st st"
  by (simp add: runLe_def)

lemma runLe_trans: "runLe a b \<Longrightarrow> runLe b c \<Longrightarrow> runLe a c"
  unfolding runLe_def by (metis nodeLe_trans nodeLe_settled)

lemma cascades_runLe: "cascades st st' \<Longrightarrow> runLe st st'"
proof -
  assume c: "cascades st st'"
  have "nodeLe (rs_nodes st n) (rs_nodes st' n)" for n
  proof -
    have "rs_nodes st' n = rs_nodes st n \<or> rs_nodes st n = Some NodePending \<and> rs_nodes st' n = Some NodeSkipped"
      using c unfolding cascades_def by blast
    then show ?thesis by (auto simp: nodeLe_def nodeMove_from)
  qed
  with c show ?thesis unfolding runLe_def cascades_def by simp
qed

lemma collect_runLe:
  assumes g: "flatGraph g" and inv: "flatInv C g D s" and i: "i < length (sc_inflight s)"
  shows "runLe (sc_st s) (sc_st (collectStep C g i r s))"
proof -
  obtain n where n: "fst (sc_inflight s ! i) = NodeUnit n" "rs_nodes (sc_st s) n = Some NodeRunning"
    by (rule inflight_node[OF inv i])
  let ?st1 = "recordResult (NodeUnit n) r (sc_st s)"
  have "nodeMove (Some NodeRunning) (Some (statusToNodeState (ur_status r)))"
    by (cases "ur_status r") (auto simp: nodeMove_from)
  moreover have "rs_outputs ?st1 m = rs_outputs (sc_st s) m"
    if "settled (rs_nodes (sc_st s) m)" for m
  proof -
    have "m \<noteq> n" using that n(2) by (auto simp: settled_def)
    then show ?thesis by (simp add: recordResult_def Let_def)
  qed
  ultimately have "runLe (sc_st s) ?st1"
    using n(2) by (simp add: runLe_def nodeLe_def)
  then show ?thesis
    using cascades_runLe[OF collect_nodes(3)[OF g inv i n refl]] runLe_trans by blast
qed

lemma top_runLe:
  assumes g: "flatGraph g" and inv: "flatInv C g D s"
  shows "runLe (sc_st s) (sc_st (topStep C g s))"
proof -
  have dom: "dom (rs_nodes (sc_st s)) = nodesOf g" using inv unfolding flatInv_def cascInv_def by blast
  note L = launched_nodes[OF g dom, of C]
  have "nodeLe (rs_nodes (sc_st s) n) (rs_nodes (sc_st (launchedState C g s)) n)" for n
    unfolding L(1) by (auto simp: nodeLe_def nodeReady_def nodeMove_from launched_def)
  then show ?thesis by (simp add: topStep_eq Let_def runLe_def L)
qed

lemma step_runLe:
  assumes "flatGraph g" "flatInv C g D s" "sched_step C g s s'"
  shows "runLe (sc_st s) (sc_st s')"
  using assms(3) by (cases rule: sched_step.cases) (use assms top_runLe collect_runLe in auto)

definition flatInit :: "'p runCtx \<Rightarrow> 'p workflowGraph \<Rightarrow> string set \<Rightarrow> sched \<Rightarrow> bool" where
  "flatInit C g D s \<longleftrightarrow> flatGraph g \<and> (\<exists>outs. s = initSched C g (newRunState g outs D))"

interpretation flat: forward_system "flatInit C g D" "sched_step C g"
  "\<lambda>s. flatGraph g \<and> flatInv C g D s" "\<lambda>s s'. runLe (sc_st s) (sc_st s')" for C g D
proof
  show "flatGraph g \<and> flatInv C g D s" if "flatInit C g D s" for s
    using that flatInv_init by (auto simp: flatInit_def)
  show "flatGraph g \<and> flatInv C g D s'" if "flatGraph g \<and> flatInv C g D s" "sched_step C g s s'" for s s'
    using that flatInv_step by blast
  show "runLe (sc_st s) (sc_st s')" if "flatGraph g \<and> flatInv C g D s" "sched_step C g s s'" for s s'
    using that step_runLe by blast
qed (auto intro: runLe_trans)

section \<open>Ancestors and what a node sees\<close>

text \<open>Everything upstream of a node that left \<open>NodePending\<close> has finished.\<close>

definition closedDone :: "'p workflowGraph \<Rightarrow> string set \<Rightarrow> bool" where
  "closedDone g D \<longleftrightarrow> (\<forall>n\<in>D. \<forall>a. (a, n) \<in> edgeRel g \<longrightarrow> a \<in> D)"

lemma pred_terminal:
  assumes g: "flatGraph g" and inv: "cascInv g D {} st" and D: "closedDone g D"
    and n: "rs_nodes st n = Some s" "s \<noteq> NodePending" and a: "(a, n) \<in> edgeRel g"
  shows "\<exists>t. rs_nodes st a = Some t \<and> terminal t"
proof (cases "n \<in> D")
  case True
  have "a \<in> nodesOf g" using trancl_edges_names[OF r_into_trancl[OF a]] by blast
  then obtain t where t: "rs_nodes st a = Some t" using inv unfolding cascInv_def by blast
  have "a \<in> D" using D True a unfolding closedDone_def by blast
  moreover have "nodeOK g D st a t" using inv t unfolding cascInv_def by blast
  ultimately have "t = NodeCompleted" by (simp add: nodeOK_def)
  with t show ?thesis by simp
next
  case False
  obtain ri where ri: "ri \<in> set (g_in g n)" "srcOf g ri = a" using edge_rel_in[OF g a] by blast
  have "nodeOK g D st n s" using inv n unfolding cascInv_def by blast
  then have "allResolved g st n" using n(2) False ri(1) by (auto simp: nodeOK_def)
  then have "edgeAt st ri \<noteq> EdgePending" using ri(1) by (simp add: allResolved_def)
  moreover have "ri < length (g_routes g)" using ri flatGraphD(1)[OF g] by blast
  then have "edgeOK g st ri" using inv unfolding cascInv_def by blast
  ultimately show ?thesis using ri(2) by (auto simp: edgeOK_def)
qed

lemma ancestors_terminal:
  assumes g: "flatGraph g" and inv: "cascInv g D {} st" and D: "closedDone g D"
    and n: "rs_nodes st n = Some s" "s \<noteq> NodePending" and a: "(a, n) \<in> (edgeRel g)\<^sup>+"
  shows "\<exists>t. rs_nodes st a = Some t \<and> terminal t"
  using a
proof (induction rule: converse_trancl_induct)
  case (base a)
  then show ?case using pred_terminal[OF g inv D n] by blast
next
  case (step a b)
  then obtain t where "rs_nodes st b = Some t" "terminal t" by blast
  moreover from this have "t \<noteq> NodePending" by auto
  ultimately show ?case using pred_terminal[OF g inv D _ _ step.hyps(1)] by blast
qed

text \<open>
  What a unit in flight was handed is what its node sees now: nothing upstream of it can
  still change.
\<close>

definition viewsOK :: "'p runCtx \<Rightarrow> 'p workflowGraph \<Rightarrow> sched \<Rightarrow> bool" where
  "viewsOK C g s \<longleftrightarrow>
     (\<forall>n vis. (NodeUnit n, vis) \<in> set (sc_inflight s) \<longrightarrow> vis = viewOf C g (rs_outputs (sc_st s)) n)"

lemma viewOf_cong:
  assumes g: "flatGraph g" and "\<And>a. (a, n) \<in> (edgeRel g)\<^sup>+ \<Longrightarrow> outs a = outs' a"
  shows "viewOf C g outs n = viewOf C g outs' n"
proof -
  have "visibleFor g n outs = visibleFor g n outs'"
    unfolding flatGraphD(10)[OF g] using assms(2) by auto
  then show ?thesis by (simp add: viewOf_def)
qed

lemma inflight_running:
  assumes "flatInv C g D s" "(NodeUnit n, vis) \<in> set (sc_inflight s)"
  shows "rs_nodes (sc_st s) n = Some NodeRunning"
proof -
  obtain i where i: "i < length (sc_inflight s)" "sc_inflight s ! i = (NodeUnit n, vis)"
    using assms(2) by (auto simp: in_set_conv_nth)
  obtain m where "fst (sc_inflight s ! i) = NodeUnit m" "rs_nodes (sc_st s) m = Some NodeRunning"
    by (rule inflight_node[OF assms(1) i(1)])
  with i(2) show ?thesis by simp
qed

lemma viewsOK_top:
  assumes g: "flatGraph g" and inv: "flatInv C g D s" and v: "viewsOK C g s"
  shows "viewsOK C g (topStep C g s)"
proof -
  have dom: "dom (rs_nodes (sc_st s)) = nodesOf g" using inv unfolding flatInv_def cascInv_def by blast
  note L = launched_nodes[OF g dom, of C]
  have "sc_inflight (topStep C g s) = sc_inflight (launchedState C g s)"
    "rs_outputs (sc_st (topStep C g s)) = rs_outputs (sc_st s)"
    by (simp_all add: topStep_eq Let_def L(4))
  then show ?thesis using v unfolding viewsOK_def L(5) by auto
qed

lemma viewsOK_collect:
  assumes g: "flatGraph g" and inv: "flatInv C g D s" and D: "closedDone g D" and v: "viewsOK C g s"
    and i: "i < length (sc_inflight s)"
  shows "viewsOK C g (collectStep C g i r s)"
proof -
  let ?s' = "collectStep C g i r s"
  have casc: "cascInv g D {} (sc_st s)" using inv unfolding flatInv_def by blast
  have le: "runLe (sc_st s) (sc_st ?s')" by (rule collect_runLe[OF g inv i])
  have "vis = viewOf C g (rs_outputs (sc_st ?s')) n" if "(NodeUnit n, vis) \<in> set (sc_inflight ?s')" for n vis
  proof -
    have fl: "(NodeUnit n, vis) \<in> set (sc_inflight s)"
      using that by (auto simp: collectStep_def Let_def dest: in_set_takeD in_set_dropD)
    then have run: "rs_nodes (sc_st s) n = Some NodeRunning" by (rule inflight_running[OF inv])
    have "rs_outputs (sc_st s) a = rs_outputs (sc_st ?s') a" if anc: "(a, n) \<in> (edgeRel g)\<^sup>+" for a
    proof -
      obtain t where "rs_nodes (sc_st s) a = Some t" "terminal t"
        using ancestors_terminal[OF g casc D run nodeState.distinct(2) anc] by blast
      then have "settled (rs_nodes (sc_st s) a)" by (auto simp: settled_def)
      then show ?thesis using le unfolding runLe_def by simp
    qed
    then have "viewOf C g (rs_outputs (sc_st s)) n = viewOf C g (rs_outputs (sc_st ?s')) n"
      by (rule viewOf_cong[OF g])
    moreover have "vis = viewOf C g (rs_outputs (sc_st s)) n" using v fl unfolding viewsOK_def by blast
    ultimately show ?thesis by simp
  qed
  then show ?thesis unfolding viewsOK_def by blast
qed

lemma viewsOK_step:
  assumes "flatGraph g" "flatInv C g D s" "closedDone g D" "viewsOK C g s" "sched_step C g s s'"
  shows "viewsOK C g s'"
  using assms(5)
proof (cases rule: sched_step.cases)
  case cancel
  then show ?thesis using assms(4) by (simp add: viewsOK_def)
qed (use assms viewsOK_top viewsOK_collect in blast)+

definition closedInit :: "'p runCtx \<Rightarrow> 'p workflowGraph \<Rightarrow> string set \<Rightarrow> sched \<Rightarrow> bool" where
  "closedInit C g D s \<longleftrightarrow> flatInit C g D s \<and> closedDone g D"

interpretation views: invariant_system "closedInit C g D" "sched_step C g"
  "\<lambda>s. (flatGraph g \<and> flatInv C g D s) \<and> closedDone g D \<and> viewsOK C g s" for C g D
proof
  show "(flatGraph g \<and> flatInv C g D s) \<and> closedDone g D \<and> viewsOK C g s" if "closedInit C g D s" for s
    using that flat.init_inv[of C g D s]
    by (auto simp: closedInit_def flatInit_def viewsOK_def initSched_def)
  show "(flatGraph g \<and> flatInv C g D s') \<and> closedDone g D \<and> viewsOK C g s'"
    if "(flatGraph g \<and> flatInv C g D s) \<and> closedDone g D \<and> viewsOK C g s" "sched_step C g s s'" for s s'
    using that flat.step_inv[of g C D s s'] viewsOK_step by blast
qed

section \<open>Progress\<close>

text \<open>With nothing in flight and nothing ready, a pending node waits for a gate upstream of it.\<close>

lemma pending_waits:
  assumes g: "flatGraph g" and inv: "cascInv g D {} st"
    and idle: "\<And>n. \<not> nodeReady g st n" "\<And>n. rs_nodes st n \<noteq> Some NodeRunning"
    and n: "rs_nodes st n = Some NodePending"
  shows "\<exists>a. (a, n) \<in> (edgeRel g)\<^sup>+ \<and> rs_nodes st a = Some NodeAwaiting"
proof -
  have wf: "wf (edgeRel g)"
    by (rule finite_acyclic_wf[OF edges_of_finite flatGraphD(8)[OF g]])
  from wf n show ?thesis
  proof (induction n rule: wf_induct_rule)
    case (less n)
    have "nodeOK g D st n NodePending" using inv less.prems unfolding cascInv_def by blast
    then obtain ri where ri: "ri \<in> set (g_in g n)" "edgeAt st ri = EdgePending"
      using idle(1)[of n] less.prems by (auto simp: nodeOK_def nodeReady_def allResolved_def)
    let ?a = "srcOf g ri"
    have e: "(?a, n) \<in> edgeRel g" by (rule in_edge_rel[OF g ri(1)])
    have "ri \<in> set (g_out g ?a)" "?a \<in> nodesOf g" using ri(1) flatGraphD(1,2)[OF g] by auto
    moreover from this obtain t where t: "rs_nodes st ?a = Some t" using inv unfolding cascInv_def by blast
    ultimately have "\<not> terminal t" using inv ri(2) unfolding cascInv_def by blast
    then consider "t = NodePending" | "t = NodeAwaiting" using t idle(2)[of ?a] by (cases t) auto
    then show ?case
    proof cases
      case 1
      then obtain a where "(a, ?a) \<in> (edgeRel g)\<^sup>+" "rs_nodes st a = Some NodeAwaiting"
        using less.IH[OF e] t by blast
      then show ?thesis using e by (meson trancl.trancl_into_trancl)
    next
      case 2
      then show ?thesis using t e by blast
    qed
  qed
qed

section \<open>Termination\<close>

fun nodeWeight :: "nodeState option \<Rightarrow> nat" where
  "nodeWeight (Some NodePending) = 2"
| "nodeWeight (Some NodeRunning) = 1"
| "nodeWeight _ = 0"

definition runWeight :: "'p workflowGraph \<Rightarrow> runState \<Rightarrow> nat" where
  "runWeight g st = (\<Sum>n\<in>nodesOf g. nodeWeight (rs_nodes st n))"

definition schedMeasure :: "'p workflowGraph \<Rightarrow> sched \<Rightarrow> nat" where
  "schedMeasure g s = 2 * runWeight g (sc_st s) + (if sc_phase s = AtTop then 1 else 0)
                      + (if sc_cancelled s then 0 else 1)"

lemma nodeLe_weight: "nodeLe x y \<Longrightarrow> nodeWeight y \<le> nodeWeight x"
  by (auto simp: nodeLe_def elim!: nodeMoveE)

lemma runLe_weight: "runLe st st' \<Longrightarrow> runWeight g st' \<le> runWeight g st"
  unfolding runWeight_def by (intro sum_mono nodeLe_weight) (simp add: runLe_def)

lemma collect_weight:
  assumes g: "flatGraph g" and inv: "flatInv C g D s" and i: "i < length (sc_inflight s)"
  shows "runWeight g (sc_st (collectStep C g i r s)) < runWeight g (sc_st s)"
proof -
  obtain n where n: "fst (sc_inflight s ! i) = NodeUnit n" "rs_nodes (sc_st s) n = Some NodeRunning"
    by (rule inflight_node[OF inv i])
  have dom: "dom (rs_nodes (sc_st s)) = nodesOf g" using inv unfolding flatInv_def cascInv_def by blast
  let ?st' = "sc_st (collectStep C g i r s)"
  have "rs_nodes ?st' n = Some (statusToNodeState (ur_status r))"
    using collect_state[OF g inv i n, of "statusToNodeState (ur_status r)" r n] by simp
  then have "nodeWeight (rs_nodes ?st' n) < nodeWeight (rs_nodes (sc_st s) n)"
    using n(2) by (cases "ur_status r") auto
  moreover have "n \<in> nodesOf g" using dom n(2) by blast
  moreover have "\<forall>m\<in>nodesOf g. nodeWeight (rs_nodes ?st' m) \<le> nodeWeight (rs_nodes (sc_st s) m)"
    using collect_runLe[OF g inv i] by (simp add: runLe_def nodeLe_weight)
  ultimately show ?thesis unfolding runWeight_def by (intro sum_strict_mono_ex1) auto
qed

lemma step_measure:
  assumes g: "flatGraph g" and inv: "flatInv C g D s" and s: "sched_step C g s s'"
  shows "schedMeasure g s' < schedMeasure g s"
  using s
proof (cases rule: sched_step.cases)
  case top
  have "runWeight g (sc_st s') \<le> runWeight g (sc_st s)"
    using top runLe_weight[OF top_runLe[OF g inv]] by simp
  moreover have "sc_phase s' \<noteq> AtTop" "sc_cancelled s' = sc_cancelled s"
    using top by (simp_all add: topStep_eq Let_def)
  ultimately show ?thesis using top by (simp add: schedMeasure_def)
next
  case (collect i r)
  then have "runWeight g (sc_st s') < runWeight g (sc_st s)" using collect_weight[OF g inv] by blast
  then show ?thesis using collect by (simp add: schedMeasure_def collectStep_def Let_def)
next
  case cancel
  then show ?thesis by (simp add: schedMeasure_def)
qed

interpretation flatm: bounded_system "flatInit C g D" "sched_step C g"
  "\<lambda>s. flatGraph g \<and> flatInv C g D s" "schedMeasure g" for C g D
  by unfold_locales (use step_measure in blast)

lemma schedMeasure_init:
  assumes "flatGraph g"
  shows "schedMeasure g (initSched C g st) \<le> 4 * length (g_steps g) + 2"
proof -
  have "nodeWeight x \<le> 2" for x by (cases x rule: nodeWeight.cases) auto
  then have "runWeight g (seedState C g st) \<le> 2 * card (nodesOf g)"
    unfolding runWeight_def
    using sum_bounded_above[of "nodesOf g" "\<lambda>n. nodeWeight (rs_nodes (seedState C g st) n)" 2]
    by (simp add: mult.commute)
  also have "card (nodesOf g) \<le> length (g_steps g)" by (metis card_length length_map)
  finally show ?thesis by (simp add: schedMeasure_def initSched_def)
qed

end
