(* ===== verification/Wf_RunTheorems.thy ===== *)
theory Wf_RunTheorems
  imports Wf_SchedRun
begin

text \<open>
  What holds of every run of the frontier scheduler on an acyclic graph without regions, for
  every schedule: the order in which units report, their results, and cancellation at any
  point.  A run starts with a set \<open>D\<close> of completed steps (empty for a fresh run) and their
  outputs, as \<open>newRunState\<close> receives them.
\<close>

section \<open>From graphs to runs\<close>

definition runsTo ::
  "'p runCtx \<Rightarrow> 'p workflowGraph \<Rightarrow> (string \<rightharpoonup> string) \<Rightarrow> string set \<Rightarrow> sched \<Rightarrow> bool" where
  "runsTo C g outs D s \<longleftrightarrow> (sched_step C g)\<^sup>*\<^sup>* (initSched C g (newRunState g outs D)) s"

lemma flatGraph_newGraph:
  "distinct (names_of steps) \<Longrightarrow> acyclic (edges_of steps routes) \<Longrightarrow> flatGraph (newGraph c steps routes)"
  unfolding flatGraph_def by blast

lemma runsTo_inv:
  assumes "flatGraph g" "runsTo C g outs D s"
  shows "flatInv C g D s"
proof -
  have "flatInit C g D (initSched C g (newRunState g outs D))"
    using assms(1) by (auto simp: flatInit_def)
  then show ?thesis using flat.reachable_inv assms(2) unfolding runsTo_def by blast
qed

lemma runsTo_views:
  assumes "flatGraph g" "closedDone g D" "runsTo C g outs D s"
  shows "viewsOK C g s"
proof -
  have "closedInit C g D (initSched C g (newRunState g outs D))"
    using assms(1,2) by (auto simp: flatInit_def closedInit_def)
  then show ?thesis using views.reachable_inv assms(3) unfolding runsTo_def by blast
qed

lemma returned_idle:
  assumes g: "flatGraph g" and run: "runsTo C g outs D s" and ret: "sc_phase s = Returned x"
    and x: "\<not> sc_cancelled s \<or> x = StatusCompleted \<or> x = StatusPaused"
  shows "\<not> nodeReady g (sc_st s) n" "rs_nodes (sc_st s) n \<noteq> Some NodeRunning"
proof -
  have inv: "flatInv C g D s" by (rule runsTo_inv[OF g run])
  then have r: "returnedOK g s x" using ret unfolding flatInv_def by blast
  then show "\<not> nodeReady g (sc_st s) n" using x unfolding returnedOK_def by auto
  obtain ns where "map fst (sc_inflight s) = map NodeUnit ns"
    "\<forall>n. rs_nodes (sc_st s) n = Some NodeRunning \<longleftrightarrow> n \<in> set ns"
    using inv unfolding flatInv_def by blast
  with r show "rs_nodes (sc_st s) n \<noteq> Some NodeRunning" by (auto simp: returnedOK_def)
qed

lemma returned_nodes:
  assumes g: "flatGraph g" and run: "runsTo C g outs D s" and ret: "sc_phase s = Returned x"
    and x: "\<not> sc_cancelled s \<or> x = StatusCompleted \<or> x = StatusPaused" and n: "n \<in> nodesOf g"
  obtains t where "rs_nodes (sc_st s) n = Some t"
    "terminal t \<or> t = NodeAwaiting
     \<or> t = NodePending \<and> (\<exists>a. (a, n) \<in> (edgeRel g)\<^sup>+ \<and> rs_nodes (sc_st s) a = Some NodeAwaiting)"
proof -
  have casc: "cascInv g D {} (sc_st s)" using runsTo_inv[OF g run] unfolding flatInv_def by blast
  then obtain t where t: "rs_nodes (sc_st s) n = Some t" using n unfolding cascInv_def by blast
  note idle = returned_idle[OF g run ret x]
  have "t \<noteq> NodeRunning" using idle(2)[of n] t by auto
  then show thesis
    using that[OF t] pending_waits[OF g casc idle, of n] t by (cases t) auto
qed

lemma returned_status:
  assumes g: "flatGraph g" and run: "runsTo C g outs D s" and ret: "sc_phase s = Returned x"
  shows "x = StatusFailed \<longleftrightarrow> (\<exists>n. rs_nodes (sc_st s) n = Some NodeFailed)"
    and "x = StatusCompleted \<or> x = StatusPaused \<Longrightarrow> rs_nodes (sc_st s) n \<noteq> Some NodeCancelled"
    and "x = StatusCompleted \<Longrightarrow> n \<in> nodesOf g \<Longrightarrow> rs_nodes (sc_st s) n \<noteq> Some NodeAwaiting"
    and "x = StatusPaused \<Longrightarrow> \<exists>n\<in>nodesOf g. rs_nodes (sc_st s) n = Some NodeAwaiting"
proof -
  have inv: "flatInv C g D s" by (rule runsTo_inv[OF g run])
  then have r: "returnedOK g s x" and f: "finalOK g (sc_st s) (sc_final s)"
    using ret unfolding flatInv_def by blast+
  have x: "x = (if sc_final s = StatusCompleted \<and> awaitingNodes g (sc_st s) \<noteq> [] then StatusPaused
            else sc_final s)" using r unfolding returnedOK_def by blast
  show "x = StatusFailed \<longleftrightarrow> (\<exists>n. rs_nodes (sc_st s) n = Some NodeFailed)"
    using x f by (auto simp: finalOK_def split: if_splits)
  show "rs_nodes (sc_st s) n \<noteq> Some NodeCancelled" if "x = StatusCompleted \<or> x = StatusPaused"
    using x f that by (auto simp: finalOK_def split: if_splits)
  show "rs_nodes (sc_st s) n \<noteq> Some NodeAwaiting" if "x = StatusCompleted" "n \<in> nodesOf g"
  proof -
    have "awaitingNodes g (sc_st s) = []" using x that(1) by (auto split: if_splits)
    with that(2) show ?thesis unfolding awaitingNodes_def filter_empty_conv by blast
  qed
  show "\<exists>n\<in>nodesOf g. rs_nodes (sc_st s) n = Some NodeAwaiting" if "x = StatusPaused"
  proof -
    have "awaitingNodes g (sc_st s) \<noteq> []" using x f that by (auto simp: finalOK_def split: if_splits)
    then show ?thesis unfolding awaitingNodes_def filter_empty_conv by blast
  qed
qed

lemma runsTo_node:
  assumes "flatGraph g" "runsTo C g outs D s" "rs_nodes (sc_st s) n = Some t"
  shows "nodeOK g D (sc_st s) n t"
  using runsTo_inv[OF assms(1,2)] assms(3) unfolding flatInv_def cascInv_def by blast

section \<open>A concrete run\<close>

text \<open>Two steps in sequence, each reporting success; conditions always hold.\<close>

definition demoCtx :: "string runCtx" where
  "demoCtx = \<lparr>rc_engine = \<lparr>ce_run = (\<lambda>p e. Some (Inr (ABool True))), ce_object = (\<lambda>x. None)\<rparr>,
     rc_runID = ''run'', rc_inputs = Map.empty, rc_inbound = Map.empty\<rparr>"

definition demoSteps :: "WorkflowStep list" where
  "demoSteps = [plain_step ''a'', plain_step ''b'']"

definition demoGraph :: "string workflowGraph" where
  "demoGraph = newGraph Inr demoSteps [plain_route ''a'' ''b'']"

definition gateGraph :: "string workflowGraph" where
  "gateGraph = newGraph Inr [gate_step ''a'', plain_step ''b''] [plain_route ''a'' ''b'']"

definition result :: "runStatus \<Rightarrow> unitResult" where
  "result x = \<lparr>ur_status = x, ur_output = ''out'', ur_regionOutputs = Map.empty, ur_legs = 1\<rparr>"

lemma topo_acyclic:
  assumes "distinct (names_of steps)" "snd (snd (topoOrder (newGraph c steps routes)))"
  shows "acyclic (edges_of steps routes)"
  using topo_ok_iff[OF assms(1)] assms(2) by blast

lemma demo_acyclic:
  "distinct (names_of demoSteps)" "acyclic (edges_of demoSteps [plain_route ''a'' ''b''])"
  "distinct (names_of [gate_step ''a'', plain_step ''b''])"
  "acyclic (edges_of [gate_step ''a'', plain_step ''b''] [plain_route ''a'' ''b''])"
proof -
  show d: "distinct (names_of demoSteps)" "distinct (names_of [gate_step ''a'', plain_step ''b''])"
    by (simp_all add: demoSteps_def)
  have "snd (snd (topoOrder demoGraph))" "snd (snd (topoOrder gateGraph))" by code_simp+
  then show "acyclic (edges_of demoSteps [plain_route ''a'' ''b''])"
    "acyclic (edges_of [gate_step ''a'', plain_step ''b''] [plain_route ''a'' ''b''])"
    using topo_acyclic[OF d(1)] topo_acyclic[OF d(2)] unfolding demoGraph_def gateGraph_def by blast+
qed

definition demoRun :: "'p runCtx \<Rightarrow> 'p workflowGraph \<Rightarrow> schedEvent list \<Rightarrow> sched option" where
  "demoRun C g es = sched_run C g es (initSched C g (newRunState g Map.empty {}))"

lemma demoRun_runsTo: "demoRun C g es = Some s \<Longrightarrow> runsTo C g Map.empty {} s"
  unfolding demoRun_def runsTo_def by (rule sched_run_steps)

lemma demoRun_reaches:
  "map_option f (demoRun C g es) = Some v \<Longrightarrow> \<exists>s. runsTo C g Map.empty {} s \<and> f s = v"
  unfolding map_option_eq_Some using demoRun_runsTo by blast

lemma demo_completes:
  "\<exists>s. runsTo demoCtx demoGraph Map.empty {} s \<and> sc_phase s = Returned StatusCompleted"
proof (rule demoRun_reaches)
  show "map_option sc_phase (demoRun demoCtx demoGraph [EvTop, EvResult 0 (result StatusCompleted),
      EvTop, EvResult 0 (result StatusCompleted), EvTop]) = Some (Returned StatusCompleted)"
    by code_simp
qed

lemma demo_fails:
  "\<exists>s. runsTo demoCtx demoGraph Map.empty {} s \<and> sc_phase s = Returned StatusFailed"
proof (rule demoRun_reaches)
  show "map_option sc_phase (demoRun demoCtx demoGraph [EvTop, EvResult 0 (result StatusFailed),
      EvTop]) = Some (Returned StatusFailed)"
    by code_simp
qed

lemma demo_starts:
  obtains s vis where "runsTo demoCtx demoGraph Map.empty {} s" "sc_phase s = Collecting"
    "rs_nodes (sc_st s) ''a'' = Some NodeCompleted" "rs_nodes (sc_st s) ''b'' = Some NodeRunning"
    "(NodeUnit ''b'', vis) \<in> set (sc_inflight s)"
proof -
  have "map_option (\<lambda>s. (sc_phase s, rs_nodes (sc_st s) ''a'', rs_nodes (sc_st s) ''b'', map fst (sc_inflight s)))
      (demoRun demoCtx demoGraph [EvTop, EvResult 0 (result StatusCompleted), EvTop])
    = Some (Collecting, Some NodeCompleted, Some NodeRunning, [NodeUnit ''b''])"
    by code_simp
  from demoRun_reaches[OF this] obtain s where s: "runsTo demoCtx demoGraph Map.empty {} s"
    "sc_phase s = Collecting" "rs_nodes (sc_st s) ''a'' = Some NodeCompleted"
    "rs_nodes (sc_st s) ''b'' = Some NodeRunning" "map fst (sc_inflight s) = [NodeUnit ''b'']"
    by (elim exE conjE) (simp only: prod.inject)
  have "NodeUnit ''b'' \<in> set (map fst (sc_inflight s))" by (simp only: s(5) list.set insert_iff simp_thms)
  then obtain vis where "(NodeUnit ''b'', vis) \<in> set (sc_inflight s)" by auto
  from that[OF s(1-4) this] show thesis .
qed

lemma gate_pauses:
  "\<exists>s. runsTo demoCtx gateGraph Map.empty {} s \<and> sc_phase s = Returned StatusPaused"
proof (rule demoRun_reaches)
  show "map_option sc_phase (demoRun demoCtx gateGraph [EvTop]) = Some (Returned StatusPaused)"
    by code_simp
qed

section \<open>Theorems\<close>



text \<open>
  failures do not strand the rest of the graph.  When a run that was not cancelled returns,
  every step has finished, waits at a gate, or has a waiting gate upstream of it; the last two
  happen only if the run is paused or has failed.
\<close>
theorem returned_run_progress:
  assumes "distinct (names_of steps)" "acyclic (edges_of steps routes)"
    and "runsTo C (newGraph c steps routes) outs D s" "sc_phase s = Returned x" "\<not> sc_cancelled s"
    and "n \<in> set (names_of steps)"
  shows "\<exists>t. rs_nodes (sc_st s) n = Some t
     \<and> (terminal t \<or> t = NodeAwaiting
        \<or> t = NodePending \<and> (\<exists>a. (a, n) \<in> (edges_of steps routes)\<^sup>+
                                \<and> rs_nodes (sc_st s) a = Some NodeAwaiting))"
proof -
  have g: "flatGraph (newGraph c steps routes)" by (rule flatGraph_newGraph[OF assms(1,2)])
  have n: "n \<in> nodesOf (newGraph c steps routes)" using assms(6) by simp
  show ?thesis
    by (rule returned_nodes[OF g assms(3,4) _ n]) (use assms(5) in auto)
qed

lemma returned_run_progress_witness:
  "\<exists>s t. runsTo demoCtx demoGraph Map.empty {} s \<and> sc_phase s = Returned StatusFailed
     \<and> rs_nodes (sc_st s) ''b'' = Some t"
proof -
  have "map_option (\<lambda>s. (sc_phase s, sc_cancelled s)) (demoRun demoCtx demoGraph
      [EvTop, EvResult 0 (result StatusFailed), EvTop]) = Some (Returned StatusFailed, False)"
    by code_simp
  from demoRun_reaches[OF this] obtain s where s: "runsTo demoCtx demoGraph Map.empty {} s"
    "sc_phase s = Returned StatusFailed" "\<not> sc_cancelled s"
    by (elim exE conjE) (simp only: prod.inject simp_thms)
  have "''b'' \<in> set (names_of demoSteps)" by (simp add: demoSteps_def)
  from returned_run_progress[OF demo_acyclic(1,2) s(1)[unfolded demoGraph_def] s(2,3) this]
  show ?thesis using s(1,2) by blast
qed

text \<open>
  what the status of a returned run means: \<open>failed\<close> exactly when some step failed,
  \<open>paused\<close> only with a gate waiting and nothing failed or cancelled, \<open>completed\<close> only with
  nothing failed, cancelled or waiting.
\<close>
theorem final_status_meaning:
  assumes "distinct (names_of steps)" "acyclic (edges_of steps routes)"
    and "runsTo C (newGraph c steps routes) outs D s" "sc_phase s = Returned x"
  shows "(x = StatusFailed) = (\<exists>n. rs_nodes (sc_st s) n = Some NodeFailed)
    \<and> (x \<in> {StatusCompleted, StatusPaused} \<longrightarrow> (\<forall>n. rs_nodes (sc_st s) n \<noteq> Some NodeCancelled))
    \<and> (x = StatusCompleted \<longrightarrow> (\<forall>n\<in>set (names_of steps). rs_nodes (sc_st s) n \<noteq> Some NodeAwaiting))
    \<and> (x = StatusPaused \<longrightarrow> (\<exists>n\<in>set (names_of steps). rs_nodes (sc_st s) n = Some NodeAwaiting))"
  using returned_status[OF flatGraph_newGraph[OF assms(1,2)] assms(3,4)]
  by (simp only: newGraph_simps insert_iff empty_iff) blast

lemma final_status_meaning_witness:
  "\<exists>s. runsTo demoCtx gateGraph Map.empty {} s \<and> sc_phase s = Returned StatusPaused
     \<and> (\<exists>n\<in>{''a'', ''b''}. rs_nodes (sc_st s) n = Some NodeAwaiting)"
  using gate_pauses final_status_meaning[OF demo_acyclic(3,4), of demoCtx Inr Map.empty "{}" _ StatusPaused]
  unfolding gateGraph_def by fastforce

text \<open>
  C6: a run ends.  From the start at most \<open>4 * length steps + 2\<close> loop steps (iterations,
  results, the cancellation) are possible, and until it has returned the loop can always
  go on: it is at the top, or some unit is in flight whose result it waits for.
\<close>
theorem run_terminates:
  assumes "distinct (names_of steps)" "acyclic (edges_of steps routes)"
    and "g = newGraph c steps routes"
    and "(sched_step C g ^^ k) (initSched C g (newRunState g outs D)) s"
  shows "k \<le> 4 * length steps + 2
    \<and> ((\<exists>x. sc_phase s = Returned x) \<or> sched_step C g s (topStep C g s)
       \<or> (\<forall>r. ur_status r \<noteq> StatusPaused \<longrightarrow> sched_step C g s (collectStep C g 0 r s)))"
proof -
  have g: "flatGraph g" using flatGraph_newGraph[OF assms(1,2)] assms(3) by blast
  let ?s0 = "initSched C g (newRunState g outs D)"
  have "flatGraph g \<and> flatInv C g D ?s0" using g flatInv_init by blast
  then have "k + schedMeasure g s \<le> schedMeasure g ?s0" using flatm.steps_bounded[OF assms(4)] by blast
  also have "\<dots> \<le> 4 * length steps + 2" using schedMeasure_init[OF g] assms(3) by simp
  finally have "k \<le> 4 * length steps + 2" by simp
  moreover have "flatInv C g D s"
    using runsTo_inv[OF g] relpowp_imp_rtranclp[OF assms(4)] unfolding runsTo_def by blast
  then have "sc_phase s = Collecting \<longrightarrow> 0 < length (sc_inflight s)" unfolding flatInv_def by blast
  then have "(\<exists>x. sc_phase s = Returned x) \<or> sched_step C g s (topStep C g s)
       \<or> (\<forall>r. ur_status r \<noteq> StatusPaused \<longrightarrow> sched_step C g s (collectStep C g 0 r s))"
    by (cases "sc_phase s") (auto intro: sched_step.top sched_step.collect)
  ultimately show ?thesis by blast
qed

lemma run_terminates_witness:
  "\<exists>k s. (sched_step demoCtx demoGraph ^^ k) (initSched demoCtx demoGraph (newRunState demoGraph Map.empty {})) s
      \<and> sc_phase s = Returned StatusCompleted \<and> k \<le> 10"
proof -
  obtain s where s: "runsTo demoCtx demoGraph Map.empty {} s" "sc_phase s = Returned StatusCompleted"
    using demo_completes by blast
  then obtain k where k: "(sched_step demoCtx demoGraph ^^ k)
      (initSched demoCtx demoGraph (newRunState demoGraph Map.empty {})) s"
    unfolding runsTo_def by (meson rtranclp_imp_relpowp)
  from run_terminates[OF demo_acyclic(1,2) demoGraph_def k] s k show ?thesis
    by (auto simp: demoSteps_def)
qed

text \<open>
  C5: the life cycle of a step over the rest of a run.  A step that is neither pending nor
  running keeps its state and its output for good; a running one can only complete, fail or be
  cancelled (so a step is started at most once); a decided route stays as decided.
\<close>
theorem node_life_cycle:
  assumes "distinct (names_of steps)" "acyclic (edges_of steps routes)" "g = newGraph c steps routes"
    and "runsTo C g outs D s" "(sched_step C g)\<^sup>*\<^sup>* s s'" "rs_nodes (sc_st s) n = Some t"
  shows "(t \<noteq> NodePending \<and> t \<noteq> NodeRunning \<longrightarrow>
           rs_nodes (sc_st s') n = Some t \<and> rs_outputs (sc_st s') n = rs_outputs (sc_st s) n)
    \<and> (t = NodeRunning \<longrightarrow>
         rs_nodes (sc_st s') n \<in> Some ` {NodeRunning, NodeCompleted, NodeFailed, NodeCancelled})
    \<and> (\<forall>ri. edgeAt (sc_st s) ri \<noteq> EdgePending \<longrightarrow> edgeAt (sc_st s') ri = edgeAt (sc_st s) ri)"
proof -
  have g: "flatGraph g" using flatGraph_newGraph[OF assms(1,2)] assms(3) by blast
  then have "runLe (sc_st s) (sc_st s')"
    using flat.steps_le[OF assms(5)] runsTo_inv[OF g assms(4)] by blast
  then have le: "nodeLe (Some t) (rs_nodes (sc_st s') n)"
    and e: "\<forall>ri. edgeAt (sc_st s) ri \<noteq> EdgePending \<longrightarrow> edgeAt (sc_st s') ri = edgeAt (sc_st s) ri"
    and out: "settled (Some t) \<longrightarrow> rs_outputs (sc_st s') n = rs_outputs (sc_st s) n"
    using assms(6) unfolding runLe_def by metis+
  have "settled (Some t) \<longrightarrow> rs_nodes (sc_st s') n = Some t" using nodeLe_settled[OF le] by simp
  moreover have "t = NodeRunning \<longrightarrow>
      rs_nodes (sc_st s') n \<in> Some ` {NodeRunning, NodeCompleted, NodeFailed, NodeCancelled}"
    using le by (auto simp: nodeLe_def nodeMove_from)
  ultimately show ?thesis using e out by (simp add: settled_def)
qed

lemma node_life_cycle_witness:
  "\<exists>s. runsTo demoCtx demoGraph Map.empty {} s
     \<and> rs_nodes (sc_st (topStep demoCtx demoGraph (collectStep demoCtx demoGraph 0 (result StatusFailed) s)))
         ''a'' = Some NodeCompleted"
proof -
  obtain s vis where s: "runsTo demoCtx demoGraph Map.empty {} s" "sc_phase s = Collecting"
    "rs_nodes (sc_st s) ''a'' = Some NodeCompleted" "(NodeUnit ''b'', vis) \<in> set (sc_inflight s)"
    by (rule demo_starts)
  let ?s1 = "collectStep demoCtx demoGraph 0 (result StatusFailed) s"
  have a: "sched_step demoCtx demoGraph s ?s1"
    using s(2,4) by (intro sched_step.collect) (auto simp: result_def)
  have b: "sched_step demoCtx demoGraph ?s1 (topStep demoCtx demoGraph ?s1)"
    by (intro sched_step.top) (simp add: collectStep_def Let_def)
  have "(sched_step demoCtx demoGraph)\<^sup>*\<^sup>* s (topStep demoCtx demoGraph ?s1)"
    by (rule rtranclp.rtrancl_into_rtrancl[where r = "sched_step demoCtx demoGraph", OF _ b])
       (rule r_into_rtranclp[of "sched_step demoCtx demoGraph", OF a])
  from node_life_cycle[OF demo_acyclic(1,2) demoGraph_def s(1) this s(3)]
  have "rs_nodes (sc_st (topStep demoCtx demoGraph ?s1)) ''a'' = Some NodeCompleted"
    by (simp only: nodeState.distinct simp_thms)
  with s(1) show ?thesis by blast
qed



text \<open>
  C7: what a decided route says.  Its source has finished; it is not taken if the source was
  skipped or cancelled, and a route without a condition is taken exactly when the source
  completed.  Conversely every route out of a finished step, into a step of the graph, is decided.
\<close>
theorem route_decisions:
  assumes "distinct (names_of steps)" "acyclic (edges_of steps routes)" "g = newGraph c steps routes"
    and "runsTo C g outs D s" "ri < length routes"
    and "r_From (routes ! ri) \<in> set (names_of steps)" "r_To (routes ! ri) \<in> set (names_of steps)"
  shows "\<exists>t. rs_nodes (sc_st s) (r_From (routes ! ri)) = Some t
    \<and> (edgeAt (sc_st s) ri \<noteq> EdgePending) = terminal t
    \<and> (t \<in> {NodeSkipped, NodeCancelled} \<longrightarrow> edgeAt (sc_st s) ri = EdgeNotTaken)
    \<and> (terminal t \<and> r_When (routes ! ri) = [] \<longrightarrow> (edgeAt (sc_st s) ri = EdgeTaken) = (t = NodeCompleted))"
proof -
  let ?a = "r_From (routes ! ri)"
  have g: "flatGraph g" using flatGraph_newGraph[OF assms(1,2)] assms(3) by blast
  have inv: "cascInv g D {} (sc_st s)" using runsTo_inv[OF g assms(4)] unfolding flatInv_def by blast
  have r: "g_routes g = routes" "nodesOf g = set (names_of steps)" using assms(3) by simp_all
  then obtain t where t: "rs_nodes (sc_st s) ?a = Some t"
    using inv assms(6) unfolding cascInv_def by blast
  have "ri \<in> set (g_out g ?a)" using flatGraphD(2)[OF g] assms(5-7) r by simp
  then have dec: "terminal t \<longrightarrow> edgeAt (sc_st s) ri \<noteq> EdgePending"
    using inv t unfolding cascInv_def by blast
  have "edgeOK g (sc_st s) ri" using inv assms(5) r(1) unfolding cascInv_def by simp
  with t dec show ?thesis unfolding edgeOK_def r(1) by auto
qed

lemma route_decisions_witness:
  "\<exists>s t. runsTo demoCtx demoGraph Map.empty {} s \<and> rs_nodes (sc_st s) ''a'' = Some t
     \<and> (edgeAt (sc_st s) 0 \<noteq> EdgePending) = terminal t"
proof -
  obtain s vis where s: "runsTo demoCtx demoGraph Map.empty {} s"
    "rs_nodes (sc_st s) ''b'' = Some NodeRunning" "(NodeUnit ''b'', vis) \<in> set (sc_inflight s)"
    by (rule demo_starts)
  from route_decisions[OF demo_acyclic(1,2) demoGraph_def s(1), of 0] s(1) show ?thesis
    by (auto simp: demoSteps_def)
qed



end
