(* ===== verification/Wf_GraphTheorems.thy ===== *)
theory Wf_GraphTheorems
  imports Wf_Validate Wf_RunTheorems
begin

text \<open>
  What the static side of the workflow engine guarantees: the validator of routes against its
  mathematical meaning, Kahn's algorithm, the ancestor closure behind output visibility, and
  the cases in which a workflow the validator accepts does not run as its comments say.
\<close>

section \<open>Validation of routes\<close>

text \<open>A route the validator lets through, as a predicate.\<close>

definition goodRoute :: "(string \<Rightarrow> string + 'p) \<Rightarrow> WorkflowStep list \<Rightarrow> WorkflowRoute \<Rightarrow> bool" where
  "goodRoute compile steps r \<longleftrightarrow>
     r_From r \<noteq> [] \<and> r_To r \<noteq> [] \<and> r_From r \<in> set (names_of steps) \<and> r_To r \<in> set (names_of steps)
     \<and> (r_When r \<noteq> [] \<longrightarrow> length (r_When r) \<le> maxWhenLen \<and> (\<exists>p. compile (r_When r) = Inr p))"

lemma validateWhen_None:
  "validateWhen compile r = None \<longleftrightarrow>
     (r_When r \<noteq> [] \<longrightarrow> length (r_When r) \<le> maxWhenLen \<and> (\<exists>p. compile (r_When r) = Inr p))"
  by (cases "compile (r_When r)") (auto simp: validateWhen_def compileWhenErr_def compileWhen_def)

lemma acyclic_no_loop:
  "acyclic (edges_of steps routes) \<Longrightarrow> r \<in> set routes \<Longrightarrow> goodRoute compile steps r \<Longrightarrow> r_From r \<noteq> r_To r"
proof
  assume a: "acyclic (edges_of steps routes)" and r: "r \<in> set routes" "goodRoute compile steps r"
    and eq: "r_From r = r_To r"
  have "(r_From r, r_To r) \<in> edges_of steps routes"
    using r unfolding edges_of_def goodRoute_def by blast
  with a eq show False by (auto simp: acyclic_def)
qed

lemma routes_valid_iff:
  assumes "distinct (names_of steps)" "steps \<noteq> []"
  shows "orElse (routesMsg compile (set (names_of steps)) routes {}) (cycleMsg (newGraph compile steps routes)) = None
    \<longleftrightarrow> distinct routes \<and> (\<forall>r\<in>set routes. goodRoute compile steps r) \<and> acyclic (edges_of steps routes)"
  unfolding orElse_None cycleMsg_None[OF assms] routesMsg_None validateWhen_None
  using acyclic_no_loop[of steps routes _ compile] by (auto simp: goodRoute_def)

text \<open>
  C8: \<open>validateGraph\<close> decides what it should.  For a workflow whose maps and loops are
  accepted, the routes are accepted exactly when there are none, or they are at most 200,
  pairwise different, run between known steps, carry conditions that compile within the
  length limit, and form no cycle.
\<close>
theorem validateGraph_decides:
  assumes "distinct (names_of steps)" "steps \<noteq> []"
    and "validateMaps steps maps routes = None" "validateLoops compile steps loops routes = None"
  shows "validateGraph compile steps routes maps loops = None \<longleftrightarrow>
     routes = [] \<or> length routes \<le> 200 \<and> distinct routes
        \<and> (\<forall>r\<in>set routes. goodRoute compile steps r) \<and> acyclic (edges_of steps routes)"
  using assms(3,4) routes_valid_iff[OF assms(1,2), of compile routes]
  by (simp add: validateGraph_def maxRoutes_def)

lemma validateGraph_decides_witness:
  "validateGraph Inr demoSteps [plain_route ''a'' ''b''] [] [] = (None :: vmsg option)
     \<longleftrightarrow> [plain_route ''a'' ''b''] = [] \<or> length [plain_route ''a'' ''b''] \<le> 200 \<and> distinct [plain_route ''a'' ''b'']
        \<and> (\<forall>r\<in>set [plain_route ''a'' ''b'']. goodRoute (Inr :: string \<Rightarrow> string + string) demoSteps r)
        \<and> acyclic (edges_of demoSteps [plain_route ''a'' ''b''])"
  by (rule validateGraph_decides) (simp_all add: demoSteps_def validateMaps_def validateLoops_def)

text \<open>
  the message about a cycle names the right steps: exactly those on a cycle or downstream
  of one, and there is one.  The other message, that no step is an entry, is never given:
  an acyclic graph has an entry.
\<close>
theorem cycle_report_exact:
  assumes "distinct (names_of steps)" "steps \<noteq> []"
  shows "(\<forall>residual. cycleMsg (newGraph compile steps routes) = Some (RoutesCycle residual) \<longrightarrow>
      residual \<noteq> [] \<and> set residual = {n \<in> set (names_of steps). \<exists>c. (c, c) \<in> (edges_of steps routes)\<^sup>+
                                                              \<and> (c, n) \<in> (edges_of steps routes)\<^sup>*})
    \<and> cycleMsg (newGraph compile steps routes) \<noteq> Some NoEntryStep"
proof (intro conjI allI impI)
  show "cycleMsg (newGraph compile steps routes) \<noteq> Some NoEntryStep"
    by (rule cycleMsg_never_NoEntry[OF assms])
  fix residual assume msg: "cycleMsg (newGraph compile steps routes) = Some (RoutesCycle residual)"
  then obtain order where t: "topoOrder (newGraph compile steps routes) = (order, residual, False)"
    by (auto simp: cycleMsg_def split: prod.splits if_splits)
  obtain indeg where inv: "kahnInv steps routes indeg [] order"
    and ok: "False \<longleftrightarrow> length order = length steps"
    and res: "residual = (if False then [] else filter (\<lambda>n. 0 < indeg n) (names_of steps))"
    by (rule topoOrder_final[OF assms(1) t])
  have mem: "n \<in> set residual \<longleftrightarrow> n \<in> set (names_of steps) \<and> n \<notin> set order" for n
    using kahn_done_sub(4)[OF inv, of n] unfolding res if_False set_filter by blast
  then show "set residual = {n \<in> set (names_of steps). \<exists>c. (c, c) \<in> (edges_of steps routes)\<^sup>+
                                                     \<and> (c, n) \<in> (edges_of steps routes)\<^sup>*}"
    using not_emitted_iff[OF inv] by blast
  have "set order \<noteq> set (names_of steps)" using ok length_order_iff[OF assms(1) inv] by blast
  then have "\<exists>n. n \<in> set residual" using mem kahn_done_sub(2)[OF inv] by blast
  then show "residual \<noteq> []" by auto
qed

lemma cycle_report_exact_witness:
  "cycleMsg (newGraph Inr demoSteps [plain_route ''a'' ''b'', plain_route ''b'' ''a''] :: string workflowGraph)
     \<noteq> Some NoEntryStep"
  using cycle_report_exact[of demoSteps Inr "[plain_route ''a'' ''b'', plain_route ''b'' ''a'']"]
  by (simp add: demoSteps_def)

text \<open>
  Kahn's algorithm.  The emitted order has no duplicates, every predecessor of an emitted
  step, direct or not, comes before it, and the algorithm succeeds exactly on acyclic graphs,
  then emitting every step.
\<close>
theorem topoOrder_correct:
  assumes "distinct (names_of steps)"
    and "topoOrder (newGraph compile steps routes) = (order, residual, ok)"
  shows "distinct order \<and> set order \<subseteq> set (names_of steps)
    \<and> (\<forall>a n i. (a, n) \<in> (edges_of steps routes)\<^sup>+ \<and> i < length order \<and> order ! i = n
          \<longrightarrow> (\<exists>j<i. order ! j = a))
    \<and> ok = acyclic (edges_of steps routes)
    \<and> (ok \<longrightarrow> set order = set (names_of steps) \<and> residual = [])"
proof -
  obtain indeg where inv: "kahnInv steps routes indeg [] order"
    and ok: "ok \<longleftrightarrow> length order = length steps"
    and res: "residual = (if ok then [] else filter (\<lambda>n. 0 < indeg n) (names_of steps))"
    by (rule topoOrder_final[OF assms])
  have "ok = acyclic (edges_of steps routes)"
    using topo_ok_iff[OF assms(1), of compile routes] assms(2) by simp
  moreover have "ok \<longrightarrow> set order = set (names_of steps) \<and> residual = []"
    using ok res length_order_iff[OF assms(1) inv] by simp
  moreover have "\<forall>a n i. (a, n) \<in> (edges_of steps routes)\<^sup>+ \<and> i < length order \<and> order ! i = n
      \<longrightarrow> (\<exists>j<i. order ! j = a)"
    using emitted_before[OF inv] by blast
  ultimately show ?thesis using kahn_done_sub(1,2)[OF inv] by blast
qed

lemma topoOrder_correct_witness:
  "\<exists>order residual ok. topoOrder demoGraph = (order, residual, ok) \<and> distinct order
     \<and> ok = acyclic (edges_of demoSteps [plain_route ''a'' ''b''])"
proof -
  obtain order residual ok where t: "topoOrder demoGraph = (order, residual, ok)"
    by (metis prod_cases3)
  from topoOrder_correct[OF demo_acyclic(1) t[unfolded demoGraph_def]] t show ?thesis by blast
qed

section \<open>Visibility of outputs\<close>

text \<open>
  C9: \<open>buildAncestors\<close> terminates on every graph, cyclic ones too, and computes reachability:
  a step sees the output of another exactly when there is a path of routes from it.
\<close>
theorem visible_is_reachability:
  "visibleFor (newGraph compile steps routes) node outputs =
     (\<lambda>n. if (n, node) \<in> (edges_of steps routes)\<^sup>+ then outputs n else None)
   \<and> (\<exists>anc. ancestorLoop steps routes (buildIndex steps) = Some (False, anc))"
proof -
  obtain ch anc where loop: "ancestorLoop steps routes (buildIndex steps) = Some (ch, anc)"
    using ancestorLoop_terminates by (metis surj_pair)
  then have "\<not> ch" unfolding ancestorLoop_def using while_option_stop by fastforce
  with loop show ?thesis by (simp add: visibleFor_newGraph)
qed

text \<open>
  a workflow without routes keeps the linear semantics: in the graph a run is built from,
  a step sees exactly the outputs of the steps listed before it.
\<close>
theorem linear_visibility:
  assumes "distinct (names_of steps)" "j < length steps"
  shows "visibleFor (buildGraph compile steps [] [] []) (st_Name (steps ! j)) outputs =
     (\<lambda>n. if n \<in> set (take j (names_of steps)) then outputs n else None)"
proof -
  have "visibleFor (buildGraph compile steps [] [] []) node outs
      = visibleFor (newGraph compile steps (deriveRoutes steps)) node outs" for node outs
    by (simp add: visibleFor_def buildGraph_def withLoops_def withMaps_def Let_def)
  moreover have "(n, st_Name (steps ! j)) \<in> (edges_of steps (deriveRoutes steps))\<^sup>+
      \<longleftrightarrow> n \<in> set (take j (names_of steps))" for n
  proof
    assume "(n, st_Name (steps ! j)) \<in> (edges_of steps (deriveRoutes steps))\<^sup>+"
    then obtain i k where ik: "i < k" "k < length steps" "n = st_Name (steps ! i)"
      "st_Name (steps ! j) = st_Name (steps ! k)"
      using chain_trancl_less[OF assms(1)] by blast
    then have "names_of steps ! j = names_of steps ! k" using assms(2) by simp
    then have "k = j" using assms ik(2) by (simp only: nth_eq_iff_index_eq length_map)
    with ik have "i < j" "n = names_of steps ! i" using assms(2) by simp_all
    then show "n \<in> set (take j (names_of steps))" using assms(2) by (auto simp: in_set_conv_nth)
  next
    assume "n \<in> set (take j (names_of steps))"
    then obtain i where "i < j" "n = st_Name (steps ! i)" using assms(2) by (auto simp: in_set_conv_nth)
    then show "(n, st_Name (steps ! j)) \<in> (edges_of steps (deriveRoutes steps))\<^sup>+"
      using chain_trancl assms(2) by blast
  qed
  ultimately show ?thesis by (simp add: visibleFor_newGraph)
qed

lemma linear_visibility_witness:
  "\<forall>outs. visibleFor (buildGraph Inr demoSteps [] [] [] :: string workflowGraph) ''b'' outs =
     (\<lambda>n. if n \<in> set (take 1 (names_of demoSteps)) then outs n else None)"
  using linear_visibility[of demoSteps 1 Inr] by (simp add: demoSteps_def)

section \<open>Effective routes\<close>

text \<open>A workflow without routes runs as the chain of its steps.\<close>

definition effectiveRoutes :: "WorkflowStep list \<Rightarrow> WorkflowRoute list \<Rightarrow> WorkflowRoute list" where
  "effectiveRoutes steps routes = (if routes = [] then deriveRoutes steps else routes)"

lemma derived_acyclic:
  assumes "distinct (names_of steps)"
  shows "acyclic (edges_of steps (deriveRoutes steps))"
  unfolding acyclic_def
proof (intro allI notI)
  fix n assume "(n, n) \<in> (edges_of steps (deriveRoutes steps))\<^sup>+"
  then obtain i j where ij: "i < j" "j < length steps" "n = st_Name (steps ! i)" "n = st_Name (steps ! j)"
    using chain_trancl_less[OF assms] by blast
  then have "names_of steps ! i = names_of steps ! j" by simp
  with ij(1,2) assms show False by (simp only: nth_eq_iff_index_eq length_map)
qed

end
