(* ===== verification/Wf_Findings.thy ===== *)
theory Wf_Findings
  imports Wf_GraphTheorems
begin

text \<open>
  Workflows the validator accepts whose runs do not do what the comments of the code say, each
  a concrete workflow evaluated through \<open>validateGraph\<close>, \<open>buildGraph\<close> and the scheduler.
\<close>

definition demoMap :: "string \<Rightarrow> MapDef" where
  "demoMap k = \<lparr>md_ID = k, md_Var = ''v'', md_Values = [''1''], md_ValuesFrom = [], md_MaxConcurrent = 0,
     md_Sequential = False, md_FailureTolerance = 0, md_AllowEmpty = False, md_Volume = [],
     md_MountPath = [], md_SizeMB = 0, md_Medium = [], md_Outputs = []\<rparr>"

definition inMap :: "string \<Rightarrow> string \<Rightarrow> WorkflowStep" where
  "inMap k n = (plain_step n)\<lparr>ws_MapID := k\<rparr>"

definition condRoute :: "string \<Rightarrow> string \<Rightarrow> string \<Rightarrow> WorkflowRoute" where
  "condRoute a b w = (plain_route a b)\<lparr>r_When := w\<rparr>"

text \<open>Conditions that are the literals \<open>true\<close> and \<open>false\<close>.\<close>

definition literalCtx :: "string runCtx" where
  "literalCtx = \<lparr>rc_engine = \<lparr>ce_run = (\<lambda>p e. Some (Inr (ABool (p = ''true'')))), ce_object = (\<lambda>x. None)\<rparr>,
     rc_runID = ''run'', rc_inputs = Map.empty, rc_inbound = Map.empty\<rparr>"

definition states :: "string list \<Rightarrow> sched \<Rightarrow> phase \<times> nodeState option list" where
  "states ns s = (sc_phase s, map (rs_nodes (sc_st s)) ns)"

section \<open>A region a route leaves and re-enters\<close>

definition reentrantSteps :: "WorkflowStep list" where
  "reentrantSteps = [inMap ''m'' ''a'', plain_step ''x'', inMap ''m'' ''b'']"

definition reentrantRoutes :: "WorkflowRoute list" where
  "reentrantRoutes = [plain_route ''a'' ''x'', plain_route ''x'' ''b'']"

text \<open>
  the comment of \<open>validateRegionBoundary\<close> promises to reject an edge from inside a region
  back out and in again, because such a run would deadlock.  A workflow of this shape passes
  the whole validator, and its run returns \<open>completed\<close> in the first iteration with every step
  still pending: neither the region nor the step between can ever start.
\<close>
theorem reentrant_region_accepted:
  "validateGraph (Inr :: string \<Rightarrow> string + string) reentrantSteps reentrantRoutes [demoMap ''m''] [] = None
   \<and> map_option (states [''a'', ''x'', ''b''])
       (demoRun literalCtx (buildGraph Inr reentrantSteps reentrantRoutes [demoMap ''m''] []) [EvTop])
     = Some (Returned StatusCompleted, [Some NodePending, Some NodePending, Some NodePending])"
  by (rule conjI; code_simp)

section \<open>A region one of whose members is skipped on its own\<close>

definition splitSteps :: "WorkflowStep list" where
  "splitSteps = [plain_step ''x'', inMap ''m'' ''a'', inMap ''m'' ''b'', plain_step ''d'']"

definition splitRoutes :: "WorkflowRoute list" where
  "splitRoutes = [condRoute ''x'' ''a'' ''false'', plain_route ''b'' ''d'', plain_route ''x'' ''d'']"

text \<open>
  \<open>resolveOutbound\<close> skips a step all of whose inbound routes are not taken, also a member of
  a region, although a region is to be scheduled as one unit.  The region is then neither ready
  nor skipped as a whole (both want every member pending), its other member stays pending, and
  so does everything downstream; the run still returns \<open>completed\<close>.
\<close>
theorem split_region_strands:
  "validateGraph (Inr :: string \<Rightarrow> string + string) splitSteps splitRoutes [demoMap ''m''] [] = None
   \<and> map_option (states [''x'', ''a'', ''b'', ''d''])
       (demoRun literalCtx (buildGraph Inr splitSteps splitRoutes [demoMap ''m''] [])
          [EvTop, EvResult 0 (result StatusCompleted), EvTop])
     = Some (Returned StatusCompleted,
             [Some NodeCompleted, Some NodeSkipped, Some NodePending, Some NodePending])"
  by (rule conjI; code_simp)

section \<open>A step made ready by the skip of a region\<close>

definition lateSteps :: "WorkflowStep list" where
  "lateSteps = [plain_step ''x'', inMap ''m'' ''a'', inMap ''m'' ''b'', plain_step ''d'']"

definition lateRoutes :: "WorkflowRoute list" where
  "lateRoutes = [condRoute ''x'' ''b'' ''false'', plain_route ''a'' ''b'', plain_route ''b'' ''d'', plain_route ''x'' ''d'']"

text \<open>
  \<open>runGraph\<close> skips the regions behind untaken routes after it has launched what was ready,
  and leaves the loop when nothing is in flight.  A step that only the skip makes ready is then
  lost: here \<open>d\<close> has all its routes decided and one taken when the run returns \<open>completed\<close>, and
  is still pending.
\<close>
theorem skip_wakes_nobody:
  "validateGraph (Inr :: string \<Rightarrow> string + string) lateSteps lateRoutes [demoMap ''m''] [] = None
   \<and> map_option (\<lambda>s. (states [''x'', ''a'', ''b'', ''d''] s,
                     nodeReady (buildGraph Inr lateSteps lateRoutes [demoMap ''m''] [] :: string workflowGraph)
                       (sc_st s) ''d''))
       (demoRun literalCtx (buildGraph Inr lateSteps lateRoutes [demoMap ''m''] [])
          [EvTop, EvResult 0 (result StatusCompleted), EvTop])
     = Some ((Returned StatusCompleted,
              [Some NodeCompleted, Some NodeSkipped, Some NodeSkipped, Some NodePending]), True)"
  by (rule conjI; code_simp)

section \<open>A condition without a program\<close>

text \<open>
  \<open>newGraph\<close> keeps going when a condition does not compile and says of the missing program
  that it means unconditional on success.  \<open>decideRoute\<close> does not read it that way: unless the
  source was skipped or cancelled the route is taken, also when the source failed.
\<close>
theorem uncompiled_condition_taken:
  assumes "r_When (routes ! ri) \<noteq> []" "compile (r_When (routes ! ri)) = Inl err" "ri < length routes"
  shows "fst (decideRoute C (newGraph compile steps routes) st ri (Some NodeFailed)) = EdgeTaken"
  using assms by (simp add: decideRoute_def evalWhen_def compileWhen_def)

lemma uncompiled_condition_taken_witness:
  "\<forall>st. fst (decideRoute literalCtx (newGraph Inl demoSteps [condRoute ''a'' ''b'' ''?'']) st 0 (Some NodeFailed))
     = EdgeTaken"
  by (rule allI, rule uncompiled_condition_taken[where err = "''?''"]) (simp_all add: condRoute_def)

section \<open>A condition on a step that is no ancestor\<close>

text \<open>An engine with one program, which asks whether step \<open>y\<close> completed.\<close>

definition peekCtx :: "string runCtx" where
  "peekCtx = \<lparr>rc_engine = \<lparr>ce_run = (\<lambda>p e. Some (Inr (ABool
        (case ee_Steps e ''y'' of None \<Rightarrow> False | Some v \<Rightarrow> sv_Status v = ''completed'')))),
        ce_object = (\<lambda>x. None)\<rparr>,
     rc_runID = ''run'', rc_inputs = Map.empty, rc_inbound = Map.empty\<rparr>"

definition peekGraph :: "string workflowGraph" where
  "peekGraph = newGraph Inr [plain_step ''x'', plain_step ''y'', plain_step ''z'']
     [condRoute ''x'' ''z'' ''y is done'']"

text \<open>
  the comment on the condition environment says that conditions mirror the ancestor-scoped
  visibility of outputs, so that a sibling branch cannot be referenced; but \<open>buildExprEnv\<close>
  exposes every finished step.  Two schedules of one workflow with the same results, differing
  only in which of two concurrent steps reports first, take and do not take the same route.
\<close>
theorem condition_depends_on_schedule:
  "map_option (states [''x'', ''y'', ''z''])
      (demoRun peekCtx peekGraph [EvTop, EvResult 0 (result StatusCompleted), EvTop, EvResult 0 (result StatusCompleted), EvTop])
    = Some (Returned StatusCompleted, [Some NodeCompleted, Some NodeCompleted, Some NodeSkipped])
   \<and> map_option (states [''x'', ''y'', ''z''])
      (demoRun peekCtx peekGraph [EvTop, EvResult 1 (result StatusCompleted), EvTop, EvResult 0 (result StatusCompleted), EvTop])
    = Some (Collecting, [Some NodeCompleted, Some NodeCompleted, Some NodeRunning])"
  by (rule conjI; code_simp)

end
