(* ===== verification/Wf_Typing.thy ===== *)
theory Wf_Typing
  imports Wf_Findings
begin

text \<open>
  Type safety of a run, regions and loops included: every index and every name the scheduler
  follows is in range, in every graph the service can build and in every reachable state.
\<close>

section \<open>Graphs\<close>

definition nodesIn :: "string set \<Rightarrow> (string \<times> 'r) list \<Rightarrow> ('r \<Rightarrow> string list) \<Rightarrow> bool" where
  "nodesIn N xs nodes \<longleftrightarrow> (\<forall>(k, r)\<in>set xs. set (nodes r) \<subseteq> N)"

lemma set_update_subset: "set (AList.update k v m) \<subseteq> insert (k, v) (set m)"
  by (induction m) auto

lemma nodesIn_update: "nodesIn N m f \<Longrightarrow> set (f v) \<subseteq> N \<Longrightarrow> nodesIn N (AList.update k v m) f"
  using set_update_subset[of k v m] unfolding nodesIn_def by fast

lemma nodesIn_lookup: "nodesIn N m f \<Longrightarrow> map_of m k = Some r \<Longrightarrow> set (f r) \<subseteq> N"
  unfolding nodesIn_def by (fast dest: map_of_SomeD)

lemma nodesIn_filter: "nodesIn N m f \<Longrightarrow> nodesIn N (filter P m) f"
  by (auto simp: nodesIn_def)

lemma nodesIn_fold:
  assumes "nodesIn N m f" "\<And>x m. x \<in> set xs \<Longrightarrow> nodesIn N m f \<Longrightarrow> nodesIn N (g x m) f"
  shows "nodesIn N (fold g xs m) f"
  using assms by (induction xs arbitrary: m) auto

lemma enumerate_mem: "(i, ws) \<in> set (enumerate 0 steps) \<Longrightarrow> st_Name ws \<in> set (names_of steps)"
  by (auto simp: enumerate_eq_zip dest: set_zip_rightD)

lemma regionsOf_nodes: "nodesIn (set (names_of steps)) (regionsOf steps defs) mr_nodes"
proof -
  let ?N = "set (names_of steps)"
  have "nodesIn ?N (fold (\<lambda>d m. AList.update (md_ID d) \<lparr>mr_def = d, mr_nodes = [], mr_firstIndex = 0\<rparr> m) defs []) mr_nodes"
    by (rule nodesIn_fold) (simp add: nodesIn_def, simp add: nodesIn_update)
  moreover have "nodesIn ?N (addMapMember x m) mr_nodes" if "x \<in> set (enumerate 0 steps)" "nodesIn ?N m mr_nodes" for x m
  proof -
    obtain i ws where x: "x = (i, ws)" by fastforce
    have "st_Name ws \<in> ?N" using that(1) enumerate_mem unfolding x by blast
    then show ?thesis using that(2) nodesIn_lookup[OF that(2), of "ws_MapID ws"]
      by (cases "map_of m (ws_MapID ws)") (auto simp: addMapMember_def x simp del: set_map intro!: nodesIn_update)
  qed
  ultimately have "nodesIn ?N (fold addMapMember (enumerate 0 steps)
      (fold (\<lambda>d m. AList.update (md_ID d) \<lparr>mr_def = d, mr_nodes = [], mr_firstIndex = 0\<rparr> m) defs [])) mr_nodes"
    by (rule nodesIn_fold)
  then show ?thesis unfolding regionsOf_def Let_def by (rule nodesIn_filter)
qed

lemma climbLoops_nodes: "nodesIn N byID lr_nodes \<Longrightarrow> n \<in> N \<Longrightarrow> nodesIn N (climbLoops parent i n k seen byID) lr_nodes"
proof (induction parent i n k seen byID rule: climbLoops.induct)
  case (1 parent i n k seen byID)
  show ?case
  proof (cases "k = [] \<or> k \<in> seen \<or> map_of byID k = None")
    case True
    then show ?thesis using 1(2) by (subst climbLoops.simps) auto
  next
    case False
    then obtain l where l: "map_of byID k = Some l" "\<not> (k = [] \<or> k \<in> seen)" by auto
    have "nodesIn N (AList.update k (addLoopNode i n l) byID) lr_nodes"
      using 1(2,3) nodesIn_lookup[OF 1(2) l(1)] by (intro nodesIn_update) (auto simp: addLoopNode_def)
    then show ?thesis using 1(1)[OF l(2,1)] 1(3) l by (subst climbLoops.simps) simp
  qed
qed

lemma loopsOf_nodes: "nodesIn (set (names_of steps)) (loopsOf steps defs) lr_nodes"
proof -
  let ?N = "set (names_of steps)"
  have "nodesIn ?N (fold (\<lambda>d m. AList.update (ld_ID d) \<lparr>lr_def = d, lr_nodes = [], lr_firstIndex = 0\<rparr> m) defs []) lr_nodes"
    by (rule nodesIn_fold) (simp add: nodesIn_def, simp add: nodesIn_update)
  moreover have "nodesIn ?N (addLoopMember (parentOf defs) x m) lr_nodes"
    if "x \<in> set (enumerate 0 steps)" "nodesIn ?N m lr_nodes" for x m
  proof -
    obtain i ws where x: "x = (i, ws)" by fastforce
    have "st_Name ws \<in> ?N" using that(1) enumerate_mem unfolding x by blast
    then show ?thesis using that(2) by (simp add: addLoopMember_def x climbLoops_nodes)
  qed
  ultimately have "nodesIn ?N (fold (addLoopMember (parentOf defs)) (enumerate 0 steps)
      (fold (\<lambda>d m. AList.update (ld_ID d) \<lparr>lr_def = d, lr_nodes = [], lr_firstIndex = 0\<rparr> m) defs [])) lr_nodes"
    by (rule nodesIn_fold)
  then show ?thesis unfolding loopsOf_def Let_def by (rule nodesIn_filter)
qed

definition graphTyped :: "'p workflowGraph \<Rightarrow> bool" where
  "graphTyped g \<longleftrightarrow>
     length (g_programs g) = length (g_routes g)
     \<and> (\<forall>n i. g_index g n = Some i \<longrightarrow> i < length (g_steps g) \<and> st_Name (g_steps g ! i) = n)
     \<and> (\<forall>n. \<forall>ri\<in>set (g_out g n). ri < length (g_routes g) \<and> r_From (g_routes g ! ri) = n)
     \<and> (\<forall>n. \<forall>ri\<in>set (g_in g n). ri < length (g_routes g) \<and> r_To (g_routes g ! ri) = n)
     \<and> nodesIn (set (names_of (g_steps g))) (g_regions g) mr_nodes
     \<and> nodesIn (set (names_of (g_steps g))) (g_loops g) lr_nodes"

lemma newGraph_typed: "graphTyped (newGraph c steps routes)"
  using buildIndex_Some[of steps] by (auto simp: graphTyped_def nodesIn_def)

lemma buildGraph_typed: "graphTyped (buildGraph c steps routes maps loops)"
  using newGraph_typed regionsOf_nodes loopsOf_nodes
  by (auto simp: graphTyped_def buildGraph_def withMaps_def withLoops_def Let_def)

section \<open>States\<close>

definition stTyped :: "'p workflowGraph \<Rightarrow> runState \<Rightarrow> bool" where
  "stTyped g st \<longleftrightarrow> length (rs_edges st) = length (g_routes g) \<and> dom (rs_nodes st) = set (names_of (g_steps g))"

definition unitsTyped :: "'p workflowGraph \<Rightarrow> (workUnit \<times> 'v) list \<Rightarrow> bool" where
  "unitsTyped g fl \<longleftrightarrow> (\<forall>(u, v)\<in>set fl. set (unitNodes u) \<subseteq> set (names_of (g_steps g)))"

lemma setNodes_typed: "stTyped g st \<Longrightarrow> set ns \<subseteq> set (names_of (g_steps g)) \<Longrightarrow> stTyped g (setNodes ns s st)"
proof -
  have "dom (fold (\<lambda>n m. m(n \<mapsto> s)) ns m) = dom m \<union> set ns" for m :: "string \<rightharpoonup> nodeState"
    by (induction ns arbitrary: m) auto
  then show "stTyped g st \<Longrightarrow> set ns \<subseteq> set (names_of (g_steps g)) \<Longrightarrow> stTyped g (setNodes ns s st)"
    by (auto simp: stTyped_def setNodes_def)
qed

lemma setEdge_typed: "stTyped g st \<Longrightarrow> stTyped g (setEdge C g ri src st)"
  by (simp add: stTyped_def setEdge_def split: prod.split)

lemma resolveEdges_typed:
  "stTyped g st \<Longrightarrow> resolveEdges C g src ris st queue = (st', queue') \<Longrightarrow> stTyped g st'"
proof (induction ris arbitrary: st queue)
  case (Cons ri ris)
  let ?st1 = "setEdge C g ri src st" and ?to = "r_To (g_routes g ! ri)"
  have "stTyped g (?st1\<lparr>rs_nodes := (rs_nodes ?st1)(?to \<mapsto> NodeSkipped)\<rparr>)" if "skipsNow g ?st1 ?to"
    using setEdge_typed[OF Cons.prems(1), of C ri src] that by (auto simp: stTyped_def skipsNow_def)
  note t = this
  show ?case
  proof (cases "edgeAt st ri = EdgePending")
    case True
    then show ?thesis using Cons.prems Cons.IH[OF t] Cons.IH[OF setEdge_typed[OF Cons.prems(1)]]
      by (cases "skipsNow g ?st1 ?to") (simp_all add: Let_def)
  next
    case False
    then show ?thesis using Cons.prems Cons.IH by simp
  qed
qed simp

lemma resolveQueue_typed: "stTyped g st \<Longrightarrow> stTyped g (resolveQueue C g st queue)"
proof (induction C g st queue rule: resolveQueue.induct)
  case (2 C g st n queue)
  obtain st' queue' where e: "resolveEdges C g (rs_nodes st n) (g_out g n) st queue = (st', queue')" by fastforce
  show ?case using 2(1)[OF e[symmetric]] resolveEdges_typed[OF 2(2) e] by (simp add: e)
qed simp

lemma resolveOutbound_typed: "stTyped g st \<Longrightarrow> stTyped g (resolveOutbound C g n st)"
  unfolding resolveOutbound_def by (rule resolveQueue_typed)

lemma fold_typed: "P st \<Longrightarrow> (\<And>x st. x \<in> set xs \<Longrightarrow> P st \<Longrightarrow> P (h x st)) \<Longrightarrow> P (fold h xs st)"
  by (induction xs arbitrary: st) auto

lemma outbound_typed: "stTyped g st \<Longrightarrow> stTyped g (fold (resolveOutbound C g) ns st)"
  by (rule fold_typed) (auto intro: resolveOutbound_typed)

lemma skipRegion_typed: "stTyped g st \<Longrightarrow> set ns \<subseteq> set (names_of (g_steps g)) \<Longrightarrow> stTyped g (skipRegion C g ns st)"
  by (simp add: skipRegion_def outbound_typed setNodes_typed)

lemma skipSkipped_typed:
  assumes "graphTyped g" "stTyped g st"
  shows "stTyped g (skipSkippedRegions C g st)"
proof -
  have r: "set (mr_nodes r) \<subseteq> set (names_of (g_steps g))" if "(k, r) \<in> set (g_regions g)" for k r
    using assms(1) that unfolding graphTyped_def nodesIn_def by fast
  have l: "set (lr_nodes l) \<subseteq> set (names_of (g_steps g))" if "(k, l) \<in> set (g_loops g)" for k l
    using assms(1) that unfolding graphTyped_def nodesIn_def by fast
  have "stTyped g (fold (\<lambda>(k, r) st. skipRegion C g (mr_nodes r) st) (g_regions g) st)"
    using assms(2) by (rule fold_typed) (auto intro: skipRegion_typed dest: r simp del: set_map)
  then show ?thesis unfolding skipSkippedRegions_def
    by (rule fold_typed) (auto intro!: skipRegion_typed l simp del: set_map)
qed

abbreviation launchTyped :: "'p workflowGraph \<Rightarrow> runState \<times> (workUnit \<times> 'v) list \<Rightarrow> bool" where
  "launchTyped g p \<equiv> stTyped g (fst p) \<and> unitsTyped g (snd p)"

lemma launchUnit_typed:
  assumes "launchTyped g (st, fl)" "set (unitNodes u) \<subseteq> set (names_of (g_steps g))"
  shows "launchTyped g (launchUnit u v (st, fl))"
proof -
  have "unitsTyped g (fl @ [(u, v)])"
    using assms unfolding unitsTyped_def snd_conv set_append list.set ball_Un ball_simps prod.case by (elim conjE) (intro conjI TrueI)
  moreover have "stTyped g (setNodes (unitNodes u) NodeRunning st)"
    using assms(1) by (intro setNodes_typed[OF _ assms(2)]) simp
  ultimately show ?thesis unfolding launchUnit_def prod.case fst_conv snd_conv by (rule conjI[rotated])
qed

lemma readyRegions_nodes:
  assumes "graphTyped g" "r \<in> set (readyRegions g st)"
  shows "set (mr_nodes r) \<subseteq> set (names_of (g_steps g))"
proof -
  obtain k where k: "map_of (g_regions g) k = Some r"
    using assms(2) unfolding readyRegions_def by (auto split: option.splits if_splits)
  have "nodesIn (set (names_of (g_steps g))) (g_regions g) mr_nodes"
    using assms(1) unfolding graphTyped_def by (elim conjE)
  from nodesIn_lookup[OF this k] show ?thesis .
qed

lemma readyLoops_nodes:
  assumes "graphTyped g" "l \<in> set (readyLoops g st)"
  shows "set (lr_nodes l) \<subseteq> set (names_of (g_steps g))"
proof -
  obtain k where k: "map_of (g_loops g) k = Some l"
    using assms(2) unfolding readyLoops_def by (auto split: option.splits if_splits)
  have "nodesIn (set (names_of (g_steps g))) (g_loops g) lr_nodes"
    using assms(1) unfolding graphTyped_def by (elim conjE)
  from nodesIn_lookup[OF this k] show ?thesis .
qed

lemma readyNodes_nodes: "n \<in> set (readyNodes g st) \<Longrightarrow> n \<in> set (names_of (g_steps g))"
  by (simp add: readyNodes_def)

lemma launchRegion_typed:
  assumes "launchTyped g p" "set (mr_nodes r) \<subseteq> set (names_of (g_steps g))"
  shows "launchTyped g (launchRegion C g r p)"
proof -
  obtain st fl where p: "p = (st, fl)" by (rule prod.exhaust)
  show ?thesis unfolding p launchRegion_def prod.case
    by (rule launchUnit_typed) (use assms in \<open>simp_all only: p unitNodes.simps\<close>)
qed

lemma launchLoop_typed:
  assumes "launchTyped g p" "set (lr_nodes l) \<subseteq> set (names_of (g_steps g))"
  shows "launchTyped g (launchLoop C g l p)"
proof -
  obtain st fl where p: "p = (st, fl)" by (rule prod.exhaust)
  show ?thesis unfolding p launchLoop_def prod.case
    by (rule launchUnit_typed) (use assms in \<open>simp_all only: p unitNodes.simps\<close>)
qed

lemma launchNode_typed:
  assumes "launchTyped g p" "n \<in> set (names_of (g_steps g))"
  shows "launchTyped g (launchNode C g n p)"
proof -
  obtain st fl where p: "p = (st, fl)" by (rule prod.exhaust)
  have n: "set [n] \<subseteq> set (names_of (g_steps g))" using assms(2) by simp
  show ?thesis
  proof (cases "isGate g n")
    case True
    then show ?thesis using assms(1) setNodes_typed[OF _ n, of st NodeAwaiting] by (simp add: p launchNode_def)
  next
    case False
    then show ?thesis unfolding p launchNode_def prod.case if_not_P[OF False]
      by (intro launchUnit_typed) (use assms(1) n in \<open>simp_all only: p unitNodes.simps\<close>)
  qed
qed

lemma launchPhase_typed:
  assumes g: "graphTyped g" and s: "stTyped g st" "unitsTyped g fl"
  shows "launchTyped g (launchPhase C g (st, fl))"
proof -
  have reg: "launchTyped g (fold (launchRegion C g) (readyRegions g st0) p)" if "launchTyped g p" for st0 p
    using that by (rule fold_typed[where P = "launchTyped g"]) (rule launchRegion_typed[OF _ readyRegions_nodes[OF g]])
  have loop: "launchTyped g (fold (launchLoop C g) (readyLoops g st0) p)" if "launchTyped g p" for st0 p
    using that by (rule fold_typed[where P = "launchTyped g"]) (rule launchLoop_typed[OF _ readyLoops_nodes[OF g]])
  have node: "launchTyped g (fold (launchNode C g) (readyNodes g st0) p)" if "launchTyped g p" for st0 p
    using that by (rule fold_typed[where P = "launchTyped g"]) (rule launchNode_typed[OF _ readyNodes_nodes])
  have pub: "stTyped g (publishCurrentStep g st)" if "stTyped g st" for st
    using that by (simp add: publishCurrentStep_def stTyped_def Let_def)
  obtain st1 fl1 where 1: "fold (launchRegion C g) (readyRegions g st) (st, fl) = (st1, fl1)" by fastforce
  obtain st2 fl2 where 2: "fold (launchLoop C g) (readyLoops g st1) (st1, fl1) = (st2, fl2)" by fastforce
  obtain st3 fl3 where 3: "fold (launchNode C g) (readyNodes g st2) (st2, fl2) = (st3, fl3)" by fastforce
  have "launchTyped g (st3, fl3)"
    using reg[of "(st, fl)" st] loop[of "(st1, fl1)" st1] node[of "(st2, fl2)" st2] s unfolding 1 2 3 by simp
  then show ?thesis by (simp add: launchPhase_def 1 2 3 pub skipSkipped_typed g)
qed

definition schedTyped :: "'p workflowGraph \<Rightarrow> sched \<Rightarrow> bool" where
  "schedTyped g s \<longleftrightarrow> stTyped g (sc_st s) \<and> unitsTyped g (sc_inflight s)
     \<and> (sc_phase s = Collecting \<longrightarrow> sc_inflight s \<noteq> [])"

lemma topStep_typed: "graphTyped g \<Longrightarrow> schedTyped g s \<Longrightarrow> schedTyped g (topStep C g s)"
  using launchPhase_typed[of g "sc_st s" "sc_inflight s" C]
  by (auto simp: topStep_def schedTyped_def Let_def split: prod.split)

lemma collectStep_typed:
  assumes "schedTyped g s" "i < length (sc_inflight s)"
  shows "schedTyped g (collectStep C g i r s)"
proof -
  let ?u = "fst (sc_inflight s ! i)"
  have u: "set (unitNodes ?u) \<subseteq> set (names_of (g_steps g))"
    using assms nth_mem[OF assms(2)] unfolding schedTyped_def unitsTyped_def by fastforce
  have "stTyped g (recordResult ?u r (sc_st s))"
    using assms(1) setNodes_typed[OF _ u, of "sc_st s" "statusToNodeState (ur_status r)"]
    by (simp add: schedTyped_def recordResult_def Let_def stTyped_def)
  moreover have "unitsTyped g (take i (sc_inflight s) @ drop (Suc i) (sc_inflight s))"
    using assms(1) unfolding schedTyped_def unitsTyped_def by (fastforce dest: in_set_takeD in_set_dropD)
  ultimately show ?thesis by (simp add: schedTyped_def collectStep_def Let_def outbound_typed)
qed

lemma sched_step_typed: "sched_step C g s s' \<Longrightarrow> graphTyped g \<Longrightarrow> schedTyped g s \<Longrightarrow> schedTyped g s'"
proof (induction rule: sched_step.induct)
  case (cancel s)
  then show ?case by (simp add: schedTyped_def)
qed (simp_all add: topStep_typed collectStep_typed)

lemma initSched_typed:
  assumes "stTyped g st"
  shows "schedTyped g (initSched C g st)"
proof -
  have "stTyped g (seedState C g st)"
    unfolding seedState_def using assms by (rule fold_typed) (auto intro: resolveOutbound_typed)
  then show ?thesis by (simp add: schedTyped_def initSched_def unitsTyped_def)
qed

lemma newRunState_typed: "stTyped g (newRunState g outputs completed)"
proof -
  have "dom (fold (\<lambda>ws m. m(st_Name ws \<mapsto> f ws)) xs m) = dom m \<union> set (names_of xs)" for f :: "WorkflowStep \<Rightarrow> nodeState" and xs m
    by (induction xs arbitrary: m) auto
  then show ?thesis by (simp add: stTyped_def newRunState_def)
qed

interpretation typed: invariant_system
  "\<lambda>s. \<exists>outs completed. s = initSched C (buildGraph c steps routes maps loops)
          (newRunState (buildGraph c steps routes maps loops) outs completed)"
  "sched_step C (buildGraph c steps routes maps loops)" "schedTyped (buildGraph c steps routes maps loops)"
  for C c steps routes maps loops
  by unfold_locales (auto intro: initSched_typed newRunState_typed sched_step_typed buildGraph_typed)

text \<open>
  C22: Type safety.  Whatever workflow the graph is built from, valid or not, and however its run is
  scheduled: every route index the scheduler follows is an index of a route with that end, every
  step index is an index of the step with that name, the run state has one entry per route and
  exactly the workflow's steps as nodes, whatever is in flight consists of such steps, and the
  loop never waits for a result when nothing is in flight.
\<close>
theorem run_type_safe:
  assumes "g = buildGraph c steps routes maps loops"
    and "(sched_step C g)\<^sup>*\<^sup>* (initSched C g (newRunState g outs completed)) s"
  shows "graphTyped g \<and> schedTyped g s"
  using typed.reachable_inv[of _ C c steps routes maps loops s] buildGraph_typed assms(2) unfolding assms(1) by blast

text \<open>A map region of two steps behind a plain one, its collection running.\<close>

lemma run_type_safe_witness:
  "\<exists>s. (sched_step literalCtx (buildGraph Inr splitSteps [plain_route ''x'' ''a''] [demoMap ''m''] []))\<^sup>*\<^sup>*
        (initSched literalCtx (buildGraph Inr splitSteps [plain_route ''x'' ''a''] [demoMap ''m''] [])
          (newRunState (buildGraph Inr splitSteps [plain_route ''x'' ''a''] [demoMap ''m''] []) Map.empty {})) s
     \<and> sc_phase s = Collecting
     \<and> schedTyped (buildGraph Inr splitSteps [plain_route ''x'' ''a''] [demoMap ''m''] []) s"
proof -
  let ?g = "buildGraph (Inr :: string \<Rightarrow> string + string) splitSteps [plain_route ''x'' ''a''] [demoMap ''m''] []"
  have "map_option sc_phase (demoRun literalCtx ?g [EvTop]) = Some Collecting" by code_simp
  from demoRun_reaches[OF this] obtain s where s: "runsTo literalCtx ?g Map.empty {} s" "sc_phase s = Collecting" by blast
  have "graphTyped ?g \<and> schedTyped ?g s" using s(1) unfolding runsTo_def by (rule run_type_safe[OF refl])
  then show ?thesis using s unfolding runsTo_def by blast
qed

end
