(* ===== verification/Wf_Subst.thy ===== *)
theory Wf_Subst
  imports Wf_Types Go_Strings
begin

text \<open>
  Templating of step inputs (\<open>src/systems/workflows/substitution.go\<close>): references
  \<open>${...}\<close> in string values, their resolution, the strict variant that fails a step, and the
  explanation it gives.  The messages are the constructors of \<open>reason\<close> with the values the
  source formats into the text.

  Maps whose size or iteration the code looks at are association lists with distinct keys.
  Decoding and encoding JSON enter through the record \<open>jsonLib\<close>: \<open>json.Unmarshal\<close> into an
  \<open>any\<close>, \<open>json.Valid\<close> and \<open>json.Marshal\<close>.
\<close>

record jsonLib =
  jl_decode :: "string \<Rightarrow> gany option"
  jl_valid :: "string \<Rightarrow> bool"
  jl_encode :: "gany \<Rightarrow> string"

record substContext =
  sb_inputs :: "(string \<times> string) list"
  sb_outputs :: "(string \<times> string) list"
  sb_matrix :: "(string \<times> string) list"
  sb_mapVars :: "(string \<times> string) list"
  sb_scatterPath :: string
  sb_runID :: string
  sb_workflowID :: string
  sb_depth :: int
  sb_stepName :: string
  sb_known :: "string list option"

definition sc_empty :: "substContext \<Rightarrow> bool" where
  "sc_empty sc \<longleftrightarrow> sb_inputs sc = [] \<and> sb_outputs sc = [] \<and> sb_matrix sc = [] \<and> sb_mapVars sc = []
                    \<and> sb_scatterPath sc = [] \<and> sb_runID sc = []"

section \<open>References in a string\<close>

text \<open>
  The pattern \<open>\$\{([^}]+)\}\<close> at the start of a string: the text between the braces and the
  rest.  \<open>refSegs\<close> is the left-to-right scan of \<open>ReplaceAllStringFunc\<close>.
\<close>

definition matchRef :: "string \<Rightarrow> (string \<times> string) option" where
  "matchRef s = (case CutPrefix s ''${'' of None \<Rightarrow> None
     | Some t \<Rightarrow> (let inner = takeWhile (\<lambda>c. c \<noteq> CHR ''}'') t; rest = dropWhile (\<lambda>c. c \<noteq> CHR ''}'') t
                 in if inner = [] \<or> rest = [] then None else Some (inner, tl rest)))"

lemma matchRef_Some:
  "matchRef s = Some (inner, rest) \<longleftrightarrow>
     s = ''${'' @ inner @ ''}'' @ rest \<and> inner \<noteq> [] \<and> CHR ''}'' \<notin> set inner"
proof
  assume m: "matchRef s = Some (inner, rest)"
  then obtain t where t: "s = ''${'' @ t" "inner = takeWhile (\<lambda>c. c \<noteq> CHR ''}'') t"
    "dropWhile (\<lambda>c. c \<noteq> CHR ''}'') t \<noteq> []" "inner \<noteq> []" "rest = tl (dropWhile (\<lambda>c. c \<noteq> CHR ''}'') t)"
    by (auto simp: matchRef_def CutPrefix_Some Let_def split: option.splits if_splits)
  have "hd (dropWhile (\<lambda>c. c \<noteq> CHR ''}'') t) = CHR ''}''" using hd_dropWhile[OF t(3)] by simp
  then have "dropWhile (\<lambda>c. c \<noteq> CHR ''}'') t = ''}'' @ rest" using t(3,5) by (metis append_Cons append_Nil hd_Cons_tl)
  then have "t = inner @ ''}'' @ rest" using t(2) by (metis takeWhile_dropWhile_id)
  moreover have "CHR ''}'' \<notin> set inner" using t(2) by (metis set_takeWhileD)
  ultimately show "s = ''${'' @ inner @ ''}'' @ rest \<and> inner \<noteq> [] \<and> CHR ''}'' \<notin> set inner"
    using t(1,4) by simp
next
  assume a: "s = ''${'' @ inner @ ''}'' @ rest \<and> inner \<noteq> [] \<and> CHR ''}'' \<notin> set inner"
  then have "CutPrefix s ''${'' = Some (inner @ ''}'' @ rest)" by (simp add: CutPrefix_Some)
  moreover have "\<forall>c\<in>set inner. c \<noteq> CHR ''}''" using a by metis
  then have "takeWhile (\<lambda>c. c \<noteq> CHR ''}'') (inner @ ''}'' @ rest) = inner"
    "dropWhile (\<lambda>c. c \<noteq> CHR ''}'') (inner @ ''}'' @ rest) = ''}'' @ rest"
    by (simp_all add: takeWhile_append2 dropWhile_append2)
  ultimately show "matchRef s = Some (inner, rest)" using a by (simp add: matchRef_def)
qed

function refSegs :: "string \<Rightarrow> (char + string) list" where
  "refSegs s = (case s of [] \<Rightarrow> []
     | c # s' \<Rightarrow> (case matchRef s of None \<Rightarrow> Inl c # refSegs s'
                 | Some (inner, rest) \<Rightarrow> Inr inner # refSegs rest))"
  by pat_completeness auto
termination
proof (relation "measure length")
  fix s x xs y inner rest
  assume "s = x # xs" "matchRef s = Some y" "(inner, rest) = y"
  then have "s = ''${'' @ inner @ ''}'' @ rest" using matchRef_Some by metis
  then show "(rest, s) \<in> measure length" by simp
qed auto

declare refSegs.simps [simp del]

text \<open>The token as it was written.\<close>

definition refToken :: "string \<Rightarrow> string" where
  "refToken inner = ''${'' @ inner @ ''}''"

fun segText :: "char + string \<Rightarrow> string" where
  "segText (Inl c) = [c]"
| "segText (Inr inner) = refToken inner"

text \<open>The references of a string, trimmed, in order.\<close>

definition refsOf :: "string \<Rightarrow> string list" where
  "refsOf s = concat (map (\<lambda>seg. case seg of Inl c \<Rightarrow> [] | Inr inner \<Rightarrow> [TrimSpace inner]) (refSegs s))"

section \<open>Resolution\<close>

fun jsonScalar :: "jsonLib \<Rightarrow> gany \<Rightarrow> string" where
  "jsonScalar J ANil = []"
| "jsonScalar J (AStr s) = s"
| "jsonScalar J (ANum n) = n"
| "jsonScalar J (ABool b) = (if b then ''true'' else ''false'')"
| "jsonScalar J v = jl_encode J v"

fun walkPath :: "gany \<Rightarrow> string list \<Rightarrow> gany option" where
  "walkPath v [] = Some v"
| "walkPath (AObj m) (k # ks) = (case map_of m k of None \<Rightarrow> None | Some v \<Rightarrow> walkPath v ks)"
| "walkPath v (k # ks) = None"

definition jsonField :: "jsonLib \<Rightarrow> string \<Rightarrow> string list \<Rightarrow> string option" where
  "jsonField J raw path =
     (case jl_decode J raw of None \<Rightarrow> None | Some data \<Rightarrow> map_option (jsonScalar J) (walkPath data path))"

definition dotOutput :: string where
  "dotOutput = ''.output''"

definition resolveStep :: "jsonLib \<Rightarrow> substContext \<Rightarrow> string \<Rightarrow> string option" where
  "resolveStep J sc rest =
     (case strIndex rest dotOutput of None \<Rightarrow> None
      | Some idx \<Rightarrow>
          (case map_of (sb_outputs sc) (take idx rest) of None \<Rightarrow> None
           | Some out \<Rightarrow>
               (let after = drop (idx + length dotOutput) rest
                in if after = [] then Some out
                   else if \<not> HasPrefix after ''.'' then None
                   else jsonField J out (splitChar (CHR ''.'') (tl after)))))"

text \<open>A binding by its variable, or the generic \<open>value\<close> when there is exactly one.\<close>

definition resolveVar :: "(string \<times> string) list \<Rightarrow> string \<Rightarrow> string option" where
  "resolveVar vars key =
     (case map_of vars key of Some v \<Rightarrow> Some v
      | None \<Rightarrow> if key = ''value'' \<and> length vars = 1 then Some (snd (hd vars)) else None)"

definition nonempty :: "string \<Rightarrow> string option" where
  "nonempty v = (if v = [] then None else Some v)"

definition resolve :: "jsonLib \<Rightarrow> substContext \<Rightarrow> string \<Rightarrow> string option" where
  "resolve J sc expr =
     (case CutPrefix expr ''steps.'' of Some rest \<Rightarrow> resolveStep J sc rest | None \<Rightarrow>
     (case CutPrefix expr ''inputs.'' of Some key \<Rightarrow> map_of (sb_inputs sc) key | None \<Rightarrow>
     (case CutPrefix expr ''matrix.'' of Some key \<Rightarrow> resolveVar (sb_matrix sc) key | None \<Rightarrow>
     (case CutPrefix expr ''map.'' of Some key \<Rightarrow> resolveVar (sb_mapVars sc) key | None \<Rightarrow>
     (case CutPrefix expr ''loop.'' of Some key \<Rightarrow> map_of (sb_mapVars sc) key | None \<Rightarrow>
     (case CutPrefix expr ''scatter.'' of
        Some key \<Rightarrow> if key = ''path'' then nonempty (sb_scatterPath sc) else None
      | None \<Rightarrow>
        if expr = ''run_id'' \<or> expr = ''run.id'' then nonempty (sb_runID sc)
        else if expr = ''workflow_id'' \<or> expr = ''workflow.id'' then nonempty (sb_workflowID sc)
        else map_of (sb_inputs sc) expr))))))"

definition substitute :: "jsonLib \<Rightarrow> string \<Rightarrow> substContext \<Rightarrow> string" where
  "substitute J s sc =
     (if \<not> strContains s ''${'' then s
      else concat (map (\<lambda>seg. case seg of Inl c \<Rightarrow> [c]
             | Inr inner \<Rightarrow> (case resolve J sc (TrimSpace inner) of Some v \<Rightarrow> v | None \<Rightarrow> refToken inner))
             (refSegs s)))"

section \<open>The strict variant\<close>

definition workflowRefPrefixes :: "string list" where
  "workflowRefPrefixes = [''steps.'', ''inputs.'', ''matrix.'', ''map.'', ''loop.'', ''scatter.'']"

definition looksLikeWorkflowRef :: "string \<Rightarrow> bool" where
  "looksLikeWorkflowRef expr \<longleftrightarrow>
     (\<exists>p\<in>set workflowRefPrefixes. HasPrefix expr p)
     \<or> expr = ''run_id'' \<or> expr = ''run.id'' \<or> expr = ''workflow_id'' \<or> expr = ''workflow.id''"

datatype reason =
    NotStepOutput string
  | NotVisible string
  | NoSuchStep string
  | NotAncestor string
  | OutputNotJSON string string
  | NoField string string
  | NoInput string
  | NoMatrixVar string
  | NoMapVar string
  | NoLoopVar string
  | NotScatterLeg
  | NotScatterRef string
  | NotSet string
  | NoBareInput string

definition explainStep :: "jsonLib \<Rightarrow> substContext \<Rightarrow> string \<Rightarrow> string \<Rightarrow> reason" where
  "explainStep J sc expr rest =
     (case strIndex rest dotOutput of None \<Rightarrow> NotStepOutput expr
      | Some idx \<Rightarrow>
          (let name = take idx rest
           in case map_of (sb_outputs sc) name of
                None \<Rightarrow> (case sb_known sc of None \<Rightarrow> NotVisible name
                         | Some ns \<Rightarrow> if name \<notin> set ns then NoSuchStep name else NotAncestor name)
              | Some out \<Rightarrow>
                  (let field = TrimPrefix (drop (idx + length dotOutput) rest) ''.''
                   in if \<not> jl_valid J out then OutputNotJSON name field else NoField name field)))"

definition explain :: "jsonLib \<Rightarrow> substContext \<Rightarrow> string \<Rightarrow> reason" where
  "explain J sc expr =
     (case CutPrefix expr ''steps.'' of Some rest \<Rightarrow> explainStep J sc expr rest | None \<Rightarrow>
     (case CutPrefix expr ''inputs.'' of Some key \<Rightarrow> NoInput key | None \<Rightarrow>
     (case CutPrefix expr ''matrix.'' of Some key \<Rightarrow> NoMatrixVar key | None \<Rightarrow>
     (case CutPrefix expr ''map.'' of Some key \<Rightarrow> NoMapVar key | None \<Rightarrow>
     (case CutPrefix expr ''loop.'' of Some key \<Rightarrow> NoLoopVar key | None \<Rightarrow>
     (case CutPrefix expr ''scatter.'' of
        Some key \<Rightarrow> if key = ''path'' then NotScatterLeg else NotScatterRef expr
      | None \<Rightarrow>
        if expr = ''run_id'' \<or> expr = ''run.id'' \<or> expr = ''workflow_id'' \<or> expr = ''workflow.id''
        then NotSet expr else NoBareInput expr))))))"

record unresolvedRef =
  uf_token :: string
  uf_reason :: reason

record unresolvedError =
  ue_step :: string
  ue_refs :: "unresolvedRef list"

definition badRef :: "jsonLib \<Rightarrow> substContext \<Rightarrow> string \<Rightarrow> unresolvedRef list" where
  "badRef J sc inner =
     (let expr = TrimSpace inner
      in if resolve J sc expr = None \<and> looksLikeWorkflowRef expr
         then [\<lparr>uf_token = refToken inner, uf_reason = explain J sc expr\<rparr>] else [])"

definition substituteStrict :: "jsonLib \<Rightarrow> string \<Rightarrow> substContext \<Rightarrow> string \<times> unresolvedRef list" where
  "substituteStrict J s sc =
     (if \<not> strContains s ''${'' then (s, [])
      else (concat (map (\<lambda>seg. case seg of Inl c \<Rightarrow> [c]
              | Inr inner \<Rightarrow> (case resolve J sc (TrimSpace inner) of Some v \<Rightarrow> v | None \<Rightarrow> refToken inner))
              (refSegs s)),
            concat (map (\<lambda>seg. case seg of Inl c \<Rightarrow> [] | Inr inner \<Rightarrow> badRef J sc inner) (refSegs s))))"

section \<open>Configuration values\<close>

fun substituteValue :: "jsonLib \<Rightarrow> substContext \<Rightarrow> gany \<Rightarrow> gany" where
  "substituteValue J sc (AStr s) = AStr (substitute J s sc)"
| "substituteValue J sc (AObj m) =
     (if sc_empty sc then AObj m else AObj (map (\<lambda>kv. (fst kv, substituteValue J sc (snd kv))) m))"
| "substituteValue J sc (AArr xs) = AArr (map (substituteValue J sc) xs)"
| "substituteValue J sc v = v"

definition substituteWith ::
  "jsonLib \<Rightarrow> (string \<times> gany) list \<Rightarrow> substContext \<Rightarrow> (string \<times> gany) list" where
  "substituteWith J w sc =
     (if sc_empty sc then w else map (\<lambda>kv. (fst kv, substituteValue J sc (snd kv))) w)"

fun substituteValueStrict :: "jsonLib \<Rightarrow> substContext \<Rightarrow> gany \<Rightarrow> gany \<times> unresolvedRef list" where
  "substituteValueStrict J sc (AStr s) = (case substituteStrict J s sc of (out, refs) \<Rightarrow> (AStr out, refs))"
| "substituteValueStrict J sc (AObj m) =
     (AObj (map (\<lambda>kv. (fst kv, fst (substituteValueStrict J sc (snd kv)))) m),
      concat (map (\<lambda>kv. snd (substituteValueStrict J sc (snd kv))) m))"
| "substituteValueStrict J sc (AArr xs) =
     (AArr (map (\<lambda>v. fst (substituteValueStrict J sc v)) xs),
      concat (map (\<lambda>v. snd (substituteValueStrict J sc v)) xs))"
| "substituteValueStrict J sc v = (v, [])"

definition substituteWithStrict ::
  "jsonLib \<Rightarrow> (string \<times> gany) list \<Rightarrow> substContext \<Rightarrow> unresolvedError + (string \<times> gany) list" where
  "substituteWithStrict J w sc =
     (if sc_empty sc then Inr w
      else (case substituteValueStrict J sc (AObj w) of
              (v, bad) \<Rightarrow>
                if bad \<noteq> [] then Inl \<lparr>ue_step = sb_stepName sc, ue_refs = bad\<rparr>
                else (case v of AObj r \<Rightarrow> Inr r | _ \<Rightarrow> Inr [])))"


section \<open>Facts\<close>

lemma refSegs_Nil [simp]: "refSegs [] = []"
  by (simp add: refSegs.simps)

lemma refSegs_lit: "matchRef (c # s) = None \<Longrightarrow> refSegs (c # s) = Inl c # refSegs s"
  by (simp add: refSegs.simps[of "c # s"])

lemma refSegs_ref: "matchRef s = Some (inner, rest) \<Longrightarrow> refSegs s = Inr inner # refSegs rest"
proof (cases s)
  case Nil
  assume "matchRef s = Some (inner, rest)"
  with Nil show ?thesis by (simp add: matchRef_def CutPrefix_def)
next
  case (Cons c s')
  assume "matchRef s = Some (inner, rest)"
  then show ?thesis by (subst refSegs.simps) (simp add: Cons)
qed

text \<open>The scan loses nothing.\<close>

lemma refSegs_text: "concat (map segText (refSegs s)) = s"
proof (induction s rule: refSegs.induct)
  case (1 s)
  show ?case
  proof (cases s)
    case (Cons c s')
    show ?thesis
    proof (cases "matchRef s")
      case None
      then show ?thesis using "1.IH"(1)[OF Cons None] Cons by (simp add: refSegs_lit)
    next
      case (Some y)
      obtain inner rest where y: "y = (inner, rest)" by fastforce
      then have "s = refToken inner @ rest" using Some matchRef_Some[of s inner rest] by (simp add: refToken_def)
      moreover have "refSegs s = Inr inner # refSegs rest" by (rule refSegs_ref) (simp only: Some y)
      ultimately show ?thesis using "1.IH"(2)[OF Cons Some y[symmetric]] by simp
    qed
  qed simp
qed

lemma refSegs_plain: "\<not> strContains s ''${'' \<Longrightarrow> refSegs s = map Inl s"
proof (induction s)
  case (Cons c s)
  then have no: "\<not> HasPrefix (c # s) ''${''" "\<not> strContains s ''${''"
    by (auto simp: strContains_def strIndex_Cons split: if_splits)
  have "CutPrefix (c # s) ''${'' = None" using no(1) by (simp only: CutPrefix_None simp_thms)
  then have "matchRef (c # s) = None" by (simp add: matchRef_def)
  with Cons.IH[OF no(2)] show ?case by (simp add: refSegs.simps[of "c # s"])
qed simp

definition replaceRef :: "jsonLib \<Rightarrow> substContext \<Rightarrow> char + string \<Rightarrow> string" where
  "replaceRef J sc seg = (case seg of Inl c \<Rightarrow> [c]
     | Inr inner \<Rightarrow> (case resolve J sc (TrimSpace inner) of Some v \<Rightarrow> v | None \<Rightarrow> refToken inner))"

lemma substitute_eq: "substitute J s sc = concat (map (replaceRef J sc) (refSegs s))"
proof (cases "strContains s ''${''")
  case True
  then show ?thesis by (simp add: substitute_def replaceRef_def[abs_def])
next
  case False
  have "concat (map (replaceRef J sc) (map Inl s)) = s" by (induction s) (simp_all add: replaceRef_def)
  with False show ?thesis by (simp add: substitute_def refSegs_plain)
qed

lemma substituteStrict_fst: "fst (substituteStrict J s sc) = substitute J s sc"
  by (simp add: substituteStrict_def substitute_def)

definition unresolvedIn :: "jsonLib \<Rightarrow> substContext \<Rightarrow> string \<Rightarrow> bool" where
  "unresolvedIn J sc expr \<longleftrightarrow> looksLikeWorkflowRef expr \<and> resolve J sc expr = None"

lemma substituteStrict_snd:
  "snd (substituteStrict J s sc) = [] \<longleftrightarrow> (\<forall>e\<in>set (refsOf s). \<not> unresolvedIn J sc e)"
proof -
  have seg: "(case seg of Inl c \<Rightarrow> [] | Inr inner \<Rightarrow> badRef J sc inner) = []
      \<longleftrightarrow> (\<forall>e\<in>set (case seg of Inl c \<Rightarrow> [] | Inr inner \<Rightarrow> [TrimSpace inner]). \<not> unresolvedIn J sc e)" for seg :: "char + string"
    by (cases seg) (auto simp: badRef_def Let_def unresolvedIn_def)
  show ?thesis
  proof (cases "strContains s ''${''")
    case True
    have "(concat (map f xs) = []) = (\<forall>e\<in>set (concat (map h xs)). Q e)"
      if "\<And>seg. (f seg = []) = (\<forall>e\<in>set (h seg). Q e)"
      for xs :: "(char + string) list" and f :: "char + string \<Rightarrow> unresolvedRef list"
        and h :: "char + string \<Rightarrow> string list" and Q
      by (induction xs) (use that in auto)
    from this[where xs = "refSegs s", OF seg] True show ?thesis by (simp add: substituteStrict_def refsOf_def)
  next
    case False
    then show ?thesis by (simp add: substituteStrict_def refsOf_def refSegs_plain)
  qed
qed

text \<open>A reported reference is unresolved, was written so, and carries its own explanation.\<close>

definition explained :: "jsonLib \<Rightarrow> substContext \<Rightarrow> string list \<Rightarrow> unresolvedRef \<Rightarrow> bool" where
  "explained J sc refs b \<longleftrightarrow> (\<exists>inner. uf_token b = refToken inner \<and> TrimSpace inner \<in> set refs
     \<and> unresolvedIn J sc (TrimSpace inner) \<and> uf_reason b = explain J sc (TrimSpace inner))"

lemma explained_mono: "explained J sc refs b \<Longrightarrow> set refs \<subseteq> set refs' \<Longrightarrow> explained J sc refs' b"
  unfolding explained_def by blast

lemma substituteStrict_bad:
  "b \<in> set (snd (substituteStrict J s sc)) \<Longrightarrow> explained J sc (refsOf s) b"
proof -
  assume "b \<in> set (snd (substituteStrict J s sc))"
  then obtain inner where i: "Inr inner \<in> set (refSegs s)" "b \<in> set (badRef J sc inner)"
    by (auto simp: substituteStrict_def split: if_splits sum.splits)
  moreover have "TrimSpace inner \<in> set (refsOf s)" using i(1) unfolding refsOf_def by force
  ultimately show ?thesis by (auto simp: badRef_def Let_def unresolvedIn_def explained_def split: if_splits)
qed

text \<open>All references below a configuration value.\<close>

fun refsIn :: "gany \<Rightarrow> string list" where
  "refsIn (AStr s) = refsOf s"
| "refsIn (AObj m) = concat (map (\<lambda>kv. refsIn (snd kv)) m)"
| "refsIn (AArr xs) = concat (map refsIn xs)"
| "refsIn v = []"

lemma substituteValueStrict_fst:
  "\<not> sc_empty sc \<Longrightarrow> fst (substituteValueStrict J sc v) = substituteValue J sc v"
  by (induction v rule: refsIn.induct)
     (auto simp: substituteStrict_fst[symmetric] split: prod.split)

lemma substituteValueStrict_snd:
  "snd (substituteValueStrict J sc v) = [] \<longleftrightarrow> (\<forall>e\<in>set (refsIn v). \<not> unresolvedIn J sc e)"
proof (induction v rule: refsIn.induct)
  case (1 s)
  then show ?case using substituteStrict_snd[of J s sc] by (cases "substituteStrict J s sc") simp
qed auto

lemma substituteValueStrict_bad:
  "b \<in> set (snd (substituteValueStrict J sc v)) \<Longrightarrow> explained J sc (refsIn v) b"
proof (induction v rule: refsIn.induct)
  case (1 s)
  then show ?case using substituteStrict_bad[of b J s sc] by (simp split: prod.splits)
next
  case (2 m)
  then obtain x where x: "x \<in> set m" "explained J sc (refsIn (snd x)) b" by auto
  show ?case by (rule explained_mono[OF x(2)]) (use x(1) in auto)
next
  case (3 xs)
  then obtain x where x: "x \<in> set xs" "explained J sc (refsIn x) b" by auto
  show ?case by (rule explained_mono[OF x(2)]) (use x(1) in auto)
qed simp_all

text \<open>A step's output is found at the first \<open>.output\<close>.\<close>

lemma strIndex_name:
  assumes "\<not> strContains name dotOutput"
  shows "strIndex (name @ dotOutput @ rest) dotOutput = Some (length name)"
proof -
  have no: "\<not> HasPrefix (drop j name) dotOutput" if "j \<le> length name" for j
    using assms strIndex_exists[OF _ that, of dotOutput] by (auto simp: strContains_def)
  have "\<not> HasPrefix (drop j name @ dotOutput @ rest) dotOutput" if j: "j < length name" for j
  proof
    assume h: "HasPrefix (drop j name @ dotOutput @ rest) dotOutput"
    obtain c t where t: "drop j name = c # t" using j by (cases "drop j name") auto
    have "\<not> HasPrefix (c # t) dotOutput" using no[of j] j t by simp
    with h show False unfolding t dotOutput_def
      by (cases t; (cases "tl t")?; (cases "tl (tl t)")?; (cases "tl (tl (tl t))")?;
          (cases "tl (tl (tl (tl t)))")?; (cases "tl (tl (tl (tl (tl t))))")?;
          (cases "tl (tl (tl (tl (tl (tl t)))))")?) auto
  qed
  then show ?thesis
    unfolding strIndex_Some_iff by (simp add: HasPrefix_def)
qed

lemma resolve_step_output:
  assumes "\<not> strContains name dotOutput"
  shows "resolve J sc (''steps.'' @ name @ dotOutput) = map_of (sb_outputs sc) name"
    and "resolve J sc (''steps.'' @ name @ dotOutput @ CHR ''.'' # path) =
      (case map_of (sb_outputs sc) name of None \<Rightarrow> None
       | Some out \<Rightarrow> jsonField J out (splitChar (CHR ''.'') path))"
  using strIndex_name[OF assms, of "[]"] strIndex_name[OF assms, of "CHR ''.'' # path"]
  by (simp_all add: resolve_def resolveStep_def CutPrefix_def HasPrefix_def Let_def split: option.split)

section \<open>Theorems\<close>

text \<open>A context and a JSON library for the examples: one output, \<open>build\<close>, an object.\<close>

definition demoJson :: jsonLib where
  "demoJson = \<lparr>jl_decode = (\<lambda>s. if s = ''{}'' then Some (AObj [(''tag'', AStr ''v1''), (''s'', AStr ''x'')]) else None),
     jl_valid = (\<lambda>s. s = ''{}''), jl_encode = (\<lambda>v. [])\<rparr>"

definition demoSubst :: substContext where
  "demoSubst = \<lparr>sb_inputs = [(''x'', ''1'')], sb_outputs = [(''build'', ''{}'')], sb_matrix = [], sb_mapVars = [],
     sb_scatterPath = [], sb_runID = ''r1'', sb_workflowID = [], sb_depth = 0, sb_stepName = ''deploy'',
     sb_known = Some [''build'', ''deploy'', ''test'']\<rparr>"

text \<open>
  C13: a step about to execute.  Unless the context is empty, its configuration is handed on
  exactly when every reference addressed to this engine, at any depth, resolves, and is then
  what the lenient substitution gives; otherwise the step fails with its name and a non-empty
  list of references, each unresolved, as it was written, with its own explanation.
\<close>
theorem strict_substitution:
  assumes "\<not> sc_empty sc"
  shows "(case substituteWithStrict J w sc of
       Inr r \<Rightarrow> (\<forall>e\<in>set (refsIn (AObj w)). \<not> unresolvedIn J sc e) \<and> r = substituteWith J w sc
     | Inl err \<Rightarrow> (\<exists>e\<in>set (refsIn (AObj w)). unresolvedIn J sc e) \<and> ue_step err = sb_stepName sc
         \<and> ue_refs err \<noteq> [] \<and> (\<forall>b\<in>set (ue_refs err). explained J sc (refsIn (AObj w)) b))"
proof -
  obtain v bad where vb: "substituteValueStrict J sc (AObj w) = (v, bad)" by fastforce
  have v: "v = substituteValue J sc (AObj w)"
    using substituteValueStrict_fst[OF assms, of J "AObj w", unfolded vb] by (simp only: fst_conv)
  have bad: "bad = [] \<longleftrightarrow> (\<forall>e\<in>set (refsIn (AObj w)). \<not> unresolvedIn J sc e)"
    using substituteValueStrict_snd[of J sc "AObj w", unfolded vb] by (simp only: snd_conv)
  have ex: "\<forall>b\<in>set bad. explained J sc (refsIn (AObj w)) b"
    using substituteValueStrict_bad[of _ J sc "AObj w", unfolded vb] by simp
  have "substituteWithStrict J w sc =
      (if bad \<noteq> [] then Inl \<lparr>ue_step = sb_stepName sc, ue_refs = bad\<rparr> else Inr (substituteWith J w sc))"
    using assms unfolding substituteWithStrict_def vb v by (simp add: substituteWith_def)
  with bad ex show ?thesis by auto
qed

lemma strict_substitution_witness:
  "substituteWithStrict demoJson [(''image'', AStr ''a:${steps.build.output.tag}'')] demoSubst
       = Inr [(''image'', AStr ''a:v1'')]
   \<and> [(''image'', AStr ''a:v1'')]
       = substituteWith demoJson [(''image'', AStr ''a:${steps.build.output.tag}'')] demoSubst"
proof -
  have ne: "\<not> sc_empty demoSubst" by (simp add: sc_empty_def demoSubst_def)
  have eq: "substituteWithStrict demoJson [(''image'', AStr ''a:${steps.build.output.tag}'')] demoSubst
      = Inr [(''image'', AStr ''a:v1'')]" by code_simp
  from strict_substitution[OF ne, where J = demoJson and w = "[(''image'', AStr ''a:${steps.build.output.tag}'')]"]
  show ?thesis unfolding eq sum.case by blast
qed

text \<open>
  substitution is one pass.  A resolved reference between a text without dollar signs and
  any other text is replaced by its value as it is: the value is not scanned for references,
  whatever it contains, and neither affects nor is affected by what follows.
\<close>
theorem substitution_single_pass:
  assumes "CHR ''$'' \<notin> set pre" "inner \<noteq> []" "CHR ''}'' \<notin> set inner"
    and "resolve J sc (TrimSpace inner) = Some v"
  shows "substitute J (pre @ refToken inner @ post) sc = pre @ v @ substitute J post sc"
proof -
  have "refSegs (pre @ t) = map Inl pre @ refSegs t" for t
    using assms(1)
  proof (induction pre)
    case (Cons c pre)
    then have "matchRef ((c # pre) @ t) = None" by (auto simp: matchRef_def CutPrefix_def)
    then have "refSegs ((c # pre) @ t) = Inl c # refSegs (pre @ t)" by (simp add: refSegs_lit)
    with Cons show ?case by simp
  qed simp
  moreover have "matchRef (refToken inner @ post) = Some (inner, post)"
    using assms(2,3) by (simp add: matchRef_Some refToken_def)
  then have "refSegs (refToken inner @ post) = Inr inner # refSegs post" by (rule refSegs_ref)
  moreover have "concat (map (replaceRef J sc) (map Inl pre)) = pre"
    by (induction pre) (simp_all add: replaceRef_def)
  ultimately show ?thesis using assms(4) by (simp add: substitute_eq replaceRef_def)
qed

lemma substitution_single_pass_witness:
  "substitute demoJson (''n='' @ refToken ''inputs.x'' @ ''$'') demoSubst = ''n='' @ ''1'' @ substitute demoJson ''$'' demoSubst"
  by (rule substitution_single_pass) (simp_all, code_simp)

text \<open>
  references to step outputs.  For a step whose name does not contain \<open>.output\<close>, the plain
  reference resolves to its output exactly when that is visible, and a dotted path to the
  field of the output read as JSON.
\<close>
theorem step_output_reference:
  assumes "\<not> strContains name dotOutput"
  shows "resolve J sc (''steps.'' @ name @ dotOutput) = map_of (sb_outputs sc) name
    \<and> (path \<noteq> [] \<and> (\<forall>k\<in>set path. CHR ''.'' \<notin> set k) \<longrightarrow>
        resolve J sc (''steps.'' @ name @ dotOutput @ CHR ''.'' # joinChar (CHR ''.'') path)
          = (case map_of (sb_outputs sc) name of None \<Rightarrow> None
             | Some out \<Rightarrow> (case jl_decode J out of None \<Rightarrow> None
                 | Some data \<Rightarrow> map_option (jsonScalar J) (walkPath data path))))"
  using resolve_step_output[OF assms, of J sc] split_join[of path "CHR ''.''"]
  by (auto simp: jsonField_def split: option.split)

lemma step_output_reference_witness:
  "resolve demoJson demoSubst (''steps.'' @ ''build'' @ dotOutput) = Some ''{}''"
proof -
  have "\<not> strContains ''build'' dotOutput" by code_simp
  from step_output_reference[OF this, of demoJson demoSubst "[]"] show ?thesis
    by (simp add: demoSubst_def)
qed

text \<open>
  What an explanation claims of the context; \<open>NoField\<close> and \<open>OutputNotJSON\<close> claim that the
  output is there and of what kind it is.
\<close>

fun reasonHolds :: "jsonLib \<Rightarrow> substContext \<Rightarrow> reason \<Rightarrow> bool" where
  "reasonHolds J sc (NotStepOutput expr) \<longleftrightarrow>
     (case CutPrefix expr ''steps.'' of None \<Rightarrow> False | Some rest \<Rightarrow> \<not> strContains rest dotOutput)"
| "reasonHolds J sc (NotVisible n) \<longleftrightarrow> sb_known sc = None \<and> map_of (sb_outputs sc) n = None"
| "reasonHolds J sc (NoSuchStep n) \<longleftrightarrow> (\<exists>ns. sb_known sc = Some ns \<and> n \<notin> set ns) \<and> map_of (sb_outputs sc) n = None"
| "reasonHolds J sc (NotAncestor n) \<longleftrightarrow> (\<exists>ns. sb_known sc = Some ns \<and> n \<in> set ns) \<and> map_of (sb_outputs sc) n = None"
| "reasonHolds J sc (OutputNotJSON n f) \<longleftrightarrow> (\<exists>out. map_of (sb_outputs sc) n = Some out \<and> \<not> jl_valid J out)"
| "reasonHolds J sc (NoField n f) \<longleftrightarrow> (\<exists>out. map_of (sb_outputs sc) n = Some out \<and> jl_valid J out)"
| "reasonHolds J sc (NoInput k) \<longleftrightarrow> map_of (sb_inputs sc) k = None"
| "reasonHolds J sc (NoMatrixVar k) \<longleftrightarrow> map_of (sb_matrix sc) k = None"
| "reasonHolds J sc (NoMapVar k) \<longleftrightarrow> map_of (sb_mapVars sc) k = None"
| "reasonHolds J sc (NoLoopVar k) \<longleftrightarrow> map_of (sb_mapVars sc) k = None"
| "reasonHolds J sc NotScatterLeg \<longleftrightarrow> sb_scatterPath sc = []"
| "reasonHolds J sc (NotScatterRef e) \<longleftrightarrow> e \<noteq> ''scatter.path''"
| "reasonHolds J sc (NotSet e) \<longleftrightarrow> sb_runID sc = [] \<or> sb_workflowID sc = []"
| "reasonHolds J sc (NoBareInput e) \<longleftrightarrow> False"

text \<open>
  the explanation of an unresolved reference is true.  In particular a reference to a step
  is blamed on a missing step only if the pipeline has none of that name, on a missing route
  only if it has one whose output is not visible, and a reference addressed to the engine is
  never explained as a bare name.
\<close>
theorem explanation_true:
  assumes "unresolvedIn J sc expr"
  shows "reasonHolds J sc (explain J sc expr)"
proof -
  have none: "resolve J sc expr = None" and like: "looksLikeWorkflowRef expr"
    using assms by (auto simp: unresolvedIn_def)
  have pre: "HasPrefix expr p \<Longrightarrow> \<exists>r. CutPrefix expr p = Some r" for p
    by (simp add: CutPrefix_def)
  show ?thesis
  proof (cases "CutPrefix expr ''steps.''")
    case (Some rest)
    then have expr: "expr = ''steps.'' @ rest" by (simp only: CutPrefix_Some)
    have "explain J sc expr = explainStep J sc expr rest" using Some by (simp add: explain_def)
    then show ?thesis
      by (auto simp: explainStep_def Let_def expr strContains_def CutPrefix_def split: option.splits)
  next
    case None
    then show ?thesis
      using none like pre unfolding looksLikeWorkflowRef_def workflowRefPrefixes_def
      by (auto simp: explain_def resolve_def resolveVar_def nonempty_def CutPrefix_None CutPrefix_Some
          split: option.splits if_splits)
  qed
qed

lemma explanation_true_witness:
  "reasonHolds demoJson demoSubst (explain demoJson demoSubst ''steps.test.output'')
     \<and> explain demoJson demoSubst ''steps.test.output'' = NotAncestor ''test''"
proof -
  have "unresolvedIn demoJson demoSubst ''steps.test.output''" by code_simp
  from explanation_true[OF this] show ?thesis by (rule conjI) code_simp
qed

text \<open>
  one explanation misleads.  After \<open>.output\<close> anything but a dot is no field accessor and
  the reference does not resolve, but it is explained as a field the output does not have,
  named by the text that follows; here the output has that very field.
\<close>
theorem malformed_accessor_explained_as_field:
  "resolve demoJson demoSubst ''steps.build.outputs'' = None
   \<and> explain demoJson demoSubst ''steps.build.outputs'' = NoField ''build'' ''s''
   \<and> resolve demoJson demoSubst ''steps.build.output.s'' = Some ''x''"
  by (intro conjI; code_simp)

end
