(* ===== verification/Go_Numbers.thy ===== *)
theory Go_Numbers
  imports Go_Strings
begin

text \<open>
  Decimal numbers as strings: \<open>%d\<close>, \<open>strconv.Itoa\<close>, \<open>strconv.FormatInt\<close> and
  \<open>strconv.ParseInt(s, 10, 64)\<close>.
\<close>

section \<open>Formatting\<close>

text \<open>\<open>%d\<close> for a non-negative number.\<close>

fun digitsOf :: "nat \<Rightarrow> string" where
  "digitsOf n = (if n < 10 then [char_of (48 + n)] else digitsOf (n div 10) @ [char_of (48 + n mod 10)])"

declare digitsOf.simps [simp del]

definition itoa :: "int \<Rightarrow> string" where
  "itoa i = (if i < 0 then ''-'' @ digitsOf (nat (- i)) else digitsOf (nat i))"

definition isDigit :: "char \<Rightarrow> bool" where
  "isDigit c \<longleftrightarrow> 48 \<le> (of_char c :: nat) \<and> (of_char c :: nat) < 58"

definition digitsVal :: "string \<Rightarrow> nat" where
  "digitsVal ds = foldl (\<lambda>n c. n * 10 + (of_char c - 48)) 0 ds"

lemma of_char_digit: "n < 10 \<Longrightarrow> (of_char (char_of (48 + n) :: char) :: nat) = 48 + n"
  by (simp add: take_bit_eq_mod)

lemma digitsOf_val: "digitsVal (digitsOf n) = n \<and> (\<forall>c\<in>set (digitsOf n). isDigit c)"
proof (induction n rule: digitsOf.induct)
  case (1 n)
  show ?case
  proof (cases "n < 10")
    case True
    then show ?thesis by (subst (1 2) digitsOf.simps) (simp add: digitsVal_def isDigit_def of_char_digit)
  next
    case False
    have m: "n mod 10 < 10" by simp
    from False 1 show ?thesis
      by (subst (1 2) digitsOf.simps) (auto simp: digitsVal_def isDigit_def of_char_digit[OF m])
  qed
qed

lemma digitsOf_inj [simp]: "digitsOf m = digitsOf n \<longleftrightarrow> m = n"
  using digitsOf_val by metis

section \<open>Parsing\<close>

text \<open>
  \<open>ParseInt(s, 10, 64)\<close>: an optional sign and at least one digit, inside the range of a
  64-bit integer; anything else is an error.
\<close>

definition ParseUint :: "string \<Rightarrow> nat option" where
  "ParseUint s = (if s \<noteq> [] \<and> (\<forall>c\<in>set s. isDigit c) then Some (digitsVal s) else None)"

definition ParseInt64 :: "string \<Rightarrow> int option" where
  "ParseInt64 s =
     (let (neg, body) = (case s of
            [] \<Rightarrow> (False, [])
          | c # cs \<Rightarrow> if c = CHR ''-'' then (True, cs) else if c = CHR ''+'' then (False, cs) else (False, s))
      in case ParseUint body of
           None \<Rightarrow> None
         | Some n \<Rightarrow>
             if neg then (if int n \<le> 2 ^ 63 then Some (- int n) else None)
             else (if int n < 2 ^ 63 then Some (int n) else None))"

lemma digitsOf_nonempty [simp]: "digitsOf n \<noteq> []"
  by (subst digitsOf.simps) simp

lemma digitsOf_digits: "c \<in> set (digitsOf n) \<Longrightarrow> isDigit c"
  using digitsOf_val by blast

lemma ParseUint_digitsOf [simp]: "ParseUint (digitsOf n) = Some n"
  using digitsOf_val by (simp add: ParseUint_def)

lemma digitsOf_head: "digitsOf n = c # cs \<Longrightarrow> c \<noteq> CHR ''-'' \<and> c \<noteq> CHR ''+''"
  using digitsOf_digits[of c n] by (auto simp: isDigit_def)

text \<open>Parsing reads back what formatting wrote, over the whole range.\<close>

lemma ParseInt64_itoa:
  assumes "- (2 ^ 63) \<le> v" "v < 2 ^ 63"
  shows "ParseInt64 (itoa v) = Some v"
proof (cases "v < 0")
  case True
  then show ?thesis using assms by (simp add: itoa_def ParseInt64_def)
next
  case False
  then obtain c cs where c: "digitsOf (nat v) = c # cs" by (meson digitsOf_nonempty neq_Nil_conv)
  moreover from this have "ParseUint (c # cs) = Some (nat v)" by (metis ParseUint_digitsOf)
  ultimately show ?thesis using digitsOf_head[OF c] False assms by (simp add: itoa_def ParseInt64_def)
qed

lemma itoa_chars: "c \<in> set (itoa v) \<Longrightarrow> isDigit c \<or> c = CHR ''-''"
  by (auto simp: itoa_def dest: digitsOf_digits split: if_splits)

end
