(* ===== verification/Wf_Fanout.thy ===== *)
theory Wf_Fanout
  imports Wf_Subst Wf_Scheduler Go_Numbers
begin

text \<open>
  The fan-out inside one node (\<open>worker.go\<close>: matrix expansion and task groups; \<open>scatter.go\<close>;
  \<open>runNode\<close> of \<open>scheduler.go\<close>) and the values a map region expands to (\<open>mapregion.go\<close>).
  Executing a step against another service is a parameter; results of concurrent tasks enter
  as the list of arrivals on the result channel, in an arbitrary order.
\<close>

section \<open>Fields\<close>

text \<open>\<open>strings.FieldsFunc\<close> with the separators comma and white space.\<close>

definition sepLen :: "string \<Rightarrow> nat" where
  "sepLen s = (if HasPrefix s '','' then 1 else spaceLen s)"

function fieldsFrom :: "string \<Rightarrow> string \<Rightarrow> string list" where
  "fieldsFrom cur s =
     (case s of [] \<Rightarrow> (if cur = [] then [] else [cur])
      | c # s' \<Rightarrow>
          if 0 < sepLen s
          then (if cur = [] then [] else [cur]) @ fieldsFrom [] (drop (sepLen s) s)
          else fieldsFrom (cur @ [c]) s')"
  by pat_completeness auto
termination
  by (relation "measure (\<lambda>(cur, s). length s)") auto

declare fieldsFrom.simps [simp del]

section \<open>Value lists\<close>

definition maxMatrixValues :: nat where
  "maxMatrixValues = 50"

definition parseMatrixList :: "jsonLib \<Rightarrow> string \<Rightarrow> string list" where
  "parseMatrixList J raw0 =
     (let raw = TrimSpace raw0
      in if raw = [] then []
         else (case (if HasPrefix raw ''['' then jl_decode J raw else None) of
                 Some (AArr arr) \<Rightarrow> filter (\<lambda>s. s \<noteq> []) (map (jsonScalar J) arr)
               | _ \<Rightarrow> fieldsFrom [] raw))"

datatype fanErr = MatrixTooMany nat | MapResolvedTooMany string nat | MapHasTooMany string nat

definition resolveMatrixValues :: "jsonLib \<Rightarrow> MatrixConfig \<Rightarrow> substContext \<Rightarrow> fanErr + string list" where
  "resolveMatrixValues J m sc =
     (let values = (if mx_ValuesFrom m \<noteq> [] then parseMatrixList J (substitute J (mx_ValuesFrom m) sc)
                    else map (\<lambda>v. substitute J v sc) (mx_Values m))
      in if length values > maxMatrixValues then Inl (MatrixTooMany (length values)) else Inr values)"

definition resolveMapValues :: "jsonLib \<Rightarrow> MapDef \<Rightarrow> substContext \<Rightarrow> fanErr + string list" where
  "resolveMapValues J d sc =
     (if md_ValuesFrom d \<noteq> [] then
        (let vals = parseMatrixList J (substitute J (md_ValuesFrom d) sc)
         in if length vals > maxMapValues then Inl (MapResolvedTooMany (md_ID d) (length vals)) else Inr vals)
      else if length (md_Values d) > maxMapValues then Inl (MapHasTooMany (md_ID d) (length (md_Values d)))
      else Inr (md_Values d))"

definition mapConcurrency :: "MapDef \<Rightarrow> int" where
  "mapConcurrency d =
     (if md_Sequential d then 1
      else if md_MaxConcurrent d > 0 then min (md_MaxConcurrent d) maxParallelSteps
      else defaultFanoutConcurrency)"

definition maxToleratedFailures :: "MapDef \<Rightarrow> int \<Rightarrow> int" where
  "maxToleratedFailures d n =
     (if md_FailureTolerance d \<le> 0 then 0
      else if md_FailureTolerance d \<ge> 100 then n
      else md_FailureTolerance d * n div 100)"

definition matrixTaskName :: "string \<Rightarrow> string \<Rightarrow> string \<Rightarrow> string" where
  "matrixTaskName base var val = base @ '' ['' @ var @ ''='' @ val @ '']''"

definition mapIterName :: "string \<Rightarrow> string \<Rightarrow> string \<Rightarrow> string" where
  "mapIterName base var val = base @ '' ['' @ var @ ''='' @ val @ '']''"

definition scatterLegName :: "string \<Rightarrow> string \<Rightarrow> string" where
  "scatterLegName base path = base @ '' [path='' @ path @ '']''"

definition iterVolume :: "string \<Rightarrow> nat \<Rightarrow> nat \<Rightarrow> string" where
  "iterVolume base regionKey i = base @ ''-r'' @ digitsOf regionKey @ ''-m'' @ digitsOf i"

definition scatterShardName :: "string \<Rightarrow> nat \<Rightarrow> nat \<Rightarrow> string" where
  "scatterShardName base idx i = base @ ''-n'' @ digitsOf idx @ ''-s'' @ digitsOf i"

section \<open>Task groups\<close>

record stepTask =
  tk_step :: Step
  tk_stepIndex :: nat
  tk_name :: string
  tk_matrix :: "(string \<times> string) list"
  tk_mapVars :: "(string \<times> string) list"

record stepGroup =
  gr_steps :: "WorkflowStep list"
  gr_indices :: "nat list"

text \<open>The error of a task: \<open>context.Canceled\<close>, or any other.\<close>

datatype taskErr = ErrCanceled | ErrOther string

record taskResult =
  tr_name :: string
  tr_output :: string
  tr_logs :: string
  tr_usedMB :: "int option"
  tr_limitMB :: "int option"
  tr_err :: "taskErr option"
  tr_idx :: nat

definition zeroResult :: taskResult where
  "zeroResult = \<lparr>tr_name = [], tr_output = [], tr_logs = [], tr_usedMB = None, tr_limitMB = None,
                 tr_err = None, tr_idx = 0\<rparr>"

definition buildGroupTasks ::
  "jsonLib \<Rightarrow> stepGroup \<Rightarrow> substContext \<Rightarrow> fanErr + (stepTask list \<times> string)" where
  "buildGroupTasks J grp sc =
     (case (case gr_steps grp of [ws] \<Rightarrow> (case ws_Matrix ws of None \<Rightarrow> None | Some m \<Rightarrow> Some (ws, m)) | _ \<Rightarrow> None) of
        Some (ws, m) \<Rightarrow>
          (case resolveMatrixValues J m sc of
             Inl e \<Rightarrow> Inl e
           | Inr values \<Rightarrow>
               Inr (map (\<lambda>val. \<lparr>tk_step = Step.truncate ws, tk_stepIndex = hd (gr_indices grp),
                                tk_name = matrixTaskName (st_Name ws) (mx_Var m) val,
                                tk_matrix = [(mx_Var m, val)], tk_mapVars = []\<rparr>) values, st_Name ws))
      | None \<Rightarrow>
          Inr (map (\<lambda>(j, ws). \<lparr>tk_step = Step.truncate ws, tk_stepIndex = gr_indices grp ! j,
                               tk_name = st_Name ws, tk_matrix = [], tk_mapVars = []\<rparr>)
                 (enumerate 0 (gr_steps grp)), []))"

definition groupConcurrency :: "stepGroup \<Rightarrow> int" where
  "groupConcurrency grp =
     (case (case gr_steps grp of [ws] \<Rightarrow> ws_Matrix ws | _ \<Rightarrow> None) of
        Some m \<Rightarrow> if mx_Sequential m then 1
                  else if mx_MaxConcurrent m > 0 then min (mx_MaxConcurrent m) maxParallelSteps
                  else defaultFanoutConcurrency
      | None \<Rightarrow> maxParallelSteps)"

text \<open>
  The collecting loop of \<open>runTaskGroup\<close> over the results as they arrive: the result array,
  indexed by task, and the status.
\<close>

definition collectOne :: "taskResult \<Rightarrow> taskResult list \<times> runStatus \<Rightarrow> taskResult list \<times> runStatus" where
  "collectOne r = (\<lambda>(results, status).
     (results[tr_idx r := r],
      (case tr_err r of
         None \<Rightarrow> status
       | Some ErrCanceled \<Rightarrow> if status = StatusCompleted then StatusCancelled else status
       | Some (ErrOther e) \<Rightarrow> StatusFailed)))"

definition collectResults :: "nat \<Rightarrow> taskResult list \<Rightarrow> taskResult list \<times> runStatus" where
  "collectResults n arrivals = fold collectOne arrivals (replicate n zeroResult, StatusCompleted)"

definition aggregateTaskOutputs :: "jsonLib \<Rightarrow> taskResult list \<Rightarrow> string" where
  "aggregateTaskOutputs J results =
     (let outs = fold (\<lambda>r outs. outs[tr_idx r := tr_output r]) results (replicate (length results) [])
      in jl_encode J (AArr (map AStr outs)))"

section \<open>Scatter\<close>

definition baseVolume :: "ScatterConfig \<Rightarrow> string" where
  "baseVolume c = (if sca_Volume c \<noteq> [] then sca_Volume c else ''workspace'')"

definition scatterMount :: "ScatterConfig \<Rightarrow> string" where
  "scatterMount c = (if sca_MountPath c \<noteq> [] then sca_MountPath c else ''/workspace'')"

datatype scatterMsg = ScExactlyOne | ScMode string | ScMaxDepth | ScMaxConcurrent | ScShareBase

definition validateScatter :: "ScatterConfig \<Rightarrow> scatterMsg option" where
  "validateScatter c =
     (let hasRegex = TrimSpace (sca_Regex c) \<noteq> []; hasFrom = TrimSpace (sca_PathsFrom c) \<noteq> []
      in if hasRegex = hasFrom then Some ScExactlyOne
         else if sca_Mode c \<notin> {[], ''dir'', ''file''} then Some (ScMode (sca_Mode c))
         else if sca_MaxDepth c < 0 then Some ScMaxDepth
         else if sca_MaxConcurrent c < 0 then Some ScMaxConcurrent
         else if sca_ShareBase c \<and> sca_Outputs c \<noteq> [] then Some ScShareBase
         else None)"

definition volMount :: "string \<Rightarrow> string \<Rightarrow> string \<Rightarrow> bool \<Rightarrow> bool \<Rightarrow> (string \<times> gany) list" where
  "volMount runID name mountPath workdir readOnly =
     [(''workflow_id'', AStr runID), (''name'', AStr name), (''mount_path'', AStr mountPath)]
     @ (if workdir then [(''workdir'', ABool True)] else [])
     @ (if readOnly then [(''read_only'', ABool True)] else [])"

text \<open>A step literal with the fields the code sets, all others zero.\<close>

definition stepOf :: "string \<Rightarrow> string \<Rightarrow> (string \<times> gany) list \<Rightarrow> int \<Rightarrow> Step" where
  "stepOf name action w timeout =
     \<lparr>st_StepID = [], st_Name = name, st_Description = [], st_Action = action, st_With = w,
      st_Timeout = timeout, st_AllowUnresolved = False, st_Permissions = [], st_CreatedBy = [],
      st_OrgID = [], st_Active = False, st_CreatedAt = 0, st_UpdatedAt = 0\<rparr>"

definition volumeCopyTimeoutSecs :: int where
  "volumeCopyTimeoutSecs = 600"

definition scatterResolveStep :: "ScatterConfig \<Rightarrow> string \<Rightarrow> Step" where
  "scatterResolveStep c runID = stepOf [] ''forge/resolve-paths''
     [(''volumes'', AArr [AObj (volMount runID (baseVolume c) (scatterMount c) False True)]),
      (''resolve'', AObj [(''volume'', AStr (baseVolume c)), (''regex'', AStr (sca_Regex c)),
                          (''mode'', AStr (sca_Mode c)), (''max_depth'', ANum (itoa (sca_MaxDepth c))),
                          (''output'', AStr ''paths'')])] 0"

definition scatterCreateShardStep :: "ScatterConfig \<Rightarrow> string \<Rightarrow> string \<Rightarrow> Step" where
  "scatterCreateShardStep c runID shard = stepOf [] ''forge/create-volume''
     ([(''workflow_id'', AStr runID), (''name'', AStr shard)]
      @ (if sca_SizeMB c > 0 then [(''size_mb'', ANum (itoa (sca_SizeMB c)))] else [])
      @ (if sca_Medium c \<noteq> [] then [(''medium'', AStr (sca_Medium c))] else [])) 0"

definition scatterCloneStep :: "ScatterConfig \<Rightarrow> string \<Rightarrow> string \<Rightarrow> Step" where
  "scatterCloneStep c runID shard = stepOf [] ''forge/volume-copy''
     [(''volumes'', AArr [AObj (volMount runID shard (scatterMount c) True False),
                          AObj (volMount runID (baseVolume c) ''/scatter-src'' False True)]),
      (''copy'', AObj [(''sources'', AArr [AObj [(''volume'', AStr (baseVolume c))]])])]
     volumeCopyTimeoutSecs"

text \<open>Lookups on configuration maps as type assertions read them: zero when absent or of another type.\<close>

definition getArr :: "(string \<times> gany) list \<Rightarrow> string \<Rightarrow> gany list" where
  "getArr m k = (case map_of m k of Some (AArr xs) \<Rightarrow> xs | _ \<Rightarrow> [])"

definition getStr :: "(string \<times> gany) list \<Rightarrow> string \<Rightarrow> string" where
  "getStr m k = (case map_of m k of Some (AStr s) \<Rightarrow> s | _ \<Rightarrow> [])"

definition setKey :: "string \<Rightarrow> gany \<Rightarrow> (string \<times> gany) list \<Rightarrow> (string \<times> gany) list" where
  "setKey k v m = AList.update k v m"

definition legExtra :: "ScatterConfig \<Rightarrow> gany \<Rightarrow> gany list" where
  "legExtra c v =
     (case v of
        AObj m \<Rightarrow>
          if getStr m ''name'' = baseVolume c then []
          else if getStr m ''mount_path'' = [] \<or> getStr m ''mount_path'' = scatterMount c then []
          else [AObj (filter (\<lambda>kv. fst kv \<noteq> ''workdir'') m)]
      | _ \<Rightarrow> [])"

definition scatterLegVolumes :: "(string \<times> gany) list \<Rightarrow> ScatterConfig \<Rightarrow> string \<Rightarrow> string \<Rightarrow> gany list" where
  "scatterLegVolumes w c runID shard =
     (let workspace = (if sca_ShareBase c then volMount runID (baseVolume c) (scatterMount c) True True
                       else volMount runID shard (scatterMount c) True False)
      in AObj workspace # concat (map (legExtra c) (getArr w ''volumes'')))"

definition scatterLegStep :: "WorkflowStep \<Rightarrow> ScatterConfig \<Rightarrow> string \<Rightarrow> string \<Rightarrow> Step" where
  "scatterLegStep ws c runID shard =
     stepOf (st_Name ws) (st_Action ws)
       (setKey ''volumes'' (AArr (scatterLegVolumes (st_With ws) c runID shard)) (st_With ws)) (st_Timeout ws)"

definition scatterOnly :: "string \<Rightarrow> substContext" where
  "scatterOnly path = \<lparr>sb_inputs = [], sb_outputs = [], sb_matrix = [], sb_mapVars = [], sb_scatterPath = path,
     sb_runID = [], sb_workflowID = [], sb_depth = 0, sb_stepName = [], sb_known = None\<rparr>"

definition scatterGatherStep ::
  "jsonLib \<Rightarrow> ScatterConfig \<Rightarrow> string \<Rightarrow> string list \<Rightarrow> string list \<Rightarrow> Step option" where
  "scatterGatherStep J c runID shards paths =
     (if sca_Outputs c = [] \<or> shards = [] then None
      else Some (stepOf [] ''forge/volume-copy''
        [(''volumes'', AArr (AObj (volMount runID (baseVolume c) (scatterMount c) True False)
            # map (\<lambda>(i, shard). AObj (volMount runID shard (''/scatter-gather-'' @ digitsOf i) False True))
                (enumerate 0 shards))),
         (''copy'', AObj [(''disjoint'', ABool True),
            (''sources'', AArr (map (\<lambda>(i, shard). AObj [(''volume'', AStr shard),
                (''paths'', AArr (map (\<lambda>out. AStr (substitute J out (scatterOnly (paths ! i)))) (sca_Outputs c)))])
              (enumerate 0 shards)))])]
        volumeCopyTimeoutSecs))"

definition parseScatterPaths :: "jsonLib \<Rightarrow> string \<Rightarrow> string list" where
  "parseScatterPaths J resolveOutput =
     (case jsonField J resolveOutput [''paths''] of
        Some v \<Rightarrow> parseMatrixList J v | None \<Rightarrow> parseMatrixList J resolveOutput)"

fun worstStatus :: "runStatus \<Rightarrow> runStatus \<Rightarrow> runStatus" where
  "worstStatus a b =
     (if a = StatusFailed \<or> b = StatusFailed then StatusFailed
      else if a = StatusCancelled \<or> b = StatusCancelled then StatusCancelled
      else StatusCompleted)"

text \<open>
  The outcome of executing a step against its service, and the context every leg of a scatter
  substitutes with.
\<close>

record stepResult =
  sr_Output :: string
  sr_Logs :: string
  sr_MemoryUsedMB :: "int option"
  sr_MemoryLimitMB :: "int option"
  sr_err :: "taskErr option"

record runInfo =
  ri_inputs :: "(string \<times> string) list"
  ri_visible :: "(string \<times> string) list"
  ri_runID :: string
  ri_workflowID :: string
  ri_depth :: int

definition legContext :: "runInfo \<Rightarrow> string \<Rightarrow> substContext" where
  "legContext R path =
     \<lparr>sb_inputs = ri_inputs R, sb_outputs = ri_visible R, sb_matrix = [], sb_mapVars = [],
      sb_scatterPath = path, sb_runID = ri_runID R, sb_workflowID = ri_workflowID R,
      sb_depth = ri_depth R, sb_stepName = [], sb_known = None\<rparr>"

definition wrapErr :: "string \<Rightarrow> taskErr \<Rightarrow> taskErr" where
  "wrapErr pre e = (case e of ErrCanceled \<Rightarrow> ErrCanceled | ErrOther m \<Rightarrow> ErrOther (pre @ m))"

definition runScatterLeg ::
  "(Step \<Rightarrow> substContext \<Rightarrow> stepResult) \<Rightarrow> runInfo \<Rightarrow> WorkflowStep \<Rightarrow> ScatterConfig \<Rightarrow> string \<Rightarrow> string
   \<Rightarrow> taskResult" where
  "runScatterLeg exec R ws cfg shard path =
     (let base = legContext R [];
          create = (if sca_ShareBase cfg then None
                    else sr_err (exec (scatterCreateShardStep cfg (ri_runID R) shard) base));
          clone = (if sca_ShareBase cfg then None
                   else sr_err (exec (scatterCloneStep cfg (ri_runID R) shard) base));
          res = exec (scatterLegStep ws cfg (ri_runID R) shard) (legContext R path)
      in case create of
           Some e \<Rightarrow> zeroResult\<lparr>tr_err := Some (wrapErr ''create clone volume: '' e)\<rparr>
         | None \<Rightarrow> (case clone of
             Some e \<Rightarrow> zeroResult\<lparr>tr_err := Some (wrapErr ''clone workspace: '' e)\<rparr>
           | None \<Rightarrow> zeroResult\<lparr>tr_output := sr_Output res, tr_logs := sr_Logs res,
               tr_usedMB := sr_MemoryUsedMB res, tr_limitMB := sr_MemoryLimitMB res, tr_err := sr_err res\<rparr>))"

text \<open>
  \<open>runScatterGroup\<close>.  \<open>exec\<close> executes a step; \<open>queued i\<close> says that leg \<open>i\<close> was cancelled
  while it waited for a slot; \<open>ctxErr\<close> whether the run was cancelled when the legs were done.
  The result is the output, the status, and the cause of the synthetic failed step run.
\<close>

datatype scatterCause = NoPathsFrom string | ResolveFailed taskErr | NoMatch string | TooManyPaths nat | GatherFailed taskErr

definition scatterLimit :: "ScatterConfig \<Rightarrow> int" where
  "scatterLimit c = (if sca_MaxConcurrent c > 0 then min (sca_MaxConcurrent c) maxParallelSteps
                     else defaultFanoutConcurrency)"

definition scatterPaths ::
  "jsonLib \<Rightarrow> (Step \<Rightarrow> substContext \<Rightarrow> stepResult) \<Rightarrow> runInfo \<Rightarrow> ScatterConfig
   \<Rightarrow> scatterCause + (ScatterConfig \<times> string list)" where
  "scatterPaths J exec R c =
     (let base = legContext R []
      in if TrimSpace (sca_PathsFrom c) \<noteq> [] then
           (let paths = parseMatrixList J (substitute J (sca_PathsFrom c) base)
            in if paths = [] then Inl (NoPathsFrom (sca_PathsFrom c))
               else if length paths > maxMatrixValues then Inl (TooManyPaths (length paths))
               else Inr (c, paths))
         else
           (let cfg = c\<lparr>sca_Regex := substitute J (sca_Regex c) base\<rparr>;
                out = exec (scatterResolveStep cfg (ri_runID R)) base;
                paths = parseScatterPaths J (sr_Output out)
            in case sr_err out of
                 Some e \<Rightarrow> Inl (ResolveFailed e)
               | None \<Rightarrow> if paths = [] then Inl (NoMatch (sca_Regex cfg))
                         else if length paths > maxMatrixValues then Inl (TooManyPaths (length paths))
                         else Inr (cfg, paths)))"

definition legStatus :: "bool \<Rightarrow> taskResult \<Rightarrow> runStatus \<Rightarrow> runStatus" where
  "legStatus ctxErr r status =
     (if tr_err r \<noteq> None \<and> ctxErr then worstStatus status StatusCancelled
      else if tr_err r \<noteq> None then StatusFailed else status)"

definition scatterStatus :: "bool \<Rightarrow> taskResult list \<Rightarrow> runStatus" where
  "scatterStatus ctxErr results = fold (legStatus ctxErr) results StatusCompleted"

definition runScatterGroup ::
  "jsonLib \<Rightarrow> (Step \<Rightarrow> substContext \<Rightarrow> stepResult) \<Rightarrow> (nat \<Rightarrow> bool) \<Rightarrow> bool \<Rightarrow> runInfo \<Rightarrow> WorkflowStep
   \<Rightarrow> ScatterConfig \<Rightarrow> nat \<Rightarrow> string \<times> runStatus \<times> scatterCause option" where
  "runScatterGroup J exec queued ctxErr R ws c stepIdx =
     (case scatterPaths J exec R c of
        Inl cause \<Rightarrow> ([], StatusFailed, Some cause)
      | Inr (cfg, paths) \<Rightarrow>
          (let shards = map (\<lambda>i. scatterShardName (baseVolume cfg) stepIdx i) [0..<length paths];
               results = map (\<lambda>i. if queued i then zeroResult\<lparr>tr_err := Some ErrCanceled, tr_idx := i\<rparr>
                                  else runScatterLeg exec R ws cfg (shards ! i) (paths ! i)) [0..<length paths];
               status = scatterStatus ctxErr results
           in if status \<noteq> StatusCompleted then ([], status, None)
              else (case (case scatterGatherStep J cfg (ri_runID R) shards paths of None \<Rightarrow> None
                          | Some gather \<Rightarrow> sr_err (exec gather (legContext R []))) of
                      Some e \<Rightarrow> ([], StatusFailed, Some (GatherFailed e))
                    | None \<Rightarrow> (aggregateTaskOutputs J results, StatusCompleted, None))))"

section \<open>One node\<close>

text \<open>\<open>withIterVolume\<close>: the iteration's clone first, other mounts kept unless they collide.\<close>

definition keepMount :: "string \<Rightarrow> gany \<Rightarrow> bool" where
  "keepMount mountPath e = (case e of AObj m \<Rightarrow> getStr m ''mount_path'' \<noteq> mountPath | _ \<Rightarrow> True)"

definition withIterVolume :: "(string \<times> gany) list \<Rightarrow> (string \<times> gany) list \<Rightarrow> (string \<times> gany) list" where
  "withIterVolume w vol =
     setKey ''volumes'' (AArr (AObj vol # filter (keepMount (getStr vol ''mount_path'')) (getArr w ''volumes''))) w"

text \<open>What \<open>runNode\<close> reports, with the step run it writes itself when nothing is executed.\<close>

datatype nodeNote = NoNote | ExpansionFailed fanErr | SkippedEmpty | NoValues

record nodeOutcome =
  no_state :: nodeState
  no_output :: string
  no_legs :: nat
  no_note :: nodeNote

definition outcome :: "nodeState \<Rightarrow> string \<Rightarrow> nat \<Rightarrow> nodeNote \<Rightarrow> nodeOutcome" where
  "outcome s out legs note = \<lparr>no_state = s, no_output = out, no_legs = legs, no_note = note\<rparr>"

record iterCtx =
  ic_mapVars :: "(string \<times> string) list"
  ic_label :: "string \<Rightarrow> string"
  ic_volume :: "(string \<times> gany) list option"

definition runNode ::
  "jsonLib \<Rightarrow> (stepTask list \<Rightarrow> int \<Rightarrow> taskResult list \<times> runStatus)
   \<Rightarrow> (WorkflowStep \<Rightarrow> ScatterConfig \<Rightarrow> string \<times> runStatus) \<Rightarrow> runInfo \<Rightarrow> iterCtx \<Rightarrow> WorkflowStep \<Rightarrow> nat
   \<Rightarrow> nodeOutcome" where
  "runNode J runTasks runScatter R ic ws0 idx =
     (let ws = (case ic_volume ic of None \<Rightarrow> ws0 | Some v \<Rightarrow> ws0\<lparr>st_With := withIterVolume (st_With ws0) v\<rparr>)
      in case ws_Scatter ws of
           Some c \<Rightarrow> (case runScatter ws c of (out, status) \<Rightarrow> outcome (statusToNodeState status) out 0 NoNote)
         | None \<Rightarrow>
             (let grp = \<lparr>gr_steps = [ws], gr_indices = [idx]\<rparr>
              in case buildGroupTasks J grp ((legContext R [])\<lparr>sb_mapVars := ic_mapVars ic, sb_depth := 0\<rparr>) of
                   Inl e \<Rightarrow> outcome NodeFailed [] 0 (ExpansionFailed e)
                 | Inr (tasks, aggregateName) \<Rightarrow>
                     if tasks = [] then
                       (case ws_Matrix ws of
                          Some m \<Rightarrow> if mx_AllowEmpty m then outcome NodeCompleted [] 0 SkippedEmpty
                                    else outcome NodeFailed [] 0 NoValues
                        | None \<Rightarrow> outcome NodeFailed [] 0 NoValues)
                     else
                       (case runTasks (map (\<lambda>t. t\<lparr>tk_name := ic_label ic (tk_name t), tk_mapVars := ic_mapVars ic\<rparr>) tasks)
                                (groupConcurrency grp) of
                          (results, status) \<Rightarrow>
                            if status \<noteq> StatusCompleted then outcome (statusToNodeState status) [] 0 NoNote
                            else if aggregateName \<noteq> [] then
                              outcome NodeCompleted (aggregateTaskOutputs J results) (length results) NoNote
                            else outcome NodeCompleted (tr_output (hd results)) (length results) NoNote)))"

end
