(* ===== verification/Wf_MapLoop.thy ===== *)
theory Wf_MapLoop
  imports Wf_Fanout
begin

text \<open>
  The two super-nodes of the scheduler: \<open>runMapRegion\<close> with \<open>runIteration\<close>
  (\<open>mapregion.go\<close>), which runs a body once per value in parallel, and \<open>runLoopRegion\<close>
  (\<open>loopregion.go\<close>), which runs it again and again until a condition holds.  The iterations
  of a map are goroutines sharing a semaphore, a failure counter and a cancellation: a step
  relation on \<open>mapRun\<close>.  A loop is sequential: a recursion over its attempts.  The graph run
  of one body is a parameter, the outcome of \<open>runGraph\<close> on a fresh state.
\<close>

section \<open>Map regions: expansion\<close>

datatype regionPlan =
    PlanFail fanErr
  | PlanNoValues
  | PlanSkip "(string \<times> string) list"
  | PlanRun "string list"

definition planRegion :: "jsonLib \<Rightarrow> mapRegion \<Rightarrow> substContext \<Rightarrow> regionPlan" where
  "planRegion J region sc =
     (case resolveMapValues J (mr_def region) sc of
        Inl e \<Rightarrow> PlanFail e
      | Inr values \<Rightarrow>
          if values = [] then
            (if md_AllowEmpty (mr_def region) then PlanSkip (map (\<lambda>n. (n, ''[]'')) (mr_nodes region))
             else PlanNoValues)
          else PlanRun values)"

section \<open>Map regions: one iteration\<close>

definition regionConfig :: "MapDef \<Rightarrow> string list \<Rightarrow> ScatterConfig" where
  "regionConfig d outputs =
     \<lparr>sca_Volume = md_Volume d, sca_MountPath = md_MountPath d, sca_Regex = [], sca_Mode = [],
      sca_MaxDepth = 0, sca_PathsFrom = [], sca_Outputs = outputs, sca_ShareBase = False,
      sca_SizeMB = md_SizeMB d, sca_Medium = md_Medium d, sca_MaxConcurrent = 0\<rparr>"

definition iterShard :: "mapRegion \<Rightarrow> nat \<Rightarrow> string" where
  "iterShard region i = iterVolume (md_Volume (mr_def region)) (mr_firstIndex region) i"

definition iterVolumeMount :: "mapRegion \<Rightarrow> string \<Rightarrow> nat \<Rightarrow> (string \<times> gany) list option" where
  "iterVolumeMount region runID i =
     (if md_Volume (mr_def region) = [] then None
      else Some (volMount runID (iterShard region i)
                  (if md_MountPath (mr_def region) = [] then ''/workspace'' else md_MountPath (mr_def region))
                  True False))"

text \<open>A context with only the run, the nesting depth and the bindings of a map.\<close>

definition iterSubst :: "runInfo \<Rightarrow> (string \<times> string) list \<Rightarrow> substContext" where
  "iterSubst R vars =
     \<lparr>sb_inputs = [], sb_outputs = [], sb_matrix = [], sb_mapVars = vars, sb_scatterPath = [],
      sb_runID = ri_runID R, sb_workflowID = [], sb_depth = ri_depth R, sb_stepName = [], sb_known = None\<rparr>"

definition prepareIterVolume ::
  "(Step \<Rightarrow> substContext \<Rightarrow> stepResult) \<Rightarrow> runInfo \<Rightarrow> mapRegion \<Rightarrow> nat \<Rightarrow> runStatus" where
  "prepareIterVolume exec R region i =
     (let cfg = regionConfig (mr_def region) []; shard = iterShard region i
      in if sr_err (exec (scatterCreateShardStep cfg (ri_runID R) shard) (iterSubst R [])) \<noteq> None then StatusFailed
         else if sr_err (exec (scatterCloneStep cfg (ri_runID R) shard) (iterSubst R [])) \<noteq> None then StatusFailed
         else StatusCompleted)"

definition gatherIter ::
  "jsonLib \<Rightarrow> (Step \<Rightarrow> substContext \<Rightarrow> stepResult) \<Rightarrow> runInfo \<Rightarrow> mapRegion \<Rightarrow> nat \<Rightarrow> (string \<times> string) list
   \<Rightarrow> runStatus" where
  "gatherIter J exec R region i vars =
     (let cfg = regionConfig (mr_def region) (md_Outputs (mr_def region));
          sc = iterSubst R vars;
          paths = map (\<lambda>out. substitute J out sc) (sca_Outputs cfg)
      in case scatterGatherStep J cfg (ri_runID R) [iterShard region i] paths of
           None \<Rightarrow> StatusCompleted
         | Some step \<Rightarrow> if sr_err (exec step sc) \<noteq> None then StatusFailed else StatusCompleted)"

text \<open>
  \<open>runIteration\<close>: the outputs (\<open>nil\<close> as no binding), the status, and the clone volume the
  deferred call releases.  \<open>body\<close> is the run of the region's sub-graph in its iteration context.
\<close>

definition runIteration ::
  "jsonLib \<Rightarrow> (Step \<Rightarrow> substContext \<Rightarrow> stepResult) \<Rightarrow> (iterCtx \<Rightarrow> (string \<rightharpoonup> string) \<times> runStatus) \<Rightarrow> runInfo
   \<Rightarrow> mapRegion \<Rightarrow> nat \<Rightarrow> string \<Rightarrow> (string \<rightharpoonup> string) \<times> runStatus \<times> string list" where
  "runIteration J exec body R region i val =
     (let d = mr_def region; vars = [(md_Var d, val)]; cloned = md_Volume d \<noteq> []
      in if cloned \<and> prepareIterVolume exec R region i \<noteq> StatusCompleted
         then (Map.empty, prepareIterVolume exec R region i, [])
         else (let release = (if cloned then [iterShard region i] else [])
               in case body \<lparr>ic_mapVars = vars, ic_label = (\<lambda>base. mapIterName base (md_Var d) val),
                             ic_volume = iterVolumeMount region (ri_runID R) i\<rparr> of
                    (outs, status) \<Rightarrow>
                      if status = StatusPaused then (Map.empty, StatusFailed, release)
                      else if status = StatusCompleted \<and> cloned \<and> md_Outputs d \<noteq> []
                           then (outs, gatherIter J exec R region i vars, release)
                      else (outs, status, release)))"

section \<open>Map regions: the goroutines\<close>

datatype iterState = Waiting | Running | Finished runStatus "string \<rightharpoonup> string"

record mapRun =
  mp_iters :: "iterState list"
  mp_failed :: nat
  mp_tripped :: bool
  mp_outer :: bool

definition initMapRun :: "nat \<Rightarrow> mapRun" where
  "initMapRun n = \<lparr>mp_iters = replicate n Waiting, mp_failed = 0, mp_tripped = False, mp_outer = False\<rparr>"

text \<open>\<open>mapCtx\<close> is done when the run was cancelled or the tolerance was exceeded.\<close>

definition mapCancelled :: "mapRun \<Rightarrow> bool" where
  "mapCancelled s \<longleftrightarrow> mp_outer s \<or> mp_tripped s"

definition running :: "mapRun \<Rightarrow> nat" where
  "running s = length (filter (\<lambda>x. x = Running) (mp_iters s))"

definition startIter :: "nat \<Rightarrow> mapRun \<Rightarrow> mapRun" where
  "startIter i s = s\<lparr>mp_iters := (mp_iters s)[i := Running]\<rparr>"

definition dropIter :: "nat \<Rightarrow> mapRun \<Rightarrow> mapRun" where
  "dropIter i s = s\<lparr>mp_iters := (mp_iters s)[i := Finished StatusCancelled Map.empty]\<rparr>"

definition finishIter :: "int \<Rightarrow> nat \<Rightarrow> runStatus \<Rightarrow> (string \<rightharpoonup> string) \<Rightarrow> mapRun \<Rightarrow> mapRun" where
  "finishIter maxFail i st outs s =
     (let s1 = s\<lparr>mp_iters := (mp_iters s)[i := Finished st outs]\<rparr>
      in if st = StatusFailed
         then s1\<lparr>mp_failed := mp_failed s + 1,
                 mp_tripped := (mp_tripped s \<or> int (mp_failed s + 1) > maxFail)\<rparr>
         else s1)"

text \<open>
  One step of the region: a goroutine takes a slot, one gives up because \<open>mapCtx\<close> is done, one
  finishes its body, or the surrounding run is cancelled.  \<open>runIteration\<close> never reports paused.
\<close>

inductive map_step :: "MapDef \<Rightarrow> int \<Rightarrow> mapRun \<Rightarrow> mapRun \<Rightarrow> bool" for d maxFail where
  start: "i < length (mp_iters s) \<Longrightarrow> mp_iters s ! i = Waiting \<Longrightarrow> \<not> mapCancelled s
          \<Longrightarrow> int (running s) < mapConcurrency d \<Longrightarrow> map_step d maxFail s (startIter i s)"
| drop: "i < length (mp_iters s) \<Longrightarrow> mp_iters s ! i = Waiting \<Longrightarrow> mapCancelled s
         \<Longrightarrow> map_step d maxFail s (dropIter i s)"
| finish: "i < length (mp_iters s) \<Longrightarrow> mp_iters s ! i = Running \<Longrightarrow> st \<noteq> StatusPaused
           \<Longrightarrow> map_step d maxFail s (finishIter maxFail i st outs s)"
| cancel: "\<not> mp_outer s \<Longrightarrow> map_step d maxFail s (s\<lparr>mp_outer := True\<rparr>)"

inductive_cases map_stepE: "map_step d maxFail s s'"

section \<open>Map regions: the result\<close>

fun finishedWith :: "iterState \<Rightarrow> runStatus option" where
  "finishedWith (Finished st outs) = Some st"
| "finishedWith _ = None"

fun iterOutput :: "string \<Rightarrow> iterState \<Rightarrow> string" where
  "iterOutput n (Finished st outs) = (case outs n of Some v \<Rightarrow> v | None \<Rightarrow> [])"
| "iterOutput n _ = []"

definition iterStatuses :: "mapRun \<Rightarrow> runStatus list" where
  "iterStatuses s = List.map_filter finishedWith (mp_iters s)"

definition regionStatus :: "mapRun \<Rightarrow> runStatus" where
  "regionStatus s =
     (if mp_outer s then fold (\<lambda>st acc. worstStatus acc st) (iterStatuses s) StatusCompleted
      else if mp_tripped s then StatusFailed
      else fold (\<lambda>st acc. worstStatus acc st)
             (filter (\<lambda>st. \<not> (st = StatusFailed \<or> st = StatusCancelled)) (iterStatuses s)) StatusCompleted)"

definition regionAgg :: "jsonLib \<Rightarrow> mapRegion \<Rightarrow> mapRun \<Rightarrow> (string \<times> string) list" where
  "regionAgg J region s =
     map (\<lambda>n. (n, jl_encode J (AArr (map (\<lambda>x. AStr (iterOutput n x)) (mp_iters s))))) (mr_nodes region)"

section \<open>Loops\<close>

definition loopIterName :: "string \<Rightarrow> string \<Rightarrow> nat \<Rightarrow> string" where
  "loopIterName base var attempt =
     base @ '' ['' @ (if var = [] then ''attempt'' else var) @ ''='' @ digitsOf attempt @ '']''"

definition loopVars :: "string \<Rightarrow> string \<Rightarrow> (string \<times> string) list" where
  "loopVars var attempt = (if var = [] then [] else [(var, attempt)])"

text \<open>\<open>mergeVars\<close>: the second map wins; in an association list the first binding is the one read.\<close>

definition mergeVars :: "(string \<times> string) list \<Rightarrow> (string \<times> string) list \<Rightarrow> (string \<times> string) list" where
  "mergeVars a b = (if a = [] then b else if b = [] then a else b @ a)"

definition loopAgg :: "loopRegion \<Rightarrow> (string \<rightharpoonup> string) \<Rightarrow> (string \<times> string) list" where
  "loopAgg loop prev = map (\<lambda>n. (n, case prev n of Some v \<Rightarrow> v | None \<Rightarrow> [])) (lr_nodes loop)"

definition loopLimit :: "LoopDef \<Rightarrow> nat" where
  "loopLimit d = nat (min loopHardMax (max 1 (ld_Limit d)))"

datatype loopNote = LoopNoNote | LoopCompileError string | LoopEvalError string | LoopExhausted nat string

record loopOutcome =
  lo_outputs :: "(string \<times> string) list"
  lo_status :: runStatus
  lo_iters :: nat
  lo_note :: loopNote

definition loopResult :: "loopRegion \<Rightarrow> (string \<rightharpoonup> string) \<Rightarrow> runStatus \<Rightarrow> nat \<Rightarrow> loopNote \<Rightarrow> loopOutcome" where
  "loopResult loop prev st n note =
     \<lparr>lo_outputs = loopAgg loop prev, lo_status = st, lo_iters = n, lo_note = note\<rparr>"

definition loopIterCtx :: "iterCtx \<Rightarrow> LoopDef \<Rightarrow> nat \<Rightarrow> iterCtx" where
  "loopIterCtx pic d attempt =
     \<lparr>ic_mapVars = mergeVars (ic_mapVars pic) (loopVars (ld_Var d) (digitsOf attempt)),
      ic_label = (\<lambda>base. loopIterName (ic_label pic base) (ld_Var d) attempt),
      ic_volume = None\<rparr>"

text \<open>
  The attempts from index \<open>i\<close> on: \<open>cancelled i\<close> is \<open>ctx.Err()\<close> at the head of that attempt,
  \<open>body\<close> the state and status of \<open>runGraph\<close> on a fresh state in the given iteration context.
\<close>

function loopAttempts ::
  "'p runCtx \<Rightarrow> loopRegion \<Rightarrow> 'p option \<Rightarrow> iterCtx \<Rightarrow> (nat \<Rightarrow> iterCtx \<Rightarrow> runState \<times> runStatus) \<Rightarrow> (nat \<Rightarrow> bool)
   \<Rightarrow> nat \<Rightarrow> (string \<rightharpoonup> string) \<Rightarrow> runStatus \<Rightarrow> loopOutcome" where
  "loopAttempts C loop prog pic body cancelled i prev status =
     (let d = lr_def loop
      in if loopLimit d \<le> i then
           (if ld_Until d \<noteq> [] then loopResult loop prev StatusFailed i (LoopExhausted i (ld_Until d))
            else loopResult loop prev status i LoopNoNote)
         else if cancelled i then loopResult loop prev StatusCancelled i LoopNoNote
         else
           (case body i (loopIterCtx pic d (i + 1)) of
              (st, iterStatus) \<Rightarrow>
                if iterStatus = StatusPaused then loopResult loop (rs_outputs st) StatusFailed (i + 1) LoopNoNote
                else if ld_Until d = [] then
                  loopAttempts C loop prog pic body cancelled (i + 1) (rs_outputs st) (worstStatus status iterStatus)
                else
                  (case evalWhen (rc_engine C) prog
                          (buildExprEnv (rc_engine C) (rc_inputs C) (rc_runID C) (rs_nodes st) (rs_outputs st)) of
                     Inl err \<Rightarrow> loopResult loop (rs_outputs st) StatusFailed (i + 1) (LoopEvalError err)
                   | Inr True \<Rightarrow> loopResult loop (rs_outputs st) StatusCompleted (i + 1) LoopNoNote
                   | Inr False \<Rightarrow> loopAttempts C loop prog pic body cancelled (i + 1) (rs_outputs st) status)))"
  by pat_completeness auto
termination
  by (relation "measure (\<lambda>(C, loop, prog, pic, body, cancelled, i, prev, status). loopLimit (lr_def loop) - i)")
    auto

declare loopAttempts.simps [simp del]

definition runLoopRegion ::
  "(string \<Rightarrow> string + 'p) \<Rightarrow> 'p runCtx \<Rightarrow> loopRegion \<Rightarrow> iterCtx
   \<Rightarrow> (nat \<Rightarrow> iterCtx \<Rightarrow> runState \<times> runStatus) \<Rightarrow> (nat \<Rightarrow> bool) \<Rightarrow> loopOutcome" where
  "runLoopRegion compile C loop pic body cancelled =
     (case compileWhen compile (ld_Until (lr_def loop)) of
        Inl err \<Rightarrow> \<lparr>lo_outputs = [], lo_status = StatusFailed, lo_iters = 0, lo_note = LoopCompileError err\<rparr>
      | Inr prog \<Rightarrow> loopAttempts C loop prog pic body cancelled 0 Map.empty
          (if ld_Until (lr_def loop) = [] then StatusCompleted else StatusFailed))"

end
