(* ===== verification/Wf_FanoutTheorems.thy ===== *)
theory Wf_FanoutTheorems
  imports Wf_Fanout "HOL-Library.Multiset"
begin

text \<open>
  Properties of the fan-out of a node: results of a task group in any order of arrival, the
  outputs of a scatter, volume names, mounts, and the arithmetic of tolerances and limits.
\<close>

section \<open>Numbers in names\<close>

lemma digits_suffix:
  assumes "xs @ [a] @ ds = ys @ [b] @ es" "\<not> isDigit a" "\<not> isDigit b"
    and "\<forall>c\<in>set ds. isDigit c" "\<forall>c\<in>set es. isDigit c"
  shows "xs = ys \<and> a = b \<and> ds = es"
proof -
  have tw: "takeWhile isDigit (rev (zs @ [c] @ fs)) = rev fs"
    "dropWhile isDigit (rev (zs @ [c] @ fs)) = c # rev zs"
    if "\<not> isDigit c" "\<forall>d\<in>set fs. isDigit d" for zs c fs
  proof -
    have "takeWhile isDigit (rev fs @ c # rev zs) = rev fs @ takeWhile isDigit (c # rev zs)"
      by (rule takeWhile_append2) (use that(2) in simp)
    with that(1) show "takeWhile isDigit (rev (zs @ [c] @ fs)) = rev fs" by simp
    have "dropWhile isDigit (rev fs @ c # rev zs) = dropWhile isDigit (c # rev zs)"
      by (rule dropWhile_append2) (use that(2) in simp)
    with that(1) show "dropWhile isDigit (rev (zs @ [c] @ fs)) = c # rev zs" by simp
  qed
  have "rev ds = rev es"
    using tw(1)[OF assms(2,4), of xs] unfolding assms(1) tw(1)[OF assms(3,5)] by simp
  moreover have "a # rev xs = b # rev ys"
    using tw(2)[OF assms(2,4), of xs] unfolding assms(1) tw(2)[OF assms(3,5)] by simp
  ultimately show ?thesis by simp
qed

lemma volume_name_inj:
  assumes "b1 @ [CHR ''-'', k1] @ digitsOf x1 @ [CHR ''-'', l1] @ digitsOf y1
         = b2 @ [CHR ''-'', k2] @ digitsOf x2 @ [CHR ''-'', l2] @ digitsOf y2"
    and "\<not> isDigit k1" "\<not> isDigit l1" "\<not> isDigit k2" "\<not> isDigit l2"
  shows "b1 = b2 \<and> k1 = k2 \<and> x1 = x2 \<and> l1 = l2 \<and> y1 = y2"
proof -
  have dash: "\<not> isDigit (CHR ''-'')" by (simp add: isDigit_def)
  have d: "\<forall>c\<in>set (digitsOf n). isDigit c" for n using digitsOf_val by blast
  have "(b1 @ [CHR ''-'', k1] @ digitsOf x1 @ [CHR ''-'']) @ [l1] @ digitsOf y1
      = (b2 @ [CHR ''-'', k2] @ digitsOf x2 @ [CHR ''-'']) @ [l2] @ digitsOf y2" using assms(1) by simp
  from digits_suffix[OF this assms(3,5) d d]
  have 1: "b1 @ [CHR ''-'', k1] @ digitsOf x1 = b2 @ [CHR ''-'', k2] @ digitsOf x2" "l1 = l2" "y1 = y2"
    by simp_all
  have "(b1 @ [CHR ''-'']) @ [k1] @ digitsOf x1 = (b2 @ [CHR ''-'']) @ [k2] @ digitsOf x2" using 1(1) by simp
  from digits_suffix[OF this assms(2,4) d d] 1(2,3) show ?thesis by simp
qed

text \<open>
  clone volumes are never shared.  The name of a map iteration's clone determines the base
  volume, the region and the iteration, that of a scatter leg's clone the base, the step and
  the leg, and no name is of both kinds, whatever the base volumes are called.
\<close>
theorem clone_names_distinct:
  "(iterVolume b r i = iterVolume b' r' i') = (b = b' \<and> r = r' \<and> i = i')
   \<and> (scatterShardName b r i = scatterShardName b' r' i') = (b = b' \<and> r = r' \<and> i = i')
   \<and> iterVolume b r i \<noteq> scatterShardName b' r' i'"
proof -
  have nd: "\<not> isDigit (CHR ''r'')" "\<not> isDigit (CHR ''m'')" "\<not> isDigit (CHR ''n'')" "\<not> isDigit (CHR ''s'')"
    by (simp_all add: isDigit_def)
  show ?thesis
    using volume_name_inj[of b "CHR ''r''" r "CHR ''m''" i b' "CHR ''r''" r' "CHR ''m''" i']
      volume_name_inj[of b "CHR ''n''" r "CHR ''s''" i b' "CHR ''n''" r' "CHR ''s''" i']
      volume_name_inj[of b "CHR ''r''" r "CHR ''m''" i b' "CHR ''n''" r' "CHR ''s''" i'] nd
    by (auto simp: iterVolume_def scatterShardName_def)
qed

section \<open>Task groups\<close>

lemma collect_results:
  "fst (fold collectOne rs (res, st)) = fold (\<lambda>r xs. xs[tr_idx r := r]) rs res"
  by (induction rs arbitrary: res st) (simp_all add: collectOne_def)

lemma collect_status:
  "snd (fold collectOne rs (res, st)) =
     (if st = StatusFailed \<or> (\<exists>r\<in>set rs. \<exists>e. tr_err r = Some (ErrOther e)) then StatusFailed
      else if st = StatusCompleted \<and> (\<exists>r\<in>set rs. tr_err r = Some ErrCanceled) then StatusCancelled
      else st)"
  by (induction rs arbitrary: res st) (auto simp: collectOne_def split: option.splits taskErr.splits)

lemma fold_update_nth:
  assumes "distinct (map f rs)" "r \<in> set rs" "f r < length xs"
  shows "fold (\<lambda>r xs. xs[f r := g r]) rs xs ! f r = g r"
  using assms
proof (induction rs arbitrary: xs)
  case (Cons a rs)
  have keep: "fold (\<lambda>r xs. xs[f r := g r]) rs ys ! k = ys ! k" if "k \<notin> f ` set rs" for k ys
    using that by (induction rs arbitrary: ys) auto
  show ?case
  proof (cases "r = a")
    case True
    then have "f a \<notin> f ` set rs" using Cons.prems(1) by auto
    with True Cons.prems(3) keep show ?thesis by simp
  next
    case False
    with Cons show ?thesis by simp
  qed
qed simp

lemma fold_update_length [simp]: "length (fold (\<lambda>r xs. xs[f r := g r]) rs xs) = length xs"
  by (induction rs arbitrary: xs) auto

text \<open>
  the results of a task group do not depend on the order in which its tasks report.  When
  every task reports once, the result array holds each report at its task's position, the
  aggregated output lists the outputs in task order, and the status is \<open>failed\<close> if any task
  failed, else \<open>cancelled\<close> if any was cancelled, else \<open>completed\<close>.
\<close>
theorem task_group_order_independent:
  assumes "mset (map tr_idx arrivals) = mset [0..<n]"
  shows "(\<forall>r\<in>set arrivals. fst (collectResults n arrivals) ! tr_idx r = r)
    \<and> aggregateTaskOutputs J (fst (collectResults n arrivals))
        = jl_encode J (AArr (map (\<lambda>i. AStr (tr_output (fst (collectResults n arrivals) ! i))) [0..<n]))
    \<and> snd (collectResults n arrivals) =
        (if \<exists>r\<in>set arrivals. \<exists>e. tr_err r = Some (ErrOther e) then StatusFailed
         else if \<exists>r\<in>set arrivals. tr_err r = Some ErrCanceled then StatusCancelled else StatusCompleted)"
proof -
  let ?res = "fst (collectResults n arrivals)"
  have dist: "distinct (map tr_idx arrivals)" using assms by (metis distinct_upt mset_eq_imp_distinct_iff)
  have idx: "tr_idx ` set arrivals = {0..<n}" using mset_eq_setD[OF assms] by simp
  have res: "?res = fold (\<lambda>r xs. xs[tr_idx r := r]) arrivals (replicate n zeroResult)"
    by (simp add: collectResults_def collect_results)
  then have len: "length ?res = n" by simp
  have at: "?res ! tr_idx r = r" if "r \<in> set arrivals" for r
  proof -
    have "tr_idx r \<in> {0..<n}" using idx that by blast
    then show ?thesis
      using fold_update_nth[OF dist that, of "replicate n zeroResult" "\<lambda>r. r"] unfolding res by simp
  qed
  have ridx: "tr_idx (?res ! i) = i" if i: "i < n" for i
  proof -
    have "i \<in> tr_idx ` set arrivals" using idx i by auto
    then obtain r where "r \<in> set arrivals" "tr_idx r = i" by auto
    then show ?thesis using at by metis
  qed
  have "map tr_idx ?res = [0..<n]" using ridx len by (intro nth_equalityI) auto
  then have dres: "distinct (map tr_idx ?res)" by simp
  have "fold (\<lambda>r outs. outs[tr_idx r := tr_output r]) ?res (replicate n []) = map (\<lambda>i. tr_output (?res ! i)) [0..<n]"
  proof (rule nth_equalityI)
    fix i assume "i < length (fold (\<lambda>r outs. outs[tr_idx r := tr_output r]) ?res (replicate n []))"
    then have i: "i < n" by simp
    have "?res ! i \<in> set ?res" using i len by simp
    from fold_update_nth[OF dres this, of "replicate n []" tr_output] i ridx[OF i]
    show "fold (\<lambda>r outs. outs[tr_idx r := tr_output r]) ?res (replicate n []) ! i
        = map (\<lambda>i. tr_output (?res ! i)) [0..<n] ! i" by simp
  qed simp
  then have "aggregateTaskOutputs J ?res = jl_encode J (AArr (map (\<lambda>i. AStr (tr_output (?res ! i))) [0..<n]))"
    by (simp add: aggregateTaskOutputs_def len comp_def)
  moreover have "snd (collectResults n arrivals) =
      (if \<exists>r\<in>set arrivals. \<exists>e. tr_err r = Some (ErrOther e) then StatusFailed
       else if \<exists>r\<in>set arrivals. tr_err r = Some ErrCanceled then StatusCancelled else StatusCompleted)"
    by (simp add: collectResults_def collect_status)
  ultimately show ?thesis using at by blast
qed

lemma task_group_order_independent_witness:
  "snd (collectResults 2 [zeroResult\<lparr>tr_idx := 1, tr_err := Some ErrCanceled\<rparr>, zeroResult\<lparr>tr_idx := 0\<rparr>])
     = StatusCancelled"
proof -
  have "mset (map tr_idx [zeroResult\<lparr>tr_idx := 1, tr_err := Some ErrCanceled\<rparr>, zeroResult\<lparr>tr_idx := 0\<rparr>])
      = mset [0..<2]" by (simp add: upt_rec)
  from task_group_order_independent[OF this, of demoJson] show ?thesis by (simp add: zeroResult_def)
qed

section \<open>The outputs of a scatter\<close>

lemma leg_idx: "tr_idx (runScatterLeg exec R ws cfg shard path) = 0"
  by (simp add: runScatterLeg_def zeroResult_def Let_def split: option.split)

lemma fold_update_same:
  "rs \<noteq> [] \<Longrightarrow> \<forall>r\<in>set rs. tr_idx r = 0 \<Longrightarrow> xs \<noteq> [] \<Longrightarrow>
     fold (\<lambda>r outs. outs[tr_idx r := tr_output r]) rs xs = tr_output (last rs) # tl xs"
proof (induction rs arbitrary: xs)
  case (Cons r rs)
  then show ?case by (cases xs; cases "rs = []") auto
qed simp

lemma legStatus_completed: "legStatus c r st = StatusCompleted \<longleftrightarrow> st = StatusCompleted \<and> tr_err r = None"
  by (cases st; cases c; cases "tr_err r = None") (simp_all add: legStatus_def)

lemma scatterStatus_completed:
  "fold (legStatus c) rs st = StatusCompleted \<longleftrightarrow> st = StatusCompleted \<and> (\<forall>r\<in>set rs. tr_err r = None)"
  by (induction rs arbitrary: st) (auto simp: legStatus_completed)

text \<open>
  a scatter loses its outputs.  \<open>runScatterLeg\<close> leaves the position of a result at zero and
  \<open>runScatterGroup\<close> stores it as it is, so \<open>aggregateTaskOutputs\<close> writes every leg's output to the
  first place: a scatter that completes publishes the output of its last leg and empty strings
  for all others, not the outputs in the order of the paths.
\<close>
theorem scatter_outputs_collapse:
  assumes "scatterPaths J exec R c = Inr (cfg, paths)"
    and "runScatterGroup J exec queued ctxErr R ws c idx = (out, StatusCompleted, cause)"
    and "paths \<noteq> []"
  defines "leg \<equiv> \<lambda>i. runScatterLeg exec R ws cfg (scatterShardName (baseVolume cfg) idx i) (paths ! i)"
  shows "out = jl_encode J (AArr (AStr (tr_output (leg (length paths - 1))) # replicate (length paths - 1) (AStr [])))"
proof -
  let ?n = "length paths"
  let ?shards = "map (\<lambda>i. scatterShardName (baseVolume cfg) idx i) [0..<?n]"
  let ?results = "map (\<lambda>i. if queued i then zeroResult\<lparr>tr_err := Some ErrCanceled, tr_idx := i\<rparr>
                            else runScatterLeg exec R ws cfg (?shards ! i) (paths ! i)) [0..<?n]"
  have st: "scatterStatus ctxErr ?results = StatusCompleted"
    using assms(1,2) by (simp add: runScatterGroup_def Let_def split: if_splits option.splits)
  then have ok: "\<forall>r\<in>set ?results. tr_err r = None"
    unfolding scatterStatus_def scatterStatus_completed by blast
  have nq: "\<not> queued i" if i: "i < ?n" for i
  proof -
    have "?results ! i \<in> set ?results" by (rule nth_mem) (use i in simp)
    then have "tr_err (?results ! i) = None" using ok by blast
    with i show ?thesis by (auto split: if_splits)
  qed
  have res: "?results = map leg [0..<?n]"
    using nq by (simp add: leg_def)
  have "out = aggregateTaskOutputs J ?results"
    using assms(1,2) by (auto simp: runScatterGroup_def Let_def st split: if_splits option.splits)
  also have "\<dots> = jl_encode J (AArr (map AStr (tr_output (leg (?n - 1)) # replicate (?n - 1) [])))"
  proof -
    have "last (map leg [0..<?n]) = leg (?n - 1)" using assms(3) by (simp add: last_map)
    moreover have "\<forall>r\<in>set (map leg [0..<?n]). tr_idx r = 0" by (simp add: leg_def leg_idx)
    moreover have "tl (replicate ?n []) = replicate (?n - 1) ([] :: string)" by (cases paths) simp_all
    ultimately have "fold (\<lambda>r outs. outs[tr_idx r := tr_output r]) (map leg [0..<?n]) (replicate ?n [])
        = tr_output (leg (?n - 1)) # replicate (?n - 1) []"
      using assms(3) fold_update_same[of "map leg [0..<?n]" "replicate ?n []"] by simp
    then show ?thesis unfolding res by (simp add: aggregateTaskOutputs_def)
  qed
  finally show ?thesis by simp
qed

text \<open>Three paths, each leg reporting its own path; a list is encoded with commas.\<close>

definition listJson :: jsonLib where
  "listJson = \<lparr>jl_decode = (\<lambda>s. None), jl_valid = (\<lambda>s. False),
     jl_encode = (\<lambda>v. case v of AArr xs \<Rightarrow> concat (map (\<lambda>x. case x of AStr t \<Rightarrow> t @ '','' | _ \<Rightarrow> []) xs) | _ \<Rightarrow> [])\<rparr>"

definition echoPath :: "Step \<Rightarrow> substContext \<Rightarrow> stepResult" where
  "echoPath st sc = \<lparr>sr_Output = sb_scatterPath sc, sr_Logs = [], sr_MemoryUsedMB = None,
     sr_MemoryLimitMB = None, sr_err = None\<rparr>"

definition demoScatter :: ScatterConfig where
  "demoScatter = \<lparr>sca_Volume = [], sca_MountPath = [], sca_Regex = [], sca_Mode = [], sca_MaxDepth = 0,
     sca_PathsFrom = ''a, b c'', sca_Outputs = [], sca_ShareBase = False, sca_SizeMB = 0, sca_Medium = [],
     sca_MaxConcurrent = 0\<rparr>"

definition demoInfo :: runInfo where
  "demoInfo = \<lparr>ri_inputs = [], ri_visible = [], ri_runID = ''r'', ri_workflowID = ''w'', ri_depth = 0\<rparr>"

lemma scatter_outputs_collapse_witness:
  "runScatterGroup listJson echoPath (\<lambda>i. False) False demoInfo (plain_step ''s'') demoScatter 0
     = (''c,,,'', StatusCompleted, None)"
proof -
  have paths: "scatterPaths listJson echoPath demoInfo demoScatter = Inr (demoScatter, [''a'', ''b'', ''c''])"
    by code_simp
  have "snd (runScatterGroup listJson echoPath (\<lambda>i. False) False demoInfo (plain_step ''s'') demoScatter 0)
      = (StatusCompleted, None)"
    by code_simp
  then obtain out where out: "runScatterGroup listJson echoPath (\<lambda>i. False) False demoInfo
      (plain_step ''s'') demoScatter 0 = (out, StatusCompleted, None)"
    by (metis prod.collapse)
  from scatter_outputs_collapse[OF paths out] have "out = ''c,,,''"
    by (simp add: listJson_def runScatterLeg_def echoPath_def legContext_def zeroResult_def demoScatter_def
        numeral_2_eq_2)
  with out show ?thesis by simp
qed

section \<open>Tolerances and limits\<close>

text \<open>
  The tolerance of a map is the floor of the percentage: with \<open>t\<close> failures tolerated out of
  \<open>n\<close> values, \<open>t\<close> is the largest number with \<open>100 * t \<le> percent * n\<close>, never more than \<open>n\<close>; it is
  all of them at 100 percent and none at 0.
\<close>

lemma tolerance_bounds:
  assumes "0 \<le> md_FailureTolerance d" "md_FailureTolerance d \<le> 100" "0 \<le> n"
  shows "0 \<le> maxToleratedFailures d n \<and> maxToleratedFailures d n \<le> n
    \<and> 100 * maxToleratedFailures d n \<le> md_FailureTolerance d * n
    \<and> md_FailureTolerance d * n < 100 * (maxToleratedFailures d n + 1)"
proof -
  let ?p = "md_FailureTolerance d"
  have b: "?p * n \<le> 100 * n" using assms by (intro mult_right_mono) auto
  show ?thesis
  proof (cases "?p = 0 \<or> ?p = 100")
    case True
    then show ?thesis using assms(3) by (auto simp: maxToleratedFailures_def)
  next
    case False
    then have q: "maxToleratedFailures d n = ?p * n div 100" using assms by (simp add: maxToleratedFailures_def)
    have nonneg: "0 \<le> ?p * n" using assms by simp
    have floor: "0 \<le> x div 100 \<and> 100 * (x div 100) \<le> x \<and> x < 100 * (x div 100 + 1)" if "0 \<le> x" for x :: int
      using that by presburger
    from floor[OF nonneg] b show ?thesis unfolding q by linarith
  qed
qed

definition demoMapDef :: "int \<Rightarrow> MapDef" where
  "demoMapDef p = \<lparr>md_ID = ''m'', md_Var = ''v'', md_Values = [], md_ValuesFrom = ''a b'', md_MaxConcurrent = 0,
     md_Sequential = False, md_FailureTolerance = p, md_AllowEmpty = False, md_Volume = [],
     md_MountPath = [], md_SizeMB = 0, md_Medium = [], md_Outputs = []\<rparr>"

section \<open>Mounts of a leg\<close>

text \<open>Where a volume of a step's configuration is mounted, and whether it is the work directory.\<close>

definition mountAt :: "gany \<Rightarrow> string" where
  "mountAt v = (case v of AObj m \<Rightarrow> getStr m ''mount_path'' | _ \<Rightarrow> [])"

definition isWorkdir :: "gany \<Rightarrow> bool" where
  "isWorkdir v = (case v of AObj m \<Rightarrow> map_of m ''workdir'' \<noteq> None | _ \<Rightarrow> False)"

lemma map_of_filter_key:
  "k \<noteq> x \<Longrightarrow> map_of (filter (\<lambda>kv. fst kv \<noteq> x) m) k = map_of m k"
  "map_of (filter (\<lambda>kv. fst kv \<noteq> x) m) x = None"
  by (induction m) auto

lemma legExtra_props:
  "v \<in> set (legExtra c u) \<Longrightarrow> mountAt v \<noteq> scatterMount c \<and> mountAt v \<noteq> [] \<and> \<not> isWorkdir v"
  by (cases u) (auto simp: legExtra_def mountAt_def isWorkdir_def getStr_def map_of_filter_key split: if_splits)

text \<open>
  the volumes of a scatter leg.  The workspace comes first, is the only work directory and
  the only mount at its path; every other volume the step declared there, or without a
  path, or naming the base volume, is dropped.
\<close>
theorem leg_volumes_exclusive:
  "\<exists>ws extras. scatterLegVolumes w c runID shard = ws # extras
     \<and> mountAt ws = scatterMount c \<and> isWorkdir ws
     \<and> (\<forall>v\<in>set extras. mountAt v \<noteq> scatterMount c \<and> mountAt v \<noteq> [] \<and> \<not> isWorkdir v)"
proof (intro exI conjI)
  let ?ws = "AObj (if sca_ShareBase c then volMount runID (baseVolume c) (scatterMount c) True True
                   else volMount runID shard (scatterMount c) True False)"
  show "scatterLegVolumes w c runID shard = ?ws # concat (map (legExtra c) (getArr w ''volumes''))"
    by (simp add: scatterLegVolumes_def)
  show "mountAt ?ws = scatterMount c" "isWorkdir ?ws"
    by (simp_all add: mountAt_def isWorkdir_def volMount_def getStr_def)
  show "\<forall>v\<in>set (concat (map (legExtra c) (getArr w ''volumes''))).
      mountAt v \<noteq> scatterMount c \<and> mountAt v \<noteq> [] \<and> \<not> isWorkdir v"
    using legExtra_props by fastforce
qed

lemma leg_volumes_exclusive_witness:
  "\<exists>ws extras. scatterLegVolumes [(''volumes'', AArr [AObj [(''name'', AStr ''cache''), (''mount_path'', AStr ''/c''),
        (''workdir'', ABool True)]])] demoScatter ''r'' ''s'' = ws # extras
     \<and> isWorkdir ws \<and> length extras = 1 \<and> (\<forall>v\<in>set extras. \<not> isWorkdir v)"
proof -
  let ?w = "[(''volumes'', AArr [AObj [(''name'', AStr ''cache''), (''mount_path'', AStr ''/c''), (''workdir'', ABool True)]])]"
  obtain ws extras where e: "scatterLegVolumes ?w demoScatter ''r'' ''s'' = ws # extras" "isWorkdir ws"
      "\<forall>v\<in>set extras. \<not> isWorkdir v"
    using leg_volumes_exclusive[of ?w demoScatter "''r''" "''s''"] by blast
  have "length (scatterLegVolumes ?w demoScatter ''r'' ''s'') = 2" by code_simp
  with e show ?thesis by auto
qed

end
