(* ===== verification/Wf_MapLoopTheorems.thy ===== *)
theory Wf_MapLoopTheorems
  imports Wf_MapLoop Wf_FanoutTheorems
begin

text \<open>
  What the two super-nodes promise: the bound on concurrent iterations, the verdict of a map
  region against its failure tolerance, that it always finishes, and the exact number of
  attempts a loop makes.
\<close>

section \<open>Counting iterations\<close>

lemma length_filter_update:
  "i < length xs \<Longrightarrow>
     length (filter P (xs[i := y])) + (if P (xs ! i) then 1 else 0)
       = length (filter P xs) + (if P y then 1 else 0)"
proof (induction xs arbitrary: i)
  case (Cons x xs)
  show ?case
  proof (cases i)
    case (Suc k)
    then show ?thesis using Cons.IH[of k] Cons.prems by simp
  qed simp
qed simp

definition failedCount :: "mapRun \<Rightarrow> nat" where
  "failedCount s = length (filter (\<lambda>x. finishedWith x = Some StatusFailed) (mp_iters s))"

definition allFinished :: "mapRun \<Rightarrow> bool" where
  "allFinished s \<longleftrightarrow> (\<forall>x\<in>set (mp_iters s). finishedWith x \<noteq> None)"

lemma mapConcurrency_range: "1 \<le> mapConcurrency d \<and> mapConcurrency d \<le> 10"
  by (auto simp: mapConcurrency_def maxParallelSteps_def defaultFanoutConcurrency_def)

section \<open>The invariant of a region\<close>

definition mapInv :: "MapDef \<Rightarrow> int \<Rightarrow> nat \<Rightarrow> mapRun \<Rightarrow> bool" where
  "mapInv d maxFail n s \<longleftrightarrow>
     length (mp_iters s) = n \<and> int (running s) \<le> mapConcurrency d \<and> mp_failed s = failedCount s
     \<and> mp_tripped s = (int (failedCount s) > maxFail)
     \<and> (\<forall>x\<in>set (mp_iters s). finishedWith x \<noteq> Some StatusPaused)"

lemma count_init: "running (initMapRun n) = 0" "failedCount (initMapRun n) = 0"
  by (simp_all add: running_def failedCount_def initMapRun_def filter_replicate)

lemma mapInv_init: "0 \<le> maxFail \<Longrightarrow> mapInv d maxFail n (initMapRun n)"
  using mapConcurrency_range[of d] by (simp add: mapInv_def count_init) (simp add: initMapRun_def)

lemma mapInv_update:
  assumes inv: "mapInv d maxFail n s" and i: "i < length (mp_iters s)" and y: "finishedWith y \<noteq> Some StatusPaused"
    and run: "int (running (s\<lparr>mp_iters := (mp_iters s)[i := y]\<rparr>)) \<le> mapConcurrency d"
    and old: "finishedWith (mp_iters s ! i) = None" and new: "finishedWith y \<noteq> Some StatusFailed"
  shows "mapInv d maxFail n (s\<lparr>mp_iters := (mp_iters s)[i := y]\<rparr>)"
proof -
  have "failedCount (s\<lparr>mp_iters := (mp_iters s)[i := y]\<rparr>) = failedCount s"
    using length_filter_update[OF i, of "\<lambda>x. finishedWith x = Some StatusFailed" y] old new
    by (simp add: failedCount_def)
  moreover have "\<forall>x\<in>set ((mp_iters s)[i := y]). finishedWith x \<noteq> Some StatusPaused"
    using inv y set_update_subset_insert[of "mp_iters s" i y] unfolding mapInv_def by blast
  ultimately show ?thesis using inv run by (simp add: mapInv_def)
qed

lemma running_update:
  "i < length (mp_iters s) \<Longrightarrow> running (s\<lparr>mp_iters := (mp_iters s)[i := y]\<rparr>) + (if mp_iters s ! i = Running then 1 else 0)
     = running s + (if y = Running then 1 else 0)"
  using length_filter_update[of i "mp_iters s" "\<lambda>x. x = Running" y] by (simp add: running_def)

lemma mapInv_finish:
  assumes inv: "mapInv d maxFail n s" and i: "i < length (mp_iters s)" and old: "mp_iters s ! i = Running"
    and st: "st \<noteq> StatusPaused"
  shows "mapInv d maxFail n (finishIter maxFail i st outs s)"
proof (cases "st = StatusFailed")
  case False
  then show ?thesis
    using mapInv_update[OF inv i, of "Finished st outs"] running_update[OF i, of "Finished st outs"] inv old st
    by (simp add: finishIter_def Let_def mapInv_def)
next
  case True
  let ?xs = "(mp_iters s)[i := Finished st outs]"
  have "length (filter (\<lambda>x. finishedWith x = Some StatusFailed) ?xs) = failedCount s + 1"
    using length_filter_update[OF i, of "\<lambda>x. finishedWith x = Some StatusFailed" "Finished st outs"] old True
    by (simp add: failedCount_def)
  moreover have "length (filter (\<lambda>x. x = Running) ?xs) + 1 = running s"
    using length_filter_update[OF i, of "\<lambda>x. x = Running" "Finished st outs"] old by (simp add: running_def)
  moreover have "\<forall>x\<in>set ?xs. finishedWith x \<noteq> Some StatusPaused"
    using inv st set_update_subset_insert[of "mp_iters s" i "Finished st outs"] unfolding mapInv_def by auto
  ultimately show ?thesis
    using inv True by (auto simp: finishIter_def mapInv_def failedCount_def running_def Let_def)
qed

lemma mapInv_step:
  assumes inv: "mapInv d maxFail n s" and s: "map_step d maxFail s s'"
  shows "mapInv d maxFail n s'"
  using s
proof (cases rule: map_step.cases)
  case (start i)
  then show ?thesis
    using mapInv_update[OF inv start(2), of Running] running_update[OF start(2), of Running] inv
    by (simp add: startIter_def)
next
  case (drop i)
  then show ?thesis
    using mapInv_update[OF inv drop(2), of "Finished StatusCancelled Map.empty"]
      running_update[OF drop(2), of "Finished StatusCancelled Map.empty"] inv
    by (simp add: dropIter_def mapInv_def)
next
  case (finish i st outs)
  then show ?thesis using mapInv_finish[OF inv] by blast
next
  case cancel
  then show ?thesis using inv by (simp add: mapInv_def running_def failedCount_def)
qed

text \<open>How an iteration can have moved on; once the region is cancelled nothing is started any more.\<close>

definition iterLe :: "bool \<Rightarrow> iterState \<Rightarrow> iterState \<Rightarrow> bool" where
  "iterLe cancelled x y \<longleftrightarrow>
     y = x \<or> (x = Running \<and> finishedWith y \<noteq> None)
     \<or> (x = Waiting \<and> (cancelled \<longrightarrow> y = Finished StatusCancelled Map.empty))"

definition mapLe :: "mapRun \<Rightarrow> mapRun \<Rightarrow> bool" where
  "mapLe s s' \<longleftrightarrow>
     length (mp_iters s') = length (mp_iters s) \<and> (mapCancelled s \<longrightarrow> mapCancelled s')
     \<and> (\<forall>i<length (mp_iters s). iterLe (mapCancelled s) (mp_iters s ! i) (mp_iters s' ! i))"

lemma iterLe_trans:
  "iterLe c x y \<Longrightarrow> iterLe c' y z \<Longrightarrow> (c \<longrightarrow> c') \<Longrightarrow> iterLe c x z"
  by (cases x; cases y; cases z) (auto simp: iterLe_def)

lemma mapLe_refl: "mapLe s s"
  by (simp add: mapLe_def iterLe_def)

lemma mapLe_trans: "mapLe a b \<Longrightarrow> mapLe b c \<Longrightarrow> mapLe a c"
  unfolding mapLe_def by (metis iterLe_trans)

lemma mapLe_update:
  assumes "i < length (mp_iters s)" "mp_iters s' = (mp_iters s)[i := y]" "mapCancelled s \<longrightarrow> mapCancelled s'"
    and "iterLe (mapCancelled s) (mp_iters s ! i) y"
  shows "mapLe s s'"
  using assms by (auto simp: mapLe_def nth_list_update iterLe_def)

lemma mapLe_step:
  assumes "map_step d maxFail s s'" shows "mapLe s s'"
  using assms
proof (cases rule: map_step.cases)
  case (start i)
  then show ?thesis by (intro mapLe_update[of i]) (auto simp: startIter_def iterLe_def mapCancelled_def)
next
  case (drop i)
  then show ?thesis by (intro mapLe_update[of i]) (auto simp: dropIter_def iterLe_def mapCancelled_def)
next
  case (finish i st outs)
  then show ?thesis
    by (intro mapLe_update[of i _ _ "Finished st outs"]) (auto simp: finishIter_def iterLe_def mapCancelled_def Let_def)
next
  case cancel
  then show ?thesis by (simp add: mapLe_def iterLe_def mapCancelled_def)
qed

interpretation mapr: forward_system "\<lambda>s. 0 \<le> maxFail \<and> s = initMapRun n" "map_step d maxFail"
  "mapInv d maxFail n" mapLe for d maxFail n
  by unfold_locales (use mapInv_init mapInv_step mapLe_refl mapLe_trans mapLe_step in blast)+

definition mapMeasure :: "mapRun \<Rightarrow> nat" where
  "mapMeasure s = 2 * length (filter (\<lambda>x. x = Waiting) (mp_iters s)) + running s + (if mp_outer s then 0 else 1)"

lemma mapMeasure_step:
  assumes "map_step d maxFail s s'" shows "mapMeasure s' < mapMeasure s"
  using assms
proof (cases rule: map_step.cases)
  case (start i)
  then show ?thesis
    using length_filter_update[OF start(2), of "\<lambda>x. x = Waiting" Running] running_update[OF start(2), of Running]
    by (simp add: startIter_def mapMeasure_def)
next
  case (drop i)
  then show ?thesis
    using length_filter_update[OF drop(2), of "\<lambda>x. x = Waiting" "Finished StatusCancelled Map.empty"]
      running_update[OF drop(2), of "Finished StatusCancelled Map.empty"]
    by (simp add: dropIter_def mapMeasure_def)
next
  case (finish i st outs)
  then show ?thesis
    using length_filter_update[OF finish(2), of "\<lambda>x. x = Waiting" "Finished st outs"]
      running_update[OF finish(2), of "Finished st outs"]
    by (cases "st = StatusFailed") (simp_all add: finishIter_def mapMeasure_def running_def Let_def)
next
  case cancel
  then show ?thesis by (simp add: mapMeasure_def running_def)
qed

interpretation maprb: bounded_system "\<lambda>s. 0 \<le> maxFail \<and> s = initMapRun n" "map_step d maxFail"
  "mapInv d maxFail n" mapMeasure for d maxFail n
  by unfold_locales (use mapMeasure_step in blast)

lemma map_progress:
  assumes inv: "mapInv d maxFail n s" and "\<not> allFinished s"
  shows "\<exists>s'. map_step d maxFail s s' \<and> mp_outer s' = mp_outer s"
proof -
  from assms(2) obtain i where i: "i < length (mp_iters s)" "finishedWith (mp_iters s ! i) = None"
    by (metis allFinished_def in_set_conv_nth)
  have fin: ?thesis if "j < length (mp_iters s)" "mp_iters s ! j = Running" for j
    using map_step.finish[OF that, of StatusCompleted d maxFail Map.empty] by (auto simp: finishIter_def Let_def)
  show ?thesis
  proof (cases "mp_iters s ! i")
    case Running
    then show ?thesis using fin i by blast
  next
    case Waiting
    show ?thesis
    proof (cases "mapCancelled s")
      case True
      then show ?thesis using map_step.drop[OF i(1) Waiting, of d maxFail] by (auto simp: dropIter_def)
    next
      case False
      show ?thesis
      proof (cases "int (running s) < mapConcurrency d")
        case True
        have "map_step d maxFail s (startIter i s)" by (rule map_step.start[OF i(1) Waiting False True])
        moreover have "mp_outer (startIter i s) = mp_outer s" by (simp add: startIter_def)
        ultimately show ?thesis by blast
      next
        case full: False
        then have "filter (\<lambda>x. x = Running) (mp_iters s) \<noteq> []"
          using mapConcurrency_range[of d] by (auto simp: running_def)
        then obtain j where "j < length (mp_iters s)" "mp_iters s ! j = Running"
          by (metis (mono_tags, lifting) filter_False in_set_conv_nth)
        then show ?thesis using fin by blast
      qed
    qed
  qed (use i in simp)
qed


section \<open>What a map region promises\<close>

text \<open>Running the events of a concrete schedule.\<close>

datatype mapEvent = EvStart nat | EvDrop nat | EvFinish nat runStatus "string \<rightharpoonup> string" | EvOuter

fun mapEvents :: "MapDef \<Rightarrow> int \<Rightarrow> mapEvent list \<Rightarrow> mapRun \<Rightarrow> mapRun option" where
  "mapEvents d maxFail [] s = Some s"
| "mapEvents d maxFail (EvStart i # es) s =
     (if i < length (mp_iters s) \<and> mp_iters s ! i = Waiting \<and> \<not> mapCancelled s \<and> int (running s) < mapConcurrency d
      then mapEvents d maxFail es (startIter i s) else None)"
| "mapEvents d maxFail (EvDrop i # es) s =
     (if i < length (mp_iters s) \<and> mp_iters s ! i = Waiting \<and> mapCancelled s
      then mapEvents d maxFail es (dropIter i s) else None)"
| "mapEvents d maxFail (EvFinish i st outs # es) s =
     (if i < length (mp_iters s) \<and> mp_iters s ! i = Running \<and> st \<noteq> StatusPaused
      then mapEvents d maxFail es (finishIter maxFail i st outs s) else None)"
| "mapEvents d maxFail (EvOuter # es) s =
     (if \<not> mp_outer s then mapEvents d maxFail es (s\<lparr>mp_outer := True\<rparr>) else None)"

lemma mapEvents_steps: "mapEvents d maxFail es s = Some s' \<Longrightarrow> (map_step d maxFail)\<^sup>*\<^sup>* s s'"
  by (induction d maxFail es s rule: mapEvents.induct)
    (auto split: if_splits intro: map_step.intros converse_rtranclp_into_rtranclp)

definition regionRuns :: "MapDef \<Rightarrow> nat \<Rightarrow> mapRun \<Rightarrow> bool" where
  "regionRuns d n s \<longleftrightarrow> (map_step d (maxToleratedFailures d (int n)))\<^sup>*\<^sup>* (initMapRun n) s"

lemma maxToleratedFailures_nonneg: "0 \<le> maxToleratedFailures d (int n)"
  by (simp add: maxToleratedFailures_def pos_imp_zdiv_nonneg_iff)

declare worstStatus.simps [simp del]

lemma regionRuns_inv:
  assumes "regionRuns d n s"
  shows "mapInv d (maxToleratedFailures d (int n)) n s"
  by (rule mapr.reachable_inv[where maxFail = "maxToleratedFailures d (int n)"])
    (use assms maxToleratedFailures_nonneg in \<open>auto simp: regionRuns_def\<close>)

lemma worst_fold:
  "fold (\<lambda>st acc. worstStatus acc st) sts a =
     (if sts = [] then a
      else if a = StatusFailed \<or> StatusFailed \<in> set sts then StatusFailed
      else if a = StatusCancelled \<or> StatusCancelled \<in> set sts then StatusCancelled else StatusCompleted)"
  by (induction sts arbitrary: a) (auto simp: worstStatus.simps)

text \<open>
  C11: the concurrency of a map region.  However its iterations are scheduled, at most
  \<open>mapConcurrency\<close> of them run at a time, which is at most ten and exactly one for a sequential
  map; and once the region is cancelled, by the run or by its tolerance, an iteration that was
  still waiting is never started any more.
\<close>

theorem map_concurrency_bound:
  assumes "regionRuns d n s" "(map_step d (maxToleratedFailures d (int n)))\<^sup>*\<^sup>* s s'"
  shows "int (running s) \<le> mapConcurrency d \<and> mapConcurrency d \<le> 10
    \<and> (md_Sequential d \<longrightarrow> running s \<le> 1)
    \<and> (mapCancelled s \<longrightarrow> (\<forall>i<n. mp_iters s ! i = Waiting
          \<longrightarrow> mp_iters s' ! i \<in> {Waiting, Finished StatusCancelled Map.empty}))"
proof -
  have inv: "mapInv d (maxToleratedFailures d (int n)) n s" by (rule regionRuns_inv[OF assms(1)])
  then have "int (running s) \<le> mapConcurrency d" "length (mp_iters s) = n" by (simp_all add: mapInv_def)
  moreover have "mapLe s s'" by (rule mapr.steps_le[OF assms(2) inv])
  ultimately show ?thesis
    using mapConcurrency_range[of d] by (auto simp: mapLe_def iterLe_def mapConcurrency_def)
qed

definition seqMap :: "int \<Rightarrow> MapDef" where
  "seqMap p = (demoMapDef p)\<lparr>md_Sequential := True\<rparr>"

lemma map_concurrency_bound_witness:
  "\<exists>s s'. regionRuns (seqMap 0) 2 s \<and> running s \<le> 1 \<and> mapCancelled s'
     \<and> mp_iters s' ! 1 \<in> {Waiting, Finished StatusCancelled Map.empty}"
proof -
  let ?n = "maxToleratedFailures (seqMap 0) (int 2)"
  obtain s where s: "mapEvents (seqMap 0) ?n [EvStart 0] (initMapRun 2) = Some s"
    by (simp add: initMapRun_def mapCancelled_def running_def mapConcurrency_def seqMap_def numeral_2_eq_2)
  obtain t where t: "mapEvents (seqMap 0) ?n [EvStart 0, EvFinish 0 StatusFailed Map.empty] (initMapRun 2) = Some t"
      "mapCancelled t" "mp_iters t ! 1 = Waiting"
    by (simp add: initMapRun_def mapCancelled_def running_def mapConcurrency_def seqMap_def numeral_2_eq_2
        startIter_def finishIter_def maxToleratedFailures_def demoMapDef_def Let_def)
  have rs: "regionRuns (seqMap 0) 2 s" "regionRuns (seqMap 0) 2 t"
    using mapEvents_steps[OF s] mapEvents_steps[OF t(1)] by (simp_all add: regionRuns_def)
  have "running s \<le> 1"
    using map_concurrency_bound[OF rs(1) rtranclp.rtrancl_refl] by (simp add: seqMap_def)
  then show ?thesis using rs t by auto
qed

lemma finishedWith_iff:
  "finishedWith x \<noteq> None \<Longrightarrow> finishedWith x \<noteq> Some StatusPaused \<Longrightarrow>
     finishedWith x = Some StatusFailed \<or> finishedWith x = Some StatusCancelled \<or> finishedWith x = Some StatusCompleted"
  by (cases x) (auto intro: runStatus.exhaust)

lemma iterStatuses_in: "st \<in> set (iterStatuses s) \<longleftrightarrow> (\<exists>x\<in>set (mp_iters s). finishedWith x = Some st)"
  by (force simp: iterStatuses_def List.map_filter_def image_iff)

lemma tolerance_rule:
  assumes "0 \<le> md_FailureTolerance d" "md_FailureTolerance d \<le> 100"
  shows "int k > maxToleratedFailures d (int n) \<longleftrightarrow> md_FailureTolerance d * int n < 100 * int k"
proof -
  have t: "100 * maxToleratedFailures d (int n) \<le> md_FailureTolerance d * int n"
    "md_FailureTolerance d * int n < 100 * (maxToleratedFailures d (int n) + 1)"
    using tolerance_bounds[OF assms, of "int n"] by simp_all
  have up: "x < 100 * b" if "x < 100 * (a + 1)" "a < b" for a b x :: int
  proof -
    have "100 * (a + 1) \<le> 100 * b" using that(2) by simp
    with that(1) show ?thesis by (rule less_le_trans)
  qed
  have down: "a < b" if "100 * a \<le> x" "x < 100 * b" for a b x :: int
    using le_less_trans[OF that] by simp
  show ?thesis using up[OF t(2)] down[OF t(1)] by blast
qed

text \<open>
  C10: the verdict of a map region.  When all its iterations are terminal and the run was not
  cancelled, the region failed exactly when more than the tolerated percentage of its values
  failed, and is completed otherwise, in whatever order the iterations finished and whatever
  was cancelled in between.  When the run was cancelled, the region is completed only if every
  single iteration completed.
\<close>

theorem map_verdict:
  assumes "0 \<le> md_FailureTolerance d" "md_FailureTolerance d \<le> 100"
    and "regionRuns d n s" "allFinished s"
  shows "(\<not> mp_outer s \<longrightarrow>
      regionStatus s = (if md_FailureTolerance d * int n < 100 * int (failedCount s) then StatusFailed else StatusCompleted))
    \<and> (mp_outer s \<longrightarrow>
      (regionStatus s = StatusCompleted) = (\<forall>x\<in>set (mp_iters s). finishedWith x = Some StatusCompleted))"
proof -
  have inv: "mapInv d (maxToleratedFailures d (int n)) n s" by (rule regionRuns_inv[OF assms(3)])
  then have trip: "mp_tripped s = (md_FailureTolerance d * int n < 100 * int (failedCount s))"
    using tolerance_rule[OF assms(1,2)] by (simp add: mapInv_def)
  have each: "finishedWith x = Some StatusFailed \<or> finishedWith x = Some StatusCancelled
      \<or> finishedWith x = Some StatusCompleted" if "x \<in> set (mp_iters s)" for x
    using finishedWith_iff[of x] that inv assms(4) by (auto simp: mapInv_def allFinished_def)
  have "(regionStatus s = StatusCompleted) = (\<forall>x\<in>set (mp_iters s). finishedWith x = Some StatusCompleted)"
    if "mp_outer s"
  proof -
    have "regionStatus s = StatusCompleted \<longleftrightarrow>
        StatusFailed \<notin> set (iterStatuses s) \<and> StatusCancelled \<notin> set (iterStatuses s)"
      using that by (auto simp: regionStatus_def worst_fold)
    also have "\<dots> \<longleftrightarrow> (\<forall>x\<in>set (mp_iters s). finishedWith x = Some StatusCompleted)"
      unfolding iterStatuses_in using each by fastforce
    finally show ?thesis .
  qed
  moreover have "regionStatus s = StatusCompleted" if "\<not> mp_outer s" "\<not> mp_tripped s"
    using that by (simp add: regionStatus_def worst_fold)
  moreover have "regionStatus s = StatusFailed" if "\<not> mp_outer s" "mp_tripped s"
    using that by (simp add: regionStatus_def)
  ultimately show ?thesis using trip by auto
qed

lemma map_verdict_witness:
  "\<exists>s t. regionRuns (demoMapDef 50) 2 s \<and> regionStatus s = StatusCompleted
     \<and> regionRuns (seqMap 49) 2 t \<and> regionStatus t = StatusFailed"
proof -
  let ?f = "Map.empty :: string \<rightharpoonup> string"
  let ?n = "maxToleratedFailures (demoMapDef 50) (int 2)" and ?m = "maxToleratedFailures (seqMap 49) (int 2)"
  obtain s where s: "mapEvents (demoMapDef 50) ?n
      [EvStart 0, EvStart 1, EvFinish 0 StatusFailed ?f, EvFinish 1 StatusCompleted ?f] (initMapRun 2) = Some s"
      "allFinished s" "\<not> mp_outer s" "failedCount s = 1"
    by (simp add: initMapRun_def mapCancelled_def running_def mapConcurrency_def numeral_2_eq_2 allFinished_def
        startIter_def finishIter_def maxToleratedFailures_def demoMapDef_def Let_def failedCount_def
        defaultFanoutConcurrency_def)
  obtain t where t: "mapEvents (seqMap 49) ?m
      [EvStart 0, EvFinish 0 StatusFailed ?f, EvDrop 1] (initMapRun 2) = Some t"
      "allFinished t" "\<not> mp_outer t" "failedCount t = 1"
    by (simp add: initMapRun_def mapCancelled_def running_def mapConcurrency_def numeral_2_eq_2 allFinished_def
        startIter_def finishIter_def dropIter_def maxToleratedFailures_def demoMapDef_def Let_def failedCount_def
        seqMap_def)
  have rs: "regionRuns (demoMapDef 50) 2 s" "regionRuns (seqMap 49) 2 t"
    using mapEvents_steps[OF s(1)] mapEvents_steps[OF t(1)] by (simp_all add: regionRuns_def)
  have "regionStatus s = StatusCompleted"
    using map_verdict[OF _ _ rs(1) s(2)] s by (simp add: demoMapDef_def)
  moreover have "regionStatus t = StatusFailed"
    using map_verdict[OF _ _ rs(2) t(2)] t by (simp add: demoMapDef_def seqMap_def)
  ultimately show ?thesis using rs by blast
qed

text \<open>
  C12: a map region always finishes.  No schedule of its iterations is longer than \<open>2 n + 1\<close>
  steps, and a state in which no goroutine can move has all iterations terminal: the semaphore,
  the cancellation and the tolerance never leave one waiting for ever.
\<close>

theorem map_region_finishes:
  assumes "(map_step d (maxToleratedFailures d (int n)) ^^ k) (initMapRun n) s"
  shows "k \<le> 2 * n + 1
    \<and> (allFinished s \<or> (\<exists>s'. map_step d (maxToleratedFailures d (int n)) s s' \<and> mp_outer s' = mp_outer s))"
proof -
  let ?m = "maxToleratedFailures d (int n)"
  have init: "mapInv d ?m n (initMapRun n)" by (rule mapInv_init[OF maxToleratedFailures_nonneg])
  have "k + mapMeasure s \<le> mapMeasure (initMapRun n)" by (rule maprb.steps_bounded[OF assms init])
  moreover have "mapMeasure (initMapRun n) = 2 * n + 1"
    by (simp add: mapMeasure_def count_init) (simp add: initMapRun_def filter_replicate)
  moreover have "mapInv d ?m n s"
    using mapr.steps_inv[OF relpowp_imp_rtranclp[OF assms] init] .
  ultimately show ?thesis using map_progress[of d ?m n s] by (intro conjI) (linarith, blast)
qed

lemma map_region_finishes_witness:
  "\<exists>s. (map_step (seqMap 0) 0 ^^ 1) (initMapRun 1) s
     \<and> (allFinished s \<or> (\<exists>s'. map_step (seqMap 0) 0 s s' \<and> mp_outer s' = mp_outer s))"
proof -
  have tol: "maxToleratedFailures (seqMap 0) (int 1) = 0"
    by (simp add: maxToleratedFailures_def seqMap_def demoMapDef_def)
  have "map_step (seqMap 0) 0 (initMapRun 1) (startIter 0 (initMapRun 1))"
    by (rule map_step.start) (simp_all add: initMapRun_def mapCancelled_def running_def mapConcurrency_def seqMap_def)
  then have "(map_step (seqMap 0) (maxToleratedFailures (seqMap 0) (int 1)) ^^ 1) (initMapRun 1)
      (startIter 0 (initMapRun 1))" unfolding tol relpowp_1 .
  from map_region_finishes[OF this] this show ?thesis unfolding tol by blast
qed


section \<open>What a loop promises\<close>

text \<open>The verdict of the exit condition after attempt \<open>i\<close>, and the outputs of that attempt.\<close>

definition exitAt ::
  "'p runCtx \<Rightarrow> loopRegion \<Rightarrow> 'p option \<Rightarrow> iterCtx \<Rightarrow> (nat \<Rightarrow> iterCtx \<Rightarrow> runState \<times> runStatus) \<Rightarrow> nat
   \<Rightarrow> string + bool" where
  "exitAt C loop prog pic body i =
     (let st = fst (body i (loopIterCtx pic (lr_def loop) (i + 1)))
      in evalWhen (rc_engine C) prog
           (buildExprEnv (rc_engine C) (rc_inputs C) (rc_runID C) (rs_nodes st) (rs_outputs st)))"

definition attemptOut :: "loopRegion \<Rightarrow> iterCtx \<Rightarrow> (nat \<Rightarrow> iterCtx \<Rightarrow> runState \<times> runStatus) \<Rightarrow> nat \<Rightarrow> (string \<rightharpoonup> string)" where
  "attemptOut loop pic body i = rs_outputs (fst (body i (loopIterCtx pic (lr_def loop) (i + 1))))"

definition attemptStatus :: "loopRegion \<Rightarrow> iterCtx \<Rightarrow> (nat \<Rightarrow> iterCtx \<Rightarrow> runState \<times> runStatus) \<Rightarrow> nat \<Rightarrow> runStatus" where
  "attemptStatus loop pic body i = snd (body i (loopIterCtx pic (lr_def loop) (i + 1)))"

lemma loopLimit_range: "1 \<le> loopLimit d \<and> loopLimit d \<le> 50 \<and> int (loopLimit d) \<le> max 1 (ld_Limit d)"
  by (auto simp: loopLimit_def loopHardMax_def)

lemma loopAttempts_unfold:
  "loopAttempts C loop prog pic body cancelled i prev status =
     (if loopLimit (lr_def loop) \<le> i then
        (if ld_Until (lr_def loop) \<noteq> [] then loopResult loop prev StatusFailed i (LoopExhausted i (ld_Until (lr_def loop)))
         else loopResult loop prev status i LoopNoNote)
      else if cancelled i then loopResult loop prev StatusCancelled i LoopNoNote
      else if attemptStatus loop pic body i = StatusPaused
           then loopResult loop (attemptOut loop pic body i) StatusFailed (i + 1) LoopNoNote
      else if ld_Until (lr_def loop) = [] then
        loopAttempts C loop prog pic body cancelled (i + 1) (attemptOut loop pic body i)
          (worstStatus status (attemptStatus loop pic body i))
      else (case exitAt C loop prog pic body i of
              Inl err \<Rightarrow> loopResult loop (attemptOut loop pic body i) StatusFailed (i + 1) (LoopEvalError err)
            | Inr True \<Rightarrow> loopResult loop (attemptOut loop pic body i) StatusCompleted (i + 1) LoopNoNote
            | Inr False \<Rightarrow> loopAttempts C loop prog pic body cancelled (i + 1) (attemptOut loop pic body i) status))"
  by (subst loopAttempts.simps)
    (simp add: Let_def attemptStatus_def attemptOut_def exitAt_def split: prod.split sum.split bool.split)

lemma loopAttempts_sound:
  assumes "ld_Until (lr_def loop) \<noteq> []" "status = StatusFailed" "i \<le> loopLimit (lr_def loop)"
    and "res = loopAttempts C loop prog pic body cancelled i prev status"
  shows "i \<le> lo_iters res \<and> lo_iters res \<le> loopLimit (lr_def loop)
    \<and> (lo_status res = StatusCompleted \<longrightarrow>
        i < lo_iters res \<and> exitAt C loop prog pic body (lo_iters res - 1) = Inr True
        \<and> (\<forall>j. i \<le> j \<and> j < lo_iters res - 1 \<longrightarrow> exitAt C loop prog pic body j = Inr False)
        \<and> lo_outputs res = loopAgg loop (attemptOut loop pic body (lo_iters res - 1)))"
  using assms
proof (induction "loopLimit (lr_def loop) - i" arbitrary: i prev)
  case 0
  then show ?case by (subst (asm) loopAttempts_unfold) (simp add: loopResult_def)
next
  case (Suc k)
  let ?next = "loopAttempts C loop prog pic body cancelled (i + 1) (attemptOut loop pic body i) status"
  show ?case
  proof (cases "\<not> cancelled i \<and> attemptStatus loop pic body i \<noteq> StatusPaused \<and> exitAt C loop prog pic body i = Inr False")
    case False
    with Suc.hyps(2) Suc.prems show ?thesis
      by (subst (asm) loopAttempts_unfold) (auto simp: loopResult_def split: sum.splits bool.splits if_splits)
  next
    case True
    have res: "res = ?next"
      using Suc.hyps(2) Suc.prems True by (subst (asm) loopAttempts_unfold) simp
    have "Suc i \<le> j \<or> j = i" if "i \<le> j" for j using that by linarith
    moreover have "k = loopLimit (lr_def loop) - (i + 1)" "i + 1 \<le> loopLimit (lr_def loop)"
      using Suc.hyps(2) by simp_all
    ultimately show ?thesis
      using Suc.hyps(1)[of "i + 1" "attemptOut loop pic body i"] Suc.prems(1,2) res True by auto
  qed
qed

lemma loopAttempts_exhausted:
  assumes "ld_Until (lr_def loop) \<noteq> []" "i \<le> loopLimit (lr_def loop)"
    and "\<forall>j<loopLimit (lr_def loop). i \<le> j \<longrightarrow>
        \<not> cancelled j \<and> attemptStatus loop pic body j \<noteq> StatusPaused \<and> exitAt C loop prog pic body j = Inr False"
  shows "lo_status (loopAttempts C loop prog pic body cancelled i prev status) = StatusFailed
    \<and> lo_note (loopAttempts C loop prog pic body cancelled i prev status)
        = LoopExhausted (loopLimit (lr_def loop)) (ld_Until (lr_def loop))"
  using assms(2,3)
proof (induction "loopLimit (lr_def loop) - i" arbitrary: i prev)
  case 0
  then show ?case using assms(1) by (subst (1 2) loopAttempts_unfold) (simp add: loopResult_def)
next
  case (Suc k)
  then have "k = loopLimit (lr_def loop) - (i + 1)" "i + 1 \<le> loopLimit (lr_def loop)" "i < loopLimit (lr_def loop)"
    by simp_all
  moreover from this Suc.prems(2) have "\<not> cancelled i" "attemptStatus loop pic body i \<noteq> StatusPaused"
    "exitAt C loop prog pic body i = Inr False" by simp_all
  ultimately show ?case
    using Suc.hyps(1)[of "i + 1" "attemptOut loop pic body i"] Suc.prems(2) assms(1)
    by (subst (1 2) loopAttempts_unfold) simp
qed

text \<open>
  a loop with an exit condition converges or fails, within its bound.  It makes at most
  \<open>limit\<close> attempts, clamped to \<open>1..50\<close>; when it completes, its last attempt is the first one
  after which the condition held, and that attempt's outputs are the ones it publishes; and when
  no attempt satisfies the condition it fails, naming the number of attempts, however the body
  steps themselves fared.
\<close>

theorem loop_converges:
  assumes "ld_Until (lr_def loop) \<noteq> []" "compileWhen compile (ld_Until (lr_def loop)) = Inr prog"
    and "res = runLoopRegion compile C loop pic body cancelled"
  shows "lo_iters res \<le> loopLimit (lr_def loop) \<and> loopLimit (lr_def loop) \<le> 50
    \<and> (lo_status res = StatusCompleted \<longrightarrow>
        0 < lo_iters res \<and> exitAt C loop prog pic body (lo_iters res - 1) = Inr True
        \<and> (\<forall>j<lo_iters res - 1. exitAt C loop prog pic body j = Inr False)
        \<and> lo_outputs res = loopAgg loop (attemptOut loop pic body (lo_iters res - 1)))
    \<and> ((\<forall>j<loopLimit (lr_def loop). \<not> cancelled j \<and> attemptStatus loop pic body j \<noteq> StatusPaused
            \<and> exitAt C loop prog pic body j = Inr False)
        \<longrightarrow> lo_status res = StatusFailed
          \<and> lo_note res = LoopExhausted (loopLimit (lr_def loop)) (ld_Until (lr_def loop)))"
proof -
  have res: "res = loopAttempts C loop prog pic body cancelled 0 Map.empty StatusFailed"
    using assms by (simp add: runLoopRegion_def)
  show ?thesis
    using loopAttempts_sound[OF assms(1) refl le0 res] loopLimit_range[of "lr_def loop"]
      loopAttempts_exhausted[OF assms(1) le0, of cancelled pic body C prog Map.empty StatusFailed, folded res]
    by auto
qed

lemma loopAttempts_fixed:
  assumes "ld_Until (lr_def loop) = []" "i \<le> loopLimit (lr_def loop)"
    and "\<forall>j<loopLimit (lr_def loop). \<not> cancelled j \<and> attemptStatus loop pic body j \<noteq> StatusPaused"
  shows "lo_iters (loopAttempts C loop prog pic body cancelled i prev status) = loopLimit (lr_def loop)
    \<and> lo_status (loopAttempts C loop prog pic body cancelled i prev status)
       = fold (\<lambda>j acc. worstStatus acc (attemptStatus loop pic body j)) [i..<loopLimit (lr_def loop)] status"
  using assms(2)
proof (induction "loopLimit (lr_def loop) - i" arbitrary: i prev status)
  case 0
  then show ?case using assms(1) by (subst (1 2) loopAttempts_unfold) (simp add: loopResult_def)
next
  case (Suc k)
  then have "k = loopLimit (lr_def loop) - (i + 1)" "i + 1 \<le> loopLimit (lr_def loop)" "i < loopLimit (lr_def loop)"
    by simp_all
  then show ?case
    using Suc.hyps(1)[of "i + 1" "attemptOut loop pic body i" "worstStatus status (attemptStatus loop pic body i)"]
      assms by (subst (1 2) loopAttempts_unfold) (simp add: upt_rec[of i])
qed

text \<open>
  a loop without an exit condition is a fixed repetition: uncancelled, it runs its body
  exactly \<open>limit\<close> times and takes the worst status of its attempts, so one bad pass is never
  hidden by a later good one.
\<close>

theorem loop_fixed_repeat:
  assumes "ld_Until (lr_def loop) = []"
    and "\<forall>j<loopLimit (lr_def loop). \<not> cancelled j \<and> attemptStatus loop pic body j \<noteq> StatusPaused"
    and "res = runLoopRegion compile C loop pic body cancelled"
  shows "lo_iters res = loopLimit (lr_def loop)
    \<and> lo_status res =
       (if \<exists>j<loopLimit (lr_def loop). attemptStatus loop pic body j = StatusFailed then StatusFailed
        else if \<exists>j<loopLimit (lr_def loop). attemptStatus loop pic body j = StatusCancelled then StatusCancelled
        else StatusCompleted)"
proof -
  have res: "res = loopAttempts C loop None pic body cancelled 0 Map.empty StatusCompleted"
    using assms by (simp add: runLoopRegion_def compileWhen_def)
  have "fold (\<lambda>j acc. worstStatus acc (attemptStatus loop pic body j)) xs a
      = fold (\<lambda>st acc. worstStatus acc st) (map (attemptStatus loop pic body) xs) a" for xs a
    by (simp add: fold_map comp_def)
  moreover have "[0..<loopLimit (lr_def loop)] \<noteq> []" using loopLimit_range[of "lr_def loop"] by simp
  moreover have "st \<in> set (map (attemptStatus loop pic body) [0..<loopLimit (lr_def loop)])
      \<longleftrightarrow> (\<exists>j<loopLimit (lr_def loop). attemptStatus loop pic body j = st)" for st by auto
  ultimately show ?thesis
    using loopAttempts_fixed[OF assms(1) le0 assms(2), of C None Map.empty StatusCompleted, folded res]
    by (simp only: worst_fold list.map_disc_iff if_False simp_thms runStatus.distinct cong: if_cong)
qed

section \<open>Concrete loops\<close>

definition demoLoop :: "string \<Rightarrow> loopRegion" where
  "demoLoop until = \<lparr>lr_def = \<lparr>ld_ID = ''l'', ld_Limit = 3, ld_Until = until, ld_Var = ''k'', ld_Parent = []\<rparr>,
     lr_nodes = [''s''], lr_firstIndex = 0\<rparr>"

text \<open>A condition engine whose programs compare the run's output of step \<open>s\<close> with a text.\<close>

definition outputEngine :: "string condEngine" where
  "outputEngine = \<lparr>ce_run = (\<lambda>p env. Some (Inr (ABool
       (case ee_Steps env ''s'' of Some v \<Rightarrow> sv_Output v = p | None \<Rightarrow> False)))), ce_object = (\<lambda>s. None)\<rparr>"

definition loopCtx :: "string runCtx" where
  "loopCtx = \<lparr>rc_engine = outputEngine, rc_runID = ''r'', rc_inputs = Map.empty, rc_inbound = Map.empty\<rparr>"

definition topIter :: iterCtx where
  "topIter = \<lparr>ic_mapVars = [], ic_label = (\<lambda>b. b), ic_volume = None\<rparr>"

text \<open>A body whose step reports the number of the attempt, and failed in the first one.\<close>

definition countBody :: "nat \<Rightarrow> iterCtx \<Rightarrow> runState \<times> runStatus" where
  "countBody i ic = (\<lparr>rs_nodes = [''s'' \<mapsto> NodeCompleted], rs_edges = [],
      rs_outputs = [''s'' \<mapsto> digitsOf (i + 1)], rs_log = []\<rparr>, if i = 0 then StatusFailed else StatusCompleted)"

lemma demoLoop_limit: "loopLimit (lr_def (demoLoop u)) = 3"
  by (simp add: demoLoop_def loopLimit_def loopHardMax_def)

lemma loop_converges_witness:
  "\<exists>res. res = runLoopRegion Inr loopCtx (demoLoop ''2'') topIter countBody (\<lambda>i. False)
     \<and> lo_status res = StatusCompleted \<and> lo_iters res = 2 \<and> lo_outputs res = [(''s'', ''2'')]
     \<and> exitAt loopCtx (demoLoop ''2'') (Some ''2'') topIter countBody 1 = Inr True"
proof -
  let ?res = "runLoopRegion Inr loopCtx (demoLoop ''2'') topIter countBody (\<lambda>i. False)"
  have run: "lo_status ?res = StatusCompleted" "lo_iters ?res = 2" by code_simp+
  have "ld_Until (lr_def (demoLoop ''2'')) \<noteq> []"
    "compileWhen Inr (ld_Until (lr_def (demoLoop ''2''))) = Inr (Some ''2'')"
    by (simp_all add: demoLoop_def compileWhen_def)
  from loop_converges[OF this refl, of loopCtx topIter countBody "\<lambda>i. False"] run
  have "exitAt loopCtx (demoLoop ''2'') (Some ''2'') topIter countBody 1 = Inr True"
    "lo_outputs ?res = loopAgg (demoLoop ''2'') (attemptOut (demoLoop ''2'') topIter countBody 1)" by simp_all
  moreover have "loopAgg (demoLoop ''2'') (attemptOut (demoLoop ''2'') topIter countBody 1) = [(''s'', ''2'')]"
    by code_simp
  ultimately show ?thesis using run by simp
qed

lemma loop_fixed_repeat_witness:
  "\<exists>res. res = runLoopRegion Inr loopCtx (demoLoop []) topIter countBody (\<lambda>i. False)
     \<and> lo_iters res = 3 \<and> lo_status res = StatusFailed"
proof -
  have "ld_Until (lr_def (demoLoop [])) = []" by (simp add: demoLoop_def)
  moreover have "\<forall>j<loopLimit (lr_def (demoLoop [])). \<not> False
      \<and> attemptStatus (demoLoop []) topIter countBody j \<noteq> StatusPaused"
    by (simp add: attemptStatus_def countBody_def)
  ultimately have "lo_iters (runLoopRegion Inr loopCtx (demoLoop []) topIter countBody (\<lambda>i. False)) = 3
    \<and> lo_status (runLoopRegion Inr loopCtx (demoLoop []) topIter countBody (\<lambda>i. False)) = StatusFailed"
    using loop_fixed_repeat[of "demoLoop []" "\<lambda>i. False" topIter countBody _ Inr loopCtx, OF _ _ refl]
    by (auto simp: demoLoop_limit attemptStatus_def countBody_def)
  then show ?thesis by blast
qed

end
