(* ===== verification/Wf_StateMachine.thy ===== *)
theory Wf_StateMachine
  imports Wf_Topo Go_Numbers "HOL-Library.AList" "HOL-Library.List_Lexorder"
begin

text \<open>
  The state-machine document of a pipeline (\<open>src/systems/workflows/statemachine.go\<close>) and the two
  conversions: \<open>smToModel\<close> from a document to the stored steps, routes and maps, \<open>modelToSM\<close> back.

  The document keeps its states in a Go map, whose iteration order the runtime chooses anew for every
  loop.  The order is the parameter \<open>ord\<close>: for each loop (by a number) and container (by
  its name) it gives the order in which the keys are visited.  A state is a pointer, which a JSON
  \<open>null\<close> leaves nil; reading a field of it is a run-time panic, the error \<open>NilState\<close>.
\<close>

section \<open>The document\<close>

record WorkflowStepRef =
  wsr_StepID :: string
  wsr_Action :: string
  wsr_Timeout :: int
  wsr_Name :: string
  wsr_With :: "(string \<times> gany) list"
  wsr_AllowUnresolved :: bool
  wsr_Permissions :: "PermissionSpec list"
  wsr_Matrix :: "MatrixConfig option"
  wsr_Scatter :: "ScatterConfig option"
  wsr_Approval :: "ApprovalGate option"
  wsr_MapID :: string
  wsr_LoopID :: string

record WorkflowInputDef =
  wid_Name :: string
  wid_Default :: string
  wid_Required :: bool
  wid_Description :: string

record WorkflowOutputDef =
  wod_Name :: string
  wod_Value :: string

record smChoice =
  smc_When :: string
  smc_Next :: string
  smc_Default :: string
  smc_Name :: string

text \<open>The fields of \<open>smState\<close> and \<open>smMap\<close> besides the two that make them recursive.\<close>

record smFields =
  sm_Run :: string
  sm_Use :: string
  sm_Approval :: "ApprovalGate option"
  sm_Choice :: "smChoice list"
  sm_With :: "(string \<times> gany) list"
  sm_Timeout :: int
  sm_Matrix :: "MatrixConfig option"
  sm_Scatter :: "ScatterConfig option"
  sm_Permissions :: "PermissionSpec list"
  sm_AllowUnresolved :: bool
  sm_Next :: "string list"
  sm_End :: bool

record smMapFields =
  smm_Var :: string
  smm_Values :: "string list"
  smm_Over :: string
  smm_MaxConcurrent :: int
  smm_Sequential :: bool
  smm_Volume :: string
  smm_MountPath :: string
  smm_SizeMB :: int
  smm_Medium :: string
  smm_Outputs :: "string list"

datatype smState = SmState (smFieldsOf: smFields) (smMapOf: "smMap option")
  and smMap = SmMap (smMapFieldsOf: smMapFields) (smMapStates: "(string \<times> smState option) list")

record smDoc =
  sd_Name :: string
  sd_Description :: string
  sd_Inputs :: "WorkflowInputDef list"
  sd_Outputs :: "WorkflowOutputDef list"
  sd_States :: "(string \<times> smState option) list"

text \<open>
  \<open>smNext\<close> in JSON: one name as a string, several as an array.  \<open>encoding/json\<close> leaves the zero value
  for \<open>null\<close>, so a \<open>null\<close> is read as the one name that is empty.
\<close>

fun jsonName :: "gany \<Rightarrow> string option" where
  "jsonName (AStr s) = Some s"
| "jsonName ANil = Some []"
| "jsonName _ = None"

fun unmarshalNext :: "gany \<Rightarrow> string list option" where
  "unmarshalNext (AArr xs) = those (map jsonName xs)"
| "unmarshalNext v = map_option (\<lambda>s. [s]) (jsonName v)"

definition marshalNext :: "string list \<Rightarrow> gany" where
  "marshalNext n = (case n of [x] \<Rightarrow> AStr x | _ \<Rightarrow> AArr (map AStr n))"

lemma those_names: "those (map jsonName (map AStr n)) = Some n"
  by (induction n) auto

lemma next_round_trip: "unmarshalNext (marshalNext n) = Some n"
  using those_names[of n] by (auto simp: marshalNext_def split: list.splits)

section \<open>Errors and iteration\<close>

datatype smError =
    NilState
  | NoStates
  | EmptyStateName
  | DuplicateState string
  | ChoiceRuns string
  | ChoiceTransits string
  | ChoiceWithKind string
  | NoKind string
  | EndWithNext string
  | BranchTarget string
  | MapNoStates string
  | NestedMap string
  | MapBranchTarget string string
  | ChoiceToChoiceInMap string string
  | NotInRegion string string
  | NoEntryState string
  | ChoiceToChoice string
  | UnknownState string
  | UnreachableChoice string

type_synonym iterOrder = "nat \<Rightarrow> string \<Rightarrow> string list \<Rightarrow> string list"

definition rangeMap :: "iterOrder \<Rightarrow> nat \<Rightarrow> string \<Rightarrow> (string \<times> 'v) list \<Rightarrow> (string \<times> 'v) list" where
  "rangeMap ord site c kvs =
     List.map_filter (\<lambda>k. map_option (Pair k) (map_of kvs k)) (ord site c (map fst kvs))"

definition deref :: "smState option \<Rightarrow> smError + smState" where
  "deref p = (case p of None \<Rightarrow> Inl NilState | Some st \<Rightarrow> Inr st)"

section \<open>Document to model\<close>

record smBranch =
  br_to :: string
  br_when :: string
  br_name :: string

record smRegion =
  rg_entries :: "string list"
  rg_exits :: "string list"

definition claimName :: "string \<Rightarrow> string set \<Rightarrow> smError + string set" where
  "claimName name seen =
     (if TrimSpace name = [] then Inl EmptyStateName
      else if name \<in> seen then Inl (DuplicateState name)
      else Inr (insert name seen))"

definition isChoiceState :: "string \<Rightarrow> smState \<Rightarrow> smError + bool" where
  "isChoiceState name st =
     (let f = smFieldsOf st
      in if sm_Choice f = [] then Inr False
         else if sm_Run f \<noteq> [] \<or> sm_Use f \<noteq> [] \<or> sm_Approval f \<noteq> None \<or> smMapOf st \<noteq> None
           then Inl (ChoiceRuns name)
         else if sm_Next f \<noteq> [] \<or> sm_End f then Inl (ChoiceTransits name)
         else Inr True)"

definition taskRef :: "string \<Rightarrow> smState \<Rightarrow> string \<Rightarrow> smError + WorkflowStepRef" where
  "taskRef name st mapID =
     (let f = smFieldsOf st;
          ref = \<lparr>wsr_StepID = [], wsr_Action = [], wsr_Timeout = 0, wsr_Name = name, wsr_With = sm_With f,
                 wsr_AllowUnresolved = sm_AllowUnresolved f, wsr_Permissions = sm_Permissions f,
                 wsr_Matrix = sm_Matrix f, wsr_Scatter = sm_Scatter f, wsr_Approval = None,
                 wsr_MapID = mapID, wsr_LoopID = []\<rparr>
      in if sm_Choice f \<noteq> [] then Inl (ChoiceWithKind name)
         else if sm_Approval f \<noteq> None then Inr (ref\<lparr>wsr_Approval := sm_Approval f\<rparr>)
         else if sm_Use f \<noteq> [] then Inr (ref\<lparr>wsr_StepID := sm_Use f\<rparr>)
         else if sm_Run f \<noteq> [] then Inr (ref\<lparr>wsr_Action := sm_Run f, wsr_Timeout := sm_Timeout f\<rparr>)
         else Inl (NoKind name))"

definition nextTargets :: "string \<Rightarrow> smState \<Rightarrow> smError + string list" where
  "nextTargets name st =
     (let f = smFieldsOf st
      in if sm_End f \<and> sm_Next f \<noteq> [] then Inl (EndWithNext name) else Inr (sm_Next f))"

text \<open>The arms of a choice; \<open>e\<close> is the error of an arm without a target.\<close>

fun choiceArms :: "smError \<Rightarrow> smChoice list \<Rightarrow> smError + smBranch list" where
  "choiceArms e [] = Inr []"
| "choiceArms e (c # cs) =
     (if smc_Default c \<noteq> []
        then bindE (choiceArms e cs)
               (\<lambda>r. Inr (\<lparr>br_to = smc_Default c, br_when = [], br_name = smc_Name c\<rparr> # r))
      else if smc_Next c \<noteq> []
        then bindE (choiceArms e cs)
               (\<lambda>r. Inr (\<lparr>br_to = smc_Next c, br_when = smc_When c, br_name = smc_Name c\<rparr> # r))
      else Inl e)"

subsection \<open>Pass 1a: the choices\<close>

type_synonym armTable = "(string \<times> smBranch list) list"

definition choicePass :: "string \<times> smState option \<Rightarrow> string set \<times> armTable \<Rightarrow> smError + string set \<times> armTable" where
  "choicePass kv acc =
     (case kv of (name, p) \<Rightarrow> case acc of (seen, choices) \<Rightarrow>
        bindE (deref p) (\<lambda>st.
        bindE (isChoiceState name st) (\<lambda>choice.
          if \<not> choice then Inr (seen, choices)
          else bindE (claimName name seen) (\<lambda>seen'.
               bindE (choiceArms (BranchTarget name) (sm_Choice (smFieldsOf st))) (\<lambda>arms.
                 Inr (seen', choices @ [(name, arms)]))))))"

subsection \<open>Pass 1b: the map regions\<close>

definition subChoicePass ::
  "string \<Rightarrow> string \<times> smState option \<Rightarrow> string set \<times> armTable \<Rightarrow> smError + string set \<times> armTable" where
  "subChoicePass container kv acc =
     (case kv of (name, p) \<Rightarrow> case acc of (seen, choices) \<Rightarrow>
        bindE (deref p) (\<lambda>st.
          if smMapOf st \<noteq> None then Inl (NestedMap container)
          else bindE (isChoiceState name st) (\<lambda>choice.
            if \<not> choice then Inr (seen, choices)
            else bindE (claimName name seen) (\<lambda>seen'.
                 bindE (choiceArms (MapBranchTarget container name) (sm_Choice (smFieldsOf st))) (\<lambda>arms.
                   Inr (seen', choices @ [(name, arms)]))))))"

text \<open>The members of a region become steps; \<open>regionStep\<close> is the second list, of their names.\<close>

definition subStepPass ::
  "string \<Rightarrow> armTable \<Rightarrow> string \<times> smState option
   \<Rightarrow> string set \<times> WorkflowStepRef list \<times> string list
   \<Rightarrow> smError + string set \<times> WorkflowStepRef list \<times> string list" where
  "subStepPass container subChoices kv acc =
     (case kv of (name, p) \<Rightarrow> case acc of (seen, steps, regionStep) \<Rightarrow>
        if map_of subChoices name \<noteq> None then Inr (seen, steps, regionStep)
        else bindE (claimName name seen) (\<lambda>seen'.
             bindE (deref p) (\<lambda>st.
             bindE (taskRef name st container) (\<lambda>ref.
               Inr (seen', steps @ [ref], regionStep @ [name])))))"

definition resolveRegion :: "string \<Rightarrow> armTable \<Rightarrow> string list \<Rightarrow> string \<Rightarrow> smError + string" where
  "resolveRegion container subChoices regionStep t =
     (if t \<in> set regionStep then Inr t
      else if map_of subChoices t \<noteq> None then Inl (ChoiceToChoiceInMap container t)
      else Inl (NotInRegion container t))"

text \<open>The routes of one target of a member: of the arms of a choice, or of the member itself.\<close>

definition subTargetRoutes ::
  "string \<Rightarrow> armTable \<Rightarrow> string list \<Rightarrow> string \<Rightarrow> string \<Rightarrow> WorkflowRoute list \<Rightarrow> smError + WorkflowRoute list" where
  "subTargetRoutes container subChoices regionStep from raw routes =
     (case map_of subChoices raw of
        Some arms \<Rightarrow>
          foldE (\<lambda>a routes. bindE (resolveRegion container subChoices regionStep (br_to a)) (\<lambda>d.
                   Inr (routes @ [\<lparr>r_From = from, r_To = d, r_When = br_when a, r_Name = br_name a\<rparr>])))
            arms routes
      | None \<Rightarrow> bindE (resolveRegion container subChoices regionStep raw) (\<lambda>d.
                   Inr (routes @ [\<lparr>r_From = from, r_To = d, r_When = [], r_Name = []\<rparr>])))"

definition subRoutePass ::
  "string \<Rightarrow> armTable \<Rightarrow> string list \<Rightarrow> string \<times> smState option
   \<Rightarrow> string list \<times> WorkflowRoute list \<Rightarrow> smError + string list \<times> WorkflowRoute list" where
  "subRoutePass container subChoices regionStep kv acc =
     (case kv of (name, p) \<Rightarrow> case acc of (exits, routes) \<Rightarrow>
        if map_of subChoices name \<noteq> None then Inr (exits, routes)
        else bindE (deref p) (\<lambda>st.
             bindE (nextTargets name st) (\<lambda>tgts.
             bindE (foldE (subTargetRoutes container subChoices regionStep name) tgts routes) (\<lambda>routes'.
               Inr (if tgts = [] then exits @ [name] else exits, routes')))))"

text \<open>What the loop over the maps collects: maps, steps, internal routes, regions.\<close>

type_synonym mapAcc =
  "MapDef list \<times> WorkflowStepRef list \<times> WorkflowRoute list \<times> (string \<times> smRegion) list"

definition mapDefOf :: "string \<Rightarrow> smMapFields \<Rightarrow> MapDef" where
  "mapDefOf name m =
     \<lparr>md_ID = name, md_Var = smm_Var m, md_Values = smm_Values m, md_ValuesFrom = smm_Over m,
      md_MaxConcurrent = smm_MaxConcurrent m, md_Sequential = smm_Sequential m,
      md_FailureTolerance = 0, md_AllowEmpty = False, md_Volume = smm_Volume m,
      md_MountPath = smm_MountPath m, md_SizeMB = smm_SizeMB m, md_Medium = smm_Medium m,
      md_Outputs = smm_Outputs m\<rparr>"

text \<open>
  The body of the loop for one map.  The routes of the region are collected from the empty list and
  appended, which is the list the code appends to in place; \<open>hasInbound\<close> are their targets.
\<close>

definition regionOf ::
  "iterOrder \<Rightarrow> string \<Rightarrow> (string \<times> smState option) list \<Rightarrow> string set
   \<Rightarrow> smError + string set \<times> WorkflowStepRef list \<times> WorkflowRoute list \<times> smRegion" where
  "regionOf ord name states seen =
     bindE (foldE (subChoicePass name) (rangeMap ord 2 name states) (seen, [])) (\<lambda>(seen1, subChoices).
     bindE (foldE (subStepPass name subChoices) (rangeMap ord 3 name states) (seen1, [], []))
       (\<lambda>(seen2, steps, regionStep).
     bindE (foldE (subRoutePass name subChoices regionStep) (rangeMap ord 4 name states) ([], []))
       (\<lambda>(exits, routes).
       Inr (seen2, steps, routes,
            \<lparr>rg_entries = sort (filter (\<lambda>n. n \<notin> r_To ` set routes) (ord 5 name regionStep)),
             rg_exits = sort exits\<rparr>))))"

definition mapPass ::
  "iterOrder \<Rightarrow> string \<times> smState option \<Rightarrow> string set \<times> mapAcc \<Rightarrow> smError + string set \<times> mapAcc" where
  "mapPass ord kv acc =
     (case kv of (name, p) \<Rightarrow> case acc of (seen, maps, steps, internal, regions) \<Rightarrow>
        bindE (deref p) (\<lambda>st.
          case smMapOf st of
            None \<Rightarrow> Inr (seen, maps, steps, internal, regions)
          | Some (SmMap m states) \<Rightarrow>
              if states = [] then Inl (MapNoStates name)
              else bindE (claimName name seen) (\<lambda>seen1.
                   bindE (regionOf ord name states seen1) (\<lambda>(seen2, subs, routes, reg).
                     Inr (seen2, maps @ [mapDefOf name m], steps @ subs, internal @ routes,
                          regions @ [(name, reg)])))))"

subsection \<open>Pass 1c: the task states\<close>

definition taskPass ::
  "string \<times> smState option \<Rightarrow> string set \<times> WorkflowStepRef list \<times> string list
   \<Rightarrow> smError + string set \<times> WorkflowStepRef list \<times> string list" where
  "taskPass kv acc =
     (case kv of (name, p) \<Rightarrow> case acc of (seen, steps, stepNodes) \<Rightarrow>
        bindE (deref p) (\<lambda>st.
          if smMapOf st \<noteq> None \<or> sm_Choice (smFieldsOf st) \<noteq> [] then Inr (seen, steps, stepNodes)
          else bindE (claimName name seen) (\<lambda>seen'.
               bindE (taskRef name st []) (\<lambda>ref.
                 Inr (seen', steps @ [ref], stepNodes @ [name])))))"

subsection \<open>Pass 2: the routes\<close>

record smTargets =
  tg_regions :: "(string \<times> smRegion) list"
  tg_choices :: armTable
  tg_stepNodes :: "string list"

definition resolveTargets :: "smTargets \<Rightarrow> string \<Rightarrow> smError + string list" where
  "resolveTargets T name =
     (case map_of (tg_regions T) name of
        Some reg \<Rightarrow> if rg_entries reg = [] then Inl (NoEntryState name) else Inr (rg_entries reg)
      | None \<Rightarrow>
          if name \<in> set (tg_stepNodes T) then Inr [name]
          else if map_of (tg_choices T) name \<noteq> None then Inl (ChoiceToChoice name)
          else Inl (UnknownState name))"

text \<open>\<open>seenRoute\<close> is at all times the set of \<open>routes\<close>.\<close>

definition addRoute :: "WorkflowRoute \<Rightarrow> WorkflowRoute list \<Rightarrow> WorkflowRoute list" where
  "addRoute r routes = (if r \<in> set routes then routes else routes @ [r])"

definition addProduct ::
  "string list \<Rightarrow> string list \<Rightarrow> string \<Rightarrow> string \<Rightarrow> WorkflowRoute list \<Rightarrow> WorkflowRoute list" where
  "addProduct sources dests whn name =
     fold (\<lambda>src. fold (\<lambda>d. addRoute \<lparr>r_From = src, r_To = d, r_When = whn, r_Name = name\<rparr>) dests) sources"

definition targetRoutes ::
  "smTargets \<Rightarrow> string list \<Rightarrow> string \<Rightarrow> WorkflowRoute list \<times> string set
   \<Rightarrow> smError + WorkflowRoute list \<times> string set" where
  "targetRoutes T sources raw acc =
     (case acc of (routes, reached) \<Rightarrow>
        case map_of (tg_choices T) raw of
          Some arms \<Rightarrow>
            bindE (foldE (\<lambda>a routes. bindE (resolveTargets T (br_to a)) (\<lambda>dests.
                     Inr (addProduct sources dests (br_when a) (br_name a) routes))) arms routes)
              (\<lambda>routes'. Inr (routes', insert raw reached))
        | None \<Rightarrow>
            bindE (resolveTargets T raw) (\<lambda>dests.
              Inr (addProduct sources dests [] [] routes, reached)))"

definition sourcesOf :: "smTargets \<Rightarrow> string \<Rightarrow> string list" where
  "sourcesOf T name =
     (case map_of (tg_regions T) name of Some reg \<Rightarrow> rg_exits reg | None \<Rightarrow> [name])"

definition routePass ::
  "smTargets \<Rightarrow> string \<times> smState option \<Rightarrow> WorkflowRoute list \<times> string set
   \<Rightarrow> smError + WorkflowRoute list \<times> string set" where
  "routePass T kv acc =
     (case kv of (name, p) \<Rightarrow>
        bindE (deref p) (\<lambda>st.
          if sm_Choice (smFieldsOf st) \<noteq> [] then Inr acc
          else bindE (nextTargets name st) (\<lambda>tgts.
               foldE (targetRoutes T (sourcesOf T name)) tgts acc)))"

section \<open>The order of the steps\<close>

definition zeroRef :: WorkflowStepRef where
  "zeroRef = \<lparr>wsr_StepID = [], wsr_Action = [], wsr_Timeout = 0, wsr_Name = [], wsr_With = [],
     wsr_AllowUnresolved = False, wsr_Permissions = [], wsr_Matrix = None, wsr_Scatter = None,
     wsr_Approval = None, wsr_MapID = [], wsr_LoopID = []\<rparr>"

abbreviation ref_names :: "WorkflowStepRef list \<Rightarrow> string list" where
  "ref_names \<equiv> map wsr_Name"

text \<open>\<open>byName[n]\<close>: the last step of the name.\<close>

definition refNamed :: "WorkflowStepRef list \<Rightarrow> string \<Rightarrow> WorkflowStepRef" where
  "refNamed steps n = (case find (\<lambda>s. wsr_Name s = n) (rev steps) of None \<Rightarrow> zeroRef | Some s \<Rightarrow> s)"

text \<open>The routes between steps, which are the entries of \<open>adj\<close> and the counts of \<open>indeg\<close>.\<close>

definition innerRoutes :: "WorkflowStepRef list \<Rightarrow> WorkflowRoute list \<Rightarrow> WorkflowRoute list" where
  "innerRoutes steps routes =
     filter (\<lambda>r. r_From r \<in> set (ref_names steps) \<and> r_To r \<in> set (ref_names steps)) routes"

definition adjOf :: "WorkflowRoute list \<Rightarrow> string \<Rightarrow> string list" where
  "adjOf routes n = map r_To (filter (\<lambda>r. r_From r = n) routes)"

definition indegOf :: "WorkflowRoute list \<Rightarrow> string \<Rightarrow> int" where
  "indegOf routes n = int (length (filter (\<lambda>r. r_To r = n) routes))"

text \<open>For the measure: a graph with the routes.\<close>

abbreviation routeGraph :: "WorkflowRoute list \<Rightarrow> unit workflowGraph" where
  "routeGraph routes \<equiv> newGraph Inl [] routes"

lemma sort_adj_subset: "set (sort (adjOf routes n)) \<subseteq> r_To ` set (g_routes (routeGraph routes))"
  by (auto simp: adjOf_def)

function orderLoop ::
  "WorkflowRoute list \<Rightarrow> (string \<Rightarrow> int) \<Rightarrow> string list \<Rightarrow> string list \<Rightarrow> string list" where
  "orderLoop routes indeg [] out = out"
| "orderLoop routes indeg (n # queue) out =
     (case relaxTargets (sort (adjOf routes n)) indeg queue of
        (indeg', queue') \<Rightarrow> orderLoop routes indeg' queue' (out @ [n]))"
  by pat_completeness auto
termination
  by (relation "measure (\<lambda>(routes, indeg, queue, out). positiveTargets (routeGraph routes) indeg + length queue)")
     (auto dest!: relaxTargets_measure[OF sort_adj_subset, OF sym])

definition orderSteps :: "WorkflowStepRef list \<Rightarrow> WorkflowRoute list \<Rightarrow> WorkflowStepRef list" where
  "orderSteps steps routes =
     (let names = sort (ref_names steps); rs = innerRoutes steps routes;
          emitted = orderLoop rs (indegOf rs) (filter (\<lambda>n. indegOf rs n = 0) names) []
      in map (refNamed steps) (emitted @ filter (\<lambda>n. n \<notin> set emitted) names))"

section \<open>The conversion\<close>

definition smToModel ::
  "iterOrder \<Rightarrow> smDoc option \<Rightarrow> smError + WorkflowStepRef list \<times> WorkflowRoute list \<times> MapDef list" where
  "smToModel ord doc =
     (case doc of
        None \<Rightarrow> Inl NoStates
      | Some d \<Rightarrow>
          (let states = sd_States d
           in if states = [] then Inl NoStates
              else bindE (foldE choicePass (rangeMap ord 0 [] states) ({}, [])) (\<lambda>(seen1, choices).
                   bindE (foldE (mapPass ord) (rangeMap ord 1 [] states) (seen1, [], [], [], []))
                     (\<lambda>(seen2, maps, members, internal, regions).
                   bindE (foldE taskPass (rangeMap ord 6 [] states) (seen2, members, []))
                     (\<lambda>(seen3, steps, stepNodes).
                   (let T = \<lparr>tg_regions = regions, tg_choices = choices, tg_stepNodes = stepNodes\<rparr>
                    in bindE (foldE (routePass T) (rangeMap ord 7 [] states) (internal, {}))
                         (\<lambda>(routes, reached).
                           case find (\<lambda>n. n \<notin> reached) (ord 8 [] (map fst choices)) of
                             Some n \<Rightarrow> Inl (UnreachableChoice n)
                           | None \<Rightarrow> Inr (orderSteps steps routes, routes, maps))))))))"

section \<open>Model to document\<close>

definition mapOf :: "WorkflowStep list \<Rightarrow> string \<Rightarrow> string" where
  "mapOf steps n =
     (case find (\<lambda>s. ws_MapID s \<noteq> [] \<and> st_Name s = n) (rev steps) of None \<Rightarrow> [] | Some s \<Rightarrow> ws_MapID s)"

definition display :: "WorkflowStep list \<Rightarrow> string \<Rightarrow> string" where
  "display steps n = (if mapOf steps n \<noteq> [] then mapOf steps n else n)"

text \<open>Adding to a \<open>map[string][]edge\<close>.\<close>

definition addEdge :: "string \<Rightarrow> smBranch \<Rightarrow> (string \<Rightarrow> smBranch list) \<Rightarrow> (string \<Rightarrow> smBranch list)" where
  "addEdge n e m = m(n := m n @ [e])"

definition partitionRoute ::
  "WorkflowStep list \<Rightarrow> WorkflowRoute \<Rightarrow> (string \<Rightarrow> smBranch list) \<times> (string \<Rightarrow> smBranch list)
   \<Rightarrow> (string \<Rightarrow> smBranch list) \<times> (string \<Rightarrow> smBranch list)" where
  "partitionRoute steps r acc =
     (case acc of (outer, internal) \<Rightarrow>
        (let fm = mapOf steps (r_From r); tm = mapOf steps (r_To r)
         in if fm \<noteq> [] \<and> fm = tm
            then (outer, addEdge (r_From r) \<lparr>br_to = r_To r, br_when = r_When r, br_name = r_Name r\<rparr> internal)
            else (addEdge (display steps (r_From r))
                    \<lparr>br_to = display steps (r_To r), br_when = r_When r, br_name = r_Name r\<rparr> outer, internal)))"

definition partitionRoutes ::
  "WorkflowStep list \<Rightarrow> WorkflowRoute list \<Rightarrow> (string \<Rightarrow> smBranch list) \<times> (string \<Rightarrow> smBranch list)" where
  "partitionRoutes steps routes = fold (partitionRoute steps) routes (\<lambda>_. [], \<lambda>_. [])"

text \<open>\<open>for i := 2; used[n]; i++ { n = fmt.Sprintf("%s_choice%d", base, i) }\<close>\<close>

definition choiceNameAt :: "string \<Rightarrow> nat \<Rightarrow> string" where
  "choiceNameAt base i = base @ ''_choice'' @ itoa (int i)"

lemma choiceNameAt_inj [simp]: "choiceNameAt base i = choiceNameAt base j \<longleftrightarrow> i = j"
  by (simp add: choiceNameAt_def itoa_def)

function freeChoiceName :: "string list \<Rightarrow> string \<Rightarrow> string \<Rightarrow> nat \<Rightarrow> string" where
  "freeChoiceName used base n i =
     (if n \<in> set used then freeChoiceName used base (choiceNameAt base i) (i + 1) else n)"
  by pat_completeness auto
termination
proof (relation "measure (\<lambda>(used, base, n, i).
    card {j. i \<le> j \<and> choiceNameAt base j \<in> set used} + (if n \<in> set used then 1 else 0))", goal_cases)
  case (2 used base n i)
  have fin: "finite {j. i \<le> j \<and> choiceNameAt base j \<in> set used}"
  proof (rule finite_subset[OF _ finite_vimageI[of "set used" "choiceNameAt base"]])
    show "inj (choiceNameAt base)" by (rule injI) simp
  qed (auto simp: vimage_def)
  let ?c = "if choiceNameAt base i \<in> set used then 1 else 0 :: nat"
  have "{j. i \<le> j \<and> choiceNameAt base j \<in> set used}
      = {j. i + 1 \<le> j \<and> choiceNameAt base j \<in> set used} \<union> (if choiceNameAt base i \<in> set used then {i} else {})"
    by (auto simp: le_eq_less_or_eq Suc_le_eq)
  moreover have "finite {j. i + 1 \<le> j \<and> choiceNameAt base j \<in> set used}"
    by (rule finite_subset[OF _ fin]) auto
  ultimately have "card {j. i \<le> j \<and> choiceNameAt base j \<in> set used}
      = card {j. i + 1 \<le> j \<and> choiceNameAt base j \<in> set used} + ?c"
    by (auto simp: card_insert_if)
  then show ?case using 2 by simp
qed simp

declare freeChoiceName.simps [simp del]

text \<open>The name is also entered into \<open>used\<close>, the first result.\<close>

definition uniqueChoiceName :: "string list \<Rightarrow> string \<Rightarrow> string list \<times> string" where
  "uniqueChoiceName used base =
     (let n = freeChoiceName used base (base @ ''_choice'') 2 in (n # used, n))"

definition choiceFields :: "smChoice list \<Rightarrow> smFields" where
  "choiceFields cs =
     \<lparr>sm_Run = [], sm_Use = [], sm_Approval = None, sm_Choice = cs, sm_With = [], sm_Timeout = 0,
      sm_Matrix = None, sm_Scatter = None, sm_Permissions = [], sm_AllowUnresolved = False,
      sm_Next = [], sm_End = False\<rparr>"

definition choicesOf :: "smBranch list \<Rightarrow> smChoice list" where
  "choicesOf edges =
     map (\<lambda>e. \<lparr>smc_When = br_when e, smc_Next = br_to e, smc_Default = [], smc_Name = br_name e\<rparr>)
       (filter (\<lambda>e. br_when e \<noteq> []) edges)
     @ map (\<lambda>e. \<lparr>smc_When = [], smc_Next = [], smc_Default = br_to e, smc_Name = br_name e\<rparr>)
         (filter (\<lambda>e. br_when e = []) edges)"

text \<open>\<open>apply\<close>: the state with its transition, the names used, and the choice state it emits.\<close>

definition applyEdges ::
  "string list \<Rightarrow> string \<Rightarrow> smBranch list \<Rightarrow> smFields \<Rightarrow> smFields \<times> string list \<times> (string \<times> smState) option" where
  "applyEdges used node edges f =
     (if edges = [] then (f\<lparr>sm_End := True\<rparr>, used, None)
      else if \<forall>e\<in>set edges. br_when e = []
        then (f\<lparr>sm_Next := sort (map br_to edges)\<rparr>, used, None)
      else (case uniqueChoiceName used node of (used', cname) \<Rightarrow>
        (f\<lparr>sm_Next := [cname]\<rparr>, used', Some (cname, SmState (choiceFields (choicesOf edges)) None))))"

definition taskState :: "WorkflowStep \<Rightarrow> smFields" where
  "taskState s =
     (let f = \<lparr>sm_Run = [], sm_Use = [], sm_Approval = ws_Approval s, sm_Choice = [], sm_With = st_With s,
               sm_Timeout = 0, sm_Matrix = ws_Matrix s, sm_Scatter = ws_Scatter s,
               sm_Permissions = st_Permissions s, sm_AllowUnresolved = st_AllowUnresolved s,
               sm_Next = [], sm_End = False\<rparr>
      in if ws_Approval s \<noteq> None then f
         else if st_StepID s \<noteq> [] \<and> st_Action s = [] then f\<lparr>sm_Use := st_StepID s\<rparr>
         else f\<lparr>sm_Run := st_Action s, sm_Timeout := st_Timeout s\<rparr>)"

type_synonym stateTable = "(string \<times> smState option) list"

definition putState :: "string \<Rightarrow> smState \<Rightarrow> stateTable \<Rightarrow> stateTable" where
  "putState n st = AList.update n (Some st)"

definition emitState :: "(string \<times> smState) option \<Rightarrow> stateTable \<Rightarrow> stateTable" where
  "emitState e t = (case e of None \<Rightarrow> t | Some (n, st) \<Rightarrow> putState n st t)"

definition mapContainer :: "MapDef \<Rightarrow> smState" where
  "mapContainer m =
     SmState (choiceFields []) (Some (SmMap
       \<lparr>smm_Var = md_Var m, smm_Values = md_Values m, smm_Over = md_ValuesFrom m,
        smm_MaxConcurrent = md_MaxConcurrent m, smm_Sequential = md_Sequential m,
        smm_Volume = md_Volume m, smm_MountPath = md_MountPath m, smm_SizeMB = md_SizeMB m,
        smm_Medium = md_Medium m, smm_Outputs = md_Outputs m\<rparr> []))"

text \<open>The loop over the steps.\<close>

definition placeStep ::
  "(string \<Rightarrow> smBranch list) \<Rightarrow> (string \<Rightarrow> smBranch list) \<Rightarrow> WorkflowStep
   \<Rightarrow> stateTable \<times> string list \<Rightarrow> stateTable \<times> string list" where
  "placeStep outer internal s acc =
     (case acc of (states, used) \<Rightarrow>
        if ws_MapID s \<noteq> []
        then (case map_of states (ws_MapID s) of
                Some (Some (SmState cf (Some (SmMap m inner)))) \<Rightarrow>
                  (case applyEdges used (st_Name s) (internal (st_Name s)) (taskState s) of
                     (f, used', e) \<Rightarrow>
                       (putState (ws_MapID s)
                          (SmState cf (Some (SmMap m (putState (st_Name s) (SmState f None) (emitState e inner)))))
                          states, used'))
              | _ \<Rightarrow> (states, used))
        else (case applyEdges used (st_Name s) (outer (st_Name s)) (taskState s) of
                (f, used', e) \<Rightarrow> (putState (st_Name s) (SmState f None) (emitState e states), used')))"

text \<open>The last loop: the transitions of the containers.\<close>

definition placeContainer ::
  "(string \<Rightarrow> smBranch list) \<Rightarrow> MapDef \<Rightarrow> stateTable \<times> string list \<Rightarrow> stateTable \<times> string list" where
  "placeContainer outer m acc =
     (case acc of (states, used) \<Rightarrow>
        (case map_of states (md_ID m) of
           Some (Some (SmState f sub)) \<Rightarrow>
             (case applyEdges used (md_ID m) (outer (md_ID m)) f of
                (f', used', e) \<Rightarrow> (emitState e (putState (md_ID m) (SmState f' sub) states), used'))
         | _ \<Rightarrow> (states, used)))"

definition modelToSM ::
  "string \<Rightarrow> string \<Rightarrow> WorkflowStep list \<Rightarrow> WorkflowRoute list \<Rightarrow> MapDef list
   \<Rightarrow> WorkflowInputDef list \<Rightarrow> WorkflowOutputDef list \<Rightarrow> smDoc" where
  "modelToSM name description steps routes maps inputs outputs =
     (case partitionRoutes steps routes of (outer, internal) \<Rightarrow>
        (let containers = fold (\<lambda>m. putState (md_ID m) (mapContainer m)) maps [];
             used = names_of steps @ map md_ID maps;
             placed = fold (placeStep outer internal) steps (containers, used)
         in \<lparr>sd_Name = name, sd_Description = description, sd_Inputs = inputs, sd_Outputs = outputs,
             sd_States = fst (fold (placeContainer outer) maps placed)\<rparr>))"

end
