(* ===== verification/Go_Store.thy ===== *)
theory Go_Store
  imports Prelude
begin

text \<open>
  Queries of the services' database code on a table that is the list of its rows: \<open>First\<close> and
  \<open>Find\<close> of GORM with a condition, and how they fail.
\<close>

datatype dbErr = ErrRecordNotFound | ErrDatabase

definition firstRow :: "bool \<Rightarrow> ('a \<Rightarrow> bool) \<Rightarrow> 'a list \<Rightarrow> dbErr + 'a" where
  "firstRow down P rows =
     (if down then Inl ErrDatabase
      else case find P rows of None \<Rightarrow> Inl ErrRecordNotFound | Some r \<Rightarrow> Inr r)"

definition findRows :: "bool \<Rightarrow> ('a \<Rightarrow> bool) \<Rightarrow> 'a list \<Rightarrow> dbErr + 'a list" where
  "findRows down P rows = (if down then Inl ErrDatabase else Inr (filter P rows))"

section \<open>Reading what the queries return\<close>

lemma firstRow_Inr: "firstRow down P rows = Inr r \<Longrightarrow> \<not> down \<and> r \<in> set rows \<and> P r"
  by (auto simp: firstRow_def find_Some_iff split: if_splits option.splits)

lemma firstRow_Inr_ex: "\<not> down \<Longrightarrow> r \<in> set rows \<Longrightarrow> P r \<Longrightarrow> \<exists>r'. firstRow down P rows = Inr r'"
  by (auto simp: firstRow_def find_None_iff split: option.split)

text \<open>A key determines the row.\<close>

lemma distinct_key: "distinct (map f xs) \<Longrightarrow> x \<in> set xs \<Longrightarrow> y \<in> set xs \<Longrightarrow> f x = f y \<Longrightarrow> x = y"
  by (simp add: distinct_map inj_on_def)

lemma findRows_Inr: "findRows down P rows = Inr xs \<longleftrightarrow> \<not> down \<and> xs = filter P rows"
  by (auto simp: findRows_def)

end
