(* ===== verification/Wf_Author.thy ===== *)
theory Wf_Author
  imports Wf_StateMachine Wf_Fanout Wf_Validate Go_Store
begin

text \<open>
  Authoring a pipeline: the rows of \<open>types.go\<close>, the requests of \<open>api_steps.go\<close> and
  \<open>api_workflows.go\<close> with their checks, the state-machine document on a request, the assembly of
  the full steps (\<open>enrichStepRefs\<close> of \<open>db.go\<close>) and the permissions a run of the pipeline needs
  (\<open>collectWorkflowPermissions\<close>).  The action catalog, which the service loads from the registry, is
  an argument.
\<close>

section \<open>Names and limits\<close>

definition ActionHTTP :: string where "ActionHTTP = ''http''"
definition defaultTimeout :: int where "defaultTimeout = 30"
definition maxTimeout :: int where "maxTimeout = 3600"
definition maxSteps :: nat where "maxSteps = 50"

datatype matrixMsg = MxVarRequired | MxVarChars | MxExactlyOne | MxTooMany nat | MxConcurrent

datatype refMsg =
    RefName | RefStepAndGate | RefGateMatrix | RefStoredAndInline | RefNeedsName | RefInlineGate
  | RefService | RefPath | RefTimeout | RefKind | RefMatrix matrixMsg | RefScatterMatrix | RefScatterInline
  | RefScatter scatterMsg | RefNotFound string | RefDuplicate string nat

datatype ioMsg = InputName | InputDuplicate string | OutputName | OutputDuplicate string | OutputValue string

datatype runMsg =
    RunNoSteps | RunStepsGone | RunMissingInput string | RunIsolation string string | RunPipelineRequired
  | RunTooDeep | RunCredentials | RunNotFound | RunNotAwaiting | RunNoSuchGate
  | RunAmbiguousGate "(string \<times> string) list" | RunWorkflowGone | RunNotApprover | RunNotCancellable
  | RunTriggeredBy | RunUnauthorized | RunCrossOrg

datatype apMsg =
    ApInvalidBody | ApNameRequired | ApNameInvalid | ApNameTaken | ApActionRequired | ApHttpService
  | ApHttpPath | ApTimeoutRange | ApNotFound | ApServerProblem | ApRef nat refMsg | ApDocument smError
  | ApStepsRequired | ApTooManySteps | ApIO ioMsg | ApProjectRequired | ApUnknownProject string
  | ApProjectRefused string | ApTicketTitle | ApGraph vmsg | ApRun runMsg

text \<open>\<open>resourceNameRe\<close>: one to a hundred letters, digits, dots, underscores or hyphens.\<close>

definition nameChar :: "char \<Rightarrow> bool" where
  "nameChar c =
     (let n = (of_char c :: nat)
      in (65 \<le> n \<and> n \<le> 90) \<or> (97 \<le> n \<and> n \<le> 122) \<or> (48 \<le> n \<and> n \<le> 57) \<or> n = 46 \<or> n = 95 \<or> n = 45)"

definition validateResourceName :: "string \<Rightarrow> apMsg option" where
  "validateResourceName name =
     (if 1 \<le> length name \<and> length name \<le> 100 \<and> list_all nameChar name then None else Some ApNameInvalid)"

text \<open>Values of a \<open>With\<close> map by the type the caller expects.\<close>

definition withString :: "(string \<times> gany) list \<Rightarrow> string \<Rightarrow> string" where
  "withString w k = (case map_of w k of Some (AStr s) \<Rightarrow> s | _ \<Rightarrow> [])"

definition withStrings :: "(string \<times> gany) list \<Rightarrow> string \<Rightarrow> string list" where
  "withStrings w k =
     (case map_of w k of
        Some (AArr xs) \<Rightarrow> List.map_filter (\<lambda>v. case v of AStr s \<Rightarrow> Some s | _ \<Rightarrow> None) xs
      | _ \<Rightarrow> [])"

section \<open>Rows\<close>

record TicketConfig =
  tc_Enabled :: bool
  tc_Title :: string
  tc_BoardID :: string
  tc_Priority :: string
  tc_Project :: string
  tc_StatusRunning :: string
  tc_StatusSuccess :: string
  tc_StatusFailure :: string
  tc_StatusCancelled :: string

record Workflow =
  wf_WorkflowID :: string
  wf_Name :: string
  wf_Description :: string
  wf_CreatedBy :: string
  wf_OrgID :: string
  wf_Project :: string
  wf_ProjectID :: string
  wf_ProjectNamespace :: string
  wf_RoleID :: string
  wf_RolePermsVersion :: int
  wf_TimeoutSecs :: int
  wf_Active :: bool
  wf_CreatedAt :: int
  wf_UpdatedAt :: int
  wf_Inputs :: "WorkflowInputDef list"
  wf_Outputs :: "WorkflowOutputDef list"
  wf_Maps :: "MapDef list"
  wf_Loops :: "LoopDef list"
  wf_Routes :: "WorkflowRoute list"
  wf_Ticket :: "TicketConfig option"
  wf_StepRefs :: "WorkflowStepRef list"
  wf_Steps :: "WorkflowStep list"
  wf_StateMachine :: "smDoc option"
  wf_LastRunAt :: "int option"

record createStepRequest =
  csr_Name :: string
  csr_Description :: string
  csr_Action :: string
  csr_With :: "(string \<times> gany) list"
  csr_Timeout :: int

record createWorkflowRequest =
  cwr_Name :: string
  cwr_Description :: string
  cwr_Project :: string
  cwr_TimeoutSecs :: int
  cwr_Steps :: "WorkflowStepRef list"
  cwr_Inputs :: "WorkflowInputDef list"
  cwr_Outputs :: "WorkflowOutputDef list"
  cwr_Routes :: "WorkflowRoute list"
  cwr_Maps :: "MapDef list"
  cwr_Loops :: "LoopDef list"
  cwr_Ticket :: "TicketConfig option"
  cwr_StateMachine :: "smDoc option"

section \<open>Checks that need no database\<close>

definition validateStepRequest :: "createStepRequest \<Rightarrow> apMsg option" where
  "validateStepRequest req =
     (if csr_Name req = [] then Some ApNameRequired
      else if csr_Action req = [] then Some ApActionRequired
      else if csr_Action req = ActionHTTP \<and> withString (csr_With req) ''service'' = [] then Some ApHttpService
      else if csr_Action req = ActionHTTP \<and> withString (csr_With req) ''path'' = [] then Some ApHttpPath
      else if csr_Timeout req < 0 \<or> csr_Timeout req > maxTimeout then Some ApTimeoutRange
      else None)"

definition validateMatrix :: "MatrixConfig \<Rightarrow> matrixMsg option" where
  "validateMatrix m =
     (let hasValues = mx_Values m \<noteq> []; hasFrom = TrimSpace (mx_ValuesFrom m) \<noteq> []
      in if mx_Var m = [] then Some MxVarRequired
         else if ContainsAny (mx_Var m) [CHR '' '', CHR 0x09, CHR 0x0A, CHR 0x0D, CHR ''$'', CHR ''{'', CHR ''}'']
           then Some MxVarChars
         else if hasValues = hasFrom then Some MxExactlyOne
         else if hasValues \<and> length (mx_Values m) > maxMatrixValues then Some (MxTooMany (length (mx_Values m)))
         else if mx_MaxConcurrent m < 0 then Some MxConcurrent
         else None)"

text \<open>The part of \<open>validateStepRefShape\<close> for a reference with an action of its own, and its fan-outs.\<close>

definition inlineMsg :: "nat \<Rightarrow> WorkflowStepRef \<Rightarrow> apMsg option" where
  "inlineMsg i ref =
     (if wsr_Action ref \<noteq> [] then
        (if wsr_StepID ref \<noteq> [] then Some (ApRef i RefStoredAndInline)
         else if wsr_Name ref = [] then Some (ApRef i RefNeedsName)
         else if wsr_Action ref = ActionApproval then Some (ApRef i RefInlineGate)
         else if wsr_Action ref = ActionHTTP \<and> withString (wsr_With ref) ''service'' = [] then Some (ApRef i RefService)
         else if wsr_Action ref = ActionHTTP \<and> withString (wsr_With ref) ''path'' = [] then Some (ApRef i RefPath)
         else if wsr_Timeout ref < 0 \<or> wsr_Timeout ref > maxTimeout then Some (ApRef i RefTimeout)
         else None)
      else if wsr_StepID ref = [] then Some (ApRef i RefKind) else None)"

definition fanoutMsg :: "nat \<Rightarrow> WorkflowStepRef \<Rightarrow> apMsg option" where
  "fanoutMsg i ref =
     orElse (Option.bind (wsr_Matrix ref) (\<lambda>m. map_option (\<lambda>e. ApRef i (RefMatrix e)) (validateMatrix m)))
       (case wsr_Scatter ref of
          None \<Rightarrow> None
        | Some c \<Rightarrow>
            if wsr_Matrix ref \<noteq> None then Some (ApRef i RefScatterMatrix)
            else if wsr_Action ref = [] then Some (ApRef i RefScatterInline)
            else map_option (\<lambda>e. ApRef i (RefScatter e)) (validateScatter c))"

definition validateStepRefShape :: "nat \<Rightarrow> WorkflowStepRef \<Rightarrow> apMsg option" where
  "validateStepRefShape i ref =
     (if wsr_Name ref \<noteq> [] \<and> validateResourceName (wsr_Name ref) \<noteq> None then Some (ApRef i RefName)
      else if wsr_Approval ref \<noteq> None then
        (if wsr_StepID ref \<noteq> [] \<or> wsr_Action ref \<noteq> [] then Some (ApRef i RefStepAndGate)
         else if wsr_Matrix ref \<noteq> None then Some (ApRef i RefGateMatrix) else None)
      else orElse (inlineMsg i ref) (fanoutMsg i ref))"

definition inputsMsg :: "WorkflowInputDef list \<Rightarrow> string set \<Rightarrow> apMsg option" where
  "inputsMsg ins seen0 = fst (fold (\<lambda>d (msg, seen).
     if msg \<noteq> None then (msg, seen)
     else if TrimSpace (wid_Name d) = [] then (Some (ApIO InputName), seen)
     else if wid_Name d \<in> seen then (Some (ApIO (InputDuplicate (wid_Name d))), seen)
     else (None, insert (wid_Name d) seen)) ins (None, seen0))"

definition outputsMsg :: "WorkflowOutputDef list \<Rightarrow> string set \<Rightarrow> apMsg option" where
  "outputsMsg outs seen0 = fst (fold (\<lambda>d (msg, seen).
     if msg \<noteq> None then (msg, seen)
     else if TrimSpace (wod_Name d) = [] then (Some (ApIO OutputName), seen)
     else if wod_Name d \<in> seen then (Some (ApIO (OutputDuplicate (wod_Name d))), seen)
     else if TrimSpace (wod_Value d) = [] then (Some (ApIO (OutputValue (wod_Name d))), insert (wod_Name d) seen)
     else (None, insert (wod_Name d) seen)) outs (None, seen0))"

definition validateWorkflowIO :: "WorkflowInputDef list \<Rightarrow> WorkflowOutputDef list \<Rightarrow> apMsg option" where
  "validateWorkflowIO ins outs = orElse (inputsMsg ins {}) (outputsMsg outs {})"

definition validateTicket :: "TicketConfig option \<Rightarrow> apMsg option" where
  "validateTicket t =
     (case t of
        None \<Rightarrow> None
      | Some c \<Rightarrow> if tc_Enabled c \<and> length (tc_Title c) > 500 then Some ApTicketTitle else None)"

text \<open>
  \<open>applyStateMachine\<close>: steps on the request win over its document, other fields of the document fill
  what the request left out.
\<close>

definition applyStateMachine :: "iterOrder \<Rightarrow> createWorkflowRequest \<Rightarrow> smError + createWorkflowRequest" where
  "applyStateMachine ord req =
     (case cwr_StateMachine req of
        None \<Rightarrow> Inr req
      | Some doc \<Rightarrow>
          if cwr_Steps req \<noteq> [] then Inr req
          else bindE (smToModel ord (Some doc)) (\<lambda>(steps, routes, maps).
            Inr (req\<lparr>cwr_Steps := steps, cwr_Routes := routes, cwr_Maps := maps,
                  cwr_Name := if cwr_Name req = [] then sd_Name doc else cwr_Name req,
                  cwr_Description := if cwr_Description req = [] then sd_Description doc else cwr_Description req,
                  cwr_Inputs := if cwr_Inputs req = [] then sd_Inputs doc else cwr_Inputs req,
                  cwr_Outputs := if cwr_Outputs req = [] then sd_Outputs doc else cwr_Outputs req\<rparr>)))"

section \<open>Stored steps of a pipeline\<close>

definition canAccessStep :: "Step \<Rightarrow> string \<Rightarrow> string \<Rightarrow> bool" where
  "canAccessStep s userID orgID \<longleftrightarrow> st_CreatedBy s = userID \<or> (orgID \<noteq> [] \<and> st_OrgID s = orgID)"

definition storedIDs :: "WorkflowStepRef list \<Rightarrow> string list" where
  "storedIDs refs = map wsr_StepID (filter (\<lambda>r. wsr_Approval r = None \<and> wsr_StepID r \<noteq> []) refs)"

definition stepsByID :: "'a Step_scheme list \<Rightarrow> string \<rightharpoonup> 'a Step_scheme" where
  "stepsByID steps = map_of (rev (map (\<lambda>s. (st_StepID s, s)) steps))"

text \<open>The loop of \<open>validateStepRefs\<close> over the references: the status and message of its answer.\<close>

fun stepRefsMsg ::
  "(string \<rightharpoonup> Step) \<Rightarrow> string \<Rightarrow> string \<Rightarrow> (nat \<times> WorkflowStepRef) list \<Rightarrow> (string \<rightharpoonup> nat) \<Rightarrow> (nat \<times> apMsg) option" where
  "stepRefsMsg found u og [] seen = None"
| "stepRefsMsg found u og ((i, ref) # refs) seen =
     (let stored = wsr_Approval ref = None \<and> wsr_StepID ref \<noteq> [];
          s = found (wsr_StepID ref);
          name = (if stored \<and> wsr_Name ref = [] then st_Name (the s) else wsr_Name ref)
      in if stored \<and> s = None then Some (400, ApRef i (RefNotFound (wsr_StepID ref)))
         else if stored \<and> \<not> canAccessStep (the s) u og then Some (404, ApRef i (RefNotFound (wsr_StepID ref)))
         else if stored \<and> wsr_Matrix ref \<noteq> None \<and> st_Action (the s) = ActionApproval then Some (400, ApRef i RefGateMatrix)
         else if name = [] then stepRefsMsg found u og refs seen
         else (case seen name of
                 Some first \<Rightarrow> Some (400, ApRef i (RefDuplicate name first))
               | None \<Rightarrow> stepRefsMsg found u og refs (seen(name \<mapsto> i))))"

text \<open>\<open>enrichStepRefs\<close>: the full step of each reference; a reference whose step is gone is left out.\<close>

definition synthesiseApprovalStep :: "ApprovalGate \<Rightarrow> WorkflowStep" where
  "synthesiseApprovalStep gate = Step.extend
     (stepOf ''approval'' ActionApproval
        ((if ap_Message gate \<noteq> [] then [(''message'', AStr (ap_Message gate))] else [])
         @ (if ap_Approvers gate \<noteq> [] then [(''approvers'', AArr (map AStr (ap_Approvers gate)))] else [])) 0)
     \<lparr>ws_Matrix = None, ws_Scatter = None, ws_Approval = Some gate, ws_MapID = [], ws_LoopID = []\<rparr>"

definition inlineStepOf :: "WorkflowStepRef \<Rightarrow> WorkflowStep" where
  "inlineStepOf ref = Step.extend
     ((stepOf (wsr_Name ref) (wsr_Action ref) (wsr_With ref) (wsr_Timeout ref))
        \<lparr>st_AllowUnresolved := wsr_AllowUnresolved ref, st_Permissions := wsr_Permissions ref\<rparr>)
     \<lparr>ws_Matrix = wsr_Matrix ref, ws_Scatter = wsr_Scatter ref, ws_Approval = None,
      ws_MapID = wsr_MapID ref, ws_LoopID = wsr_LoopID ref\<rparr>"

definition storedStepOf :: "WorkflowStepRef \<Rightarrow> Step \<Rightarrow> WorkflowStep" where
  "storedStepOf ref s = Step.extend
     (s\<lparr>st_Name := if wsr_Name ref \<noteq> [] then wsr_Name ref else st_Name s,
        st_With := fold (\<lambda>(k, v). AList.update k v) (wsr_With ref) (st_With s),
        st_AllowUnresolved := wsr_AllowUnresolved ref, st_Permissions := wsr_Permissions ref\<rparr>)
     \<lparr>ws_Matrix = wsr_Matrix ref, ws_Scatter = wsr_Scatter ref, ws_Approval = None,
      ws_MapID = wsr_MapID ref, ws_LoopID = wsr_LoopID ref\<rparr>"

definition enrichRef :: "(string \<rightharpoonup> Step) \<Rightarrow> WorkflowStepRef \<Rightarrow> WorkflowStep option" where
  "enrichRef byID ref =
     (case wsr_Approval ref of
        Some gate \<Rightarrow>
          (let ws = synthesiseApprovalStep gate
           in Some (if wsr_Name ref \<noteq> [] then ws\<lparr>st_Name := wsr_Name ref\<rparr> else ws))
      | None \<Rightarrow>
          if wsr_StepID ref = [] \<and> wsr_Action ref \<noteq> [] then Some (inlineStepOf ref)
          else map_option (storedStepOf ref) (byID (wsr_StepID ref)))"

definition enrichStepRefs :: "bool \<Rightarrow> Step list \<Rightarrow> WorkflowStepRef list \<Rightarrow> dbErr + WorkflowStep list" where
  "enrichStepRefs down steps refs =
     (let ids = storedIDs refs
      in bindE (if ids = [] then Inr []
                else findRows down (\<lambda>s. st_StepID s \<in> set ids \<and> st_Active s) steps)
           (\<lambda>rows. Inr (List.map_filter (enrichRef (stepsByID rows)) refs)))"

section \<open>The permissions of a pipeline\<close>

record AsyncConfig =
  ac_IDField :: string
  ac_PollPath :: string
  ac_PollIntervalSecs :: int
  ac_StatusField :: string
  ac_SuccessStates :: "string list"
  ac_FailureStates :: "string list"
  ac_CancelStates :: "string list"
  ac_QueuedStates :: "string list"
  ac_OutputField :: string
  ac_OutputMapField :: string
  ac_ErrorFields :: "string list"

record BodyTransform =
  bt_FromKey :: string
  bt_ToKey :: string
  bt_Wrap :: "string list"

record ActionDef =
  ad_Name :: string
  ad_Summary :: string
  ad_Description :: string
  ad_ServiceName :: string
  ad_ServiceURL :: string
  ad_Method :: string
  ad_Path :: string
  ad_BodyTransforms :: "BodyTransform list"
  ad_Async :: "AsyncConfig option"
  ad_RequiredPermission :: "PermissionSpec option"

type_synonym actionCatalog = "string \<rightharpoonup> ActionDef"

text \<open>\<open>resourcePathParamRe\<close> is \<open>\{[^}]+\}\<close>; every match becomes a star.\<close>

function wildcardPathParams :: "string \<Rightarrow> string" where
  "wildcardPathParams [] = []"
| "wildcardPathParams (c # s) =
     (let body = takeWhile (\<lambda>d. d \<noteq> CHR ''}'') s; rest = dropWhile (\<lambda>d. d \<noteq> CHR ''}'') s
      in if c = CHR ''{'' \<and> body \<noteq> [] \<and> rest \<noteq> [] then CHR ''*'' # wildcardPathParams (List.tl rest)
         else c # wildcardPathParams s)"
  by pat_completeness auto
termination
  by (relation "measure length") (auto intro!: le_imp_less_Suc le_trans[OF diff_le_self] length_dropWhile_le)

definition spec :: "string \<Rightarrow> string \<Rightarrow> string \<Rightarrow> PermissionSpec" where
  "spec service action resource = \<lparr>ps_Service = service, ps_Action = action, ps_Resource = resource\<rparr>"

definition wildSpec :: "PermissionSpec \<Rightarrow> PermissionSpec" where
  "wildSpec p = p\<lparr>ps_Resource := wildcardPathParams (ps_Resource p)\<rparr>"

definition permKey :: "PermissionSpec \<Rightarrow> string" where
  "permKey p = ps_Service p @ '':'' @ ps_Action p @ '':'' @ ps_Resource p"

type_synonym permAcc = "string set \<times> PermissionSpec list"

definition addPerm :: "PermissionSpec \<Rightarrow> permAcc \<Rightarrow> permAcc" where
  "addPerm p = (\<lambda>(seen, out). if permKey p \<in> seen then (seen, out) else (insert (permKey p) seen, out @ [p]))"

text \<open>
  \<open>addAction\<close>: the required permission of a catalog action and what goes with it, the companions
  (\<open>p\<close> is the required permission with its path parameters replaced).
\<close>

definition trimRightSlash :: "string \<Rightarrow> string" where
  "trimRightSlash s = rev (dropWhile (\<lambda>c. c = CHR ''/'') (rev s))"

definition companions :: "bool \<Rightarrow> PermissionSpec \<Rightarrow> PermissionSpec list" where
  "companions async p =
     (if async \<and> HasPrefix (ps_Action p) ''create''
      then [spec (ps_Service p) (''get'' @ TrimPrefix (ps_Action p) ''create'') (trimRightSlash (ps_Resource p) @ ''/*'')]
      else [])
     @ (if ps_Action p = ''createVolume'' then [spec (ps_Service p) ''deleteVolume'' (ps_Resource p)] else [])
     @ (if ps_Action p = ''triggerRun''
        then map (\<lambda>act. spec (ps_Service p) act ''workflows/runs/*'') [''triggerRun'', ''getRun''] else [])
     @ (if ps_Action p = ''enqueueCommand''
        then [spec (ps_Service p) ''getCommand'' ''outpost-gateway/outpost-commands/*''] else [])"

definition addAction :: "actionCatalog \<Rightarrow> string \<Rightarrow> permAcc \<Rightarrow> permAcc" where
  "addAction catalog action acc =
     (case catalog action of
        None \<Rightarrow> acc
      | Some def \<Rightarrow>
          (case ad_RequiredPermission def of
             None \<Rightarrow> acc
           | Some req \<Rightarrow>
               (let p = wildSpec req
                in if permKey p \<in> fst acc then acc
                   else fold addPerm (companions (ad_Async def \<noteq> None) p) (addPerm p acc))))"

definition addSpec :: "PermissionSpec \<Rightarrow> permAcc \<Rightarrow> permAcc" where
  "addSpec p acc =
     (if ps_Service p = [] \<or> ps_Action p = [] \<or> ps_Resource p = [] then acc else addPerm (wildSpec p) acc)"

text \<open>The forge actions a scatter step and a map region with a volume drive.\<close>

definition scatterActions :: "string list" where
  "scatterActions = [''forge/resolve-paths'', ''forge/create-volume'', ''forge/volume-copy'']"

definition mapActions :: "string list" where
  "mapActions = [''forge/create-volume'', ''forge/volume-copy'']"

definition addStepPerms :: "actionCatalog \<Rightarrow> WorkflowStep \<Rightarrow> permAcc \<Rightarrow> permAcc" where
  "addStepPerms catalog ws acc =
     (let acc1 = fold addSpec (st_Permissions ws) acc
      in if st_Action ws = ActionHTTP then acc1
         else (let acc2 = addAction catalog (st_Action ws) acc1
               in if ws_Scatter ws \<noteq> None then fold (addAction catalog) scatterActions acc2 else acc2))"

definition ticketPermissions :: "PermissionSpec list" where
  "ticketPermissions =
     [spec ''tickets'' ''createTicket'' ''tickets/tickets'', spec ''tickets'' ''updateTicket'' ''tickets/tickets/*'',
      spec ''tickets'' ''createComment'' ''tickets/tickets/*'']"

definition mirrored :: "TicketConfig option \<Rightarrow> bool" where
  "mirrored t = (case t of None \<Rightarrow> False | Some c \<Rightarrow> tc_Enabled c)"

definition collectWorkflowPermissions ::
  "actionCatalog \<Rightarrow> WorkflowStep list \<Rightarrow> MapDef list \<Rightarrow> TicketConfig option \<Rightarrow> PermissionSpec list" where
  "collectWorkflowPermissions catalog steps maps ticket =
     (let acc1 = fold (addStepPerms catalog) steps ({}, []);
          acc2 = fold (\<lambda>d acc. if md_Volume d \<noteq> [] then fold (addAction catalog) mapActions acc else acc) maps acc1
      in snd (if mirrored ticket then fold addPerm ticketPermissions acc2 else acc2))"

end
