(* ===== verification/Wf_Api.thy ===== *)
theory Wf_Api
  imports Wf_Author
begin

text \<open>
  The workflow service over its database: the queries of \<open>db.go\<close> and \<open>names.go\<close>, the life of a
  pipeline's role (\<open>api_workflows.go\<close>), the project checks of \<open>project.go\<close>, and the handlers that
  create, read, change and delete steps and pipelines.

  A table is the list of its rows, in the order \<open>First\<close> reads them; \<open>wdb_down\<close> and \<open>wdb_ro\<close> say which
  tables cannot be read or written.  What gatekeeper answers is the environment of a request, what the
  service asked it to create, delete or revoke is recorded in order.
\<close>

section \<open>The database\<close>

datatype rowStatus = RowPending | RowRunning | RowCompleted | RowFailed | RowCancelled | RowAwaiting | RowWaiting

record WorkflowRun =
  run_RunID :: string
  run_WorkflowID :: string
  run_TriggeredBy :: string
  run_OrgID :: string
  run_Project :: string
  run_ProjectID :: string
  run_ProjectNamespace :: string
  run_Status :: rowStatus
  run_CurrentStep :: int
  run_Inputs :: "(string \<times> string) list"
  run_Outputs :: "(string \<times> string) list"
  run_Depth :: int
  run_ParentRunID :: string
  run_TicketID :: string
  run_Token :: "string option"
  run_RunSessionID :: "string option"
  run_RoleID :: string
  run_HeartbeatAt :: "int option"
  run_CreatedAt :: int
  run_StartedAt :: "int option"
  run_EndedAt :: "int option"

record WorkflowStepRun =
  srn_StepRunID :: string
  srn_RunID :: string
  srn_StepIndex :: int
  srn_StepName :: string
  srn_Status :: rowStatus
  srn_Output :: "string option"
  srn_Logs :: "string option"
  srn_MemoryUsedMB :: "int option"
  srn_MemoryLimitMB :: "int option"
  srn_JobAction :: string
  srn_JobID :: string
  srn_StartedAt :: "int option"
  srn_EndedAt :: "int option"

datatype wfTable = TSteps | TWorkflows | TRuns | TStepRuns

record wfDB =
  wdb_steps :: "Step list"
  wdb_workflows :: "Workflow list"
  wdb_runs :: "WorkflowRun list"
  wdb_stepRuns :: "WorkflowStepRun list"
  wdb_down :: "wfTable \<Rightarrow> bool"
  wdb_ro :: "wfTable \<Rightarrow> bool"

text \<open>\<open>ownerScope\<close> of \<open>names.go\<close>: the rows a caller owns or shares through the organisation.\<close>

definition inScope :: "bool \<Rightarrow> string \<Rightarrow> string \<Rightarrow> string \<Rightarrow> string \<Rightarrow> bool" where
  "inScope active createdBy rowOrg userID orgID \<longleftrightarrow>
     active \<and> (createdBy = userID \<or> (rowOrg \<noteq> [] \<and> rowOrg = orgID))"

definition stepInScope :: "string \<Rightarrow> string \<Rightarrow> Step \<Rightarrow> bool" where
  "stepInScope u og s = inScope (st_Active s) (st_CreatedBy s) (st_OrgID s) u og"

definition wfInScope :: "string \<Rightarrow> string \<Rightarrow> Workflow \<Rightarrow> bool" where
  "wfInScope u og wfl = inScope (wf_Active wfl) (wf_CreatedBy wfl) (wf_OrgID wfl) u og"

subsection \<open>Steps\<close>

definition getStep :: "wfDB \<Rightarrow> string \<Rightarrow> dbErr + Step" where
  "getStep db i = firstRow (wdb_down db TSteps) (\<lambda>s. st_StepID s = i \<and> st_Active s) (wdb_steps db)"

definition getStepsByIDs :: "wfDB \<Rightarrow> string list \<Rightarrow> dbErr + Step list" where
  "getStepsByIDs db ids =
     findRows (wdb_down db TSteps) (\<lambda>s. st_StepID s \<in> set ids \<and> st_Active s) (wdb_steps db)"

definition listSteps :: "wfDB \<Rightarrow> string \<Rightarrow> string \<Rightarrow> string \<Rightarrow> dbErr + Step list" where
  "listSteps db u og name =
     bindE (findRows (wdb_down db TSteps) (\<lambda>s. stepInScope u og s \<and> (name \<noteq> [] \<longrightarrow> st_Name s = name)) (wdb_steps db))
       (\<lambda>rows. Inr (take 200 (sort_key st_Name rows)))"

definition exists :: "dbErr + 'a \<Rightarrow> dbErr + bool" where
  "exists r = (case r of Inr _ \<Rightarrow> Inr True | Inl ErrRecordNotFound \<Rightarrow> Inr False | Inl ErrDatabase \<Rightarrow> Inl ErrDatabase)"

definition stepNameConflict :: "wfDB \<Rightarrow> string \<Rightarrow> string \<Rightarrow> string \<Rightarrow> string \<Rightarrow> dbErr + bool" where
  "stepNameConflict db name excludeID u og =
     exists (firstRow (wdb_down db TSteps)
       (\<lambda>s. st_Name s = name \<and> st_StepID s \<noteq> excludeID \<and> stepInScope u og s) (wdb_steps db))"

definition stepNameExists :: "wfDB \<Rightarrow> string \<Rightarrow> string \<Rightarrow> string \<Rightarrow> dbErr + bool" where
  "stepNameExists db name u og =
     exists (firstRow (wdb_down db TSteps) (\<lambda>s. st_Name s = name \<and> stepInScope u og s) (wdb_steps db))"

definition resolveStepRef :: "wfDB \<Rightarrow> string \<Rightarrow> string \<Rightarrow> string \<Rightarrow> dbErr + Step" where
  "resolveStepRef db ref u og =
     (case firstRow (wdb_down db TSteps) (\<lambda>s. st_Name s = ref \<and> stepInScope u og s) (wdb_steps db) of
        Inr s \<Rightarrow> Inr s
      | Inl ErrDatabase \<Rightarrow> Inl ErrDatabase
      | Inl ErrRecordNotFound \<Rightarrow> getStep db ref)"

text \<open>The fields marked \<open>gorm:"-"\<close> are not columns.  \<open>Save\<close> updates the row of the key or inserts one.\<close>

definition stepColumns :: "Step \<Rightarrow> Step" where
  "stepColumns s = s\<lparr>st_AllowUnresolved := False, st_Permissions := []\<rparr>"

definition addStep :: "Step \<Rightarrow> wfDB \<Rightarrow> wfDB option" where
  "addStep s db =
     (if wdb_ro db TSteps \<or> st_StepID s \<in> st_StepID ` set (wdb_steps db) then None
      else Some (db\<lparr>wdb_steps := wdb_steps db @ [stepColumns s]\<rparr>))"

definition saveRow :: "('a \<Rightarrow> string) \<Rightarrow> 'a \<Rightarrow> 'a list \<Rightarrow> 'a list" where
  "saveRow k r rows =
     (if k r \<in> k ` set rows then map (\<lambda>x. if k x = k r then r else x) rows else rows @ [r])"

definition updateStep :: "int \<Rightarrow> Step \<Rightarrow> wfDB \<Rightarrow> wfDB option" where
  "updateStep now s db =
     (if wdb_ro db TSteps then None
      else Some (db\<lparr>wdb_steps := saveRow st_StepID (stepColumns (s\<lparr>st_UpdatedAt := now\<rparr>)) (wdb_steps db)\<rparr>))"

definition removeStep :: "int \<Rightarrow> string \<Rightarrow> wfDB \<Rightarrow> wfDB option" where
  "removeStep now i db =
     (if wdb_ro db TSteps then None
      else Some (db\<lparr>wdb_steps := map (\<lambda>s. if st_StepID s = i \<and> st_Active s
                      then s\<lparr>st_Active := False, st_UpdatedAt := now\<rparr> else s) (wdb_steps db)\<rparr>))"

subsection \<open>Pipelines\<close>

definition enrichRefs :: "wfDB \<Rightarrow> WorkflowStepRef list \<Rightarrow> dbErr + WorkflowStep list" where
  "enrichRefs db refs = enrichStepRefs (wdb_down db TSteps) (wdb_steps db) refs"

definition enriched :: "wfDB \<Rightarrow> Workflow \<Rightarrow> dbErr + Workflow" where
  "enriched db wfl = bindE (enrichRefs db (wf_StepRefs wfl)) (\<lambda>steps. Inr (wfl\<lparr>wf_Steps := steps\<rparr>))"

definition getWorkflow :: "wfDB \<Rightarrow> string \<Rightarrow> dbErr + Workflow" where
  "getWorkflow db i =
     bindE (firstRow (wdb_down db TWorkflows) (\<lambda>wfl. wf_WorkflowID wfl = i \<and> wf_Active wfl) (wdb_workflows db))
       (enriched db)"

definition resolveWorkflowRef :: "wfDB \<Rightarrow> string \<Rightarrow> string \<Rightarrow> string \<Rightarrow> dbErr + Workflow" where
  "resolveWorkflowRef db ref u og =
     (case firstRow (wdb_down db TWorkflows) (\<lambda>wfl. wf_Name wfl = ref \<and> wfInScope u og wfl) (wdb_workflows db) of
        Inr wfl \<Rightarrow> enriched db wfl
      | Inl ErrDatabase \<Rightarrow> Inl ErrDatabase
      | Inl ErrRecordNotFound \<Rightarrow> getWorkflow db ref)"

definition workflowNameConflict :: "wfDB \<Rightarrow> string \<Rightarrow> string \<Rightarrow> string \<Rightarrow> string \<Rightarrow> dbErr + bool" where
  "workflowNameConflict db name excludeID u og =
     exists (firstRow (wdb_down db TWorkflows)
       (\<lambda>wfl. wf_Name wfl = name \<and> wf_WorkflowID wfl \<noteq> excludeID \<and> wfInScope u og wfl) (wdb_workflows db))"

definition workflowNameExists :: "wfDB \<Rightarrow> string \<Rightarrow> string \<Rightarrow> string \<Rightarrow> dbErr + bool" where
  "workflowNameExists db name u og = workflowNameConflict db name [] u og"

definition workflowColumns :: "Workflow \<Rightarrow> Workflow" where
  "workflowColumns wfl = wfl\<lparr>wf_Steps := [], wf_StateMachine := None, wf_LastRunAt := None\<rparr>"

text \<open>On insert a zero time-out takes the column default of 1800 seconds.\<close>

definition addWorkflow :: "Workflow \<Rightarrow> wfDB \<Rightarrow> wfDB option" where
  "addWorkflow wfl db =
     (if wdb_ro db TWorkflows \<or> wf_WorkflowID wfl \<in> wf_WorkflowID ` set (wdb_workflows db) then None
      else Some (db\<lparr>wdb_workflows := wdb_workflows db @
             [workflowColumns (wfl\<lparr>wf_TimeoutSecs := if wf_TimeoutSecs wfl = 0 then 1800 else wf_TimeoutSecs wfl\<rparr>)]\<rparr>))"

definition updateWorkflow :: "int \<Rightarrow> Workflow \<Rightarrow> wfDB \<Rightarrow> wfDB option" where
  "updateWorkflow now wfl db =
     (if wdb_ro db TWorkflows then None
      else Some (db\<lparr>wdb_workflows :=
             saveRow wf_WorkflowID (workflowColumns (wfl\<lparr>wf_UpdatedAt := now\<rparr>)) (wdb_workflows db)\<rparr>))"

definition removeWorkflow :: "int \<Rightarrow> string \<Rightarrow> wfDB \<Rightarrow> wfDB option" where
  "removeWorkflow now i db =
     (if wdb_ro db TWorkflows then None
      else Some (db\<lparr>wdb_workflows := map (\<lambda>wfl. if wf_WorkflowID wfl = i \<and> wf_Active wfl
                      then wfl\<lparr>wf_Active := False, wf_UpdatedAt := now\<rparr> else wfl) (wdb_workflows db)\<rparr>))"

text \<open>\<open>listWorkflows\<close> with \<open>populateLastRunAt\<close>, whose failure only leaves the times out.\<close>

definition lastRunAt :: "WorkflowRun list \<Rightarrow> string \<Rightarrow> int option" where
  "lastRunAt runs i =
     (case map run_CreatedAt (filter (\<lambda>r. run_WorkflowID r = i) runs) of
        [] \<Rightarrow> None | t # ts \<Rightarrow> Some (fold max ts t))"

definition populateLastRunAt :: "wfDB \<Rightarrow> Workflow list \<Rightarrow> Workflow list" where
  "populateLastRunAt db wfs =
     (if wdb_down db TRuns then wfs
      else map (\<lambda>wfl. case lastRunAt (wdb_runs db) (wf_WorkflowID wfl) of
                       None \<Rightarrow> wfl | Some t \<Rightarrow> wfl\<lparr>wf_LastRunAt := Some t\<rparr>) wfs)"

definition listWorkflows :: "wfDB \<Rightarrow> string \<Rightarrow> string \<Rightarrow> string \<Rightarrow> string list \<Rightarrow> dbErr + Workflow list" where
  "listWorkflows db u og project projectIDs =
     bindE (findRows (wdb_down db TWorkflows)
             (\<lambda>wfl. wf_Active wfl
                \<and> (wf_CreatedBy wfl = u \<or> (wf_OrgID wfl \<noteq> [] \<and> wf_OrgID wfl = og) \<or> wf_ProjectID wfl \<in> set projectIDs)
                \<and> (project \<noteq> [] \<longrightarrow> wf_Project wfl = project)) (wdb_workflows db))
       (\<lambda>rows. Inr (populateLastRunAt db (take 100 (sort_key (\<lambda>wfl. - wf_CreatedAt wfl) rows))))"

definition roleInUseByActiveRun :: "wfDB \<Rightarrow> string \<Rightarrow> dbErr + bool" where
  "roleInUseByActiveRun db roleID =
     (if roleID = [] then Inr False
      else bindE (findRows (wdb_down db TRuns)
                   (\<lambda>r. run_RoleID r = roleID \<and> run_Status r \<in> {RowPending, RowRunning}) (wdb_runs db))
             (\<lambda>rows. Inr (rows \<noteq> [])))"

section \<open>The environment of a request and what it does outside the database\<close>

record accessibleProject =
  apr_ProjectID :: string
  apr_Slug :: string
  apr_Namespace :: string
  apr_Tier :: string

text \<open>
  \<open>ae_newRole\<close> answers \<open>POST /internal/workflow-roles\<close>: nothing for a failure or another status than 201.
  \<open>ae_projects\<close> and \<open>ae_ancestors\<close> answer the project queries, \<open>ae_projectPerm\<close> is the decision on an
  action and resource, \<open>ae_runToken\<close> answers \<open>POST /internal/run-tokens\<close>; the number makes two calls differ.
\<close>

record 'p apEnv =
  ae_auth :: "string \<Rightarrow> string \<Rightarrow> (string \<times> string) option"
  ae_bearer :: string
  ae_uuid :: "nat \<Rightarrow> string"
  ae_now :: int
  ae_order :: iterOrder
  ae_compile :: "string \<Rightarrow> string + 'p"
  ae_catalog :: actionCatalog
  ae_key :: string
  ae_newRole :: "nat \<Rightarrow> string \<Rightarrow> string \<Rightarrow> string \<Rightarrow> PermissionSpec list \<Rightarrow> string option"
  ae_projects :: "accessibleProject list option"
  ae_ancestors :: "string \<Rightarrow> accessibleProject list option"
  ae_projectPerm :: "string \<Rightarrow> string \<Rightarrow> bool"
  ae_runToken :: "nat \<Rightarrow> string \<Rightarrow> string \<Rightarrow> (string \<times> string) option"
  ae_encrypt :: "string \<Rightarrow> string option"

datatype gkCall =
    GkRoleCreated string "PermissionSpec list"
  | GkRoleDeleted string
  | GkTokenMinted string string string
  | GkTokenRevoked string

record apWorld =
  aw_db :: wfDB
  aw_n :: nat
  aw_calls :: "gkCall list"

definition call :: "gkCall \<Rightarrow> apWorld \<Rightarrow> apWorld" where
  "call c w = w\<lparr>aw_calls := aw_calls w @ [c]\<rparr>"

definition tick :: "apWorld \<Rightarrow> apWorld" where
  "tick w = w\<lparr>aw_n := aw_n w + 1\<rparr>"

definition putDB :: "wfDB \<Rightarrow> apWorld \<Rightarrow> apWorld" where
  "putDB db w = w\<lparr>aw_db := db\<rparr>"

text \<open>A handler answers with a value or a failure; \<open>ApPanicked\<close> is a run-time panic.\<close>

datatype apFail = ApDenied | ApPanicked | ApFail nat apMsg

type_synonym 'a apReply = "apFail + 'a"

definition authorized :: "'p apEnv \<Rightarrow> string \<Rightarrow> string \<Rightarrow> (string \<times> string) apReply" where
  "authorized E action resource = (case ae_auth E action resource of None \<Rightarrow> Inl ApDenied | Some ids \<Rightarrow> Inr ids)"

definition decoded :: "'a option \<Rightarrow> 'a apReply" where
  "decoded body = (case body of None \<Rightarrow> Inl (ApFail 400 ApInvalidBody) | Some req \<Rightarrow> Inr req)"

definition failIf :: "bool \<Rightarrow> nat \<Rightarrow> apMsg \<Rightarrow> unit apReply" where
  "failIf b status m = (if b then Inl (ApFail status m) else Inr ())"

definition failMsg :: "nat \<Rightarrow> apMsg option \<Rightarrow> unit apReply" where
  "failMsg status m = (case m of None \<Rightarrow> Inr () | Some e \<Rightarrow> Inl (ApFail status e))"

definition failDB :: "dbErr + 'a \<Rightarrow> 'a apReply" where
  "failDB r = (case r of Inl e \<Rightarrow> Inl (ApFail 500 ApServerProblem) | Inr x \<Rightarrow> Inr x)"

text \<open>Loading a row: a missing one is 404.\<close>

definition failRow :: "dbErr + 'a \<Rightarrow> 'a apReply" where
  "failRow r =
     (case r of
        Inl ErrRecordNotFound \<Rightarrow> Inl (ApFail 404 ApNotFound)
      | Inl ErrDatabase \<Rightarrow> Inl (ApFail 500 ApServerProblem)
      | Inr x \<Rightarrow> Inr x)"

section \<open>The role of a pipeline\<close>

definition workflowRolePermsVersion :: int where "workflowRolePermsVersion = 6"

definition provisionWorkflowRole ::
  "'p apEnv \<Rightarrow> string \<Rightarrow> string \<Rightarrow> string \<Rightarrow> WorkflowStep list \<Rightarrow> MapDef list \<Rightarrow> TicketConfig option
   \<Rightarrow> apWorld \<Rightarrow> (unit + string) \<times> apWorld" where
  "provisionWorkflowRole E i userID orgID steps maps ticket w =
     (let perms = collectWorkflowPermissions (ae_catalog E) steps maps ticket
      in if perms = [] then (Inr [], w)
         else if ae_key E = [] then (Inl (), w)
         else (case ae_newRole E (aw_n w) i userID orgID perms of
                 None \<Rightarrow> (Inl (), tick w)
               | Some r \<Rightarrow>
                   if r = [] then (Inl (), tick w) else (Inr r, call (GkRoleCreated r perms) (tick w))))"

definition deleteWorkflowRole :: "'p apEnv \<Rightarrow> string \<Rightarrow> apWorld \<Rightarrow> apWorld" where
  "deleteWorkflowRole E roleID w =
     (if roleID = [] \<or> ae_key E = [] then w else call (GkRoleDeleted roleID) w)"

definition deleteWorkflowRoleIfUnused :: "'p apEnv \<Rightarrow> string \<Rightarrow> string \<Rightarrow> apWorld \<Rightarrow> apWorld" where
  "deleteWorkflowRoleIfUnused E roleID keepRoleID w =
     (if roleID = [] \<or> roleID = keepRoleID then w
      else if roleInUseByActiveRun (aw_db w) roleID = Inr False then deleteWorkflowRole E roleID w else w)"

section \<open>Projects\<close>

definition canAccessWorkflow :: "Workflow \<Rightarrow> string \<Rightarrow> string \<Rightarrow> bool" where
  "canAccessWorkflow wfl u og \<longleftrightarrow> wf_CreatedBy wfl = u \<or> (og \<noteq> [] \<and> wf_OrgID wfl = og)"

definition fetchAccessibleProjects :: "'p apEnv \<Rightarrow> accessibleProject list" where
  "fetchAccessibleProjects E =
     (if ae_bearer E = [] then [] else case ae_projects E of None \<Rightarrow> [] | Some ps \<Rightarrow> ps)"

definition resolveProjectSlug :: "'p apEnv \<Rightarrow> string \<Rightarrow> accessibleProject option" where
  "resolveProjectSlug E slug =
     (if slug = [] then None
      else (let ps = filter (\<lambda>p. apr_Slug p = slug) (fetchAccessibleProjects E)
            in case find (\<lambda>p. apr_Tier p = ''owner'') ps of
                 Some p \<Rightarrow> Some p
               | None \<Rightarrow> (case ps of [] \<Rightarrow> None | p # _ \<Rightarrow> Some p)))"

definition projectResource :: "string \<Rightarrow> string \<Rightarrow> string \<Rightarrow> string" where
  "projectResource collection slug i =
     ''project/'' @ slug @ ''/workflows/'' @ collection @ (if i \<noteq> [] then ''/'' @ i else ''/*'')"

definition checkProjectPermission :: "'p apEnv \<Rightarrow> string \<Rightarrow> string \<Rightarrow> string \<Rightarrow> string \<Rightarrow> bool" where
  "checkProjectPermission E action collection slug i \<longleftrightarrow>
     ae_bearer E \<noteq> [] \<and> slug \<noteq> [] \<and> ae_projectPerm E action (projectResource collection slug i)"

definition authorizeWorkflow :: "'p apEnv \<Rightarrow> string \<Rightarrow> Workflow \<Rightarrow> string \<Rightarrow> string \<Rightarrow> bool" where
  "authorizeWorkflow E action wfl u og \<longleftrightarrow>
     canAccessWorkflow wfl u og
     \<or> (wf_ProjectID wfl \<noteq> [] \<and> wf_Project wfl \<noteq> []
        \<and> checkProjectPermission E action ''pipelines'' (wf_Project wfl) (wf_WorkflowID wfl))"

text \<open>Loading the pipeline a request names, for an action the caller may take on it.\<close>

definition loadWorkflow :: "'p apEnv \<Rightarrow> string \<Rightarrow> string \<Rightarrow> string \<Rightarrow> string \<Rightarrow> wfDB \<Rightarrow> Workflow apReply" where
  "loadWorkflow E action ref u og db =
     bindE (failRow (resolveWorkflowRef db ref u og)) (\<lambda>wfl.
     bindE (failIf (\<not> authorizeWorkflow E action wfl u og) 404 ApNotFound) (\<lambda>_. Inr wfl))"

section \<open>The handlers of steps\<close>

definition stepTimeout :: "int \<Rightarrow> int" where
  "stepTimeout t = (if t = 0 then defaultTimeout else t)"

definition createStepPlan :: "'p apEnv \<Rightarrow> createStepRequest option \<Rightarrow> wfDB \<Rightarrow> nat \<Rightarrow> Step apReply" where
  "createStepPlan E body db n =
     bindE (authorized E ''createStep'' ''workflows/steps'') (\<lambda>(u, og).
     bindE (decoded body) (\<lambda>req.
     bindE (failMsg 400 (validateStepRequest req)) (\<lambda>_.
     bindE (failMsg 400 (validateResourceName (csr_Name req))) (\<lambda>_.
     bindE (failDB (stepNameExists db (csr_Name req) u og)) (\<lambda>taken.
     bindE (failIf taken 409 ApNameTaken) (\<lambda>_.
       Inr \<lparr>st_StepID = ae_uuid E n, st_Name = csr_Name req, st_Description = csr_Description req,
            st_Action = csr_Action req, st_With = csr_With req, st_Timeout = stepTimeout (csr_Timeout req),
            st_AllowUnresolved = False, st_Permissions = [], st_CreatedBy = u, st_OrgID = og, st_Active = True,
            st_CreatedAt = ae_now E, st_UpdatedAt = ae_now E\<rparr>))))))"

definition handleCreateStep ::
  "'p apEnv \<Rightarrow> createStepRequest option \<Rightarrow> apWorld \<Rightarrow> Step apReply \<times> apWorld" where
  "handleCreateStep E body w =
     (case createStepPlan E body (aw_db w) (aw_n w) of
        Inl e \<Rightarrow> (Inl e, w)
      | Inr s \<Rightarrow>
          (case addStep s (aw_db w) of
             None \<Rightarrow> (Inl (ApFail 500 ApServerProblem), tick w)
           | Some db \<Rightarrow> (Inr s, putDB db (tick w))))"

definition handleListSteps :: "'p apEnv \<Rightarrow> string \<Rightarrow> apWorld \<Rightarrow> Step list apReply" where
  "handleListSteps E name w =
     bindE (authorized E ''listStep'' ''workflows/steps'') (\<lambda>(u, og). failDB (listSteps (aw_db w) u og name))"

definition loadStep :: "string \<Rightarrow> string \<Rightarrow> string \<Rightarrow> wfDB \<Rightarrow> Step apReply" where
  "loadStep ref u og db =
     bindE (failRow (resolveStepRef db ref u og)) (\<lambda>s.
     bindE (failIf (\<not> canAccessStep s u og) 404 ApNotFound) (\<lambda>_. Inr s))"

definition handleGetStep :: "'p apEnv \<Rightarrow> string \<Rightarrow> apWorld \<Rightarrow> Step apReply" where
  "handleGetStep E ref w =
     bindE (authorized E ''getStep'' (''workflows/steps/'' @ ref)) (\<lambda>(u, og). loadStep ref u og (aw_db w))"

definition updateStepPlan ::
  "'p apEnv \<Rightarrow> string \<Rightarrow> createStepRequest option \<Rightarrow> wfDB \<Rightarrow> Step apReply" where
  "updateStepPlan E ref body db =
     bindE (authorized E ''updateStep'' (''workflows/steps/'' @ ref)) (\<lambda>(u, og).
     bindE (loadStep ref u og db) (\<lambda>existing.
     bindE (decoded body) (\<lambda>req.
     bindE (failMsg 400 (validateStepRequest req)) (\<lambda>_.
     bindE (failMsg 400 (if csr_Name req \<noteq> st_Name existing then validateResourceName (csr_Name req) else None)) (\<lambda>_.
     bindE (failDB (stepNameConflict db (csr_Name req) (st_StepID existing) u og)) (\<lambda>conflict.
     bindE (failIf conflict 409 ApNameTaken) (\<lambda>_.
       Inr (existing\<lparr>st_Name := csr_Name req, st_Description := csr_Description req,
              st_Action := csr_Action req, st_With := csr_With req, st_Timeout := stepTimeout (csr_Timeout req)\<rparr>))))))))"

definition handleUpdateStep ::
  "'p apEnv \<Rightarrow> string \<Rightarrow> createStepRequest option \<Rightarrow> apWorld \<Rightarrow> Step apReply \<times> apWorld" where
  "handleUpdateStep E ref body w =
     (case updateStepPlan E ref body (aw_db w) of
        Inl e \<Rightarrow> (Inl e, w)
      | Inr s \<Rightarrow>
          (case updateStep (ae_now E) s (aw_db w) of
             None \<Rightarrow> (Inl (ApFail 500 ApServerProblem), w)
           | Some db \<Rightarrow> (failDB (getStep db (st_StepID s)), putDB db w)))"

definition handleDeleteStep :: "'p apEnv \<Rightarrow> string \<Rightarrow> apWorld \<Rightarrow> unit apReply \<times> apWorld" where
  "handleDeleteStep E ref w =
     (case bindE (authorized E ''deleteStep'' (''workflows/steps/'' @ ref)) (\<lambda>(u, og). loadStep ref u og (aw_db w)) of
        Inl e \<Rightarrow> (Inl e, w)
      | Inr s \<Rightarrow>
          (case removeStep (ae_now E) (st_StepID s) (aw_db w) of
             None \<Rightarrow> (Inl (ApFail 500 ApServerProblem), w)
           | Some db \<Rightarrow> (Inr (), putDB db w)))"

section \<open>The handlers of pipelines\<close>

definition validateStepRefs :: "wfDB \<Rightarrow> WorkflowStepRef list \<Rightarrow> string \<Rightarrow> string \<Rightarrow> unit apReply" where
  "validateStepRefs db refs u og =
     (let ids = storedIDs refs
      in if ids = [] then Inr ()
         else bindE (failDB (getStepsByIDs db ids)) (\<lambda>steps.
                case stepRefsMsg (stepsByID steps) u og (enumerate 0 refs) Map.empty of
                  None \<Rightarrow> Inr ()
                | Some (status, m) \<Rightarrow> Inl (ApFail status m)))"

definition documentOf :: "'p apEnv \<Rightarrow> createWorkflowRequest \<Rightarrow> createWorkflowRequest apReply" where
  "documentOf E req =
     (case applyStateMachine (ae_order E) req of
        Inl NilState \<Rightarrow> Inl ApPanicked
      | Inl e \<Rightarrow> Inl (ApFail 400 (ApDocument e))
      | Inr req' \<Rightarrow> Inr req')"

text \<open>The checks on steps and interface that creating and updating share.\<close>

definition shapesOf :: "createWorkflowRequest \<Rightarrow> unit apReply" where
  "shapesOf req =
     bindE (failIf (cwr_Steps req = []) 400 ApStepsRequired) (\<lambda>_.
     bindE (failIf (length (cwr_Steps req) > maxSteps) 400 ApTooManySteps) (\<lambda>_.
     bindE (failMsg 400 (first_msg (\<lambda>(i, ref). validateStepRefShape i ref) (enumerate 0 (cwr_Steps req)))) (\<lambda>_.
       failMsg 400 (validateWorkflowIO (cwr_Inputs req) (cwr_Outputs req)))))"

definition graphOf ::
  "'p apEnv \<Rightarrow> TicketConfig option \<Rightarrow> WorkflowStep list \<Rightarrow> WorkflowRoute list \<Rightarrow> MapDef list \<Rightarrow> LoopDef list
   \<Rightarrow> unit apReply" where
  "graphOf E ticket steps routes maps loops =
     bindE (failMsg 400 (validateTicket ticket)) (\<lambda>_.
       failMsg 400 (map_option ApGraph (validateGraph (ae_compile E) steps routes maps loops)))"

definition createPlan ::
  "'p apEnv \<Rightarrow> createWorkflowRequest option \<Rightarrow> wfDB \<Rightarrow> nat \<Rightarrow> Workflow apReply" where
  "createPlan E body db n =
     bindE (authorized E ''createWorkflow'' ''workflows/pipelines'') (\<lambda>(u, og).
     bindE (decoded body) (\<lambda>req0.
     bindE (documentOf E req0) (\<lambda>req.
     bindE (failIf (cwr_Name req = []) 400 ApNameRequired) (\<lambda>_.
     bindE (failMsg 400 (validateResourceName (cwr_Name req))) (\<lambda>_.
     bindE (shapesOf req) (\<lambda>_.
     bindE (failDB (workflowNameExists db (cwr_Name req) u og)) (\<lambda>taken.
     bindE (failIf taken 409 ApNameTaken) (\<lambda>_.
     bindE (validateStepRefs db (cwr_Steps req) u og) (\<lambda>_.
     bindE (failIf (cwr_Project req = []) 400 ApProjectRequired) (\<lambda>_.
     bindE (case resolveProjectSlug E (cwr_Project req) of
              None \<Rightarrow> Inl (ApFail 400 (ApUnknownProject (cwr_Project req))) | Some p \<Rightarrow> Inr p) (\<lambda>p.
     bindE (failIf (\<not> checkProjectPermission E ''createWorkflow'' ''pipelines'' (apr_Slug p) []) 403
              (ApProjectRefused (apr_Slug p))) (\<lambda>_.
     bindE (failDB (enrichRefs db (cwr_Steps req))) (\<lambda>steps.
     bindE (graphOf E (cwr_Ticket req) steps (cwr_Routes req) (cwr_Maps req) (cwr_Loops req)) (\<lambda>_.
       Inr \<lparr>wf_WorkflowID = ae_uuid E n, wf_Name = cwr_Name req, wf_Description = cwr_Description req,
            wf_CreatedBy = u, wf_OrgID = og, wf_Project = cwr_Project req, wf_ProjectID = apr_ProjectID p,
            wf_ProjectNamespace = apr_Namespace p, wf_RoleID = [], wf_RolePermsVersion = 0,
            wf_TimeoutSecs = cwr_TimeoutSecs req, wf_Active = True, wf_CreatedAt = ae_now E, wf_UpdatedAt = ae_now E,
            wf_Inputs = cwr_Inputs req, wf_Outputs = cwr_Outputs req, wf_Maps = cwr_Maps req,
            wf_Loops = cwr_Loops req, wf_Routes = cwr_Routes req, wf_Ticket = cwr_Ticket req,
            wf_StepRefs = cwr_Steps req, wf_Steps = steps, wf_StateMachine = None, wf_LastRunAt = None\<rparr>))))))))))))))"

definition handleCreateWorkflow ::
  "'p apEnv \<Rightarrow> createWorkflowRequest option \<Rightarrow> apWorld \<Rightarrow> Workflow apReply \<times> apWorld" where
  "handleCreateWorkflow E body w =
     (case createPlan E body (aw_db w) (aw_n w) of
        Inl e \<Rightarrow> (Inl e, w)
      | Inr wf0 \<Rightarrow>
          (case provisionWorkflowRole E (wf_WorkflowID wf0) (wf_CreatedBy wf0) (wf_OrgID wf0) (wf_Steps wf0)
                  (wf_Maps wf0) (wf_Ticket wf0) (tick w) of
             (Inl _, w1) \<Rightarrow> (Inl (ApFail 500 ApServerProblem), w1)
           | (Inr roleID, w1) \<Rightarrow>
               (let wfl = wf0\<lparr>wf_RoleID := roleID, wf_RolePermsVersion := workflowRolePermsVersion\<rparr>
                in case addWorkflow wfl (aw_db w1) of
                     None \<Rightarrow> (Inl (ApFail 500 ApServerProblem), deleteWorkflowRole E roleID w1)
                   | Some db \<Rightarrow> (Inr wfl, putDB db w1))))"

definition handleListWorkflows :: "'p apEnv \<Rightarrow> string \<Rightarrow> apWorld \<Rightarrow> Workflow list apReply" where
  "handleListWorkflows E project w =
     bindE (authorized E ''listWorkflow'' ''workflows/pipelines'') (\<lambda>(u, og).
       failDB (bindE (listWorkflows (aw_db w) u og project (map apr_ProjectID (fetchAccessibleProjects E)))
         (\<lambda>wfs. Inr (map (\<lambda>wfl. wfl\<lparr>wf_Steps := []\<rparr>) wfs))))"

definition handleGetWorkflow :: "'p apEnv \<Rightarrow> string \<Rightarrow> apWorld \<Rightarrow> Workflow apReply" where
  "handleGetWorkflow E ref w =
     bindE (authorized E ''getWorkflow'' (''workflows/pipelines/'' @ ref)) (\<lambda>(u, og).
     bindE (loadWorkflow E ''getWorkflow'' ref u og (aw_db w)) (\<lambda>wfl.
       let routes = (if wf_Routes wfl = [] then deriveRoutes (wf_Steps wfl) else wf_Routes wfl)
       in Inr (wfl\<lparr>wf_StateMachine := Some (modelToSM (wf_Name wfl) (wf_Description wfl) (wf_Steps wfl) routes
                    (wf_Maps wfl) (wf_Inputs wfl) (wf_Outputs wfl))\<rparr>)))"

text \<open>The fields a PUT changes; an omitted ticket, time-out or project keeps the stored one.\<close>

definition refile :: "'p apEnv \<Rightarrow> string \<Rightarrow> Workflow \<Rightarrow> Workflow" where
  "refile E project wfl =
     (if project = [] then wfl
      else (let wf1 = wfl\<lparr>wf_Project := project, wf_ProjectID := [], wf_ProjectNamespace := []\<rparr>
            in case resolveProjectSlug E project of
                 None \<Rightarrow> wf1
               | Some p \<Rightarrow>
                   if checkProjectPermission E ''updateWorkflow'' ''pipelines'' (apr_Slug p) []
                   then wf1\<lparr>wf_ProjectID := apr_ProjectID p, wf_ProjectNamespace := apr_Namespace p\<rparr> else wf1))"

definition updatePlan ::
  "'p apEnv \<Rightarrow> string \<Rightarrow> createWorkflowRequest option \<Rightarrow> wfDB \<Rightarrow> (string \<times> string \<times> string \<times> Workflow) apReply" where
  "updatePlan E ref body db =
     bindE (authorized E ''updateWorkflow'' (''workflows/pipelines/'' @ ref)) (\<lambda>(u, og).
     bindE (loadWorkflow E ''updateWorkflow'' ref u og db) (\<lambda>existing.
     bindE (decoded body) (\<lambda>req0.
     bindE (documentOf E req0) (\<lambda>req.
     bindE (failIf (cwr_Name req = []) 400 ApNameRequired) (\<lambda>_.
     bindE (failMsg 400 (if cwr_Name req \<noteq> wf_Name existing then validateResourceName (cwr_Name req) else None)) (\<lambda>_.
     bindE (failDB (workflowNameConflict db (cwr_Name req) (wf_WorkflowID existing) u og)) (\<lambda>conflict.
     bindE (failIf conflict 409 ApNameTaken) (\<lambda>_.
     bindE (shapesOf req) (\<lambda>_.
     bindE (validateStepRefs db (cwr_Steps req) u og) (\<lambda>_.
     bindE (failDB (enrichRefs db (cwr_Steps req))) (\<lambda>steps.
     bindE (graphOf E (cwr_Ticket req) steps (cwr_Routes req) (cwr_Maps req) (cwr_Loops req)) (\<lambda>_.
       Inr (u, og, wf_RoleID existing,
            (refile E (cwr_Project req)
              (existing\<lparr>wf_Name := cwr_Name req, wf_Description := cwr_Description req, wf_Routes := cwr_Routes req,
                 wf_Maps := cwr_Maps req, wf_Loops := cwr_Loops req,
                 wf_Ticket := if cwr_Ticket req \<noteq> None then cwr_Ticket req else wf_Ticket existing,
                 wf_TimeoutSecs := if cwr_TimeoutSecs req > 0 then cwr_TimeoutSecs req else wf_TimeoutSecs existing\<rparr>))
              \<lparr>wf_Inputs := cwr_Inputs req, wf_Outputs := cwr_Outputs req, wf_StepRefs := cwr_Steps req,
               wf_Steps := steps, wf_UpdatedAt := ae_now E\<rparr>)))))))))))))"

definition handleUpdateWorkflow ::
  "'p apEnv \<Rightarrow> string \<Rightarrow> createWorkflowRequest option \<Rightarrow> apWorld \<Rightarrow> Workflow apReply \<times> apWorld" where
  "handleUpdateWorkflow E ref body w =
     (case updatePlan E ref body (aw_db w) of
        Inl e \<Rightarrow> (Inl e, w)
      | Inr (u, og, oldRoleID, wf0) \<Rightarrow>
          (case provisionWorkflowRole E (wf_WorkflowID wf0) u og (wf_Steps wf0) (wf_Maps wf0) (wf_Ticket wf0) w of
             (Inl _, w1) \<Rightarrow> (Inl (ApFail 500 ApServerProblem), w1)
           | (Inr roleID, w1) \<Rightarrow>
               (let wfl = wf0\<lparr>wf_RoleID := roleID, wf_RolePermsVersion := workflowRolePermsVersion\<rparr>
                in case updateWorkflow (ae_now E) wfl (aw_db w1) of
                     None \<Rightarrow> (Inl (ApFail 500 ApServerProblem), deleteWorkflowRole E roleID w1)
                   | Some db \<Rightarrow> (Inr wfl, deleteWorkflowRoleIfUnused E oldRoleID roleID (putDB db w1)))))"

definition handleDeleteWorkflow :: "'p apEnv \<Rightarrow> string \<Rightarrow> apWorld \<Rightarrow> unit apReply \<times> apWorld" where
  "handleDeleteWorkflow E ref w =
     (case bindE (authorized E ''deleteWorkflow'' (''workflows/pipelines/'' @ ref))
             (\<lambda>(u, og). loadWorkflow E ''deleteWorkflow'' ref u og (aw_db w)) of
        Inl e \<Rightarrow> (Inl e, w)
      | Inr wfl \<Rightarrow>
          (case removeWorkflow (ae_now E) (wf_WorkflowID wfl) (aw_db w) of
             None \<Rightarrow> (Inl (ApFail 500 ApServerProblem), w)
           | Some db \<Rightarrow> (Inr (), deleteWorkflowRoleIfUnused E (wf_RoleID wfl) [] (putDB db w))))"

end
