(* ===== verification/Wf_RunStore.thy ===== *)
theory Wf_RunStore
  imports Wf_Api
begin

text \<open>
  The statements of \<open>db.go\<close> on runs and step runs.  Each is one SQL statement, or one transaction:
  it fails without an effect, or maps the table and says how many rows it changed.  \<open>now\<close> is the
  database's \<open>CURRENT_TIMESTAMP\<close>.
\<close>

section \<open>Runs\<close>

definition getRun :: "wfDB \<Rightarrow> string \<Rightarrow> dbErr + WorkflowRun" where
  "getRun db i = firstRow (wdb_down db TRuns) (\<lambda>r. run_RunID r = i) (wdb_runs db)"

definition listRuns :: "wfDB \<Rightarrow> string \<Rightarrow> string \<Rightarrow> string \<Rightarrow> dbErr + WorkflowRun list" where
  "listRuns db u og workflowID =
     bindE (findRows (wdb_down db TRuns)
             (\<lambda>r. (run_TriggeredBy r = u \<or> (run_OrgID r \<noteq> [] \<and> run_OrgID r = og))
                \<and> (workflowID \<noteq> [] \<longrightarrow> run_WorkflowID r = workflowID)) (wdb_runs db))
       (\<lambda>rows. Inr (take 100 (sort_key (\<lambda>r. - run_CreatedAt r) rows)))"

definition addRun :: "WorkflowRun \<Rightarrow> wfDB \<Rightarrow> wfDB option" where
  "addRun r db =
     (if wdb_ro db TRuns \<or> run_RunID r \<in> run_RunID ` set (wdb_runs db) then None
      else Some (db\<lparr>wdb_runs := wdb_runs db @ [r]\<rparr>))"

text \<open>\<open>UPDATE workflow_runs SET f WHERE P\<close>, with the number of rows changed.\<close>

definition execRuns :: "(WorkflowRun \<Rightarrow> bool) \<Rightarrow> (WorkflowRun \<Rightarrow> WorkflowRun) \<Rightarrow> wfDB \<Rightarrow> (nat \<times> wfDB) option" where
  "execRuns P f db =
     (if wdb_ro db TRuns then None
      else Some (length (filter P (wdb_runs db)),
                 db\<lparr>wdb_runs := map (\<lambda>r. if P r then f r else r) (wdb_runs db)\<rparr>))"

definition cancellable :: "WorkflowRun \<Rightarrow> bool" where
  "cancellable r \<longleftrightarrow> run_Status r \<in> {RowPending, RowRunning, RowAwaiting}"

definition cancelRun :: "int \<Rightarrow> string \<Rightarrow> wfDB \<Rightarrow> (nat \<times> wfDB) option" where
  "cancelRun now i = execRuns (\<lambda>r. run_RunID r = i \<and> cancellable r)
     (\<lambda>r. r\<lparr>run_Status := RowCancelled, run_EndedAt := Some now, run_Token := None\<rparr>)"

text \<open>
  \<open>Dequeue\<close>: the oldest pending run is claimed and its lease stamped in one transaction.  The row
  returned is the one read before the update.  \<open>locked\<close> are the runs another worker holds a row lock on.
\<close>

definition Dequeue :: "(string \<Rightarrow> bool) \<Rightarrow> int \<Rightarrow> wfDB \<Rightarrow> dbErr + (WorkflowRun option \<times> wfDB)" where
  "Dequeue locked now db =
     (if wdb_ro db TRuns then Inl ErrDatabase
      else (case sort_key run_CreatedAt
                   (filter (\<lambda>r. run_Status r = RowPending \<and> \<not> locked (run_RunID r)) (wdb_runs db)) of
              [] \<Rightarrow> Inr (None, db)
            | r # _ \<Rightarrow> Inr (Some r, db\<lparr>wdb_runs := map (\<lambda>x. if run_RunID x = run_RunID r
                then x\<lparr>run_Status := RowRunning, run_StartedAt := Some now, run_HeartbeatAt := Some now\<rparr> else x)
                (wdb_runs db)\<rparr>)))"

definition SetCurrentStep :: "string \<Rightarrow> int \<Rightarrow> wfDB \<Rightarrow> (nat \<times> wfDB) option" where
  "SetCurrentStep i step = execRuns (\<lambda>r. run_RunID r = i) (\<lambda>r. r\<lparr>run_CurrentStep := step\<rparr>)"

definition SetTicket :: "string \<Rightarrow> string \<Rightarrow> wfDB \<Rightarrow> (nat \<times> wfDB) option" where
  "SetTicket i t = execRuns (\<lambda>r. run_RunID r = i) (\<lambda>r. r\<lparr>run_TicketID := t\<rparr>)"

definition PauseForApproval :: "string \<Rightarrow> int \<Rightarrow> wfDB \<Rightarrow> (nat \<times> wfDB) option" where
  "PauseForApproval i step = execRuns (\<lambda>r. run_RunID r = i \<and> run_Status r = RowRunning)
     (\<lambda>r. r\<lparr>run_Status := RowAwaiting, run_CurrentStep := step\<rparr>)"

definition CompleteRun ::
  "int \<Rightarrow> string \<Rightarrow> rowStatus \<Rightarrow> (string \<times> string) list \<Rightarrow> wfDB \<Rightarrow> (nat \<times> wfDB) option" where
  "CompleteRun now i st outputs = execRuns (\<lambda>r. run_RunID r = i \<and> run_Status r = RowRunning)
     (\<lambda>r. r\<lparr>run_Status := st, run_Outputs := outputs, run_EndedAt := Some now, run_Token := None,
           run_RunSessionID := None\<rparr>)"

definition UpdateToken :: "string \<Rightarrow> string \<Rightarrow> string \<Rightarrow> wfDB \<Rightarrow> (nat \<times> wfDB) option" where
  "UpdateToken i token sid = execRuns (\<lambda>r. run_RunID r = i)
     (\<lambda>r. r\<lparr>run_Token := Some token, run_RunSessionID := Some sid\<rparr>)"

definition Heartbeat :: "int \<Rightarrow> string \<Rightarrow> wfDB \<Rightarrow> (nat \<times> wfDB) option" where
  "Heartbeat now i = execRuns (\<lambda>r. run_RunID r = i \<and> run_Status r = RowRunning)
     (\<lambda>r. r\<lparr>run_HeartbeatAt := Some now\<rparr>)"

text \<open>
  The sweeps: runs whose lease has not moved for five minutes, and runs past the time-out of their
  pipeline by two minutes.  A row without time stamps counts from the epoch.
\<close>

definition runLeaseStaleAfter :: int where "runLeaseStaleAfter = 300"

definition leaseStale :: "int \<Rightarrow> WorkflowRun \<Rightarrow> bool" where
  "leaseStale now r \<longleftrightarrow> run_Status r = RowRunning
     \<and> (case run_HeartbeatAt r of Some t \<Rightarrow> t
        | None \<Rightarrow> (case run_StartedAt r of Some t \<Rightarrow> t | None \<Rightarrow> 0)) < now - runLeaseStaleAfter"

definition failedBySweep :: "int \<Rightarrow> WorkflowRun \<Rightarrow> WorkflowRun" where
  "failedBySweep now r = r\<lparr>run_Status := RowFailed, run_EndedAt := Some now, run_Token := None,
     run_RunSessionID := None\<rparr>"

text \<open>The rows reclaimed carry the token they had before the sweep.\<close>

definition recoverStuckRunsWithJobs :: "int \<Rightarrow> wfDB \<Rightarrow> (string \<times> string option) list \<times> nat \<times> wfDB" where
  "recoverStuckRunsWithJobs now db =
     (case execRuns (leaseStale now) (failedBySweep now) db of
        None \<Rightarrow> ([], 0, db)
      | Some (n, db') \<Rightarrow> (map (\<lambda>r. (run_RunID r, run_Token r)) (filter (leaseStale now) (wdb_runs db)), n, db'))"

definition timedOut :: "int \<Rightarrow> Workflow list \<Rightarrow> WorkflowRun \<Rightarrow> bool" where
  "timedOut now wfs r \<longleftrightarrow> run_Status r = RowRunning
     \<and> (\<exists>wfl\<in>set wfs. wf_WorkflowID wfl = run_WorkflowID r
         \<and> (case run_StartedAt r of None \<Rightarrow> False
            | Some t \<Rightarrow> t < now - ((if wf_TimeoutSecs wfl = 0 then 1800 else wf_TimeoutSecs wfl) + 120)))"

definition failTimedOutRunsDB :: "int \<Rightarrow> wfDB \<Rightarrow> (nat \<times> wfDB) option" where
  "failTimedOutRunsDB now db = execRuns (timedOut now (wdb_workflows db)) (failedBySweep now) db"

definition runRoleID :: "wfDB \<Rightarrow> string \<Rightarrow> string" where
  "runRoleID db i = (case getRun db i of Inl _ \<Rightarrow> [] | Inr r \<Rightarrow> run_RoleID r)"

section \<open>Step runs\<close>

definition execStepRuns ::
  "(WorkflowStepRun \<Rightarrow> bool) \<Rightarrow> (WorkflowStepRun \<Rightarrow> WorkflowStepRun) \<Rightarrow> wfDB \<Rightarrow> (nat \<times> wfDB) option" where
  "execStepRuns P f db =
     (if wdb_ro db TStepRuns then None
      else Some (length (filter P (wdb_stepRuns db)),
                 db\<lparr>wdb_stepRuns := map (\<lambda>s. if P s then f s else s) (wdb_stepRuns db)\<rparr>))"

definition addStepRun :: "WorkflowStepRun \<Rightarrow> wfDB \<Rightarrow> wfDB option" where
  "addStepRun s db =
     (if wdb_ro db TStepRuns \<or> srn_StepRunID s \<in> srn_StepRunID ` set (wdb_stepRuns db) then None
      else Some (db\<lparr>wdb_stepRuns := wdb_stepRuns db @ [s]\<rparr>))"

definition newStepRun :: "int \<Rightarrow> string \<Rightarrow> string \<Rightarrow> int \<Rightarrow> string \<Rightarrow> rowStatus \<Rightarrow> string option \<Rightarrow> WorkflowStepRun" where
  "newStepRun now i runID index name st out =
     \<lparr>srn_StepRunID = i, srn_RunID = runID, srn_StepIndex = index, srn_StepName = name, srn_Status = st,
      srn_Output = out, srn_Logs = None, srn_MemoryUsedMB = None, srn_MemoryLimitMB = None, srn_JobAction = [],
      srn_JobID = [], srn_StartedAt = Some now, srn_EndedAt = None\<rparr>"

definition startStepRun :: "int \<Rightarrow> string \<Rightarrow> string \<Rightarrow> int \<Rightarrow> string \<Rightarrow> wfDB \<Rightarrow> wfDB option" where
  "startStepRun now i runID index name = addStepRun (newStepRun now i runID index name RowRunning None)"

definition AddAwaitingApproval :: "int \<Rightarrow> string \<Rightarrow> string \<Rightarrow> int \<Rightarrow> string \<Rightarrow> string \<Rightarrow> wfDB \<Rightarrow> wfDB option" where
  "AddAwaitingApproval now i runID index name message =
     addStepRun (newStepRun now i runID index name RowAwaiting (if message \<noteq> [] then Some message else None))"

definition CompleteStepRun ::
  "int \<Rightarrow> string \<Rightarrow> rowStatus \<Rightarrow> string option \<Rightarrow> string option \<Rightarrow> int option \<Rightarrow> int option
   \<Rightarrow> wfDB \<Rightarrow> (nat \<times> wfDB) option" where
  "CompleteStepRun now i st out logs used limit = execStepRuns (\<lambda>s. srn_StepRunID s = i)
     (\<lambda>s. s\<lparr>srn_Status := st, srn_Output := out, srn_Logs := logs, srn_MemoryUsedMB := used,
           srn_MemoryLimitMB := limit, srn_EndedAt := Some now\<rparr>)"

text \<open>
  The live display of a step run that has not ended: its status, \<open>RowWaiting\<close> while its job is queued,
  restarts its clock when the job is admitted.
\<close>

definition SetStatus :: "int \<Rightarrow> string \<Rightarrow> rowStatus \<Rightarrow> wfDB \<Rightarrow> (nat \<times> wfDB) option" where
  "SetStatus now i st = execStepRuns (\<lambda>s. srn_StepRunID s = i \<and> srn_EndedAt s = None)
     (\<lambda>s. s\<lparr>srn_Status := st, srn_StartedAt := if st = RowRunning then Some now else srn_StartedAt s\<rparr>)"

definition SetLogs :: "string \<Rightarrow> string \<Rightarrow> wfDB \<Rightarrow> (nat \<times> wfDB) option" where
  "SetLogs i logs = execStepRuns (\<lambda>s. srn_StepRunID s = i \<and> srn_EndedAt s = None)
     (\<lambda>s. s\<lparr>srn_Logs := Some logs\<rparr>)"

definition SetJob :: "string \<Rightarrow> string \<Rightarrow> string \<Rightarrow> wfDB \<Rightarrow> (nat \<times> wfDB) option" where
  "SetJob i action jobID = execStepRuns (\<lambda>s. srn_StepRunID s = i \<and> srn_EndedAt s = None)
     (\<lambda>s. s\<lparr>srn_JobAction := action, srn_JobID := jobID\<rparr>)"

definition ClearJob :: "string \<Rightarrow> wfDB \<Rightarrow> (nat \<times> wfDB) option" where
  "ClearJob i = execStepRuns (\<lambda>s. srn_StepRunID s = i) (\<lambda>s. s\<lparr>srn_JobAction := [], srn_JobID := []\<rparr>)"

definition liveStepJobs :: "wfDB \<Rightarrow> string \<Rightarrow> dbErr + (string \<times> string \<times> string) list" where
  "liveStepJobs db runID =
     bindE (findRows (wdb_down db TStepRuns)
              (\<lambda>s. srn_RunID s = runID \<and> srn_JobID s \<noteq> [] \<and> srn_EndedAt s = None) (wdb_stepRuns db))
       (\<lambda>rows. Inr (map (\<lambda>s. (srn_StepRunID s, srn_JobAction s, srn_JobID s)) rows))"

definition getStepRuns :: "wfDB \<Rightarrow> string \<Rightarrow> dbErr + WorkflowStepRun list" where
  "getStepRuns db runID =
     bindE (findRows (wdb_down db TStepRuns) (\<lambda>s. srn_RunID s = runID) (wdb_stepRuns db))
       (\<lambda>rows. Inr (sort_key srn_StepIndex rows))"

section \<open>Approval gates\<close>

definition awaitsDecision :: "string \<Rightarrow> WorkflowStepRun \<Rightarrow> bool" where
  "awaitsDecision runID s \<longleftrightarrow> srn_RunID s = runID \<and> srn_Status s = RowAwaiting"

definition approvalStepRuns :: "wfDB \<Rightarrow> string \<Rightarrow> dbErr + WorkflowStepRun list" where
  "approvalStepRuns db runID =
     bindE (findRows (wdb_down db TStepRuns) (awaitsDecision runID) (wdb_stepRuns db))
       (\<lambda>rows. Inr (sort_key srn_StepIndex rows))"

text \<open>
  The two approval transitions, as transactions.  What a transaction writes is computed from the rows it
  sees (\<open>resumeWrites\<close>), and applied when it commits; \<open>resumeAfterApproval\<close> is the two at once.
\<close>

datatype approvalErr = RunNotAwaitingErr | ApprovalDBErr

definition decideGate :: "int \<Rightarrow> rowStatus \<Rightarrow> string \<Rightarrow> string \<Rightarrow> wfDB \<Rightarrow> wfDB" where
  "decideGate now st stepRunID decision db =
     db\<lparr>wdb_stepRuns := map (\<lambda>s. if srn_StepRunID s = stepRunID \<and> srn_Status s = RowAwaiting
          then s\<lparr>srn_Status := st, srn_Output := Some decision, srn_EndedAt := Some now\<rparr> else s) (wdb_stepRuns db)\<rparr>"

definition requeueRun :: "string \<Rightarrow> wfDB \<Rightarrow> wfDB" where
  "requeueRun runID db =
     db\<lparr>wdb_runs := map (\<lambda>r. if run_RunID r = runID \<and> run_Status r = RowAwaiting
          then r\<lparr>run_Status := RowPending\<rparr> else r) (wdb_runs db)\<rparr>"

definition gateOpen :: "string \<Rightarrow> wfDB \<Rightarrow> bool" where
  "gateOpen stepRunID db \<longleftrightarrow> (\<exists>s\<in>set (wdb_stepRuns db). srn_StepRunID s = stepRunID \<and> srn_Status s = RowAwaiting)"

definition runAwaiting :: "string \<Rightarrow> wfDB \<Rightarrow> bool" where
  "runAwaiting runID db \<longleftrightarrow> (\<exists>r\<in>set (wdb_runs db). run_RunID r = runID \<and> run_Status r = RowAwaiting)"

definition gatesLeft :: "string \<Rightarrow> wfDB \<Rightarrow> bool" where
  "gatesLeft runID db \<longleftrightarrow> (\<exists>s\<in>set (wdb_stepRuns db). awaitsDecision runID s)"

definition resumeWrites :: "int \<Rightarrow> string \<Rightarrow> string \<Rightarrow> string \<Rightarrow> wfDB \<Rightarrow> approvalErr + (wfDB \<Rightarrow> wfDB)" where
  "resumeWrites now runID stepRunID decision seen =
     (let decide = decideGate now RowCompleted stepRunID decision
      in if wdb_ro seen TStepRuns then Inl ApprovalDBErr
         else if \<not> gateOpen stepRunID seen then Inl RunNotAwaitingErr
         else if gatesLeft runID (decide seen) then Inr decide
         else if wdb_ro seen TRuns then Inl ApprovalDBErr
         else if \<not> runAwaiting runID seen then Inl RunNotAwaitingErr
         else Inr (\<lambda>db. requeueRun runID (decide db)))"

definition resumeAfterApproval :: "int \<Rightarrow> string \<Rightarrow> string \<Rightarrow> string \<Rightarrow> wfDB \<Rightarrow> approvalErr + wfDB" where
  "resumeAfterApproval now runID stepRunID decision db =
     bindE (resumeWrites now runID stepRunID decision db) (\<lambda>writes. Inr (writes db))"

definition cancelGates :: "int \<Rightarrow> string \<Rightarrow> wfDB \<Rightarrow> wfDB" where
  "cancelGates now runID db =
     db\<lparr>wdb_stepRuns := map (\<lambda>s. if awaitsDecision runID s
          then s\<lparr>srn_Status := RowCancelled, srn_EndedAt := Some now\<rparr> else s) (wdb_stepRuns db)\<rparr>"

definition failAwaitingRun :: "int \<Rightarrow> string \<Rightarrow> wfDB \<Rightarrow> wfDB" where
  "failAwaitingRun now runID db =
     db\<lparr>wdb_runs := map (\<lambda>r. if run_RunID r = runID \<and> run_Status r = RowAwaiting then failedBySweep now r else r)
        (wdb_runs db)\<rparr>"

definition rejectAfterApproval :: "int \<Rightarrow> string \<Rightarrow> string \<Rightarrow> string \<Rightarrow> wfDB \<Rightarrow> approvalErr + wfDB" where
  "rejectAfterApproval now runID stepRunID decision db =
     (if wdb_ro db TStepRuns then Inl ApprovalDBErr
      else if \<not> gateOpen stepRunID db then Inl RunNotAwaitingErr
      else if wdb_ro db TRuns then Inl ApprovalDBErr
      else if \<not> runAwaiting runID db then Inl RunNotAwaitingErr
      else Inr (failAwaitingRun now runID (cancelGates now runID (decideGate now RowFailed stepRunID decision db))))"

end
