(* ===== verification/Wf_RunApi.thy ===== *)
theory Wf_RunApi
  imports Wf_RunStore
begin

text \<open>
  Triggering, approving, rejecting and cancelling runs (\<open>api_runs.go\<close>, \<open>api_internal.go\<close>), and what a
  worker does to the row and the role of a run when it ends (\<open>worker.go\<close>).
\<close>

section \<open>Credentials of a run\<close>

definition createRunToken :: "'p apEnv \<Rightarrow> string \<Rightarrow> string \<Rightarrow> apWorld \<Rightarrow> (string \<times> string) option \<times> apWorld" where
  "createRunToken E userID roleID w =
     (if ae_key E = [] then (None, w)
      else (case ae_runToken E (aw_n w) userID roleID of
              None \<Rightarrow> (None, tick w)
            | Some (token, sid) \<Rightarrow> (Some (token, sid), call (GkTokenMinted sid userID roleID) (tick w))))"

definition revokeRunToken :: "'p apEnv \<Rightarrow> string \<Rightarrow> apWorld \<Rightarrow> apWorld" where
  "revokeRunToken E sid w = (if sid = [] \<or> ae_key E = [] then w else call (GkTokenRevoked sid) w)"

definition sessionOf :: "WorkflowRun \<Rightarrow> string" where
  "sessionOf r = (case run_RunSessionID r of None \<Rightarrow> [] | Some s \<Rightarrow> s)"

text \<open>A token that cannot be encrypted is revoked again.\<close>

definition mintToken :: "'p apEnv \<Rightarrow> string \<Rightarrow> string \<Rightarrow> apWorld \<Rightarrow> (string \<times> string) option \<times> apWorld" where
  "mintToken E userID roleID w =
     (case createRunToken E userID roleID w of
        (None, w1) \<Rightarrow> (None, w1)
      | (Some (token, sid), w1) \<Rightarrow>
          (case ae_encrypt E token of
             None \<Rightarrow> (None, revokeRunToken E sid w1)
           | Some enc \<Rightarrow> (Some (enc, sid), w1)))"

section \<open>Inputs and projects of a run\<close>

record triggerRunRequest =
  trr_Inputs :: "(string \<times> string) list"
  trr_Project :: string

text \<open>The loop of \<open>applyDeclaredInputs\<close>; the error names the required input without a value.\<close>

fun applyDeclaredInputs :: "WorkflowInputDef list \<Rightarrow> (string \<times> string) list \<Rightarrow> string + (string \<times> string) list" where
  "applyDeclaredInputs [] out = Inr out"
| "applyDeclaredInputs (d # defs) out =
     (if map_of out (wid_Name d) \<noteq> None then applyDeclaredInputs defs out
      else if wid_Required d \<and> wid_Default d = [] then Inl (wid_Name d)
      else applyDeclaredInputs defs (out @ [(wid_Name d, wid_Default d)]))"

definition effectiveInputs :: "WorkflowInputDef list \<Rightarrow> (string \<times> string) list \<Rightarrow> ((string \<times> string) list) apReply" where
  "effectiveInputs defs provided =
     (case applyDeclaredInputs defs provided of
        Inl n \<Rightarrow> Inl (ApFail 400 (ApRun (RunMissingInput n))) | Inr out \<Rightarrow> Inr out)"

definition fetchProjectAncestors :: "'p apEnv \<Rightarrow> string \<Rightarrow> accessibleProject list" where
  "fetchProjectAncestors E projectID =
     (if ae_bearer E = [] \<or> projectID = [] then []
      else case ae_ancestors E projectID of None \<Rightarrow> [] | Some ps \<Rightarrow> ps)"

definition pipelineMayTargetProject :: "'p apEnv \<Rightarrow> string \<Rightarrow> string \<Rightarrow> bool" where
  "pipelineMayTargetProject E pipelineSlug targetSlug =
     (let ps = TrimSpace pipelineSlug; ts = TrimSpace targetSlug
      in if ps = [] \<or> ts = [] \<or> ps = ts then True
         else (case resolveProjectSlug E ts of
                 None \<Rightarrow> False
               | Some tp \<Rightarrow> ps \<in> apr_Slug ` set (fetchProjectAncestors E (apr_ProjectID tp))))"

definition inputProject :: "(string \<times> string) list \<Rightarrow> string" where
  "inputProject inputs = TrimSpace (case map_of inputs ''project'' of None \<Rightarrow> [] | Some v \<Rightarrow> v)"

text \<open>The check on the project the run tags its resources with.\<close>

definition inputsIsolated :: "'p apEnv \<Rightarrow> string \<Rightarrow> (string \<times> string) list \<Rightarrow> unit apReply" where
  "inputsIsolated E pipelineProject inputs =
     failIf (inputProject inputs \<noteq> [] \<and> \<not> pipelineMayTargetProject E pipelineProject (inputProject inputs))
       403 (ApRun (RunIsolation pipelineProject (inputProject inputs)))"

section \<open>Starting a run\<close>

definition healRole :: "'p apEnv \<Rightarrow> Workflow \<Rightarrow> apWorld \<Rightarrow> Workflow \<times> apWorld" where
  "healRole E wfl w =
     (if wf_RolePermsVersion wfl < workflowRolePermsVersion
      then (case provisionWorkflowRole E (wf_WorkflowID wfl) (wf_CreatedBy wfl) (wf_OrgID wfl) (wf_Steps wfl)
                   (wf_Maps wfl) (wf_Ticket wfl) w of
              (Inl _, w1) \<Rightarrow> (wfl, w1)
            | (Inr r, w1) \<Rightarrow>
                (let wfl1 = wfl\<lparr>wf_RoleID := r, wf_RolePermsVersion := workflowRolePermsVersion\<rparr>
                 in (wfl1,
                     case updateWorkflow (ae_now E) wfl1 (aw_db w1) of
                       None \<Rightarrow> w1
                     | Some db \<Rightarrow> deleteWorkflowRoleIfUnused E (wf_RoleID wfl) r (putDB db w1))))
      else (wfl, w))"

definition newRun ::
  "'p apEnv \<Rightarrow> nat \<Rightarrow> Workflow \<Rightarrow> string \<Rightarrow> string \<Rightarrow> (string \<times> string) list \<Rightarrow> int \<Rightarrow> string \<Rightarrow> string
   \<Rightarrow> string \<Rightarrow> string \<Rightarrow> WorkflowRun" where
  "newRun E n wfl userID orgID inputs depth parentRunID token sid roleID =
     \<lparr>run_RunID = ae_uuid E n, run_WorkflowID = wf_WorkflowID wfl, run_TriggeredBy = userID, run_OrgID = orgID,
      run_Project = wf_Project wfl, run_ProjectID = wf_ProjectID wfl,
      run_ProjectNamespace = wf_ProjectNamespace wfl, run_Status = RowPending, run_CurrentStep = 0,
      run_Inputs = inputs, run_Outputs = [], run_Depth = depth, run_ParentRunID = parentRunID, run_TicketID = [],
      run_Token = Some token, run_RunSessionID = Some sid, run_RoleID = roleID, run_HeartbeatAt = None,
      run_CreatedAt = ae_now E, run_StartedAt = None, run_EndedAt = None\<rparr>"

definition insertRun :: "'p apEnv \<Rightarrow> WorkflowRun \<Rightarrow> string \<Rightarrow> apWorld \<Rightarrow> WorkflowRun apReply \<times> apWorld" where
  "insertRun E r sid w =
     (case addRun r (aw_db w) of
        None \<Rightarrow> (Inl (ApFail 500 ApServerProblem), revokeRunToken E sid w)
      | Some db \<Rightarrow> (Inr r, putDB db w))"

definition startWorkflowRun ::
  "'p apEnv \<Rightarrow> Workflow \<Rightarrow> string \<Rightarrow> string \<Rightarrow> (string \<times> string) list \<Rightarrow> int \<Rightarrow> string \<Rightarrow> apWorld
   \<Rightarrow> WorkflowRun apReply \<times> apWorld" where
  "startWorkflowRun E wfl0 userID orgID inputs depth parentRunID w =
     (case healRole E wfl0 w of (wfl, w1) \<Rightarrow>
        (case mintToken E userID (wf_RoleID wfl) w1 of
           (None, w2) \<Rightarrow> (Inl (ApFail 500 (ApRun RunCredentials)), w2)
         | (Some (enc, sid), w2) \<Rightarrow>
             insertRun E (newRun E (aw_n w2) wfl userID orgID inputs depth parentRunID enc sid (wf_RoleID wfl))
               sid (tick w2)))"

section \<open>The triggers\<close>

definition runnableSteps :: "Workflow \<Rightarrow> unit apReply" where
  "runnableSteps wfl =
     bindE (failIf (wf_StepRefs wfl = []) 400 (ApRun RunNoSteps)) (\<lambda>_.
       failIf (length (wf_Steps wfl) < length (wf_StepRefs wfl)) 400 (ApRun RunStepsGone))"

text \<open>The project a run is attributed to, on a copy of the pipeline.\<close>

definition attributeTo :: "'p apEnv \<Rightarrow> string \<Rightarrow> Workflow \<Rightarrow> Workflow apReply" where
  "attributeTo E project wfl =
     (let tp = TrimSpace project
      in if tp = [] \<or> tp = wf_Project wfl then Inr wfl
         else bindE (failIf (\<not> pipelineMayTargetProject E (wf_Project wfl) tp) 403
                       (ApRun (RunIsolation (wf_Project wfl) tp))) (\<lambda>_.
           case resolveProjectSlug E tp of
             None \<Rightarrow> Inr wfl
           | Some p \<Rightarrow>
               Inr (if checkProjectPermission E ''triggerRun'' ''pipelines'' (apr_Slug p) (wf_WorkflowID wfl)
                    then wfl\<lparr>wf_Project := apr_Slug p, wf_ProjectID := apr_ProjectID p,
                             wf_ProjectNamespace := apr_Namespace p\<rparr> else wfl)))"

definition triggerPlan ::
  "'p apEnv \<Rightarrow> string \<Rightarrow> triggerRunRequest \<Rightarrow> wfDB \<Rightarrow> (string \<times> string \<times> Workflow \<times> (string \<times> string) list) apReply" where
  "triggerPlan E ref req db =
     bindE (authorized E ''triggerRun'' (''workflows/runs/'' @ ref)) (\<lambda>(u, og).
     bindE (loadWorkflow E ''triggerRun'' ref u og db) (\<lambda>wfl.
     bindE (runnableSteps wfl) (\<lambda>_.
     bindE (effectiveInputs (wf_Inputs wfl) (trr_Inputs req)) (\<lambda>inputs.
     bindE (attributeTo E (trr_Project req) wfl) (\<lambda>wfl'.
     bindE (inputsIsolated E (wf_Project wfl) inputs) (\<lambda>_. Inr (u, og, wfl', inputs)))))))"

text \<open>\<open>req\<close> is what \<open>json.Decode\<close> left; its error is ignored.\<close>

definition handleTriggerRun ::
  "'p apEnv \<Rightarrow> string \<Rightarrow> triggerRunRequest \<Rightarrow> apWorld \<Rightarrow> WorkflowRun apReply \<times> apWorld" where
  "handleTriggerRun E ref req w =
     (case triggerPlan E ref req (aw_db w) of
        Inl e \<Rightarrow> (Inl e, w)
      | Inr (u, og, wfl, inputs) \<Rightarrow> startWorkflowRun E wfl u og inputs 0 [] w)"

definition maxRunDepth :: int where "maxRunDepth = 8"

text \<open>The depth header; \<open>int\<close> arithmetic wraps.\<close>

definition childDepth :: "string \<Rightarrow> int" where
  "childDepth header =
     (let parent = (case ParseInt64 header of Some v \<Rightarrow> if v > 0 then v else 0 | None \<Rightarrow> 0)
      in (parent + 1 + 2 ^ 63) mod 2 ^ 64 - 2 ^ 63)"

definition triggerByBodyPlan ::
  "'p apEnv \<Rightarrow> (string \<times> (string \<times> string) list) option \<Rightarrow> string \<Rightarrow> wfDB
   \<Rightarrow> (string \<times> string \<times> Workflow \<times> (string \<times> string) list) apReply" where
  "triggerByBodyPlan E body depthHeader db =
     bindE (decoded body) (\<lambda>(pipeline, provided).
     bindE (failIf (TrimSpace pipeline = []) 400 (ApRun RunPipelineRequired)) (\<lambda>_.
     bindE (failIf (childDepth depthHeader > maxRunDepth) 422 (ApRun RunTooDeep)) (\<lambda>_.
     bindE (authorized E ''triggerRun'' (''workflows/runs/'' @ pipeline)) (\<lambda>(u, og).
     bindE (loadWorkflow E ''triggerRun'' pipeline u og db) (\<lambda>wfl.
     bindE (runnableSteps wfl) (\<lambda>_.
     bindE (effectiveInputs (wf_Inputs wfl) provided) (\<lambda>inputs.
     bindE (inputsIsolated E (wf_Project wfl) inputs) (\<lambda>_. Inr (u, og, wfl, inputs)))))))))"

definition handleTriggerRunByBody ::
  "'p apEnv \<Rightarrow> (string \<times> (string \<times> string) list) option \<Rightarrow> string \<Rightarrow> string \<Rightarrow> apWorld
   \<Rightarrow> WorkflowRun apReply \<times> apWorld" where
  "handleTriggerRunByBody E body depthHeader parentRunID w =
     (case triggerByBodyPlan E body depthHeader (aw_db w) of
        Inl e \<Rightarrow> (Inl e, w)
      | Inr (u, og, wfl, inputs) \<Rightarrow> startWorkflowRun E wfl u og inputs (childDepth depthHeader) parentRunID w)"

text \<open>
  The trigger of the hooks service.  \<open>mac\<close> is HMAC-SHA256 in hexadecimal, of a key and a message; the time
  stamp may be thirty seconds off.
\<close>

definition hooksToken :: "(string \<Rightarrow> string \<Rightarrow> string) \<Rightarrow> string \<Rightarrow> int \<Rightarrow> string \<Rightarrow> string \<Rightarrow> string \<Rightarrow> bool" where
  "hooksToken mac key now message token timestamp \<longleftrightarrow>
     key \<noteq> []
     \<and> (case ParseInt64 timestamp of None \<Rightarrow> False | Some ts \<Rightarrow> \<bar>now - ts\<bar> \<le> 30)
     \<and> token = mac key (message @ '':'' @ timestamp)"

definition verifyHooksTrigger ::
  "(string \<Rightarrow> string \<Rightarrow> string) \<Rightarrow> string \<Rightarrow> int \<Rightarrow> string \<Rightarrow> string \<Rightarrow> string \<Rightarrow> string \<Rightarrow> bool" where
  "verifyHooksTrigger mac key now workflowID triggeredBy token timestamp =
     hooksToken mac key now (''hooks:'' @ workflowID @ '':'' @ triggeredBy) token timestamp"

definition verifyHooksWorkflowCheck ::
  "(string \<Rightarrow> string \<Rightarrow> string) \<Rightarrow> string \<Rightarrow> int \<Rightarrow> string \<Rightarrow> string \<Rightarrow> string \<Rightarrow> bool" where
  "verifyHooksWorkflowCheck mac key now workflowID token timestamp =
     hooksToken mac key now (''hooks-check:'' @ workflowID) token timestamp"

definition verifyHooksPoll ::
  "(string \<Rightarrow> string \<Rightarrow> string) \<Rightarrow> string \<Rightarrow> int \<Rightarrow> string \<Rightarrow> string \<Rightarrow> string \<Rightarrow> bool" where
  "verifyHooksPoll mac key now runID token timestamp =
     hooksToken mac key now (''hooks-poll:'' @ runID) token timestamp"

record internalTriggerRequest =
  itr_TriggeredBy :: string
  itr_OrgID :: string
  itr_Inputs :: "(string \<times> string) list"

definition internalPlan ::
  "(string \<Rightarrow> string \<Rightarrow> string) \<Rightarrow> string \<Rightarrow> 'p apEnv \<Rightarrow> string \<Rightarrow> string \<Rightarrow> string \<Rightarrow> internalTriggerRequest option
   \<Rightarrow> wfDB \<Rightarrow> (internalTriggerRequest \<times> Workflow) apReply" where
  "internalPlan mac key E workflowID token timestamp body db =
     bindE (decoded body) (\<lambda>req.
     bindE (failIf (\<not> verifyHooksTrigger mac key (ae_now E) workflowID (itr_TriggeredBy req) token timestamp) 401
              (ApRun RunUnauthorized)) (\<lambda>_.
     bindE (failIf (itr_TriggeredBy req = []) 400 (ApRun RunTriggeredBy)) (\<lambda>_.
     bindE (failRow (getWorkflow db workflowID)) (\<lambda>wfl.
     bindE (failIf (wf_OrgID wfl \<noteq> itr_OrgID req) 403 (ApRun RunCrossOrg)) (\<lambda>_. Inr (req, wfl))))))"

definition handleInternalTriggerRun ::
  "(string \<Rightarrow> string \<Rightarrow> string) \<Rightarrow> string \<Rightarrow> 'p apEnv \<Rightarrow> string \<Rightarrow> string \<Rightarrow> string \<Rightarrow> internalTriggerRequest option
   \<Rightarrow> apWorld \<Rightarrow> WorkflowRun apReply \<times> apWorld" where
  "handleInternalTriggerRun mac key E workflowID token timestamp body w =
     (case internalPlan mac key E workflowID token timestamp body (aw_db w) of
        Inl e \<Rightarrow> (Inl e, w)
      | Inr (req, wfl) \<Rightarrow>
          (case mintToken E (itr_TriggeredBy req) (wf_RoleID wfl) w of
             (None, w1) \<Rightarrow> (Inl (ApFail 500 (ApRun RunCredentials)), w1)
           | (Some (enc, sid), w1) \<Rightarrow>
               insertRun E (newRun E (aw_n w1) wfl (itr_TriggeredBy req) (wf_OrgID wfl) (itr_Inputs req) 0 [] enc sid [])
                 sid (tick w1)))"

definition handleInternalGetWorkflow ::
  "(string \<Rightarrow> string \<Rightarrow> string) \<Rightarrow> string \<Rightarrow> 'p apEnv \<Rightarrow> string \<Rightarrow> string \<Rightarrow> string \<Rightarrow> apWorld \<Rightarrow> string apReply" where
  "handleInternalGetWorkflow mac key E workflowID token timestamp w =
     bindE (failIf (\<not> verifyHooksWorkflowCheck mac key (ae_now E) workflowID token timestamp) 401
              (ApRun RunUnauthorized)) (\<lambda>_.
     bindE (failRow (getWorkflow (aw_db w) workflowID)) (\<lambda>wfl. Inr (wf_OrgID wfl)))"

definition handleInternalGetRun ::
  "(string \<Rightarrow> string \<Rightarrow> string) \<Rightarrow> string \<Rightarrow> 'p apEnv \<Rightarrow> string \<Rightarrow> string \<Rightarrow> string \<Rightarrow> apWorld \<Rightarrow> WorkflowRun apReply" where
  "handleInternalGetRun mac key E runID token timestamp w =
     bindE (failIf (\<not> verifyHooksPoll mac key (ae_now E) runID token timestamp) 401
              (ApRun RunUnauthorized)) (\<lambda>_. failRow (getRun (aw_db w) runID))"

section \<open>Reading and cancelling runs\<close>

definition canAccessRun :: "WorkflowRun \<Rightarrow> string \<Rightarrow> string \<Rightarrow> bool" where
  "canAccessRun r u og \<longleftrightarrow> run_TriggeredBy r = u \<or> (og \<noteq> [] \<and> run_OrgID r = og)"

text \<open>The resource of a run: flat, or under the pipeline \<open>ref\<close> of a nested route.\<close>

definition runResource :: "string \<Rightarrow> string \<Rightarrow> string" where
  "runResource ref runID = ''workflows/runs/'' @ (if ref = [] then runID else ref @ ''/'' @ runID)"

definition runMatchesWorkflowRef :: "wfDB \<Rightarrow> string \<Rightarrow> WorkflowRun \<Rightarrow> string \<Rightarrow> string \<Rightarrow> bool" where
  "runMatchesWorkflowRef db ref r u og \<longleftrightarrow>
     ref = [] \<or> (case resolveWorkflowRef db ref u og of
                   Inl _ \<Rightarrow> False | Inr wfl \<Rightarrow> wf_WorkflowID wfl = run_WorkflowID r)"

definition loadRun :: "'p apEnv \<Rightarrow> string \<Rightarrow> string \<Rightarrow> string \<Rightarrow> wfDB \<Rightarrow> (string \<times> string \<times> WorkflowRun) apReply" where
  "loadRun E action ref runID db =
     bindE (authorized E action (runResource ref runID)) (\<lambda>(u, og).
     bindE (failRow (getRun db runID)) (\<lambda>r.
     bindE (failIf (\<not> canAccessRun r u og \<or> \<not> runMatchesWorkflowRef db ref r u og) 404 (ApRun RunNotFound)) (\<lambda>_.
       Inr (u, og, r))))"

definition handleListRuns :: "'p apEnv \<Rightarrow> string \<Rightarrow> apWorld \<Rightarrow> WorkflowRun list apReply" where
  "handleListRuns E workflowID w =
     bindE (authorized E ''listRun'' ''workflows/runs'') (\<lambda>(u, og). failDB (listRuns (aw_db w) u og workflowID))"

definition handleGetRun ::
  "'p apEnv \<Rightarrow> string \<Rightarrow> string \<Rightarrow> apWorld \<Rightarrow> (WorkflowRun \<times> WorkflowStepRun list) apReply" where
  "handleGetRun E ref runID w =
     bindE (loadRun E ''getRun'' ref runID (aw_db w)) (\<lambda>(u, og, r).
     bindE (failDB (getStepRuns (aw_db w) runID)) (\<lambda>steps. Inr (r, steps)))"

definition handleCancelRun :: "'p apEnv \<Rightarrow> string \<Rightarrow> string \<Rightarrow> apWorld \<Rightarrow> unit apReply \<times> apWorld" where
  "handleCancelRun E ref runID w =
     (case loadRun E ''cancelRun'' ref runID (aw_db w) of
        Inl e \<Rightarrow> (Inl e, w)
      | Inr (u, og, r) \<Rightarrow>
          (case cancelRun (ae_now E) runID (aw_db w) of
             None \<Rightarrow> (Inl (ApFail 500 ApServerProblem), w)
           | Some (affected, db) \<Rightarrow>
               if affected = 0 then (Inl (ApFail 409 (ApRun RunNotCancellable)), w)
               else (Inr (), if run_Status r = RowAwaiting then revokeRunToken E (sessionOf r) (putDB db w)
                             else putDB db w)))"

section \<open>Approval decisions\<close>

definition selectApprovalGate :: "WorkflowStepRun list \<Rightarrow> string \<Rightarrow> runMsg + WorkflowStepRun" where
  "selectApprovalGate gates stepRunID =
     (if stepRunID \<noteq> []
      then (case find (\<lambda>g. srn_StepRunID g = stepRunID) gates of None \<Rightarrow> Inl RunNoSuchGate | Some g \<Rightarrow> Inr g)
      else (case gates of
              [g] \<Rightarrow> Inr g
            | _ \<Rightarrow> Inl (RunAmbiguousGate (map (\<lambda>g. (srn_StepName g, srn_StepRunID g)) gates))))"

definition approversOf :: "Workflow \<Rightarrow> int \<Rightarrow> string list" where
  "approversOf wfl i =
     (if 0 \<le> i \<and> i < int (length (wf_Steps wfl)) then withStrings (st_With (wf_Steps wfl ! nat i)) ''approvers'' else [])"

text \<open>The checks of \<open>approvalDecision\<close> before it decides anything: the run, the gate, its pipeline.\<close>

definition approvalPlan ::
  "'p apEnv \<Rightarrow> string \<Rightarrow> string \<Rightarrow> string \<Rightarrow> wfDB \<Rightarrow> (string \<times> WorkflowRun \<times> WorkflowStepRun \<times> Workflow) apReply" where
  "approvalPlan E ref runID stepRunID db =
     bindE (loadRun E ''approveRun'' ref runID db) (\<lambda>(u, og, r).
     bindE (failIf (run_Status r \<noteq> RowAwaiting) 409 (ApRun RunNotAwaiting)) (\<lambda>_.
     bindE (failDB (approvalStepRuns db runID)) (\<lambda>gates.
     bindE (failIf (gates = []) 409 (ApRun RunNotAwaiting)) (\<lambda>_.
     bindE (case selectApprovalGate gates stepRunID of Inl m \<Rightarrow> Inl (ApFail 409 (ApRun m)) | Inr g \<Rightarrow> Inr g) (\<lambda>g.
     bindE (case getWorkflow db (run_WorkflowID r) of
              Inl ErrRecordNotFound \<Rightarrow> Inl (ApFail 409 (ApRun RunWorkflowGone))
            | Inl ErrDatabase \<Rightarrow> Inl (ApFail 500 ApServerProblem)
            | Inr wfl \<Rightarrow> Inr wfl) (\<lambda>wfl.
     bindE (failIf (approversOf wfl (srn_StepIndex g) \<noteq> [] \<and> u \<notin> set (approversOf wfl (srn_StepIndex g))) 403
              (ApRun RunNotApprover)) (\<lambda>_. Inr (u, r, g, wfl))))))))"

definition decisionFailed :: "approvalErr \<Rightarrow> apFail" where
  "decisionFailed e =
     (case e of RunNotAwaitingErr \<Rightarrow> ApFail 409 (ApRun RunNotAwaiting) | ApprovalDBErr \<Rightarrow> ApFail 500 ApServerProblem)"

definition decisionText :: "bool \<Rightarrow> string \<Rightarrow> string \<Rightarrow> string" where
  "decisionText approve username comment =
     (if approve then ''approved'' else ''rejected'') @ '' by '' @ username
     @ (if TrimSpace comment \<noteq> [] then '': '' @ TrimSpace comment else [])"

text \<open>
  Approving in its two database steps: the fresh token is stored first, then the gate is decided.
  Between them other requests may run.
\<close>

definition approveMint :: "'p apEnv \<Rightarrow> WorkflowRun \<Rightarrow> Workflow \<Rightarrow> apWorld \<Rightarrow> string apReply \<times> apWorld" where
  "approveMint E r wfl w =
     (case mintToken E (run_TriggeredBy r) (wf_RoleID wfl) w of
        (None, w1) \<Rightarrow> (Inl (ApFail 500 (ApRun RunCredentials)), w1)
      | (Some (enc, sid), w1) \<Rightarrow>
          (case UpdateToken (run_RunID r) enc sid (aw_db w1) of
             None \<Rightarrow> (Inl (ApFail 500 (ApRun RunCredentials)), revokeRunToken E sid w1)
           | Some (_, db) \<Rightarrow> (Inr sid, putDB db w1)))"

definition approveCommit ::
  "'p apEnv \<Rightarrow> WorkflowRun \<Rightarrow> WorkflowStepRun \<Rightarrow> string \<Rightarrow> string \<Rightarrow> apWorld \<Rightarrow> unit apReply \<times> apWorld" where
  "approveCommit E r g newSID decision w =
     (case resumeAfterApproval (ae_now E) (run_RunID r) (srn_StepRunID g) decision (aw_db w) of
        Inl e \<Rightarrow> (Inl (decisionFailed e), revokeRunToken E newSID w)
      | Inr db \<Rightarrow> (Inr (), revokeRunToken E (sessionOf r) (putDB db w)))"

definition rejectCommit ::
  "'p apEnv \<Rightarrow> WorkflowRun \<Rightarrow> WorkflowStepRun \<Rightarrow> string \<Rightarrow> apWorld \<Rightarrow> unit apReply \<times> apWorld" where
  "rejectCommit E r g decision w =
     (case rejectAfterApproval (ae_now E) (run_RunID r) (srn_StepRunID g) decision (aw_db w) of
        Inl e \<Rightarrow> (Inl (decisionFailed e), w)
      | Inr db \<Rightarrow> (Inr (), revokeRunToken E (sessionOf r) (putDB db w)))"

text \<open>\<open>username\<close> is what \<open>resolveUsername\<close> makes of the caller.\<close>

definition approvalDecision ::
  "'p apEnv \<Rightarrow> bool \<Rightarrow> string \<Rightarrow> string \<Rightarrow> string \<Rightarrow> string \<Rightarrow> (string \<Rightarrow> string) \<Rightarrow> apWorld \<Rightarrow> unit apReply \<times> apWorld" where
  "approvalDecision E approve ref runID stepRunID comment username w =
     (case approvalPlan E ref runID stepRunID (aw_db w) of
        Inl e \<Rightarrow> (Inl e, w)
      | Inr (u, r, g, wfl) \<Rightarrow>
          (let decision = decisionText approve (username u) comment
           in if \<not> approve then rejectCommit E r g decision w
              else (case approveMint E r wfl w of
                      (Inl e, w1) \<Rightarrow> (Inl e, w1)
                    | (Inr sid, w1) \<Rightarrow> approveCommit E r g sid decision w1)))"

section \<open>The end of a run\<close>

text \<open>
  What \<open>executeRun\<close> does last: the row, the token, and the role when the pipeline has another one by
  now.  The row's update is best-effort.
\<close>

definition completeRow :: "'p apEnv \<Rightarrow> string \<Rightarrow> rowStatus \<Rightarrow> (string \<times> string) list \<Rightarrow> apWorld \<Rightarrow> apWorld" where
  "completeRow E runID st outputs w =
     (case CompleteRun (ae_now E) runID st outputs (aw_db w) of None \<Rightarrow> w | Some (_, db) \<Rightarrow> putDB db w)"

definition collectRole :: "'p apEnv \<Rightarrow> string \<Rightarrow> string \<Rightarrow> apWorld \<Rightarrow> apWorld" where
  "collectRole E runID workflowID w =
     (let roleID = runRoleID (aw_db w) runID
      in if roleID = [] then w
         else (case getWorkflow (aw_db w) workflowID of
                 Inr cur \<Rightarrow> deleteWorkflowRoleIfUnused E roleID (wf_RoleID cur) w
               | Inl ErrRecordNotFound \<Rightarrow> deleteWorkflowRoleIfUnused E roleID [] w
               | Inl ErrDatabase \<Rightarrow> w))"

definition finishRun ::
  "'p apEnv \<Rightarrow> string \<Rightarrow> string \<Rightarrow> string \<Rightarrow> rowStatus \<Rightarrow> (string \<times> string) list \<Rightarrow> apWorld \<Rightarrow> apWorld" where
  "finishRun E runID workflowID sid st outputs w =
     collectRole E runID workflowID (revokeRunToken E sid (completeRow E runID st outputs w))"

definition failRun :: "'p apEnv \<Rightarrow> string \<Rightarrow> string \<Rightarrow> apWorld \<Rightarrow> apWorld" where
  "failRun E runID sid w = revokeRunToken E sid (completeRow E runID RowFailed [] w)"

end
