(* ===== verification/Wf_RoleTheorems.thy ===== *)
theory Wf_RoleTheorems
  imports Wf_RunApi
begin

text \<open>
  What the run role of a pipeline grants (\<open>collectWorkflowPermissions\<close>): the grants asked for are read
  off the steps, maps and ticket configuration as a list of items, and the result is characterised by
  the items.
\<close>

section \<open>What is asked for\<close>

definition declaredPerms :: "WorkflowStep list \<Rightarrow> PermissionSpec list" where
  "declaredPerms steps = concat (map (\<lambda>ws. map wildSpec
     (filter (\<lambda>p. ps_Service p \<noteq> [] \<and> ps_Action p \<noteq> [] \<and> ps_Resource p \<noteq> []) (st_Permissions ws))) steps)"

definition stepActions :: "WorkflowStep \<Rightarrow> string list" where
  "stepActions ws = (if st_Action ws = ActionHTTP then []
     else st_Action ws # (if ws_Scatter ws \<noteq> None then scatterActions else []))"

definition usedActions :: "WorkflowStep list \<Rightarrow> MapDef list \<Rightarrow> string list" where
  "usedActions steps maps = concat (map stepActions steps)
     @ concat (map (\<lambda>d. if md_Volume d \<noteq> [] then mapActions else []) maps)"

text \<open>The required permission of an action, and whether the action is asynchronous.\<close>

definition requiredOf :: "actionCatalog \<Rightarrow> string \<Rightarrow> (bool \<times> PermissionSpec) option" where
  "requiredOf catalog action = Option.bind (catalog action)
     (\<lambda>def. map_option (\<lambda>req. (ad_Async def \<noteq> None, wildSpec req)) (ad_RequiredPermission def))"

definition neededPerms :: "actionCatalog \<Rightarrow> WorkflowStep list \<Rightarrow> MapDef list \<Rightarrow> (bool \<times> PermissionSpec) list" where
  "neededPerms catalog steps maps = List.map_filter (requiredOf catalog) (usedActions steps maps)"

definition ticketPerms :: "TicketConfig option \<Rightarrow> PermissionSpec list" where
  "ticketPerms ticket = (if mirrored ticket then ticketPermissions else [])"

text \<open>A grant on its own, or an action's with its companions.\<close>

definition offers :: "bool \<times> PermissionSpec \<Rightarrow> PermissionSpec list" where
  "offers n = snd n # companions (fst n) (snd n)"

datatype permItem = Alone PermissionSpec | Action "bool \<times> PermissionSpec"

definition addItem :: "permItem \<Rightarrow> permAcc \<Rightarrow> permAcc" where
  "addItem it acc =
     (case it of
        Alone p \<Rightarrow> addPerm p acc
      | Action n \<Rightarrow> if permKey (snd n) \<in> fst acc then acc else fold addPerm (offers n) acc)"

definition actionItems :: "actionCatalog \<Rightarrow> string list \<Rightarrow> permItem list" where
  "actionItems catalog as = map Action (List.map_filter (requiredOf catalog) as)"

definition stepItems :: "actionCatalog \<Rightarrow> WorkflowStep \<Rightarrow> permItem list" where
  "stepItems catalog ws = map Alone (declaredPerms [ws]) @ actionItems catalog (stepActions ws)"

definition permItems ::
  "actionCatalog \<Rightarrow> WorkflowStep list \<Rightarrow> MapDef list \<Rightarrow> TicketConfig option \<Rightarrow> permItem list" where
  "permItems catalog steps maps ticket =
     concat (map (stepItems catalog) steps)
     @ concat (map (\<lambda>d. actionItems catalog (if md_Volume d \<noteq> [] then mapActions else [])) maps)
     @ map Alone (ticketPerms ticket)"

section \<open>The code runs through the items\<close>

lemma addAction_items: "addAction catalog a = fold addItem (actionItems catalog [a])"
  by (auto simp: fun_eq_iff addAction_def actionItems_def requiredOf_def addItem_def offers_def
      map_filter_simps split: option.splits)

lemma actionItems_append: "actionItems catalog (as @ bs) = actionItems catalog as @ actionItems catalog bs"
  by (simp add: actionItems_def List.map_filter_def)

lemma actionItems_Cons: "actionItems catalog (a # as) = actionItems catalog [a] @ actionItems catalog as"
  using actionItems_append[of catalog "[a]" as] by simp

lemma actions_items: "fold (addAction catalog) as = fold addItem (actionItems catalog as)"
proof (induction as)
  case Nil
  then show ?case by (simp add: actionItems_def map_filter_simps)
next
  case (Cons a as)
  show ?case
    unfolding actionItems_Cons[of catalog a as] fold_append fold_Cons Cons.IH addAction_items[of catalog a] ..
qed

lemma addItem_Alone [simp]: "addItem (Alone p) = addPerm p"
  by (rule ext) (simp add: addItem_def)

lemma specs_items: "fold addSpec ps acc = fold addPerm (map wildSpec
    (filter (\<lambda>p. ps_Service p \<noteq> [] \<and> ps_Action p \<noteq> [] \<and> ps_Resource p \<noteq> []) ps)) acc"
proof (induction ps arbitrary: acc)
  case (Cons p ps)
  show ?case by (auto simp: addSpec_def[of p] Cons.IH)
qed simp

lemma alone_items: "fold addItem (map Alone ps) = fold addPerm ps"
  by (simp add: fold_map comp_def)

lemma stepActions_items: "fold addItem (actionItems catalog (stepActions ws)) acc
    = (if st_Action ws = ActionHTTP then acc
       else (if ws_Scatter ws \<noteq> None then fold (addAction catalog) scatterActions (addAction catalog (st_Action ws) acc)
             else addAction catalog (st_Action ws) acc))"
proof -
  have "fold addItem (actionItems catalog (stepActions ws)) acc = fold (addAction catalog) (stepActions ws) acc"
    by (simp only: actions_items)
  then show ?thesis by (simp add: stepActions_def)
qed

lemma step_items: "addStepPerms catalog ws = fold addItem (stepItems catalog ws)"
proof
  fix acc
  have "fold addItem (stepItems catalog ws) acc
      = fold addItem (actionItems catalog (stepActions ws)) (fold addSpec (st_Permissions ws) acc)"
    by (simp add: stepItems_def alone_items specs_items declaredPerms_def del: map_map)
  then show "addStepPerms catalog ws acc = fold addItem (stepItems catalog ws) acc"
    by (simp add: addStepPerms_def stepActions_items Let_def)
qed

lemma fold_concat_items: "fold f (concat (map g xs)) = fold (\<lambda>x. fold f (g x)) xs"
  by (induction xs) auto

lemma collect_items:
  "collectWorkflowPermissions catalog steps maps ticket = snd (fold addItem (permItems catalog steps maps ticket) ({}, []))"
proof -
  have eta: "(\<lambda>ws. addStepPerms catalog ws) = (\<lambda>ws. fold addItem (stepItems catalog ws))"
    by (rule ext) (rule step_items)
  have maps: "(\<lambda>d. fold addItem (actionItems catalog (if md_Volume d \<noteq> [] then mapActions else [])))
      = (\<lambda>d acc. if md_Volume d \<noteq> [] then fold (addAction catalog) mapActions acc else acc)"
  proof (rule ext, rule ext)
    fix d acc
    show "fold addItem (actionItems catalog (if md_Volume d \<noteq> [] then mapActions else [])) acc
        = (if md_Volume d \<noteq> [] then fold (addAction catalog) mapActions acc else acc)"
      by (simp add: actions_items[symmetric])
  qed
  show ?thesis
    unfolding permItems_def fold_append comp_apply fold_concat_items maps alone_items
      eta[symmetric] collectWorkflowPermissions_def Let_def ticketPerms_def
    by (cases "mirrored ticket") simp_all
qed

section \<open>What the items give\<close>

definition keysOf :: "PermissionSpec list \<Rightarrow> string set" where
  "keysOf ps = permKey ` set ps"

lemma keysOf_simps [simp]: "keysOf [] = {}" "keysOf (p # ps) = insert (permKey p) (keysOf ps)"
  "keysOf (ps @ qs) = keysOf ps \<union> keysOf qs"
  by (auto simp: keysOf_def)

definition accOk :: "permAcc \<Rightarrow> bool" where
  "accOk acc \<longleftrightarrow> fst acc = keysOf (snd acc) \<and> distinct (map permKey (snd acc))"

lemma addPerm_facts:
  assumes "accOk acc"
  shows "accOk (addPerm p acc)" "keysOf (snd (addPerm p acc)) = insert (permKey p) (keysOf (snd acc))"
    "set (snd (addPerm p acc)) \<subseteq> insert p (set (snd acc))"
  using assms by (cases acc; auto simp: accOk_def addPerm_def keysOf_def)+

lemma addPerms_facts:
  assumes "accOk acc"
  shows "accOk (fold addPerm ps acc) \<and> keysOf (snd (fold addPerm ps acc)) = keysOf ps \<union> keysOf (snd acc)
    \<and> set (snd (fold addPerm ps acc)) \<subseteq> set ps \<union> set (snd acc)"
  using assms
proof (induction ps arbitrary: acc)
  case (Cons p ps)
  note f = addPerm_facts[OF Cons.prems, of p]
  show ?case using Cons.IH[OF f(1)] f(2,3) by auto
qed simp

definition itemOffers :: "permItem \<Rightarrow> PermissionSpec list" where
  "itemOffers it = (case it of Alone p \<Rightarrow> [p] | Action n \<Rightarrow> offers n)"

text \<open>
  The keys granted so far have their reasons: each was asked for alone, or is offered by an action all
  of whose offers were granted.
\<close>

definition reasons :: "permItem set \<Rightarrow> string set \<Rightarrow> bool" where
  "reasons items keys \<longleftrightarrow>
     (\<forall>k\<in>keys. (\<exists>p. Alone p \<in> items \<and> k = permKey p)
        \<or> (\<exists>n. Action n \<in> items \<and> k \<in> keysOf (offers n) \<and> keysOf (offers n) \<subseteq> keys))"

text \<open>An action met is granted with its companions, or another item had granted its key.\<close>

definition answered :: "permItem set \<Rightarrow> string set \<Rightarrow> bool \<times> PermissionSpec \<Rightarrow> bool" where
  "answered items keys n \<longleftrightarrow>
     permKey (snd n) \<in> keys
     \<and> (keysOf (companions (fst n) (snd n)) \<subseteq> keys
        \<or> (\<exists>p. Alone p \<in> items \<and> permKey (snd n) = permKey p)
        \<or> (\<exists>n'. Action n' \<in> items \<and> n' \<noteq> n \<and> permKey (snd n) \<in> keysOf (offers n')))"

lemma answered_mono: "answered items keys n \<Longrightarrow> items \<subseteq> items' \<Longrightarrow> keys \<subseteq> keys' \<Longrightarrow> answered items' keys' n"
  unfolding answered_def by blast

lemma reasons_mono: "reasons items keys \<Longrightarrow> items \<subseteq> items' \<Longrightarrow> reasons items' keys"
  unfolding reasons_def by (meson subsetD)

definition itemsInv :: "permItem list \<Rightarrow> permAcc \<Rightarrow> bool" where
  "itemsInv items acc \<longleftrightarrow> accOk acc \<and> set (snd acc) \<subseteq> (\<Union>it\<in>set items. set (itemOffers it))
     \<and> reasons (set items) (keysOf (snd acc))
     \<and> (\<forall>p. Alone p \<in> set items \<longrightarrow> permKey p \<in> keysOf (snd acc))
     \<and> (\<forall>n. Action n \<in> set items \<longrightarrow> answered (set items) (keysOf (snd acc)) n)"

lemma reasonsE:
  assumes "reasons items keys" "k \<in> keys"
  obtains p where "Alone p \<in> items" "k = permKey p"
  | n where "Action n \<in> items" "k \<in> keysOf (offers n)" "keysOf (offers n) \<subseteq> keys"
  using assms unfolding reasons_def by metis

lemma reasonsI:
  assumes "\<And>k. k \<in> keys \<Longrightarrow> (\<exists>p. Alone p \<in> items \<and> k = permKey p)
     \<or> (\<exists>n. Action n \<in> items \<and> k \<in> keysOf (offers n) \<and> keysOf (offers n) \<subseteq> keys)"
  shows "reasons items keys"
  using assms unfolding reasons_def by simp

lemma reasons_grow:
  assumes "reasons items keys" "items \<subseteq> items'" "keys \<subseteq> keys'"
    and "\<And>k. k \<in> keys' - keys \<Longrightarrow> (\<exists>p. Alone p \<in> items' \<and> k = permKey p)
     \<or> (\<exists>n. Action n \<in> items' \<and> k \<in> keysOf (offers n) \<and> keysOf (offers n) \<subseteq> keys')"
  shows "reasons items' keys'"
proof (rule reasonsI)
  fix k assume "k \<in> keys'"
  show "(\<exists>p. Alone p \<in> items' \<and> k = permKey p)
     \<or> (\<exists>n. Action n \<in> items' \<and> k \<in> keysOf (offers n) \<and> keysOf (offers n) \<subseteq> keys')"
  proof (cases "k \<in> keys")
    case True
    from assms(1) this show ?thesis
      by (cases rule: reasonsE) (use assms(2,3) in blast)+
  next
    case False
    with \<open>k \<in> keys'\<close> show ?thesis by (intro assms(4)) simp
  qed
qed

lemma reasons_alone: "reasons items keys \<Longrightarrow> reasons (insert (Alone p) items) (insert (permKey p) keys)"
  by (rule reasons_grow) auto

lemma reasons_action: "reasons items keys \<Longrightarrow> reasons (insert (Action n) items) (keysOf (offers n) \<union> keys)"
  by (rule reasons_grow) (assumption | blast)+

lemma answered_again:
  assumes "reasons items keys" "permKey (snd n) \<in> keys"
  shows "answered (insert (Action n) items) keys n"
  using assms
proof (cases rule: reasonsE)
  case (1 p)
  then show ?thesis using assms(2) unfolding answered_def by blast
next
  case (2 n')
  show ?thesis
  proof (cases "n' = n")
    case True
    then show ?thesis using 2(3) assms(2) by (simp add: answered_def offers_def)
  next
    case False
    then show ?thesis using 2(1,2) assms(2) unfolding answered_def by blast
  qed
qed

lemma addItem_inv:
  assumes "itemsInv items acc"
  shows "itemsInv (items @ [it]) (addItem it acc)"
proof -
  from assms have ok: "accOk acc" and offered: "set (snd acc) \<subseteq> (\<Union>it\<in>set items. set (itemOffers it))"
    and why: "reasons (set items) (keysOf (snd acc))"
    and alone: "\<forall>p. Alone p \<in> set items \<longrightarrow> permKey p \<in> keysOf (snd acc)"
    and ans: "\<forall>n. Action n \<in> set items \<longrightarrow> answered (set items) (keysOf (snd acc)) n"
    by (auto simp: itemsInv_def)
  have grown: "answered (insert it (set items)) keys n"
    if "Action n \<in> set items" "keysOf (snd acc) \<subseteq> keys" for n keys
    using answered_mono[OF ans[rule_format, OF that(1)] _ that(2)] by blast
  show ?thesis
  proof (cases it)
    case (Alone p)
    note f = addPerm_facts[OF ok, of p]
    show ?thesis
    proof -
      have "set (snd (addItem it acc)) \<subseteq> (\<Union>it\<in>set (items @ [it]). set (itemOffers it))"
        using f(3) offered by (auto simp: Alone itemOffers_def)
      moreover have "\<forall>n. Action n \<in> set (items @ [it]) \<longrightarrow> answered (set (items @ [it])) (keysOf (snd (addItem it acc))) n"
        using grown[of _ "insert (permKey p) (keysOf (snd acc))"] f(2) by (auto simp: Alone)
      moreover have "reasons (set (items @ [it])) (keysOf (snd (addItem it acc)))"
        using reasons_alone[OF why, of p] f(2) by (simp add: Alone)
      moreover have "\<forall>q. Alone q \<in> set (items @ [it]) \<longrightarrow> permKey q \<in> keysOf (snd (addItem it acc))"
        using alone f(2) by (auto simp: Alone)
      ultimately show ?thesis using f(1) unfolding itemsInv_def by (simp add: Alone)
    qed
  next
    case (Action n)
    show ?thesis
    proof (cases "permKey (snd n) \<in> keysOf (snd acc)")
      case True
      have "answered (insert it (set items)) (keysOf (snd acc)) n"
        using answered_again[OF why True] Action by simp
      moreover have "fst acc = keysOf (snd acc)" using ok by (simp add: accOk_def)
      moreover have "reasons (insert it (set items)) (keysOf (snd acc))" by (rule reasons_mono[OF why]) blast
      ultimately show ?thesis
        using True offered alone grown[OF _ subset_refl] ok by (auto simp: itemsInv_def Action addItem_def)
    next
      case False
      note f = addPerms_facts[OF ok, of "offers n"]
      have key: "fst acc = keysOf (snd acc)" using ok by (simp add: accOk_def)
      have "answered (insert it (set items)) (keysOf (offers n) \<union> keysOf (snd acc)) n"
        by (auto simp: answered_def offers_def)
      moreover have "reasons (insert it (set items)) (keysOf (offers n) \<union> keysOf (snd acc))"
        using reasons_action[OF why, of n] Action by simp
      ultimately show ?thesis
        using False key f offered alone grown[of _ "keysOf (offers n) \<union> keysOf (snd acc)"]
        by (auto simp: itemsInv_def Action addItem_def itemOffers_def)
    qed
  qed
qed

lemma items_inv: "itemsInv items (fold addItem items ({}, []))"
proof (induction items rule: rev_induct)
  case Nil
  show ?case by (simp add: itemsInv_def accOk_def reasons_def)
next
  case (snoc it items)
  then show ?case using addItem_inv by simp
qed

lemma mem_map_filter: "x \<in> set (List.map_filter f xs) \<longleftrightarrow> (\<exists>y\<in>set xs. f y = Some x)"
  by (induction xs) (auto simp: map_filter_simps split: option.split)

lemma mem_actionItems:
  "Alone p \<notin> set (actionItems catalog as)"
  "Action n \<in> set (actionItems catalog as) \<longleftrightarrow> (\<exists>a\<in>set as. requiredOf catalog a = Some n)"
  by (auto simp: actionItems_def mem_map_filter image_iff)

lemma set_permItems:
  "Alone p \<in> set (permItems catalog steps maps ticket) \<longleftrightarrow> p \<in> set (declaredPerms steps) \<union> set (ticketPerms ticket)"
  "Action n \<in> set (permItems catalog steps maps ticket) \<longleftrightarrow> n \<in> set (neededPerms catalog steps maps)"
  unfolding permItems_def stepItems_def neededPerms_def usedActions_def
  by (auto simp: mem_actionItems mem_map_filter declaredPerms_def)

lemma permItems_split: "permItems catalog steps maps ticket = permItems catalog steps maps None @ map Alone (ticketPerms ticket)"
  by (simp add: permItems_def ticketPerms_def mirrored_def)

lemma collect_inv:
  "itemsInv (permItems catalog steps maps ticket) (fold addItem (permItems catalog steps maps ticket) ({}, []))"
  by (rule items_inv)

lemma companions_answered:
  assumes "n \<in> set (neededPerms catalog steps maps)"
  shows "answered (set (permItems catalog steps maps None)) (keysOf (collectWorkflowPermissions catalog steps maps ticket)) n"
proof -
  let ?pre = "permItems catalog steps maps None"
  note inv = items_inv[of ?pre]
  then have "answered (set ?pre) (keysOf (snd (fold addItem ?pre ({}, [])))) n"
    using assms unfolding itemsInv_def set_permItems by blast
  moreover have "keysOf (snd (fold addItem ?pre ({}, []))) \<subseteq> keysOf (collectWorkflowPermissions catalog steps maps ticket)"
    using addPerms_facts[of "fold addItem ?pre ({}, [])" "ticketPerms ticket"] inv
    by (simp add: collect_items permItems_split[of catalog steps maps ticket] alone_items itemsInv_def)
  ultimately show ?thesis by (rule answered_mono[OF _ subset_refl])
qed

lemma granted:
  "set (collectWorkflowPermissions catalog steps maps ticket) \<subseteq> set (declaredPerms steps) \<union> set (ticketPerms ticket)
     \<union> (\<Union>n\<in>set (neededPerms catalog steps maps). set (offers n))"
proof
  let ?items = "permItems catalog steps maps ticket"
  fix p assume "p \<in> set (collectWorkflowPermissions catalog steps maps ticket)"
  then obtain it where it: "it \<in> set ?items" "p \<in> set (itemOffers it)"
    using collect_inv[of catalog steps maps ticket] unfolding itemsInv_def collect_items by blast
  show "p \<in> set (declaredPerms steps) \<union> set (ticketPerms ticket)
    \<union> (\<Union>n\<in>set (neededPerms catalog steps maps). set (offers n))"
  proof (cases it)
    case (Alone q)
    with it show ?thesis by (auto simp: itemOffers_def set_permItems)
  next
    case (Action n)
    with it show ?thesis by (auto simp: itemOffers_def set_permItems)
  qed
qed


section \<open>Roles that lack what a step needs\<close>

definition exAction :: "string \<Rightarrow> bool \<Rightarrow> string \<Rightarrow> string \<Rightarrow> ActionDef" where
  "exAction name async action resource =
     \<lparr>ad_Name = name, ad_Summary = [], ad_Description = [], ad_ServiceName = ''forge'', ad_ServiceURL = [],
      ad_Method = ''POST'', ad_Path = [], ad_BodyTransforms = [],
      ad_Async = if async then Some \<lparr>ac_IDField = ''execution_id'', ac_PollPath = ''/executions/{id}'',
        ac_PollIntervalSecs = 2, ac_StatusField = ''status'', ac_SuccessStates = [''completed''], ac_FailureStates = [],
        ac_CancelStates = [], ac_QueuedStates = [], ac_OutputField = [], ac_OutputMapField = [], ac_ErrorFields = []\<rparr>
        else None,
      ad_RequiredPermission = Some (spec ''forge'' action resource)\<rparr>"

definition exCatalog :: actionCatalog where
  "exCatalog = [''forge/run'' \<mapsto> exAction ''forge/run'' True ''createExecution'' ''forge/executions'',
     ''forge/resolve-paths'' \<mapsto> exAction ''forge/resolve-paths'' True ''createExecution'' ''forge/executions'']"

definition exStep :: "string \<Rightarrow> string \<Rightarrow> PermissionSpec list \<Rightarrow> WorkflowStep" where
  "exStep name action perms = (plain_step name)\<lparr>st_StepID := [], st_Action := action, st_Permissions := perms\<rparr>"

definition exScatter :: ScatterConfig where
  "exScatter = \<lparr>sca_Volume = [], sca_MountPath = [], sca_Regex = ''^svc'', sca_Mode = [], sca_MaxDepth = 0,
     sca_PathsFrom = [], sca_Outputs = [], sca_ShareBase = False, sca_SizeMB = 0, sca_Medium = [],
     sca_MaxConcurrent = 0\<rparr>"


text \<open>
  A step that declares the permission its own action requires loses the companions: the poll of the job
  it submits is refused.
\<close>

lemma declared_permission_hides_companions:
  "collectWorkflowPermissions exCatalog
     [exStep ''a'' ''forge/run'' [spec ''forge'' ''createExecution'' ''forge/executions'']] [] None
   = [spec ''forge'' ''createExecution'' ''forge/executions'']"
  by code_simp

text \<open>A scatter over an \<open>http\<close> action is given none of the forge actions the scatter itself drives.\<close>

lemma http_scatter_ungranted:
  "validateStepRefShape 0 (zeroRef\<lparr>wsr_Name := ''a'', wsr_Action := ActionHTTP, wsr_With := [(''service'', AStr ''forge''), (''path'', AStr ''/x'')],
     wsr_Scatter := Some exScatter\<rparr>) = None"
  "collectWorkflowPermissions catalog [(exStep ''a'' ActionHTTP [])\<lparr>ws_Scatter := s\<rparr>] [] None = []"
  by (code_simp, simp add: collectWorkflowPermissions_def addStepPerms_def exStep_def plain_step_def mirrored_def)

text \<open>
  No role can cancel the jobs its steps submit, unless a step says so: what goes with a submission is the
  permission to read, not the one to delete.
\<close>

lemma no_cancel_grant:
  assumes "p \<in> set (collectWorkflowPermissions catalog steps maps ticket)" "ps_Action p = ''deleteExecution''"
  shows "p \<in> set (declaredPerms steps) \<or> p \<in> snd ` set (neededPerms catalog steps maps)"
proof -
  have "p \<notin> set (ticketPerms ticket)" using assms(2) by (auto simp: ticketPerms_def ticketPermissions_def spec_def)
  moreover have "p \<notin> set (companions b q)" for b q
    using assms(2) by (auto simp: companions_def spec_def)
  ultimately show ?thesis
    using subsetD[OF granted assms(1)] by (auto simp: offers_def)
qed

end
