(* ===== verification/Wf_RunLife.thy ===== *)
theory Wf_RunLife
  imports Wf_RunApi
begin

text \<open>
  The life of a run in the database: every statement that workers, approvers, cancellations and sweeps
  issue, in any interleaving of whole statements and transactions.
\<close>

section \<open>The statements\<close>

datatype runEvent = RunInserted string | RunClaimed string | GateDecided string | OtherStatement

definition terminalRow :: "rowStatus \<Rightarrow> bool" where
  "terminalRow st \<longleftrightarrow> st \<in> {RowCompleted, RowFailed, RowCancelled}"

text \<open>
  A worker pauses a run only after it has recorded its gates, and completes only step runs it has
  started itself; an approver decides a gate of the run it names.
\<close>

definition gateOf :: "string \<Rightarrow> string \<Rightarrow> wfDB \<Rightarrow> bool" where
  "gateOf i g db \<longleftrightarrow> (\<forall>s\<in>set (wdb_stepRuns db). srn_StepRunID s = g \<longrightarrow> srn_RunID s = i)"

inductive run_sql :: "wfDB \<Rightarrow> runEvent \<Rightarrow> wfDB \<Rightarrow> bool" where
  inserted: "addRun r db = Some db' \<Longrightarrow> run_Status r = RowPending \<Longrightarrow> run_sql db (RunInserted (run_RunID r)) db'"
| claimed: "Dequeue locked now db = Inr (Some r, db') \<Longrightarrow> run_sql db (RunClaimed (run_RunID r)) db'"
| cancelled: "cancelRun now i db = Some (n, db') \<Longrightarrow> run_sql db OtherStatement db'"
| paused: "PauseForApproval i st db = Some (n, db') \<Longrightarrow> gatesLeft i db \<Longrightarrow> run_sql db OtherStatement db'"
| completed: "CompleteRun now i st outputs db = Some (n, db') \<Longrightarrow> terminalRow st \<Longrightarrow> run_sql db OtherStatement db'"
| token: "UpdateToken i tok sid db = Some (n, db') \<Longrightarrow> run_sql db OtherStatement db'"
| ticket: "SetTicket i t db = Some (n, db') \<Longrightarrow> run_sql db OtherStatement db'"
| progress: "SetCurrentStep i st db = Some (n, db') \<Longrightarrow> run_sql db OtherStatement db'"
| heartbeat: "Heartbeat now i db = Some (n, db') \<Longrightarrow> run_sql db OtherStatement db'"
| recovered: "recoverStuckRunsWithJobs now db = (reclaimed, n, db') \<Longrightarrow> run_sql db OtherStatement db'"
| timed_out: "failTimedOutRunsDB now db = Some (n, db') \<Longrightarrow> run_sql db OtherStatement db'"
| approved: "resumeAfterApproval now i g decision db = Inr db' \<Longrightarrow> gateOf i g db \<Longrightarrow> run_sql db (GateDecided i) db'"
| rejected: "rejectAfterApproval now i g decision db = Inr db' \<Longrightarrow> gateOf i g db \<Longrightarrow> run_sql db (GateDecided i) db'"
| step_started: "startStepRun now g i index name db = Some db' \<Longrightarrow> run_sql db OtherStatement db'"
| gate_recorded: "AddAwaitingApproval now g i index name message db = Some db' \<Longrightarrow> run_sql db OtherStatement db'"
| step_finished: "CompleteStepRun now g st out logs used limit db = Some (n, db') \<Longrightarrow> \<not> gateOpen g db \<Longrightarrow> st \<noteq> RowAwaiting
    \<Longrightarrow> run_sql db OtherStatement db'"
| step_shown: "SetStatus now g st db = Some (n, db') \<Longrightarrow> \<not> gateOpen g db \<Longrightarrow> st \<noteq> RowAwaiting
    \<Longrightarrow> run_sql db OtherStatement db'"
| step_logged: "SetLogs g logs db = Some (n, db') \<Longrightarrow> run_sql db OtherStatement db'"
| job_recorded: "SetJob g action jobID db = Some (n, db') \<Longrightarrow> run_sql db OtherStatement db'"
| job_cleared: "ClearJob g db = Some (n, db') \<Longrightarrow> run_sql db OtherStatement db'"

text \<open>What one statement may do to a run: its identity stays, its status moves along an edge.\<close>

definition statusEdges :: "(rowStatus \<times> rowStatus) set" where
  "statusEdges = {(RowPending, RowRunning), (RowPending, RowCancelled), (RowRunning, RowAwaiting),
     (RowRunning, RowCompleted), (RowRunning, RowFailed), (RowRunning, RowCancelled), (RowAwaiting, RowPending),
     (RowAwaiting, RowFailed), (RowAwaiting, RowCancelled)}"

definition sameRun :: "WorkflowRun \<Rightarrow> WorkflowRun \<Rightarrow> bool" where
  "sameRun r r' \<longleftrightarrow> run_RunID r' = run_RunID r \<and> run_WorkflowID r' = run_WorkflowID r
     \<and> run_TriggeredBy r' = run_TriggeredBy r \<and> run_OrgID r' = run_OrgID r \<and> run_Project r' = run_Project r
     \<and> run_ProjectID r' = run_ProjectID r \<and> run_ProjectNamespace r' = run_ProjectNamespace r
     \<and> run_Inputs r' = run_Inputs r \<and> run_Depth r' = run_Depth r \<and> run_ParentRunID r' = run_ParentRunID r
     \<and> run_RoleID r' = run_RoleID r \<and> run_CreatedAt r' = run_CreatedAt r"

definition runMove :: "WorkflowRun \<Rightarrow> WorkflowRun \<Rightarrow> bool" where
  "runMove r r' \<longleftrightarrow> sameRun r r'
     \<and> (run_Status r' = run_Status r \<and> run_Outputs r' = run_Outputs r \<and> run_EndedAt r' = run_EndedAt r
        \<or> (run_Status r, run_Status r') \<in> statusEdges \<and> \<not> terminalRow (run_Status r))"

lemma runMove_refl [simp]: "runMove r r"
  by (simp add: runMove_def sameRun_def)

definition movedTable :: "WorkflowRun list \<Rightarrow> WorkflowRun list \<Rightarrow> bool" where
  "movedTable rs rs' \<longleftrightarrow> (\<exists>f new. rs' = map f rs @ new \<and> (\<forall>r\<in>set rs. runMove r (f r))
      \<and> distinct (map run_RunID new) \<and> run_RunID ` set new \<inter> run_RunID ` set rs = {})"

lemma movedTable_map: "(\<And>r. r \<in> set rs \<Longrightarrow> runMove r (f r)) \<Longrightarrow> movedTable rs (map f rs)"
  unfolding movedTable_def by (rule exI[of _ f], rule exI[of _ "[]"]) simp

lemma movedTable_same: "movedTable rs rs"
  using movedTable_map[of rs id] by simp

lemma execRuns_moved:
  assumes "execRuns P f db = Some (n, db')" "\<And>r. P r \<Longrightarrow> runMove r (f r)"
  shows "movedTable (wdb_runs db) (wdb_runs db')"
proof -
  have "wdb_runs db' = map (\<lambda>r. if P r then f r else r) (wdb_runs db)"
    using assms(1) by (auto simp: execRuns_def split: if_splits)
  then show ?thesis using assms(2) by (auto intro: movedTable_map)
qed

lemma step_runs_only:
  "addStepRun s db = Some db' \<Longrightarrow> wdb_runs db' = wdb_runs db"
  "execStepRuns Q h db = Some (n, db') \<Longrightarrow> wdb_runs db' = wdb_runs db"
  "wdb_runs (decideGate now st g d db) = wdb_runs db" "wdb_runs (cancelGates now i db) = wdb_runs db"
  by (auto simp: addStepRun_def execStepRuns_def decideGate_def cancelGates_def split: if_splits)

named_theorems run_rows

lemmas [run_rows] = cancelRun_def PauseForApproval_def CompleteRun_def UpdateToken_def SetTicket_def
  SetCurrentStep_def Heartbeat_def failTimedOutRunsDB_def

lemmas [run_rows] = startStepRun_def AddAwaitingApproval_def CompleteStepRun_def SetStatus_def
  SetLogs_def SetJob_def ClearJob_def

lemma key_row: "distinct (map run_RunID rs) \<Longrightarrow> r \<in> set rs \<Longrightarrow> x \<in> set rs \<Longrightarrow> run_RunID x = run_RunID r \<Longrightarrow> x = r"
  by (rule distinct_key)

lemma Dequeue_Some:
  assumes "Dequeue locked now db = Inr (Some r, db')"
  shows "r \<in> set (wdb_runs db)" "run_Status r = RowPending" "\<not> locked (run_RunID r)"
    "db' = db\<lparr>wdb_runs := map (\<lambda>x. if run_RunID x = run_RunID r
        then x\<lparr>run_Status := RowRunning, run_StartedAt := Some now, run_HeartbeatAt := Some now\<rparr> else x) (wdb_runs db)\<rparr>"
proof -
  let ?ready = "\<lambda>r. run_Status r = RowPending \<and> \<not> locked (run_RunID r)"
  from assms obtain rest where rest: "sort_key run_CreatedAt (filter ?ready (wdb_runs db)) = r # rest"
    and db': "db' = db\<lparr>wdb_runs := map (\<lambda>x. if run_RunID x = run_RunID r
        then x\<lparr>run_Status := RowRunning, run_StartedAt := Some now, run_HeartbeatAt := Some now\<rparr> else x) (wdb_runs db)\<rparr>"
    by (auto simp: Dequeue_def split: if_splits list.splits)
  have "r \<in> set (sort_key run_CreatedAt (filter ?ready (wdb_runs db)))" unfolding rest by simp
  then have "r \<in> set (wdb_runs db) \<and> ?ready r" by simp
  then show "r \<in> set (wdb_runs db)" "run_Status r = RowPending" "\<not> locked (run_RunID r)" by simp_all
  show "db' = db\<lparr>wdb_runs := map (\<lambda>x. if run_RunID x = run_RunID r
        then x\<lparr>run_Status := RowRunning, run_StartedAt := Some now, run_HeartbeatAt := Some now\<rparr> else x) (wdb_runs db)\<rparr>"
    by (rule db')
qed

lemma Dequeue_runs:
  "Dequeue locked now db = Inr (Some r, db') \<Longrightarrow> wdb_runs db' = map (\<lambda>x. if run_RunID x = run_RunID r
     then x\<lparr>run_Status := RowRunning, run_StartedAt := Some now, run_HeartbeatAt := Some now\<rparr> else x) (wdb_runs db)"
  using Dequeue_Some(4) by fastforce

text \<open>The runs after a decision.\<close>

lemma resumed_runs:
  assumes "resumeAfterApproval now i g decision db = Inr db'"
  shows "wdb_runs db' = wdb_runs db \<or> wdb_runs db' = wdb_runs (requeueRun i db)"
  using assms
  by (auto simp: resumeAfterApproval_def resumeWrites_def Let_def requeueRun_def decideGate_def split: if_splits)

lemma rejected_runs:
  assumes "rejectAfterApproval now i g decision db = Inr db'"
  shows "wdb_runs db' = wdb_runs (failAwaitingRun now i db)"
  using assms by (auto simp: rejectAfterApproval_def failAwaitingRun_def decideGate_def cancelGates_def split: if_splits)

lemma moves:
  "run_Status r = RowAwaiting \<Longrightarrow> runMove r (r\<lparr>run_Status := RowPending\<rparr>)"
  "run_Status r = RowAwaiting \<Longrightarrow> runMove r (failedBySweep now r)"
  "run_Status r = RowRunning \<Longrightarrow> runMove r (failedBySweep now r)"
  "cancellable r \<Longrightarrow> runMove r (r\<lparr>run_Status := RowCancelled, run_EndedAt := Some now, run_Token := None\<rparr>)"
  "run_Status r = RowRunning \<Longrightarrow> runMove r (r\<lparr>run_Status := RowAwaiting, run_CurrentStep := n\<rparr>)"
  "run_Status r = RowRunning \<Longrightarrow> terminalRow st \<Longrightarrow> runMove r (r\<lparr>run_Status := st, run_Outputs := out,
     run_EndedAt := Some now, run_Token := None, run_RunSessionID := None\<rparr>)"
  "run_Status r = RowPending \<Longrightarrow> runMove r (r\<lparr>run_Status := RowRunning, run_StartedAt := a, run_HeartbeatAt := b\<rparr>)"
  "runMove r (r\<lparr>run_Token := tok, run_RunSessionID := sid\<rparr>)" "runMove r (r\<lparr>run_TicketID := t\<rparr>)"
  "runMove r (r\<lparr>run_CurrentStep := n\<rparr>)" "runMove r (r\<lparr>run_HeartbeatAt := a\<rparr>)"
  by (auto simp: runMove_def sameRun_def statusEdges_def terminalRow_def failedBySweep_def cancellable_def)

lemma run_sql_moved:
  assumes "run_sql db e db'" "distinct (map run_RunID (wdb_runs db))"
  shows "movedTable (wdb_runs db) (wdb_runs db')"
  using assms
proof cases
  case (inserted r)
  then have "wdb_runs db' = map id (wdb_runs db) @ [r]" "run_RunID r \<notin> run_RunID ` set (wdb_runs db)"
    by (auto simp: addRun_def split: if_splits)
  then show ?thesis unfolding movedTable_def by (intro exI[of _ id] exI[of _ "[r]"]) simp
next
  case (claimed locked now r)
  note d = Dequeue_Some[OF claimed(2)]
  show ?thesis unfolding d(4)
    by (simp, rule movedTable_map) (use d(1,2) assms(2) moves(7) in \<open>auto dest: key_row\<close>)
next
  case (recovered now reclaimed n)
  then show ?thesis
    by (auto simp: recoverStuckRunsWithJobs_def movedTable_same leaseStale_def moves
        split: option.splits intro: execRuns_moved)
next
  case (approved now i g decision)
  have "movedTable (wdb_runs db) (wdb_runs (requeueRun i db))"
    by (simp add: requeueRun_def, rule movedTable_map) (simp add: moves)
  with resumed_runs[OF approved(2)] show ?thesis by (auto simp: movedTable_same)
next
  case (rejected now i g decision)
  have "movedTable (wdb_runs db) (wdb_runs (failAwaitingRun now i db))"
    by (simp add: failAwaitingRun_def, rule movedTable_map) (simp add: moves)
  with rejected_runs[OF rejected(2)] show ?thesis by simp
qed (auto simp: run_rows moves timedOut_def step_runs_only movedTable_same elim!: execRuns_moved)

text \<open>The interface of the store: rows keep their keys and move forward.\<close>

definition uniqueRuns :: "wfDB \<Rightarrow> bool" where
  "uniqueRuns db \<longleftrightarrow> distinct (map run_RunID (wdb_runs db))"

definition run_step :: "wfDB \<Rightarrow> wfDB \<Rightarrow> bool" where
  "run_step db db' \<longleftrightarrow> (\<exists>e. run_sql db e db')"

definition finalRow :: "WorkflowRun \<Rightarrow> WorkflowRun \<Rightarrow> bool" where
  "finalRow r r' \<longleftrightarrow> sameRun r r' \<and> (terminalRow (run_Status r) \<longrightarrow>
     run_Status r' = run_Status r \<and> run_Outputs r' = run_Outputs r \<and> run_EndedAt r' = run_EndedAt r)"

definition runsLe :: "wfDB \<Rightarrow> wfDB \<Rightarrow> bool" where
  "runsLe db db' \<longleftrightarrow> (\<forall>r\<in>set (wdb_runs db). \<exists>r'\<in>set (wdb_runs db'). finalRow r r')"

lemma finalRow_trans: "finalRow a b \<Longrightarrow> finalRow b c \<Longrightarrow> finalRow a c"
  by (auto simp: finalRow_def sameRun_def)

lemma moved_unique:
  assumes "movedTable rs rs'" "distinct (map run_RunID rs)"
  shows "distinct (map run_RunID rs')"
proof -
  from assms(1) obtain f new where f: "rs' = map f rs @ new" "\<forall>r\<in>set rs. runMove r (f r)"
    "distinct (map run_RunID new)" "run_RunID ` set new \<inter> run_RunID ` set rs = {}"
    unfolding movedTable_def by blast
  have same: "map run_RunID (map f rs) = map run_RunID rs"
    using f(2) by (auto simp: runMove_def sameRun_def)
  then have "run_RunID ` set (map f rs) = run_RunID ` set rs" by (metis set_map)
  then show ?thesis using f(3,4) assms(2) unfolding f(1) map_append distinct_append same by (auto simp: set_map)
qed

lemma moved_final: "movedTable (wdb_runs db) (wdb_runs db') \<Longrightarrow> runsLe db db'"
  unfolding movedTable_def runsLe_def
  by (auto simp: runMove_def finalRow_def)

interpretation runs: forward_system "\<lambda>db. wdb_runs db = []" run_step uniqueRuns runsLe
proof
  show "uniqueRuns db" if "wdb_runs db = []" for db using that by (simp add: uniqueRuns_def)
  show "uniqueRuns db'" if "uniqueRuns db" "run_step db db'" for db db'
    using that moved_unique run_sql_moved unfolding uniqueRuns_def run_step_def by blast
  show "runsLe db db" for db by (auto simp: runsLe_def finalRow_def sameRun_def)
  show "runsLe a c" if "runsLe a b" "runsLe b c" for a b c
    using that finalRow_trans unfolding runsLe_def by blast
  show "runsLe db db'" if "uniqueRuns db" "run_step db db'" for db db'
    using that run_sql_moved moved_final unfolding uniqueRuns_def run_step_def by blast
qed

text \<open>
  C33: a run keeps its identity, inputs, project and role for ever, and once it has completed, failed or
  been cancelled its status, outputs and end never change again, under every interleaving of the
  statements of workers, approvers, cancellations and sweeps.
\<close>
theorem run_life_cycle:
  assumes "run_step\<^sup>*\<^sup>* db db'" "uniqueRuns db" "r \<in> set (wdb_runs db)"
  shows "\<exists>r'\<in>set (wdb_runs db'). sameRun r r' \<and> (terminalRow (run_Status r) \<longrightarrow>
     run_Status r' = run_Status r \<and> run_Outputs r' = run_Outputs r \<and> run_EndedAt r' = run_EndedAt r)"
  using runs.steps_le[OF assms(1,2)] assms(3) unfolding runsLe_def finalRow_def by blast

section \<open>One worker at a time\<close>

inductive run_trace :: "wfDB \<Rightarrow> runEvent list \<Rightarrow> wfDB \<Rightarrow> bool" where
  trace_Nil: "run_trace db [] db"
| trace_Cons: "run_sql db e db1 \<Longrightarrow> run_trace db1 es db2 \<Longrightarrow> run_trace db (e # es) db2"

inductive_cases run_trace_ConsE: "run_trace db (e # es) db'"
inductive_cases run_trace_NilE: "run_trace db [] db'"

lemma trace_append: "run_trace db (es @ fs) db' \<Longrightarrow> \<exists>m. run_trace db es m \<and> run_trace m fs db'"
  by (induction es arbitrary: db) (auto intro: run_trace.intros elim!: run_trace_ConsE, metis run_trace.intros(2))

lemma trace_unique: "run_trace db es db' \<Longrightarrow> uniqueRuns db \<Longrightarrow> uniqueRuns db'"
  by (induction rule: run_trace.induct) (use runs.step_inv in \<open>auto simp: run_step_def\<close>)

definition started :: "string \<Rightarrow> wfDB \<Rightarrow> bool" where
  "started i db \<longleftrightarrow> (\<exists>r\<in>set (wdb_runs db). run_RunID r = i \<and> run_Status r \<noteq> RowPending)"

lemma execRuns_started:
  assumes "execRuns P f db = Some (n, db')" "\<And>r. P r \<Longrightarrow> run_RunID (f r) = run_RunID r \<and> (run_Status (f r) = RowPending \<longrightarrow> run_Status r = RowPending)"
    and "started i db"
  shows "started i db'"
proof -
  have "wdb_runs db' = map (\<lambda>r. if P r then f r else r) (wdb_runs db)"
    using assms(1) by (auto simp: execRuns_def split: if_splits)
  then show ?thesis using assms(2,3) by (auto simp: started_def)
qed

lemma started_mapI:
  "wdb_runs db' = map f (wdb_runs db) \<Longrightarrow> r \<in> set (wdb_runs db) \<Longrightarrow> run_RunID (f r) = i
   \<Longrightarrow> run_Status (f r) \<noteq> RowPending \<Longrightarrow> started i db'"
  by (auto simp: started_def)

lemma started_same: "wdb_runs db' = wdb_runs db \<Longrightarrow> started i db \<Longrightarrow> started i db'"
  by (simp add: started_def)

lemma started_kept:
  assumes "run_sql db e db'" "e \<noteq> GateDecided i" "started i db"
  shows "started i db'"
  using assms
proof cases
  case (inserted r)
  then show ?thesis using assms(3) by (auto simp: addRun_def started_def split: if_splits)
next
  case (claimed locked now r)
  from assms(3) obtain x where x: "x \<in> set (wdb_runs db)" "run_RunID x = i" "run_Status x \<noteq> RowPending"
    by (auto simp: started_def)
  show ?thesis
    by (rule started_mapI[OF Dequeue_runs[OF claimed(2)] x(1)]) (simp_all add: x(2,3))
next
  case (recovered now reclaimed n)
  then show ?thesis using assms(3)
    by (auto simp: recoverStuckRunsWithJobs_def failedBySweep_def split: option.splits elim!: execRuns_started)
next
  case (approved now i' g decision)
  then have "i' \<noteq> i" using assms(2) by blast
  moreover have "started i (requeueRun i' db)" if "i' \<noteq> i"
    using assms(3) that by (auto simp: requeueRun_def started_def)
  ultimately show ?thesis using resumed_runs[OF approved(2)] assms(3) by (auto intro: started_same)
next
  case (rejected now i' g decision)
  from assms(3) obtain x where x: "x \<in> set (wdb_runs db)" "run_RunID x = i" "run_Status x \<noteq> RowPending"
    by (auto simp: started_def)
  have "wdb_runs (failAwaitingRun now i' db) = map (\<lambda>r. if run_RunID r = i' \<and> run_Status r = RowAwaiting
      then failedBySweep now r else r) (wdb_runs db)" by (simp add: failAwaitingRun_def)
  then have "started i (failAwaitingRun now i' db)"
    by (rule started_mapI[OF _ x(1)]) (simp_all add: failedBySweep_def x(2,3))
  with rejected_runs[OF rejected(2)] show ?thesis by (simp add: started_def)
next
  case (completed now i' st outputs n)
  then show ?thesis using assms(3)
    by (auto simp: run_rows terminalRow_def elim!: execRuns_started)
qed (use assms(3) in \<open>auto simp: run_rows failedBySweep_def timedOut_def step_runs_only
       elim!: execRuns_started intro: started_same\<close>)

lemma trace_started:
  "run_trace db es db' \<Longrightarrow> started i db \<Longrightarrow> GateDecided i \<notin> set es \<Longrightarrow> started i db'"
  by (induction rule: run_trace.induct) (auto simp: started_kept)

lemma claim_starts:
  assumes "run_sql db (RunClaimed i) db'"
  shows "started i db'"
  using assms
proof cases
  case (claimed locked now r)
  note d = Dequeue_Some[OF claimed(2)]
  show ?thesis
    by (rule started_mapI[OF Dequeue_runs[OF claimed(2)] d(1)]) (use claimed(1) in simp_all)
qed

lemma claim_pending:
  assumes "run_sql db (RunClaimed i) db'" "uniqueRuns db"
  shows "\<not> started i db"
  using assms(1)
proof cases
  case (claimed locked now r)
  note d = Dequeue_Some[OF claimed(2)]
  show ?thesis
  proof
    assume "started i db"
    then obtain x where "x \<in> set (wdb_runs db)" "run_RunID x = i" "run_Status x \<noteq> RowPending" by (auto simp: started_def)
    moreover from this have "x = r" using key_row[of "wdb_runs db" r x] d(1) claimed(1) assms(2)
      by (simp add: uniqueRuns_def)
    ultimately show False using d(2) by simp
  qed
qed

text \<open>
  C32: two workers never hold the same run: between two claims of a run lies a decision on one of its
  gates, which alone puts a run back into the queue.
\<close>
theorem run_claimed_once:
  assumes "run_trace db (es1 @ RunClaimed i # es2 @ RunClaimed i # es3) db'" "uniqueRuns db"
  shows "GateDecided i \<in> set es2"
proof (rule ccontr)
  assume "GateDecided i \<notin> set es2"
  from trace_append[OF assms(1)] obtain m where m: "run_trace db es1 m" "run_trace m (RunClaimed i # es2 @ RunClaimed i # es3) db'"
    by blast
  then obtain m1 where m1: "run_sql m (RunClaimed i) m1" "run_trace m1 (es2 @ RunClaimed i # es3) db'"
    by (auto elim: run_trace_ConsE)
  from trace_append[OF m1(2)] obtain m2 where m2: "run_trace m1 es2 m2" "run_trace m2 (RunClaimed i # es3) db'"
    by blast
  then obtain m3 where m3: "run_sql m2 (RunClaimed i) m3" by (auto elim: run_trace_ConsE)
  have "uniqueRuns m" by (rule trace_unique[OF m(1) assms(2)])
  then have "uniqueRuns m1" using m1(1) runs.step_inv unfolding run_step_def by blast
  then have "uniqueRuns m2" by (rule trace_unique[OF m2(1)])
  moreover have "started i m2"
    by (rule trace_started[OF m2(1) claim_starts[OF m1(1)] \<open>GateDecided i \<notin> set es2\<close>])
  ultimately show False using claim_pending[OF m3] by blast
qed

section \<open>Parked runs\<close>

text \<open>A run that waits has a gate that waits.\<close>

definition parkedInv :: "wfDB \<Rightarrow> bool" where
  "parkedInv db \<longleftrightarrow> uniqueRuns db
     \<and> (\<forall>r\<in>set (wdb_runs db). run_Status r = RowAwaiting \<longrightarrow> gatesLeft (run_RunID r) db)"

lemma parked_execRuns:
  assumes "execRuns P f db = Some (n, db')" "parkedInv db" "uniqueRuns db'"
    and "\<And>r. P r \<Longrightarrow> run_RunID (f r) = run_RunID r
      \<and> (run_Status (f r) = RowAwaiting \<longrightarrow> run_Status r = RowAwaiting \<or> gatesLeft (run_RunID r) db)"
  shows "parkedInv db'"
proof -
  have db': "db' = db\<lparr>wdb_runs := map (\<lambda>r. if P r then f r else r) (wdb_runs db)\<rparr>"
    using assms(1) by (auto simp: execRuns_def split: if_splits)
  have same: "gatesLeft i db' = gatesLeft i db" for i by (simp add: db' gatesLeft_def)
  have "gatesLeft (run_RunID r') db'" if r': "r' \<in> set (wdb_runs db')" "run_Status r' = RowAwaiting" for r'
  proof -
    from r'(1) obtain x where x: "x \<in> set (wdb_runs db)" "r' = (if P x then f x else x)" by (auto simp: db')
    show ?thesis
      using assms(2) assms(4)[of x] x r'(2) unfolding same parkedInv_def by (cases "P x") auto
  qed
  with assms(3) show ?thesis by (simp add: parkedInv_def)
qed

lemma parked_gates:
  assumes "parkedInv db" "wdb_runs db' = wdb_runs db" "\<And>i. gatesLeft i db \<Longrightarrow> gatesLeft i db'"
  shows "parkedInv db'"
  using assms by (simp add: parkedInv_def uniqueRuns_def)

lemma gates_exec:
  assumes "execStepRuns P f db = Some (n, db')"
    and "\<And>s i. s \<in> set (wdb_stepRuns db) \<Longrightarrow> P s \<Longrightarrow> awaitsDecision i s \<Longrightarrow> awaitsDecision i (f s)"
    and "gatesLeft i db"
  shows "gatesLeft i db'"
proof -
  from assms(3) obtain s where s: "s \<in> set (wdb_stepRuns db)" "awaitsDecision i s" by (auto simp: gatesLeft_def)
  have "wdb_stepRuns db' = map (\<lambda>s. if P s then f s else s) (wdb_stepRuns db)"
    using assms(1) by (auto simp: execStepRuns_def split: if_splits)
  then have "(if P s then f s else s) \<in> set (wdb_stepRuns db')" using s(1) by auto
  moreover have "awaitsDecision i (if P s then f s else s)" using assms(2)[OF s(1)] s(2) by simp
  ultimately show ?thesis unfolding gatesLeft_def by blast
qed

lemma gates_add: "addStepRun s db = Some db' \<Longrightarrow> gatesLeft i db \<Longrightarrow> gatesLeft i db'"
  by (auto simp: addStepRun_def gatesLeft_def split: if_splits)

lemma decide_other_gates:
  assumes "gateOf i g db" "i' \<noteq> i"
  shows "gatesLeft i' (decideGate now st g decision db) = gatesLeft i' db"
  using assms by (auto simp: gatesLeft_def decideGate_def awaitsDecision_def gateOf_def)

lemma parked_approved:
  assumes "resumeAfterApproval now i g decision db = Inr db'" "gateOf i g db" "parkedInv db" "uniqueRuns db'"
  shows "parkedInv db'"
proof -
  let ?d = "decideGate now RowCompleted g decision db"
  have other: "gatesLeft i' ?d = gatesLeft i' db" if "i' \<noteq> i" for i'
    by (rule decide_other_gates[OF assms(2) that])
  have runs: "wdb_runs ?d = wdb_runs db" by (simp add: decideGate_def)
  consider "db' = ?d" "gatesLeft i ?d" | "db' = requeueRun i ?d"
    using assms(1) by (auto simp: resumeAfterApproval_def resumeWrites_def Let_def split: if_splits)
  then show ?thesis
  proof cases
    case 1
    have "gatesLeft i' db'" if "gatesLeft i' db" for i'
      using 1(2) other[of i'] that unfolding 1(1) by (cases "i' = i") simp_all
    moreover have "wdb_runs db' = wdb_runs db" unfolding 1(1) by (rule runs)
    ultimately show ?thesis using parked_gates[OF assms(3)] by blast
  next
    case 2
    have gates: "gatesLeft i' db' = gatesLeft i' ?d" for i' by (simp add: 2 requeueRun_def gatesLeft_def)
    have "gatesLeft (run_RunID r) db'" if "r \<in> set (wdb_runs db')" "run_Status r = RowAwaiting" for r
    proof -
      from that obtain x where "x \<in> set (wdb_runs db)" "run_RunID x \<noteq> i" "x = r"
        by (auto simp: 2 requeueRun_def runs split: if_splits)
      then show ?thesis using assms(3) that(2) other[of "run_RunID r"] gates by (simp add: parkedInv_def)
    qed
    with assms(4) show ?thesis by (simp add: parkedInv_def)
  qed
qed

lemma parked_rejected:
  assumes "rejectAfterApproval now i g decision db = Inr db'" "gateOf i g db" "parkedInv db" "uniqueRuns db'"
  shows "parkedInv db'"
proof -
  let ?d = "decideGate now RowFailed g decision db"
  have db': "db' = failAwaitingRun now i (cancelGates now i ?d)"
    using assms(1) by (auto simp: rejectAfterApproval_def split: if_splits)
  have runs: "wdb_runs (cancelGates now i ?d) = wdb_runs db" by (simp add: decideGate_def cancelGates_def)
  have other: "gatesLeft i' db' = gatesLeft i' db" if "i' \<noteq> i" for i'
    using decide_other_gates[OF assms(2) that, of now RowFailed decision] that
    by (auto simp: db' failAwaitingRun_def cancelGates_def gatesLeft_def awaitsDecision_def)
  have "gatesLeft (run_RunID r) db'" if "r \<in> set (wdb_runs db')" "run_Status r = RowAwaiting" for r
  proof -
    from that obtain x where "x \<in> set (wdb_runs db)" "run_RunID x \<noteq> i" "x = r"
      by (auto simp: db' failAwaitingRun_def runs failedBySweep_def split: if_splits)
    then show ?thesis using assms(3) that(2) other[of "run_RunID r"] by (simp add: parkedInv_def)
  qed
  with assms(4) show ?thesis by (simp add: parkedInv_def)
qed

lemma parked_exec_steps:
  assumes "parkedInv db" "execStepRuns P f db = Some (n, db')"
    and "\<And>s j. s \<in> set (wdb_stepRuns db) \<Longrightarrow> P s \<Longrightarrow> awaitsDecision j s \<Longrightarrow> awaitsDecision j (f s)"
  shows "parkedInv db'"
proof -
  have "gatesLeft i db \<Longrightarrow> gatesLeft i db'" for i using assms(2,3) by (elim gates_exec) auto
  then show ?thesis using parked_gates assms(1) step_runs_only(2)[OF assms(2)] by blast
qed

lemma parked_step:
  assumes "run_sql db e db'" "parkedInv db"
  shows "parkedInv db'"
proof -
  have u: "uniqueRuns db'"
    using runs.step_inv assms unfolding run_step_def parkedInv_def by blast
  have awaiting: "gatesLeft (run_RunID r) db" if "r \<in> set (wdb_runs db)" "run_Status r = RowAwaiting" for r
    using assms(2) that by (simp add: parkedInv_def)
  from assms(1) show ?thesis
  proof cases
    case (inserted r)
    then show ?thesis using assms(2) u by (auto simp: addRun_def parkedInv_def gatesLeft_def split: if_splits)
  next
    case (claimed locked now r)
    have "gatesLeft i db' = gatesLeft i db" for i by (simp add: Dequeue_Some(4)[OF claimed(2)] gatesLeft_def)
    then show ?thesis using u awaiting by (auto simp: parkedInv_def Dequeue_runs[OF claimed(2)])
  next
    case (recovered now reclaimed n)
    then show ?thesis using assms(2) u
      by (auto simp: recoverStuckRunsWithJobs_def failedBySweep_def split: option.splits elim!: parked_execRuns)
  next
    case (approved now i g decision)
    then show ?thesis using parked_approved assms(2) u by blast
  next
    case (rejected now i g decision)
    then show ?thesis using parked_rejected assms(2) u by blast
  next
    case (completed now i st outputs n)
    then show ?thesis using assms(2) u by (auto simp: run_rows terminalRow_def elim!: parked_execRuns)
  next
    case (step_finished now g st out logs used limit n)
    then show ?thesis unfolding run_rows by (elim parked_exec_steps[OF assms(2)]) (auto simp: gateOpen_def awaitsDecision_def)
  next
    case (step_shown now g st n)
    then show ?thesis unfolding run_rows by (elim parked_exec_steps[OF assms(2)]) (auto simp: gateOpen_def awaitsDecision_def)
  next
    case (step_logged g logs n)
    then show ?thesis unfolding run_rows by (elim parked_exec_steps[OF assms(2)]) (auto simp: awaitsDecision_def)
  next
    case (step_started now g i index name)
    then show ?thesis using assms(2) parked_gates step_runs_only(1) gates_add unfolding run_rows by blast
  next
    case (gate_recorded now g i index name message)
    then show ?thesis using assms(2) parked_gates step_runs_only(1) gates_add unfolding run_rows by blast
  next
    case (job_recorded g action jobID n)
    then show ?thesis unfolding run_rows by (elim parked_exec_steps[OF assms(2)]) (auto simp: awaitsDecision_def)
  next
    case (job_cleared g n)
    then show ?thesis unfolding run_rows by (elim parked_exec_steps[OF assms(2)]) (auto simp: awaitsDecision_def)
  qed (use assms(2) u in \<open>auto simp: run_rows failedBySweep_def timedOut_def elim!: parked_execRuns\<close>)
qed

interpretation parked: invariant_system "\<lambda>db. wdb_runs db = []" run_step parkedInv
proof
  show "parkedInv db" if "wdb_runs db = []" for db using that by (simp add: parkedInv_def uniqueRuns_def)
  show "parkedInv db'" if "parkedInv db" "run_step db db'" for db db'
    using that parked_step unfolding run_step_def by blast
qed

text \<open>Approving an open gate of a waiting run goes through.\<close>

lemma approve_open:
  assumes "gateOpen g db" "runAwaiting i db" "\<not> wdb_ro db TStepRuns" "\<not> wdb_ro db TRuns"
  shows "\<exists>db'. resumeAfterApproval now i g decision db = Inr db'"
  using assms by (simp add: resumeAfterApproval_def resumeWrites_def Let_def)


section \<open>Overlapping approvals\<close>

text \<open>
  The database runs transactions at READ COMMITTED.  Two approvals of the two gates of a run that
  overlap each count the other's gate as still pending, so neither puts the run back into the queue: it
  waits for ever, with no gate left to decide.
\<close>

theorem overlapping_approvals_strand:
  assumes "runAwaiting i db" "g1 \<noteq> g2"
    and "\<forall>s\<in>set (wdb_stepRuns db). awaitsDecision i s \<longrightarrow> srn_StepRunID s \<in> {g1, g2}"
    and "\<exists>s\<in>set (wdb_stepRuns db). awaitsDecision i s \<and> srn_StepRunID s = g1"
    and "\<exists>s\<in>set (wdb_stepRuns db). awaitsDecision i s \<and> srn_StepRunID s = g2"
    and "resumeWrites now i g1 d1 db = Inr w1" "resumeWrites now i g2 d2 db = Inr w2"
  shows "runAwaiting i (w2 (w1 db)) \<and> \<not> gatesLeft i (w2 (w1 db))"
proof -
  have left: "gatesLeft i (decideGate now RowCompleted g1 d1 db)" "gatesLeft i (decideGate now RowCompleted g2 d2 db)"
    using assms(2,4,5) by (auto simp: gatesLeft_def decideGate_def)
  then have w: "w1 = decideGate now RowCompleted g1 d1" "w2 = decideGate now RowCompleted g2 d2"
    using assms(6,7) by (auto simp: resumeWrites_def Let_def split: if_splits)
  show ?thesis
    using assms(1,3) by (auto simp: w runAwaiting_def gatesLeft_def decideGate_def awaitsDecision_def split: if_splits)
qed

end
