(* ===== verification/Wf_ApiTheorems.thy ===== *)
theory Wf_ApiTheorems
  imports Wf_RoleTheorems Wf_RunLife
begin

text \<open>
  What the handlers of steps, pipelines and runs keep true of the stored pipelines, and what they do to
  the roles of gatekeeper.
\<close>

section \<open>Reading the plans\<close>

lemma failIf_Inr [simp]: "failIf b st m = Inr u \<longleftrightarrow> \<not> b"
  by (simp add: failIf_def)

lemma failMsg_Inr [simp]: "failMsg st m = Inr u \<longleftrightarrow> m = None"
  by (simp add: failMsg_def split: option.split)

lemma failDB_Inr [simp]: "failDB r = Inr x \<longleftrightarrow> r = Inr x"
  by (simp add: failDB_def split: sum.split)

lemma failRow_Inr [simp]: "failRow r = Inr x \<longleftrightarrow> r = Inr x"
  by (auto simp: failRow_def split: sum.split dbErr.split)

lemma decoded_Inr [simp]: "decoded body = Inr x \<longleftrightarrow> body = Some x"
  by (simp add: decoded_def split: option.split)

lemma authorized_Inr [simp]: "authorized E a r = Inr x \<longleftrightarrow> ae_auth E a r = Some x"
  by (simp add: authorized_def split: option.split)

section \<open>Pipelines of inline steps\<close>

text \<open>A pipeline whose references name no stored step; its steps do not depend on the database.\<close>

definition inlineSteps :: "WorkflowStepRef list \<Rightarrow> WorkflowStep list" where
  "inlineSteps refs = List.map_filter (enrichRef Map.empty) refs"

definition shapesOk :: "WorkflowStepRef list \<Rightarrow> bool" where
  "shapesOk refs \<longleftrightarrow> (\<forall>(i, ref)\<in>set (enumerate 0 refs). validateStepRefShape i ref = None)"

lemma shape_inline:
  assumes "validateStepRefShape i ref = None" "wsr_Approval ref = None" "wsr_StepID ref = []"
  shows "wsr_Action ref \<noteq> []"
  using assms by (auto simp: validateStepRefShape_def inlineMsg_def split: if_splits)

lemma enrich_shaped:
  assumes "\<forall>ref\<in>set refs. \<exists>i. validateStepRefShape i ref = None" "storedIDs refs = []"
  shows "List.map_filter (enrichRef m) refs = inlineSteps refs \<and> length (inlineSteps refs) = length refs"
  using assms
proof (induction refs)
  case (Cons ref refs)
  obtain i where i: "validateStepRefShape i ref = None" using Cons.prems(1) by auto
  have inline: "wsr_Approval ref \<noteq> None \<or> wsr_StepID ref = []" and rest: "storedIDs refs = []"
    using Cons.prems(2) by (auto simp: storedIDs_def split: if_splits)
  have "\<exists>ws. \<forall>m. enrichRef m ref = Some ws"
  proof (cases "wsr_Approval ref")
    case None
    then show ?thesis using inline shape_inline[OF i None] by (simp add: enrichRef_def)
  qed (auto simp: enrichRef_def Let_def)
  then obtain ws where ws: "\<And>m. enrichRef m ref = Some ws" by blast
  show ?case using Cons.IH[OF _ rest] Cons.prems(1) by (simp add: inlineSteps_def map_filter_simps ws)
qed (simp add: inlineSteps_def map_filter_simps)

lemma shapesOk_each:
  assumes "shapesOk refs"
  shows "\<forall>ref\<in>set refs. \<exists>i. validateStepRefShape i ref = None"
proof
  fix ref assume "ref \<in> set refs"
  then obtain i where "i < length refs" "refs ! i = ref" by (auto simp: in_set_conv_nth)
  then have "(i, ref) \<in> set (enumerate 0 refs)" by (simp add: in_set_enumerate_eq)
  with assms show "\<exists>i. validateStepRefShape i ref = None" unfolding shapesOk_def by blast
qed

lemma enrich_inline:
  assumes "shapesOk refs" "storedIDs refs = []"
  shows "enrichRefs db refs = Inr (inlineSteps refs)" "length (inlineSteps refs) = length refs"
  using enrich_shaped[OF shapesOk_each[OF assms(1)] assms(2)] assms(2)
  by (simp_all add: enrichRefs_def enrichStepRefs_def Let_def)

section \<open>The invariant of a stored pipeline\<close>

text \<open>
  It has a valid name, one to fifty well-shaped references, a valid interface and ticket configuration;
  if it is made of inline steps its graph is accepted, and an empty role, at the current version of the
  derivation, means that it needs no permission.
\<close>

definition pipelineOk :: "(string \<Rightarrow> string + 'p) \<Rightarrow> actionCatalog \<Rightarrow> Workflow \<Rightarrow> bool" where
  "pipelineOk compile catalog p \<longleftrightarrow>
     validateResourceName (wf_Name p) = None \<and> wf_StepRefs p \<noteq> [] \<and> length (wf_StepRefs p) \<le> maxSteps
     \<and> shapesOk (wf_StepRefs p) \<and> validateWorkflowIO (wf_Inputs p) (wf_Outputs p) = None
     \<and> validateTicket (wf_Ticket p) = None
     \<and> (storedIDs (wf_StepRefs p) = [] \<longrightarrow>
          validateGraph compile (inlineSteps (wf_StepRefs p)) (wf_Routes p) (wf_Maps p) (wf_Loops p) = None
          \<and> (wf_RoleID p = [] \<and> wf_RolePermsVersion p = workflowRolePermsVersion \<longrightarrow>
             collectWorkflowPermissions catalog (inlineSteps (wf_StepRefs p)) (wf_Maps p) (wf_Ticket p) = []))"

text \<open>The part that does not mention the role.\<close>

definition pipelineShaped :: "(string \<Rightarrow> string + 'p) \<Rightarrow> Workflow \<Rightarrow> bool" where
  "pipelineShaped compile p \<longleftrightarrow>
     validateResourceName (wf_Name p) = None \<and> wf_StepRefs p \<noteq> [] \<and> length (wf_StepRefs p) \<le> maxSteps
     \<and> shapesOk (wf_StepRefs p) \<and> validateWorkflowIO (wf_Inputs p) (wf_Outputs p) = None
     \<and> validateTicket (wf_Ticket p) = None
     \<and> (storedIDs (wf_StepRefs p) = [] \<longrightarrow> wf_Steps p = inlineSteps (wf_StepRefs p)
          \<and> validateGraph compile (inlineSteps (wf_StepRefs p)) (wf_Routes p) (wf_Maps p) (wf_Loops p) = None)"

lemma provision_role:
  assumes "provisionWorkflowRole E i u og steps maps ticket w = (Inr r, w')"
  shows "r = [] \<longrightarrow> collectWorkflowPermissions (ae_catalog E) steps maps ticket = []"
  using assms by (auto simp: provisionWorkflowRole_def Let_def split: if_splits option.splits)

lemma pipelineOk_provisioned:
  assumes "pipelineShaped compile p" "provisionWorkflowRole E i u og (wf_Steps p) (wf_Maps p) (wf_Ticket p) w = (Inr r, w')"
  shows "pipelineOk compile (ae_catalog E) (p\<lparr>wf_RoleID := r, wf_RolePermsVersion := v\<rparr>)"
  using assms(1) provision_role[OF assms(2)] by (auto simp: pipelineOk_def pipelineShaped_def)

lemma pipelineOk_columns [simp]:
  "pipelineOk compile catalog (workflowColumns p) = pipelineOk compile catalog p"
  "pipelineOk compile catalog (p\<lparr>wf_UpdatedAt := now\<rparr>) = pipelineOk compile catalog p"
  "pipelineOk compile catalog (p\<lparr>wf_TimeoutSecs := s\<rparr>) = pipelineOk compile catalog p"
  "pipelineOk compile catalog (p\<lparr>wf_Active := b\<rparr>) = pipelineOk compile catalog p"
  "pipelineOk compile catalog (p\<lparr>wf_Steps := steps\<rparr>) = pipelineOk compile catalog p"
  "pipelineOk compile catalog (p\<lparr>wf_Project := pr, wf_ProjectID := pid, wf_ProjectNamespace := ns\<rparr>)
     = pipelineOk compile catalog p"
  by (simp_all add: pipelineOk_def workflowColumns_def)

lemma shapesOf_Inr:
  "shapesOf req = Inr u \<Longrightarrow> cwr_Steps req \<noteq> [] \<and> length (cwr_Steps req) \<le> maxSteps \<and> shapesOk (cwr_Steps req)
     \<and> validateWorkflowIO (cwr_Inputs req) (cwr_Outputs req) = None"
  by (auto simp: shapesOf_def shapesOk_def)

lemma graphOf_Inr:
  "graphOf E ticket steps routes maps loops = Inr u \<Longrightarrow>
     validateTicket ticket = None \<and> validateGraph (ae_compile E) steps routes maps loops = None"
  by (auto simp: graphOf_def)

lemma createPlan_shaped:
  assumes "createPlan E body db n = Inr p"
  shows "pipelineShaped (ae_compile E) p"
proof -
  from assms obtain u og req steps where
    name: "validateResourceName (cwr_Name req) = None" and shapes: "shapesOf req = Inr ()"
    and steps: "enrichRefs db (cwr_Steps req) = Inr steps"
    and graph: "graphOf E (cwr_Ticket req) steps (cwr_Routes req) (cwr_Maps req) (cwr_Loops req) = Inr ()"
    and p: "wf_Name p = cwr_Name req" "wf_StepRefs p = cwr_Steps req" "wf_Inputs p = cwr_Inputs req"
      "wf_Outputs p = cwr_Outputs req" "wf_Ticket p = cwr_Ticket req" "wf_Steps p = steps"
      "wf_Routes p = cwr_Routes req" "wf_Maps p = cwr_Maps req" "wf_Loops p = cwr_Loops req"
    by (auto simp: createPlan_def split: prod.splits option.splits)
  show ?thesis
    using name shapesOf_Inr[OF shapes] graphOf_Inr[OF graph] steps enrich_inline(1)[of "cwr_Steps req" db]
    by (auto simp: pipelineShaped_def p)
qed

text \<open>Filing a pipeline elsewhere changes its project only.\<close>

lemma refile_fields [simp]:
  "wf_Name (refile E pr p) = wf_Name p" "wf_StepRefs (refile E pr p) = wf_StepRefs p"
  "wf_Routes (refile E pr p) = wf_Routes p" "wf_Maps (refile E pr p) = wf_Maps p"
  "wf_Loops (refile E pr p) = wf_Loops p" "wf_Ticket (refile E pr p) = wf_Ticket p"
  "wf_WorkflowID (refile E pr p) = wf_WorkflowID p" "wf_RoleID (refile E pr p) = wf_RoleID p"
  by (auto simp: refile_def Let_def split: option.split)

lemma enriched_Inr: "enriched db p = Inr q \<Longrightarrow> \<exists>steps. enrichRefs db (wf_StepRefs p) = Inr steps \<and> q = p\<lparr>wf_Steps := steps\<rparr>"
  by (auto simp: enriched_def)

lemma resolve_row:
  assumes "resolveWorkflowRef db ref u og = Inr q"
  shows "\<exists>p\<in>set (wdb_workflows db). \<exists>steps. wf_Active p \<and> enrichRefs db (wf_StepRefs p) = Inr steps \<and> q = p\<lparr>wf_Steps := steps\<rparr>"
  using assms
  by (auto simp: resolveWorkflowRef_def getWorkflow_def wfInScope_def inScope_def dest!: firstRow_Inr enriched_Inr
      split: sum.splits dbErr.splits)

lemma load_row:
  assumes "loadWorkflow E action ref u og db = Inr q"
  shows "\<exists>p\<in>set (wdb_workflows db). \<exists>steps. wf_Active p \<and> enrichRefs db (wf_StepRefs p) = Inr steps \<and> q = p\<lparr>wf_Steps := steps\<rparr>"
proof -
  have "resolveWorkflowRef db ref u og = Inr q" using assms by (auto simp: loadWorkflow_def)
  then show ?thesis by (rule resolve_row)
qed

lemma updatePlan_shaped:
  assumes "updatePlan E ref body db = Inr (u, og, old, q)"
    and "\<forall>p\<in>set (wdb_workflows db). pipelineOk (ae_compile E) catalog p"
  shows "pipelineShaped (ae_compile E) q"
proof -
  from assms(1) obtain existing req steps where
    row: "loadWorkflow E ''updateWorkflow'' ref u og db = Inr existing"
    and name: "(if cwr_Name req \<noteq> wf_Name existing then validateResourceName (cwr_Name req) else None) = None"
    and shapes: "shapesOf req = Inr ()" and steps: "enrichRefs db (cwr_Steps req) = Inr steps"
    and graph: "graphOf E (cwr_Ticket req) steps (cwr_Routes req) (cwr_Maps req) (cwr_Loops req) = Inr ()"
    and q: "wf_Name q = cwr_Name req" "wf_StepRefs q = cwr_Steps req" "wf_Inputs q = cwr_Inputs req"
      "wf_Outputs q = cwr_Outputs req" "wf_Steps q = steps" "wf_Routes q = cwr_Routes req"
      "wf_Maps q = cwr_Maps req" "wf_Loops q = cwr_Loops req"
      "wf_Ticket q = (if cwr_Ticket req \<noteq> None then cwr_Ticket req else wf_Ticket existing)"
    by (auto simp: updatePlan_def split: prod.splits)
  have "pipelineOk (ae_compile E) catalog existing" using load_row[OF row] assms(2) by auto
  then have "validateResourceName (cwr_Name req) = None" "validateTicket (wf_Ticket existing) = None"
    using name by (auto simp: pipelineOk_def split: if_splits)
  then show ?thesis
    using shapesOf_Inr[OF shapes] graphOf_Inr[OF graph] steps enrich_inline(1)[of "cwr_Steps req" db]
    by (auto simp: pipelineShaped_def q)
qed

section \<open>The service as a transition system\<close>

text \<open>
  A step of the service is a request to one of its handlers, the end of a run in a worker, another
  statement on runs, or a change of what the database can do.  The catalog and the compiler of
  conditions stay the same.
\<close>

definition fits :: "(string \<Rightarrow> string + 'p) \<Rightarrow> actionCatalog \<Rightarrow> 'p apEnv \<Rightarrow> bool" where
  "fits compile catalog E \<longleftrightarrow> ae_compile E = compile \<and> ae_catalog E = catalog"

inductive api_step :: "(string \<Rightarrow> string + 'p) \<Rightarrow> actionCatalog \<Rightarrow> apWorld \<Rightarrow> apWorld \<Rightarrow> bool"
  for compile catalog where
  create_step: "fits compile catalog E \<Longrightarrow> api_step compile catalog w (snd (handleCreateStep E sreq w))"
| update_step: "fits compile catalog E \<Longrightarrow> api_step compile catalog w (snd (handleUpdateStep E ref sreq w))"
| delete_step: "fits compile catalog E \<Longrightarrow> api_step compile catalog w (snd (handleDeleteStep E ref w))"
| create: "fits compile catalog E \<Longrightarrow> api_step compile catalog w (snd (handleCreateWorkflow E body w))"
| update: "fits compile catalog E \<Longrightarrow> api_step compile catalog w (snd (handleUpdateWorkflow E ref body w))"
| delete: "fits compile catalog E \<Longrightarrow> api_step compile catalog w (snd (handleDeleteWorkflow E ref w))"
| trigger: "fits compile catalog E \<Longrightarrow> api_step compile catalog w (snd (handleTriggerRun E ref treq w))"
| trigger_by_body: "fits compile catalog E
    \<Longrightarrow> api_step compile catalog w (snd (handleTriggerRunByBody E tbody header parent w))"
| internal_trigger: "fits compile catalog E
    \<Longrightarrow> api_step compile catalog w (snd (handleInternalTriggerRun mac key E i tok ts ireq w))"
| cancel: "fits compile catalog E \<Longrightarrow> api_step compile catalog w (snd (handleCancelRun E ref i w))"
| decide: "fits compile catalog E
    \<Longrightarrow> api_step compile catalog w (snd (approvalDecision E approve ref i g comment username w))"
| finish: "fits compile catalog E \<Longrightarrow> api_step compile catalog w (finishRun E i wid sid st outputs w)"
| failed: "fits compile catalog E \<Longrightarrow> api_step compile catalog w (failRun E i sid w)"
| statement: "run_sql (aw_db w) e db' \<Longrightarrow> api_step compile catalog w (putDB db' w)"
| flags: "api_step compile catalog w (putDB ((aw_db w)\<lparr>wdb_down := down, wdb_ro := ro\<rparr>) w)"

lemma world_db [simp]:
  "aw_db (call c w) = aw_db w" "aw_db (tick w) = aw_db w" "aw_db (putDB db w) = db"
  "aw_db (deleteWorkflowRole E r w) = aw_db w" "aw_db (deleteWorkflowRoleIfUnused E r k w) = aw_db w"
  "aw_db (revokeRunToken E sid w) = aw_db w"
  by (simp_all add: call_def tick_def putDB_def deleteWorkflowRole_def deleteWorkflowRoleIfUnused_def revokeRunToken_def)

lemma provision_db: "provisionWorkflowRole E i u og steps maps ticket w = (r, w') \<Longrightarrow> aw_db w' = aw_db w"
  by (auto simp: provisionWorkflowRole_def Let_def split: if_splits option.splits)

lemma mint_db: "mintToken E u role w = (r, w') \<Longrightarrow> aw_db w' = aw_db w"
  by (auto simp: mintToken_def createRunToken_def split: if_splits option.splits prod.splits)

text \<open>Statements on runs and step runs leave the pipelines alone.\<close>

named_theorems pipelines_same

lemma exec_pipelines [pipelines_same]:
  "execRuns P f db = Some (n, db') \<Longrightarrow> wdb_workflows db' = wdb_workflows db"
  "execStepRuns Q h db = Some (n, db') \<Longrightarrow> wdb_workflows db' = wdb_workflows db"
  "addRun r db = Some db' \<Longrightarrow> wdb_workflows db' = wdb_workflows db"
  "addStepRun s db = Some db' \<Longrightarrow> wdb_workflows db' = wdb_workflows db"
  by (auto simp: execRuns_def execStepRuns_def addRun_def addStepRun_def split: if_splits)

lemma decision_pipelines [pipelines_same]:
  "resumeAfterApproval now i g decision db = Inr db' \<Longrightarrow> wdb_workflows db' = wdb_workflows db"
  "rejectAfterApproval now i g decision db = Inr db' \<Longrightarrow> wdb_workflows db' = wdb_workflows db"
  by (auto simp: resumeAfterApproval_def resumeWrites_def rejectAfterApproval_def Let_def requeueRun_def
      decideGate_def failAwaitingRun_def cancelGates_def split: if_splits)

lemma row_pipelines [pipelines_same]:
  "cancelRun now i db = Some (n, db') \<Longrightarrow> wdb_workflows db' = wdb_workflows db"
  "UpdateToken i tok sid db = Some (n, db') \<Longrightarrow> wdb_workflows db' = wdb_workflows db"
  "CompleteRun now i st out db = Some (n, db') \<Longrightarrow> wdb_workflows db' = wdb_workflows db"
  by (auto simp: run_rows pipelines_same)

lemma sql_pipelines: "run_sql db e db' \<Longrightarrow> wdb_workflows db' = wdb_workflows db"
proof (induction rule: run_sql.induct)
  case (claimed locked now db r db')
  then show ?case by (subst Dequeue_Some(4)[OF claimed]) simp
next
  case (recovered now db reclaimed n db')
  then show ?case by (auto simp: recoverStuckRunsWithJobs_def pipelines_same split: option.splits)
qed (auto simp: pipelines_same run_rows)

lemma step_pipelines:
  "addStep s db = Some db' \<Longrightarrow> wdb_workflows db' = wdb_workflows db"
  "updateStep now s db = Some db' \<Longrightarrow> wdb_workflows db' = wdb_workflows db"
  "removeStep now i db = Some db' \<Longrightarrow> wdb_workflows db' = wdb_workflows db"
  by (auto simp: addStep_def updateStep_def removeStep_def split: if_splits)

definition goodRows :: "(string \<Rightarrow> string + 'p) \<Rightarrow> actionCatalog \<Rightarrow> apWorld \<Rightarrow> bool" where
  "goodRows compile catalog w \<longleftrightarrow> (\<forall>p\<in>set (wdb_workflows (aw_db w)). pipelineOk compile catalog p)"

lemma goodRows_same: "goodRows compile catalog w \<Longrightarrow> wdb_workflows (aw_db w') = wdb_workflows (aw_db w)
    \<Longrightarrow> goodRows compile catalog w'"
  by (simp add: goodRows_def)

lemma added_rows:
  assumes "addWorkflow p db = Some db'" "pipelineOk compile catalog p"
    and "\<forall>p\<in>set (wdb_workflows db). pipelineOk compile catalog p"
  shows "\<forall>p\<in>set (wdb_workflows db'). pipelineOk compile catalog p"
  using assms by (auto simp: addWorkflow_def split: if_splits)

lemma saved_rows:
  assumes "updateWorkflow now p db = Some db'" "pipelineOk compile catalog p"
    and "\<forall>p\<in>set (wdb_workflows db). pipelineOk compile catalog p"
  shows "\<forall>p\<in>set (wdb_workflows db'). pipelineOk compile catalog p"
  using assms by (auto simp: updateWorkflow_def saveRow_def split: if_splits)

lemma removed_rows:
  assumes "removeWorkflow now i db = Some db'" "\<forall>p\<in>set (wdb_workflows db). pipelineOk compile catalog p"
  shows "\<forall>p\<in>set (wdb_workflows db'). pipelineOk compile catalog p"
  using assms by (auto simp: removeWorkflow_def split: if_splits)

lemma create_good:
  assumes "fits compile catalog E" "goodRows compile catalog w"
  shows "goodRows compile catalog (snd (handleCreateWorkflow E body w))"
proof (cases "createPlan E body (aw_db w) (aw_n w)")
  case (Inr p)
  then have shaped: "pipelineShaped compile p" using createPlan_shaped assms(1) by (auto simp: fits_def)
  show ?thesis
  proof (cases "provisionWorkflowRole E (wf_WorkflowID p) (wf_CreatedBy p) (wf_OrgID p) (wf_Steps p) (wf_Maps p) (wf_Ticket p) (tick w)")
    case (Pair r w1)
    note db = provision_db[OF Pair]
    show ?thesis
    proof (cases r)
      case (Inr role)
      have "pipelineOk compile catalog (p\<lparr>wf_RoleID := role, wf_RolePermsVersion := workflowRolePermsVersion\<rparr>)"
        using pipelineOk_provisioned[OF shaped Pair[unfolded Inr]] assms(1) by (simp add: fits_def)
      then show ?thesis using assms(2) \<open>createPlan E body (aw_db w) (aw_n w) = Inr p\<close> Pair Inr db
        by (auto simp: handleCreateWorkflow_def goodRows_def Let_def dest: added_rows split: option.split)
    qed (use assms(2) \<open>createPlan E body (aw_db w) (aw_n w) = Inr p\<close> Pair db in
        \<open>auto simp: handleCreateWorkflow_def goodRows_def\<close>)
  qed
qed (use assms(2) in \<open>simp add: handleCreateWorkflow_def\<close>)

lemma update_good:
  assumes "fits compile catalog E" "goodRows compile catalog w"
  shows "goodRows compile catalog (snd (handleUpdateWorkflow E ref body w))"
proof (cases "updatePlan E ref body (aw_db w)")
  case (Inr plan)
  obtain u og old p where plan: "plan = (u, og, old, p)" by (cases plan)
  then have shaped: "pipelineShaped compile p"
    using updatePlan_shaped[of E ref body "aw_db w" u og old p catalog] Inr assms by (auto simp: fits_def goodRows_def)
  show ?thesis
  proof (cases "provisionWorkflowRole E (wf_WorkflowID p) u og (wf_Steps p) (wf_Maps p) (wf_Ticket p) w")
    case (Pair r w1)
    note db = provision_db[OF Pair]
    show ?thesis
    proof (cases r)
      case (Inr role)
      have "pipelineOk compile catalog (p\<lparr>wf_RoleID := role, wf_RolePermsVersion := workflowRolePermsVersion\<rparr>)"
        using pipelineOk_provisioned[OF shaped Pair[unfolded Inr]] assms(1) by (simp add: fits_def)
      then show ?thesis using assms(2) \<open>updatePlan E ref body (aw_db w) = Inr plan\<close> plan Pair Inr db
        by (auto simp: handleUpdateWorkflow_def goodRows_def Let_def dest: saved_rows split: option.split)
    qed (use assms(2) \<open>updatePlan E ref body (aw_db w) = Inr plan\<close> plan Pair db in
        \<open>auto simp: handleUpdateWorkflow_def goodRows_def\<close>)
  qed
qed (use assms(2) in \<open>simp add: handleUpdateWorkflow_def\<close>)

lemma loaded_shaped:
  assumes "loadWorkflow E action ref u og db = Inr q" "\<forall>p\<in>set (wdb_workflows db). pipelineOk compile catalog p"
  shows "pipelineShaped compile q"
proof -
  from load_row[OF assms(1)] obtain p steps where p: "p \<in> set (wdb_workflows db)"
    "enrichRefs db (wf_StepRefs p) = Inr steps" "q = p\<lparr>wf_Steps := steps\<rparr>" by blast
  have "pipelineOk compile catalog p" using assms(2) p(1) by blast
  then show ?thesis
    using p(2,3) enrich_inline(1)[of "wf_StepRefs p" db] by (auto simp: pipelineShaped_def pipelineOk_def)
qed

lemma heal_good:
  assumes "fits compile catalog E" "goodRows compile catalog w" "pipelineShaped compile p"
    and "healRole E p w = (q, w')"
  shows "goodRows compile catalog w'"
proof (cases "provisionWorkflowRole E (wf_WorkflowID p) (wf_CreatedBy p) (wf_OrgID p) (wf_Steps p) (wf_Maps p) (wf_Ticket p) w")
  case (Pair r w1)
  note db = provision_db[OF Pair]
  show ?thesis
  proof (cases r)
    case (Inr role)
    have "pipelineOk compile catalog (p\<lparr>wf_RoleID := role, wf_RolePermsVersion := workflowRolePermsVersion\<rparr>)"
      using pipelineOk_provisioned[OF assms(3) Pair[unfolded Inr]] assms(1) by (simp add: fits_def)
    then show ?thesis using assms(2,4) Pair Inr db
      by (auto simp: healRole_def goodRows_def Let_def dest: saved_rows split: option.splits if_splits)
  qed (use assms(2,4) Pair db in \<open>auto simp: healRole_def goodRows_def split: if_splits\<close>)
qed

lemma insert_pipelines: "insertRun E r sid w = (x, w') \<Longrightarrow> wdb_workflows (aw_db w') = wdb_workflows (aw_db w)"
  by (auto simp: insertRun_def pipelines_same split: option.splits)

lemma start_good:
  assumes "fits compile catalog E" "goodRows compile catalog w" "pipelineShaped compile p"
  shows "goodRows compile catalog (snd (startWorkflowRun E p u og inputs depth parent w))"
proof -
  obtain q w1 where h: "healRole E p w = (q, w1)" by (cases "healRole E p w")
  obtain m w2 where t: "mintToken E u (wf_RoleID q) w1 = (m, w2)" by (cases "mintToken E u (wf_RoleID q) w1")
  have good: "goodRows compile catalog w2"
    using heal_good[OF assms h] mint_db[OF t] by (simp add: goodRows_def)
  show ?thesis
  proof (cases m)
    case (Some es)
    obtain enc sid where es: "es = (enc, sid)" by (cases es)
    obtain x w3 where i: "insertRun E (newRun E (aw_n w2) q u og inputs depth parent enc sid (wf_RoleID q)) sid (tick w2) = (x, w3)"
      by (metis surj_pair)
    have "startWorkflowRun E p u og inputs depth parent w = (x, w3)" by (simp add: startWorkflowRun_def h t Some es i)
    then show ?thesis using good insert_pipelines[OF i] by (simp add: goodRows_def)
  qed (use h t good in \<open>simp add: startWorkflowRun_def\<close>)
qed

lemma attributeTo_shaped: "attributeTo E project p = Inr q \<Longrightarrow> pipelineShaped compile q = pipelineShaped compile p"
  by (auto simp: attributeTo_def Let_def pipelineShaped_def split: if_splits option.splits)

lemma trigger_good:
  assumes "fits compile catalog E" "goodRows compile catalog w"
  shows "goodRows compile catalog (snd (handleTriggerRun E ref req w))"
proof (cases "triggerPlan E ref req (aw_db w)")
  case (Inr plan)
  obtain u og q inputs where plan: "plan = (u, og, q, inputs)" by (cases plan)
  from Inr obtain p where "loadWorkflow E ''triggerRun'' ref u og (aw_db w) = Inr p" "attributeTo E (trr_Project req) p = Inr q"
    by (auto simp: triggerPlan_def plan split: prod.splits)
  then have "pipelineShaped compile q"
    using loaded_shaped[of E "''triggerRun''" ref u og "aw_db w" p compile catalog] attributeTo_shaped[of E _ p q compile] assms(2)
    by (auto simp: goodRows_def)
  then show ?thesis using start_good[OF assms] Inr plan by (simp add: handleTriggerRun_def)
qed (use assms(2) in \<open>simp add: handleTriggerRun_def\<close>)

lemma trigger_by_body_good:
  assumes "fits compile catalog E" "goodRows compile catalog w"
  shows "goodRows compile catalog (snd (handleTriggerRunByBody E body header parent w))"
proof (cases "triggerByBodyPlan E body header (aw_db w)")
  case (Inr plan)
  obtain u og q inputs where plan: "plan = (u, og, q, inputs)" by (cases plan)
  from Inr obtain pipeline where "loadWorkflow E ''triggerRun'' pipeline u og (aw_db w) = Inr q"
    by (auto simp: triggerByBodyPlan_def plan split: prod.splits)
  then have "pipelineShaped compile q"
    using loaded_shaped[of E _ pipeline u og "aw_db w" q compile catalog] assms(2) by (auto simp: goodRows_def)
  then show ?thesis using start_good[OF assms] Inr plan by (simp add: handleTriggerRunByBody_def)
qed (use assms(2) in \<open>simp add: handleTriggerRunByBody_def\<close>)

lemma internal_pipelines:
  "wdb_workflows (aw_db (snd (handleInternalTriggerRun mac key E i tok ts ireq w))) = wdb_workflows (aw_db w)"
proof (cases "internalPlan mac key E i tok ts ireq (aw_db w)")
  case (Inr plan)
  obtain req p where plan: "plan = (req, p)" by (cases plan)
  obtain m w1 where m: "mintToken E (itr_TriggeredBy req) (wf_RoleID p) w = (m, w1)" by (metis surj_pair)
  show ?thesis
  proof (cases m)
    case (Some es)
    obtain enc sid where es: "es = (enc, sid)" by (cases es)
    obtain x w3 where ins: "insertRun E (newRun E (aw_n w1) p (itr_TriggeredBy req) (wf_OrgID p) (itr_Inputs req) 0 [] enc sid [])
        sid (tick w1) = (x, w3)" by (metis surj_pair)
    show ?thesis
      using insert_pipelines[OF ins] mint_db[OF m] by (simp add: handleInternalTriggerRun_def Inr plan m Some es ins)
  qed (use Inr plan m mint_db[OF m] in \<open>simp add: handleInternalTriggerRun_def\<close>)
qed (simp add: handleInternalTriggerRun_def)

lemma cancel_pipelines: "wdb_workflows (aw_db (snd (handleCancelRun E ref i w))) = wdb_workflows (aw_db w)"
  by (auto simp: handleCancelRun_def pipelines_same split: sum.split option.split prod.split)

lemma mint_pipelines: "approveMint E r p w = (x, w') \<Longrightarrow> wdb_workflows (aw_db w') = wdb_workflows (aw_db w)"
  by (auto simp: approveMint_def pipelines_same dest!: mint_db split: prod.splits option.splits)

lemma commit_pipelines:
  "wdb_workflows (aw_db (snd (approveCommit E r g sid decision w))) = wdb_workflows (aw_db w)"
  "wdb_workflows (aw_db (snd (rejectCommit E r g decision w))) = wdb_workflows (aw_db w)"
  by (auto simp: approveCommit_def rejectCommit_def pipelines_same split: sum.split)

lemma decision_handler_pipelines:
  "wdb_workflows (aw_db (snd (approvalDecision E approve ref i g comment username w))) = wdb_workflows (aw_db w)"
proof (cases "approvalPlan E ref i g (aw_db w)")
  case (Inr plan)
  obtain u r s p where plan: "plan = (u, r, s, p)" by (cases plan)
  obtain x w1 where m: "approveMint E r p w = (x, w1)" by (metis surj_pair)
  show ?thesis using mint_pipelines[OF m]
    by (cases x) (simp_all add: approvalDecision_def Inr plan Let_def commit_pipelines m)
qed (simp add: approvalDecision_def)

lemma finish_pipelines:
  "wdb_workflows (aw_db (finishRun E i wid sid st outputs w)) = wdb_workflows (aw_db w)"
  "wdb_workflows (aw_db (failRun E i sid w)) = wdb_workflows (aw_db w)"
proof -
  have row: "wdb_workflows (aw_db (completeRow E i st outputs w)) = wdb_workflows (aw_db w)" for st outputs
    by (auto simp: completeRow_def pipelines_same split: option.split)
  have role: "aw_db (collectRole E i wid w) = aw_db w" for w
    by (simp add: collectRole_def Let_def split: sum.split dbErr.split)
  show "wdb_workflows (aw_db (finishRun E i wid sid st outputs w)) = wdb_workflows (aw_db w)"
    "wdb_workflows (aw_db (failRun E i sid w)) = wdb_workflows (aw_db w)"
    by (simp_all add: finishRun_def failRun_def row role)
qed

lemma step_handlers_pipelines:
  "wdb_workflows (aw_db (snd (handleCreateStep E body w))) = wdb_workflows (aw_db w)"
  "wdb_workflows (aw_db (snd (handleUpdateStep E ref body w))) = wdb_workflows (aw_db w)"
  "wdb_workflows (aw_db (snd (handleDeleteStep E ref w))) = wdb_workflows (aw_db w)"
  by (auto simp: handleCreateStep_def handleUpdateStep_def handleDeleteStep_def step_pipelines split: sum.split option.split)

lemma delete_good:
  assumes "goodRows compile catalog w"
  shows "goodRows compile catalog (snd (handleDeleteWorkflow E ref w))"
  using assms by (auto simp: handleDeleteWorkflow_def goodRows_def dest: removed_rows split: sum.split option.split)

lemma api_step_good:
  assumes "goodRows compile catalog w" "api_step compile catalog w w'"
  shows "goodRows compile catalog w'"
  using assms(2)
proof cases
  case (statement e db')
  then show ?thesis using assms(1) sql_pipelines by (simp add: goodRows_def)
next
  case (create E body)
  then show ?thesis using create_good assms(1) by simp
next
  case (update E ref body)
  then show ?thesis using update_good assms(1) by simp
next
  case (delete E ref)
  then show ?thesis using delete_good assms(1) by simp
next
  case (trigger E ref treq)
  then show ?thesis using trigger_good assms(1) by simp
next
  case (trigger_by_body E tbody header parent)
  then show ?thesis using trigger_by_body_good assms(1) by simp
qed (use assms(1) in \<open>auto elim!: goodRows_same simp: step_handlers_pipelines internal_pipelines
       cancel_pipelines decision_handler_pipelines finish_pipelines\<close>)

interpretation api: invariant_system "\<lambda>w. wdb_workflows (aw_db w) = []" "api_step compile catalog"
  "goodRows compile catalog" for compile catalog
  by unfold_locales (simp add: goodRows_def, rule api_step_good)


section \<open>What a trigger starts\<close>

lemma applied_inputs:
  assumes "applyDeclaredInputs defs out = Inr ins"
  shows "(\<forall>d\<in>set defs. map_of ins (wid_Name d) \<noteq> None)
    \<and> (\<forall>k v. map_of out k = Some v \<longrightarrow> map_of ins k = Some v)
    \<and> (\<forall>k v. map_of ins k = Some v \<and> map_of out k = None \<longrightarrow>
         (\<exists>d\<in>set defs. wid_Name d = k \<and> wid_Default d = v \<and> \<not> (wid_Required d \<and> v = [])))"
  using assms
proof (induction defs out rule: applyDeclaredInputs.induct)
  case (2 d defs out)
  show ?case
  proof (cases "map_of out (wid_Name d)")
    case None
    then have ok: "\<not> (wid_Required d \<and> wid_Default d = [])"
      and rest: "applyDeclaredInputs defs (out @ [(wid_Name d, wid_Default d)]) = Inr ins"
      using "2.prems" by (auto split: if_splits)
    from None have "\<not> map_of out (wid_Name d) \<noteq> None" by simp
    note IH = "2.IH"(2)[OF this ok rest]
    have app: "map_of (out @ [(wid_Name d, wid_Default d)]) k
        = (case map_of out k of Some v \<Rightarrow> Some v | None \<Rightarrow> if k = wid_Name d then Some (wid_Default d) else None)" for k
      by (simp add: map_add_def split: option.split)
    have given: "map_of ins k = Some v" if "map_of out k = Some v" for k v
      using IH that unfolding app by simp
    have own: "map_of ins (wid_Name d) = Some (wid_Default d)" using IH None unfolding app by simp
    have new: "\<exists>d'\<in>set (d # defs). wid_Name d' = k \<and> wid_Default d' = v \<and> \<not> (wid_Required d' \<and> v = [])"
      if "map_of ins k = Some v" "map_of out k = None" for k v
    proof (cases "k = wid_Name d")
      case True
      then show ?thesis using own ok that(1) by auto
    next
      case False
      then show ?thesis using IH that unfolding app by auto
    qed
    show ?thesis using IH given own new by auto
  next
    case (Some v)
    then have "applyDeclaredInputs defs out = Inr ins" using "2.prems" by simp
    from "2.IH"(1)[OF _ this] Some show ?thesis by auto
  qed
qed simp

lemma effectiveInputs_Inr [simp]: "effectiveInputs defs provided = Inr ins \<longleftrightarrow> applyDeclaredInputs defs provided = Inr ins"
  by (simp add: effectiveInputs_def split: sum.split)

lemma mint_call:
  "mintToken E u role w = (Some (enc, sid), w') \<Longrightarrow> GkTokenMinted sid u role \<in> set (aw_calls w')"
  by (auto simp: mintToken_def createRunToken_def call_def tick_def split: if_splits option.splits prod.splits)

lemma call_kept: "c \<in> set (aw_calls w) \<Longrightarrow> c \<in> set (aw_calls (tick w))" "aw_calls (putDB db w) = aw_calls w"
  by (simp_all add: tick_def putDB_def)

lemma insert_run:
  "insertRun E r sid w = (Inr x, w') \<Longrightarrow> x = r \<and> r \<in> set (wdb_runs (aw_db w')) \<and> aw_calls w' = aw_calls w"
  by (auto simp: insertRun_def addRun_def putDB_def split: option.splits if_splits)

text \<open>The run started for a pipeline: pending, with a token of the role that the pipeline then has.\<close>

lemma started_run:
  assumes "startWorkflowRun E p u og inputs depth parent w = (Inr r, w')"
  shows "r \<in> set (wdb_runs (aw_db w')) \<and> run_WorkflowID r = wf_WorkflowID p \<and> run_TriggeredBy r = u
    \<and> run_Status r = RowPending \<and> run_Project r = wf_Project p \<and> run_ProjectID r = wf_ProjectID p \<and> run_Inputs r = inputs
    \<and> run_Depth r = depth
    \<and> (\<exists>sid. run_RunSessionID r = Some sid \<and> GkTokenMinted sid u (run_RoleID r) \<in> set (aw_calls w'))"
proof -
  obtain q w1 where h: "healRole E p w = (q, w1)" by (metis surj_pair)
  have q: "wf_WorkflowID q = wf_WorkflowID p" "wf_Project q = wf_Project p" "wf_ProjectID q = wf_ProjectID p"
    using h by (auto simp: healRole_def Let_def split: if_splits prod.splits sum.splits)
  obtain m w2 where m: "mintToken E u (wf_RoleID q) w1 = (m, w2)" by (metis surj_pair)
  show ?thesis
  proof (cases m)
    case None
    then show ?thesis using assms by (simp add: startWorkflowRun_def h m)
  next
    case (Some es)
    obtain enc sid where es: "es = (enc, sid)" by (cases es)
    let ?run = "newRun E (aw_n w2) q u og inputs depth parent enc sid (wf_RoleID q)"
    have ins: "insertRun E ?run sid (tick w2) = (Inr r, w')" using assms by (simp add: startWorkflowRun_def h m Some es)
    have r: "r = ?run" "r \<in> set (wdb_runs (aw_db w'))" "aw_calls w' = aw_calls (tick w2)"
      using insert_run[OF ins] by auto
    moreover have "GkTokenMinted sid u (wf_RoleID q) \<in> set (aw_calls w')"
      using mint_call[OF m[unfolded Some es]] call_kept(1) r(3) by metis
    ultimately show ?thesis by (auto simp: newRun_def q)
  qed
qed

lemma attributeTo_cases:
  assumes "attributeTo E project p = Inr q"
  shows "wf_WorkflowID q = wf_WorkflowID p"
    and "wf_Project q = wf_Project p \<and> wf_ProjectID q = wf_ProjectID p
      \<or> (\<exists>t. resolveProjectSlug E (TrimSpace project) = Some t \<and> wf_Project q = apr_Slug t \<and> wf_ProjectID q = apr_ProjectID t
           \<and> checkProjectPermission E ''triggerRun'' ''pipelines'' (apr_Slug t) (wf_WorkflowID p)
           \<and> pipelineMayTargetProject E (wf_Project p) (TrimSpace project))"
  using assms by (auto simp: attributeTo_def Let_def split: if_splits option.splits)


end
