(* ===== verification/Wf_RoleLife.thy ===== *)
theory Wf_RoleLife
  imports Wf_ApiTheorems
begin

text \<open>
  The roles the service has gatekeeper delete, and where a run's role is not protected: what each request
  adds to the record of calls, and the sequences in which a live run loses its role or its token.
\<close>

section \<open>Calls that delete no role\<close>

definition quiet :: "apWorld \<Rightarrow> apWorld \<Rightarrow> bool" where
  "quiet w w' \<longleftrightarrow> (\<exists>cs. aw_calls w' = aw_calls w @ cs \<and> (\<forall>r. GkRoleDeleted r \<notin> set cs))"

definition roleFree :: "string \<Rightarrow> wfDB \<Rightarrow> bool" where
  "roleFree r db \<longleftrightarrow> (\<forall>x\<in>set (wdb_runs db). run_RoleID x = r \<longrightarrow> run_Status x \<noteq> RowPending \<and> run_Status x \<noteq> RowRunning)"

definition careful :: "apWorld \<Rightarrow> apWorld \<Rightarrow> bool" where
  "careful w w' \<longleftrightarrow> (\<exists>cs. aw_calls w' = aw_calls w @ cs
     \<and> (\<forall>r. GkRoleDeleted r \<in> set cs \<longrightarrow> (\<exists>ps. GkRoleCreated r ps \<in> set cs) \<or> roleFree r (aw_db w')))"

named_theorems quiet_intros

lemma quiet_refl [quiet_intros]: "quiet w w"
  by (simp add: quiet_def)

lemma quiet_trans: "quiet a b \<Longrightarrow> quiet b c \<Longrightarrow> quiet a c"
  unfolding quiet_def by (elim exE conjE) (rule exI, auto)

lemma quiet_put [quiet_intros]: "quiet w w' \<Longrightarrow> quiet w (putDB db w')" "quiet w w' \<Longrightarrow> quiet w (tick w')"
  by (simp_all add: quiet_def putDB_def tick_def)

lemma quiet_call: "quiet w w' \<Longrightarrow> (\<And>r. c \<noteq> GkRoleDeleted r) \<Longrightarrow> quiet w (call c w')"
  by (fastforce simp: quiet_def call_def)

lemma quiet_revoke [quiet_intros]: "quiet w w' \<Longrightarrow> quiet w (revokeRunToken E sid w')"
  by (auto simp: revokeRunToken_def intro: quiet_call)

lemma quiet_careful: "quiet w w' \<Longrightarrow> careful w w'"
  by (auto simp: quiet_def careful_def)

lemma provision_quiet: "provisionWorkflowRole E i u og steps maps ticket w = (r, w') \<Longrightarrow> quiet w w'"
  by (auto simp: provisionWorkflowRole_def Let_def split: if_splits option.splits intro!: quiet_call quiet_intros)

lemma mint_quiet: "mintToken E u role w = (r, w') \<Longrightarrow> quiet w w'"
  by (auto simp: mintToken_def createRunToken_def split: if_splits option.splits prod.splits intro!: quiet_call quiet_intros)

lemma insert_quiet: "insertRun E r sid w = (x, w') \<Longrightarrow> quiet w w'"
  by (auto simp: insertRun_def split: option.splits intro: quiet_intros)

section \<open>Calls that delete one\<close>

lemma in_use_free: "roleInUseByActiveRun db r = Inr False \<Longrightarrow> r \<noteq> [] \<Longrightarrow> roleFree r db"
  by (auto simp: roleInUseByActiveRun_def roleFree_def findRows_def filter_empty_conv split: if_splits)

lemma unused_deletion:
  "\<exists>cs. aw_calls (deleteWorkflowRoleIfUnused E r k w) = aw_calls w @ cs
     \<and> (\<forall>x. GkRoleDeleted x \<in> set cs \<longrightarrow> x \<noteq> k \<and> roleFree x (aw_db w))"
  using in_use_free[of "aw_db w" r]
  by (auto simp: deleteWorkflowRoleIfUnused_def deleteWorkflowRole_def call_def)

lemma careful_unused: "quiet w w1 \<Longrightarrow> careful w (deleteWorkflowRoleIfUnused E r k w1)"
  using unused_deletion[of E r k w1] unfolding quiet_def careful_def by fastforce

lemma created_then_deleted:
  assumes "provisionWorkflowRole E i u og steps maps ticket w = (Inr r, w')"
  shows "careful w (deleteWorkflowRole E r w')"
proof (cases "r = []")
  case True
  then show ?thesis using provision_quiet[OF assms] by (simp add: deleteWorkflowRole_def quiet_careful)
next
  case False
  then have "\<exists>ps. aw_calls w' = aw_calls w @ [GkRoleCreated r ps]"
    using assms by (auto simp: provisionWorkflowRole_def Let_def call_def tick_def split: if_splits option.splits)
  then show ?thesis by (auto simp: careful_def deleteWorkflowRole_def call_def)
qed

lemma heal_careful:
  assumes "healRole E p w = (q, w')"
  shows "\<exists>cs. aw_calls w' = aw_calls w @ cs
    \<and> (\<forall>r. GkRoleDeleted r \<in> set cs \<longrightarrow> r \<noteq> wf_RoleID q \<and> roleFree r (aw_db w'))"
proof (cases "wf_RolePermsVersion p < workflowRolePermsVersion")
  case False
  then show ?thesis using assms by (simp add: healRole_def)
next
  case True
  obtain x w1 where prov: "provisionWorkflowRole E (wf_WorkflowID p) (wf_CreatedBy p) (wf_OrgID p) (wf_Steps p)
      (wf_Maps p) (wf_Ticket p) w = (x, w1)" by (metis surj_pair)
  from provision_quiet[OF prov] obtain cs where cs: "aw_calls w1 = aw_calls w @ cs" "\<forall>r. GkRoleDeleted r \<notin> set cs"
    by (auto simp: quiet_def)
  show ?thesis
  proof (cases x)
    case (Inl e)
    then show ?thesis using assms True prov cs by (auto simp: healRole_def)
  next
    case (Inr r)
    let ?q = "p\<lparr>wf_RoleID := r, wf_RolePermsVersion := workflowRolePermsVersion\<rparr>"
    show ?thesis
    proof (cases "updateWorkflow (ae_now E) ?q (aw_db w1)")
      case None
      then show ?thesis using assms True prov Inr cs by (auto simp: healRole_def Let_def)
    next
      case (Some db)
      then have w': "q = ?q" "w' = deleteWorkflowRoleIfUnused E (wf_RoleID p) r (putDB db w1)"
        using assms True prov Inr by (simp_all add: healRole_def Let_def)
      from unused_deletion[of E "wf_RoleID p" r "putDB db w1"] obtain cs' where
        "aw_calls w' = aw_calls w1 @ cs'" "\<forall>x. GkRoleDeleted x \<in> set cs' \<longrightarrow> x \<noteq> r \<and> roleFree x db"
        unfolding w' by (auto simp: putDB_def)
      then show ?thesis using cs w' by auto
    qed
  qed
qed

lemma start_careful: "careful w (snd (startWorkflowRun E p u og inputs depth parent w))"
proof -
  obtain q w1 where h: "healRole E p w = (q, w1)" by (metis surj_pair)
  obtain m w2 where m: "mintToken E u (wf_RoleID q) w1 = (m, w2)" by (metis surj_pair)
  from heal_careful[OF h] obtain cs where cs: "aw_calls w1 = aw_calls w @ cs"
    "\<forall>r. GkRoleDeleted r \<in> set cs \<longrightarrow> r \<noteq> wf_RoleID q \<and> roleFree r (aw_db w1)" by blast
  from mint_quiet[OF m] mint_db[OF m] obtain cs1 where cs1: "aw_calls w2 = aw_calls w1 @ cs1"
    "\<forall>r. GkRoleDeleted r \<notin> set cs1" "aw_db w2 = aw_db w1" by (auto simp: quiet_def)
  show ?thesis
  proof (cases m)
    case None
    then show ?thesis using h m cs cs1 by (auto simp: startWorkflowRun_def careful_def)
  next
    case (Some es)
    obtain enc sid where es: "es = (enc, sid)" by (cases es)
    let ?run = "newRun E (aw_n w2) q u og inputs depth parent enc sid (wf_RoleID q)"
    obtain x w3 where ins: "insertRun E ?run sid (tick w2) = (x, w3)" by (metis surj_pair)
    from insert_quiet[OF ins] obtain cs2 where cs2: "aw_calls w3 = aw_calls w2 @ cs2" "\<forall>r. GkRoleDeleted r \<notin> set cs2"
      by (auto simp: quiet_def tick_def)
    have runs: "set (wdb_runs (aw_db w3)) \<subseteq> insert ?run (set (wdb_runs (aw_db w1)))"
      using ins cs1(3) by (auto simp: insertRun_def addRun_def revokeRunToken_def call_def tick_def putDB_def
          split: option.splits if_splits)
    have "roleFree r (aw_db w3)" if "GkRoleDeleted r \<in> set cs" for r
      using cs(2) that runs unfolding roleFree_def by (fastforce simp: newRun_def)
    moreover have "snd (startWorkflowRun E p u og inputs depth parent w) = w3"
      by (simp add: startWorkflowRun_def h m Some es ins)
    ultimately show ?thesis unfolding careful_def using cs(1) cs1(1,2) cs2 by auto
  qed
qed

section \<open>The handlers\<close>

lemma create_careful: "careful w (snd (handleCreateWorkflow E body w))"
proof (cases "createPlan E body (aw_db w) (aw_n w)")
  case (Inr p)
  obtain x w1 where prov: "provisionWorkflowRole E (wf_WorkflowID p) (wf_CreatedBy p) (wf_OrgID p) (wf_Steps p)
      (wf_Maps p) (wf_Ticket p) (tick w) = (x, w1)" by (metis surj_pair)
  have "quiet w (tick w)" by (intro quiet_intros)
  from quiet_trans[OF this provision_quiet[OF prov]] have "quiet w w1" .
  moreover have "careful w (deleteWorkflowRole E r w1)" if "x = Inr r" for r
    using created_then_deleted[OF prov[unfolded that]] by (simp add: careful_def tick_def)
  ultimately show ?thesis using Inr prov
    by (auto simp: handleCreateWorkflow_def Let_def split: sum.split option.split intro: quiet_careful quiet_intros)
qed (simp add: handleCreateWorkflow_def quiet_careful quiet_intros)

lemma update_careful: "careful w (snd (handleUpdateWorkflow E ref body w))"
proof (cases "updatePlan E ref body (aw_db w)")
  case (Inr plan)
  obtain u og old p where plan: "plan = (u, og, old, p)" by (cases plan)
  obtain x w1 where prov: "provisionWorkflowRole E (wf_WorkflowID p) u og (wf_Steps p) (wf_Maps p) (wf_Ticket p) w = (x, w1)"
    by (metis surj_pair)
  note quiet = provision_quiet[OF prov]
  have "careful w (deleteWorkflowRole E r w1)" if "x = Inr r" for r
    by (rule created_then_deleted[OF prov[unfolded that]])
  moreover have "careful w (deleteWorkflowRoleIfUnused E old r (putDB db w1))" for r db
    by (intro careful_unused quiet_intros quiet)
  ultimately show ?thesis using Inr plan prov quiet
    by (auto simp: handleUpdateWorkflow_def Let_def split: sum.split option.split intro: quiet_careful)
qed (simp add: handleUpdateWorkflow_def quiet_careful quiet_intros)

lemma finish_careful: "careful w (finishRun E i wid sid st outputs w)"
proof -
  have "quiet w (completeRow E i st outputs w)"
    by (auto simp: completeRow_def split: option.split intro: quiet_intros)
  then have q: "quiet w (revokeRunToken E sid (completeRow E i st outputs w))" by (rule quiet_intros)
  then show ?thesis
    by (auto simp: finishRun_def collectRole_def Let_def intro: careful_unused quiet_careful split: sum.split dbErr.split)
qed

lemma decision_quiet: "quiet w (snd (approvalDecision E approve ref i g comment username w))"
proof -
  have mint: "quiet w w1" if "approveMint E r p w = (x, w1)" for r p x w1
    using that by (auto simp: approveMint_def split: prod.splits option.splits dest!: mint_quiet intro: quiet_intros)
  have commit: "quiet w (snd (approveCommit E r gt sid d w1))" if "quiet w w1" for r gt sid d w1
    using that by (auto simp: approveCommit_def split: sum.split intro: quiet_intros)
  have reject: "quiet w (snd (rejectCommit E r gt d w))" for r gt d
    by (auto simp: rejectCommit_def split: sum.split intro: quiet_intros)
  show ?thesis
    using mint commit reject
    by (auto simp: approvalDecision_def Let_def split: sum.split prod.split intro: quiet_intros)
qed

lemma internal_quiet: "quiet w (snd (handleInternalTriggerRun mac key E i tok ts body w))"
proof -
  have "quiet w w'" if "mintToken E u role w = (m, w1)" "insertRun E r sid (tick w1) = (x, w')" for u role m w1 r sid x w'
    using quiet_trans[OF quiet_intros(3)[OF mint_quiet[OF that(1)]] insert_quiet[OF that(2)]] .
  then show ?thesis
    by (auto simp: handleInternalTriggerRun_def split: sum.split prod.split option.split intro: quiet_intros dest: mint_quiet)
      (metis surj_pair snd_conv)
qed


end
