(* ===== verification/Wf_StateOrder.thy ===== *)
theory Wf_StateOrder
  imports Wf_StateMachine "HOL-Library.Multiset"
begin

text \<open>
  The order of the steps of a converted document: \<open>orderSteps\<close> is Kahn's algorithm of
  \<open>topoOrder\<close> on the graph of the steps and routes sorted by name.
\<close>

lemma index_filter: "map (\<lambda>i. f (xs ! i)) (filter (\<lambda>i. P (xs ! i)) [0..<length xs]) = map f (filter P xs)"
proof -
  have "map (\<lambda>i. f (xs ! i)) (filter (\<lambda>i. P (xs ! i)) [0..<length xs])
      = map f (filter P (map ((!) xs) [0..<length xs]))"
    by (simp add: filter_map comp_def)
  then show ?thesis by (simp only: map_nth)
qed

lemma adjOf_sort: "adjOf (sort_key r_To rs) n = sort (adjOf rs n)"
proof -
  have "sort (adjOf rs n) = map r_To (sort_key r_To (filter (\<lambda>r. r_From r = n) rs))"
    by (rule properties_for_sort) (simp_all add: adjOf_def)
  then show ?thesis by (simp add: adjOf_def filter_sort)
qed

lemma kahn_orderLoop:
  assumes "\<And>n. targetsOf g n = sort (adjOf rs n)"
  shows "orderLoop rs indeg queue out = fst (kahnLoop g indeg queue out)"
  using assms
  by (induction rs indeg queue out rule: orderLoop.induct) (simp_all split: prod.splits)

text \<open>The graph whose topological order the loop computes: steps and routes sorted by name.\<close>

definition orderGraph :: "WorkflowStepRef list \<Rightarrow> WorkflowRoute list \<Rightarrow> unit workflowGraph" where
  "orderGraph steps routes =
     newGraph Inl (map plain_step (sort (ref_names steps))) (sort_key r_To (innerRoutes steps routes))"

lemma sorted_names [simp]: "names_of (map plain_step ns) = ns"
  by (simp add: comp_def)

lemma inner_ends: "r \<in> set (innerRoutes steps routes) \<Longrightarrow> r_From r \<in> set (ref_names steps) \<and> r_To r \<in> set (ref_names steps)"
  by (simp add: innerRoutes_def)

lemma orderGraph_targets: "targetsOf (orderGraph steps routes) n = sort (adjOf (innerRoutes steps routes) n)"
proof -
  let ?rs = "sort_key r_To (innerRoutes steps routes)"
  have "g_out (orderGraph steps routes) n = [i \<leftarrow> [0..<length ?rs]. r_From (?rs ! i) = n]"
    unfolding orderGraph_def g_out_eq sorted_names
    by (intro filter_cong) (use nth_mem[of _ ?rs] inner_ends[of _ steps routes] in \<open>auto simp: innerRoutes_def\<close>)
  then have "targetsOf (orderGraph steps routes) n = map (\<lambda>i. r_To (?rs ! i)) [i \<leftarrow> [0..<length ?rs]. r_From (?rs ! i) = n]"
    unfolding orderGraph_def targetsOf_eq by simp
  also have "\<dots> = adjOf ?rs n" by (simp only: index_filter[of r_To ?rs "\<lambda>r. r_From r = n"] adjOf_def)
  finally show ?thesis by (simp only: adjOf_sort)
qed

lemma orderGraph_indeg: "initialDegrees (orderGraph steps routes) = indegOf (innerRoutes steps routes)"
proof
  fix n
  let ?rs = "sort_key r_To (innerRoutes steps routes)"
  have "g_in (orderGraph steps routes) n = [i \<leftarrow> [0..<length ?rs]. r_To (?rs ! i) = n]"
    unfolding orderGraph_def g_in_eq sorted_names
    by (intro filter_cong) (use nth_mem[of _ ?rs] inner_ends[of _ steps routes] in \<open>auto simp: innerRoutes_def\<close>)
  then have "length (g_in (orderGraph steps routes) n)
      = length (map (\<lambda>i. id (?rs ! i)) [i \<leftarrow> [0..<length ?rs]. r_To (?rs ! i) = n])" by simp
  also have "\<dots> = length (filter (\<lambda>r. r_To r = n) ?rs)"
    by (simp only: index_filter[of id ?rs "\<lambda>r. r_To r = n"] length_map)
  also have "\<dots> = length (filter (\<lambda>r. r_To r = n) (innerRoutes steps routes))"
    by (simp add: filter_sort)
  finally have deg: "length (g_in (orderGraph steps routes) n) = length (filter (\<lambda>r. r_To r = n) (innerRoutes steps routes))" .
  have "filter (\<lambda>r. r_To r = n) (innerRoutes steps routes) = []" if "n \<notin> set (ref_names steps)"
    using that by (auto simp: innerRoutes_def filter_empty_conv)
  with deg show "initialDegrees (orderGraph steps routes) n = indegOf (innerRoutes steps routes) n"
    by (auto simp: initialDegrees_eq indegOf_def orderGraph_def)
qed

lemma refNamed_same:
  assumes "distinct (ref_names steps)" "s \<in> set steps"
  shows "refNamed steps (wsr_Name s) = s"
proof (cases "find (\<lambda>x. wsr_Name x = wsr_Name s) (rev steps)")
  case None
  then have False using assms(2) unfolding find_None_iff by auto
  then show ?thesis ..
next
  case (Some t)
  then have "t \<in> set steps" "wsr_Name t = wsr_Name s" using find_mem[OF Some] by auto
  then have "t = s" using assms distinct_map inj_onD by metis
  with Some show ?thesis by (simp add: refNamed_def)
qed

lemma map_refNamed: "distinct (ref_names steps) \<Longrightarrow> map (refNamed steps) (ref_names steps) = steps"
  unfolding map_map by (rule map_idI) (simp add: refNamed_same)

lemma refNamed_name: "n \<in> set (ref_names steps) \<Longrightarrow> wsr_Name (refNamed steps n) = n"
  by (auto simp: refNamed_def find_None_iff split: option.splits dest!: find_mem)

definition orderNames :: "WorkflowStepRef list \<Rightarrow> WorkflowRoute list \<Rightarrow> string list" where
  "orderNames steps routes =
     (let names = sort (ref_names steps); rs = innerRoutes steps routes;
          emitted = orderLoop rs (indegOf rs) (filter (\<lambda>n. indegOf rs n = 0) names) []
      in emitted @ filter (\<lambda>n. n \<notin> set emitted) names)"

lemma orderSteps_names: "orderSteps steps routes = map (refNamed steps) (orderNames steps routes)"
  by (simp add: orderSteps_def orderNames_def Let_def)

lemma orderNames_topo:
  assumes "distinct (ref_names steps)"
  obtains order residual ok where "topoOrder (orderGraph steps routes) = (order, residual, ok)"
    and "orderNames steps routes = order @ filter (\<lambda>n. n \<notin> set order) (sort (ref_names steps))"
proof -
  let ?g = "orderGraph steps routes" and ?rs = "innerRoutes steps routes"
  have loop: "orderLoop ?rs (indegOf ?rs) (filter (\<lambda>n. indegOf ?rs n = 0) (sort (ref_names steps))) []
      = fst (kahnLoop ?g (initialDegrees ?g) (filter (\<lambda>n. initialDegrees ?g n = 0) (names_of (g_steps ?g))) [])"
    unfolding orderGraph_indeg
    by (subst kahn_orderLoop[of ?g, OF orderGraph_targets])
      (simp only: orderGraph_def workflowGraph.simps newGraph_simps sorted_names)
  obtain order residual ok where t: "topoOrder ?g = (order, residual, ok)" by (metis prod_cases3)
  then have "order = fst (kahnLoop ?g (initialDegrees ?g) (filter (\<lambda>n. initialDegrees ?g n = 0) (names_of (g_steps ?g))) [])"
    by (auto simp: topoOrder_def Let_def split: prod.splits if_splits)
  with loop have "orderNames steps routes = order @ filter (\<lambda>n. n \<notin> set order) (sort (ref_names steps))"
    by (simp add: orderNames_def Let_def)
  with t show thesis by (rule that)
qed

lemma orderLoop_cong:
  assumes "\<And>n. sort (adjOf rs n) = sort (adjOf rs' n)"
  shows "orderLoop rs indeg queue out = orderLoop rs' indeg queue out"
  using assms
  by (induction rs indeg queue out rule: orderLoop.induct) (simp_all split: prod.splits)

lemma orderSteps_cong:
  assumes "distinct (ref_names steps)" "mset steps' = mset steps" "mset routes' = mset routes"
  shows "orderSteps steps' routes' = orderSteps steps routes"
proof -
  have names: "sort (ref_names steps') = sort (ref_names steps)"
    using assms(2) by (metis mset_map properties_for_sort mset_sort sorted_sort)
  have ns: "set (ref_names steps') = set (ref_names steps)"
    using names by (metis set_sort)
  have rs: "mset (innerRoutes steps' routes') = mset (innerRoutes steps routes)"
    using assms(3) ns by (simp add: innerRoutes_def mset_filter)
  let ?r = "innerRoutes steps routes" and ?r' = "innerRoutes steps' routes'"
  have adj: "sort (adjOf ?r' n) = sort (adjOf ?r n)" for n
    using rs by (metis adjOf_def mset_filter mset_map mset_sort properties_for_sort sorted_sort)
  have indeg: "indegOf ?r' = indegOf ?r"
    using rs by (simp add: indegOf_def fun_eq_iff) (metis mset_filter size_mset)
  have "distinct (ref_names steps')" using assms(1) names by (metis distinct_sort)
  then have "refNamed steps' n = refNamed steps n" for n
  proof (cases "n \<in> set (ref_names steps)")
    case True
    then obtain s where "s \<in> set steps" "n = wsr_Name s" by auto
    with \<open>distinct (ref_names steps')\<close> assms(1,2) show ?thesis
      by (metis mset_eq_setD refNamed_same)
  next
    case False
    then have "find (\<lambda>s. wsr_Name s = n) (rev steps) = None" "find (\<lambda>s. wsr_Name s = n) (rev steps') = None"
      using ns by (auto simp: find_None_iff)
    then show ?thesis by (simp add: refNamed_def)
  qed
  moreover have "orderNames steps' routes' = orderNames steps routes"
    unfolding orderNames_def Let_def indeg names orderLoop_cong[of ?r' ?r, OF adj] by (rule refl)
  ultimately show ?thesis by (simp add: orderSteps_names)
qed

definition refEdges :: "WorkflowStepRef list \<Rightarrow> WorkflowRoute list \<Rightarrow> (string \<times> string) set" where
  "refEdges steps routes = {(r_From r, r_To r) | r. r \<in> set (innerRoutes steps routes)}"

lemma edges_orderGraph:
  "edges_of (map plain_step (sort (ref_names steps))) (sort_key r_To (innerRoutes steps routes)) = refEdges steps routes"
  unfolding edges_of_def refEdges_def sorted_names by (auto simp: innerRoutes_def)

lemma orderSteps_order:
  assumes "distinct (ref_names steps)"
  shows orderSteps_mset: "mset (orderSteps steps routes) = mset steps"
    and orderSteps_topological: "\<And>a n i. acyclic (refEdges steps routes) \<Longrightarrow> (a, n) \<in> (refEdges steps routes)\<^sup>+
      \<Longrightarrow> i < length steps \<Longrightarrow> wsr_Name (orderSteps steps routes ! i) = n
      \<Longrightarrow> \<exists>j<i. wsr_Name (orderSteps steps routes ! j) = a"
proof -
  let ?ns = "sort (ref_names steps)" and ?g = "orderGraph steps routes" and ?E = "refEdges steps routes"
  have ns: "distinct (names_of (map plain_step ?ns))" unfolding sorted_names using assms by simp
  obtain order residual ok where t: "topoOrder ?g = (order, residual, ok)"
    and names: "orderNames steps routes = order @ filter (\<lambda>n. n \<notin> set order) ?ns"
    by (rule orderNames_topo[OF assms])
  obtain indeg where inv: "kahnInv (map plain_step ?ns) (sort_key r_To (innerRoutes steps routes)) indeg [] order"
    and ok: "ok \<longleftrightarrow> length order = length (map plain_step ?ns)"
    by (rule topoOrder_final[OF ns t[unfolded orderGraph_def]])
  note sub = kahn_done_sub(1,2)[OF inv, unfolded sorted_names]
  have "mset (filter (\<lambda>n. n \<in> set order) ?ns) = mset order"
    using sub assms by (intro set_eq_iff_mset_eq_distinct[THEN iffD1]) auto
  then have "mset (orderNames steps routes)
      = mset (filter (\<lambda>n. n \<in> set order) ?ns) + mset (filter (\<lambda>n. n \<notin> set order) ?ns)"
    by (simp add: names)
  also have "\<dots> = mset ?ns" by (metis mset_filter multiset_partition)
  finally have "mset (orderNames steps routes) = mset (ref_names steps)" by simp
  then have "mset (orderSteps steps routes) = image_mset (refNamed steps) (mset (ref_names steps))"
    by (simp only: orderSteps_names mset_map)
  then show "mset (orderSteps steps routes) = mset steps"
    by (simp only: mset_map[symmetric] map_refNamed[OF assms])
  fix a n i
  assume ac: "acyclic ?E" and i: "(a, n) \<in> ?E\<^sup>+" "i < length steps" "wsr_Name (orderSteps steps routes ! i) = n"
  have "ok" using topo_ok_iff[OF ns, of "Inl :: string \<Rightarrow> string + unit" "sort_key r_To (innerRoutes steps routes)"] ac t
    by (simp only: edges_orderGraph orderGraph_def[symmetric]) simp
  then have len: "length order = length steps" and all: "set order = set ?ns"
    using ok length_order_iff[OF ns inv] by (simp_all add: comp_def)
  have whole: "orderNames steps routes = order" unfolding names all by simp
  have name: "wsr_Name (orderSteps steps routes ! k) = order ! k" if "k < length steps" for k
  proof -
    have "order ! k \<in> set (ref_names steps)" using sub(2) that len nth_mem[of k order] by auto
    then show ?thesis using that len by (simp add: orderSteps_names whole refNamed_name)
  qed
  have "order ! i = n" using name[OF i(2)] i(3) by simp
  from emitted_before[OF inv, unfolded edges_orderGraph, OF i(1) _ this] i(2) len
  obtain j where "j < i" "order ! j = a" by auto
  then show "\<exists>j<i. wsr_Name (orderSteps steps routes ! j) = a" using name[of j] i(2) by auto
qed

text \<open>
  \<open>orderSteps\<close> permutes the steps, puts every step after the steps it can be reached from when
  the routes have no cycle, and gives the same order whatever the order of the steps and the
  routes it is given.
\<close>
theorem orderSteps_correct:
  assumes "distinct (ref_names steps)"
  shows "mset (orderSteps steps routes) = mset steps
    \<and> (acyclic (refEdges steps routes) \<longrightarrow>
         (\<forall>a n i. (a, n) \<in> (refEdges steps routes)\<^sup>+ \<and> i < length steps
            \<and> wsr_Name (orderSteps steps routes ! i) = n
            \<longrightarrow> (\<exists>j<i. wsr_Name (orderSteps steps routes ! j) = a)))
    \<and> (\<forall>steps' routes'. mset steps' = mset steps \<and> mset routes' = mset routes
         \<longrightarrow> orderSteps steps' routes' = orderSteps steps routes)"
  using orderSteps_mset[OF assms] orderSteps_topological[OF assms] orderSteps_cong[OF assms] by blast

definition plain_ref :: "string \<Rightarrow> WorkflowStepRef" where
  "plain_ref n = zeroRef\<lparr>wsr_Name := n, wsr_Action := ''http'', wsr_Timeout := 30\<rparr>"

lemma plain_ref_simps [simp]: "wsr_Name (plain_ref n) = n" "wsr_Action (plain_ref n) = ''http''"
  by (simp_all add: plain_ref_def)

lemma orderSteps_correct_witness:
  "orderSteps [plain_ref ''z'', plain_ref ''a''] [plain_route ''z'' ''a''] = [plain_ref ''z'', plain_ref ''a'']
   \<and> orderSteps [plain_ref ''a'', plain_ref ''z''] [plain_route ''z'' ''a''] = [plain_ref ''z'', plain_ref ''a'']"
proof -
  have run: "orderSteps [plain_ref ''a'', plain_ref ''z''] [plain_route ''z'' ''a''] = [plain_ref ''z'', plain_ref ''a'']"
    by code_simp
  have "distinct (ref_names [plain_ref ''a'', plain_ref ''z''])" by simp
  note same = orderSteps_correct[OF this, THEN conjunct2, THEN conjunct2, rule_format]
  have "mset [plain_ref ''z'', plain_ref ''a''] = mset [plain_ref ''a'', plain_ref ''z'']
      \<and> mset [plain_route ''z'' ''a''] = mset [plain_route ''z'' ''a'']"
    by (simp add: add_mset_commute)
  from same[OF this]
  have "orderSteps [plain_ref ''z'', plain_ref ''a''] [plain_route ''z'' ''a'']
      = orderSteps [plain_ref ''a'', plain_ref ''z''] [plain_route ''z'' ''a'']" .
  with run show ?thesis by (simp only: simp_thms)
qed

end
