(* ===== verification/Wf_StatePasses.thy ===== *)
theory Wf_StatePasses
  imports Wf_StateOrder
begin

text \<open>
  The passes of \<open>smToModel\<close>, each as a loop over independent states: which states it accepts, which
  names they claim and what they contribute.
\<close>

section \<open>One state\<close>

definition blank :: "string \<Rightarrow> bool" where
  "blank n \<longleftrightarrow> TrimSpace n = []"

lemma claimName_Inr: "claimName n seen = Inr s \<longleftrightarrow> \<not> blank n \<and> n \<notin> seen \<and> s = insert n seen"
  by (auto simp: claimName_def blank_def)

definition armOk :: "smChoice \<Rightarrow> bool" where
  "armOk c \<longleftrightarrow> smc_Default c \<noteq> [] \<or> smc_Next c \<noteq> []"

definition armOf :: "smChoice \<Rightarrow> smBranch" where
  "armOf c = (if smc_Default c \<noteq> [] then \<lparr>br_to = smc_Default c, br_when = [], br_name = smc_Name c\<rparr>
              else \<lparr>br_to = smc_Next c, br_when = smc_When c, br_name = smc_Name c\<rparr>)"

lemma choiceArms_Inr: "choiceArms e cs = Inr arms \<longleftrightarrow> (\<forall>c\<in>set cs. armOk c) \<and> arms = map armOf cs"
  by (induction cs arbitrary: arms) (auto simp: armOk_def armOf_def)

definition choiceKind :: "smState \<Rightarrow> bool" where
  "choiceKind st \<longleftrightarrow> sm_Choice (smFieldsOf st) \<noteq> []"

definition pureChoice :: "smState \<Rightarrow> bool" where
  "pureChoice st \<longleftrightarrow> sm_Run (smFieldsOf st) = [] \<and> sm_Use (smFieldsOf st) = []
     \<and> sm_Approval (smFieldsOf st) = None \<and> smMapOf st = None
     \<and> sm_Next (smFieldsOf st) = [] \<and> \<not> sm_End (smFieldsOf st)"

lemma isChoiceState_Inr:
  "isChoiceState n st = Inr b \<longleftrightarrow> b = choiceKind st \<and> (choiceKind st \<longrightarrow> pureChoice st)"
  by (auto simp: isChoiceState_def choiceKind_def pureChoice_def Let_def)

definition hasKind :: "smState \<Rightarrow> bool" where
  "hasKind st \<longleftrightarrow> sm_Approval (smFieldsOf st) \<noteq> None \<or> sm_Use (smFieldsOf st) \<noteq> []
     \<or> sm_Run (smFieldsOf st) \<noteq> []"

definition refOf :: "string \<Rightarrow> smState \<Rightarrow> string \<Rightarrow> WorkflowStepRef" where
  "refOf name st mapID =
     (let f = smFieldsOf st; gate = sm_Approval f \<noteq> None; stored = \<not> gate \<and> sm_Use f \<noteq> [];
          inline = \<not> gate \<and> \<not> stored
      in \<lparr>wsr_StepID = if stored then sm_Use f else [], wsr_Action = if inline then sm_Run f else [],
          wsr_Timeout = if inline then sm_Timeout f else 0, wsr_Name = name, wsr_With = sm_With f,
          wsr_AllowUnresolved = sm_AllowUnresolved f, wsr_Permissions = sm_Permissions f,
          wsr_Matrix = sm_Matrix f, wsr_Scatter = sm_Scatter f, wsr_Approval = sm_Approval f,
          wsr_MapID = mapID, wsr_LoopID = []\<rparr>)"

lemma refOf_name [simp]: "wsr_Name (refOf n st i) = n"
  by (simp add: refOf_def Let_def)

lemma taskRef_Inr: "taskRef n st i = Inr ref \<longleftrightarrow> \<not> choiceKind st \<and> hasKind st \<and> ref = refOf n st i"
  by (auto simp: taskRef_def refOf_def choiceKind_def hasKind_def Let_def)

definition nextOk :: "smState \<Rightarrow> bool" where
  "nextOk st \<longleftrightarrow> \<not> (sm_End (smFieldsOf st) \<and> sm_Next (smFieldsOf st) \<noteq> [])"

lemma nextTargets_Inr: "nextTargets n st = Inr ts \<longleftrightarrow> nextOk st \<and> ts = sm_Next (smFieldsOf st)"
  by (auto simp: nextTargets_def nextOk_def Let_def)

lemma deref_Inr [simp]: "deref p = Inr st \<longleftrightarrow> p = Some st"
  by (auto simp: deref_def split: option.splits)

text \<open>Facts the passes are evaluated with.\<close>

lemmas stateE = claimName_Inr choiceArms_Inr isChoiceState_Inr taskRef_Inr nextTargets_Inr

section \<open>The passes over choices and steps\<close>

definition choiceOkay :: "string \<times> smState option \<Rightarrow> bool" where
  "choiceOkay kv \<longleftrightarrow> (\<exists>st. snd kv = Some st
     \<and> (choiceKind st \<longrightarrow> pureChoice st \<and> \<not> blank (fst kv) \<and> (\<forall>c\<in>set (sm_Choice (smFieldsOf st)). armOk c)))"

definition choiceEntry :: "string \<times> smState option \<Rightarrow> armTable" where
  "choiceEntry kv = (case snd kv of
      Some st \<Rightarrow> if choiceKind st then [(fst kv, map armOf (sm_Choice (smFieldsOf st)))] else []
    | None \<Rightarrow> [])"

interpretation choice: collecting choicePass choiceOkay "\<lambda>kv. map fst (choiceEntry kv)" "\<lambda>kv t. t @ choiceEntry kv"
  by unfold_locales (auto simp: choicePass_def choiceOkay_def choiceEntry_def stateE split: prod.splits)

definition subChoiceOkay :: "string \<times> smState option \<Rightarrow> bool" where
  "subChoiceOkay kv \<longleftrightarrow> choiceOkay kv \<and> map_option smMapOf (snd kv) = Some None"

interpretation subChoice: collecting "subChoicePass c" subChoiceOkay "\<lambda>kv. map fst (choiceEntry kv)"
    "\<lambda>kv t. t @ choiceEntry kv" for c
  by unfold_locales
    (auto simp: subChoicePass_def choiceOkay_def subChoiceOkay_def choiceEntry_def stateE split: prod.splits)

text \<open>A state that becomes a step: any but those a predicate leaves out.\<close>

definition stepOkay :: "(string \<Rightarrow> smState \<Rightarrow> bool) \<Rightarrow> string \<times> smState option \<Rightarrow> bool" where
  "stepOkay out kv \<longleftrightarrow> (\<exists>st. snd kv = Some st
     \<and> (\<not> out (fst kv) st \<longrightarrow> \<not> blank (fst kv) \<and> \<not> choiceKind st \<and> hasKind st))"

definition stepEntry :: "(string \<Rightarrow> smState \<Rightarrow> bool) \<Rightarrow> string \<Rightarrow> string \<times> smState option \<Rightarrow> WorkflowStepRef list" where
  "stepEntry out c kv = (case snd kv of
      Some st \<Rightarrow> if out (fst kv) st then [] else [refOf (fst kv) st c] | None \<Rightarrow> [])"

definition notTask :: "string \<Rightarrow> smState \<Rightarrow> bool" where
  "notTask n st \<longleftrightarrow> smMapOf st \<noteq> None \<or> choiceKind st"

lemma taskPass_Inr:
  "taskPass kv (seen, steps, names) = Inr r \<longleftrightarrow>
     stepOkay notTask kv \<and> distinct (ref_names (stepEntry notTask [] kv))
     \<and> set (ref_names (stepEntry notTask [] kv)) \<inter> seen = {}
     \<and> r = (seen \<union> set (ref_names (stepEntry notTask [] kv)),
            steps @ stepEntry notTask [] kv, names @ ref_names (stepEntry notTask [] kv))"
proof -
  obtain n p where kv: "kv = (n, p)" by fastforce
  show ?thesis
  proof (cases p)
    case None
    then show ?thesis by (simp add: kv taskPass_def stepOkay_def)
  next
    case (Some st)
    then show ?thesis
      by (cases "notTask n st")
        (auto simp: kv taskPass_def stepOkay_def stepEntry_def notTask_def choiceKind_def stateE)
  qed
qed

interpretation task: collecting taskPass "stepOkay notTask" "\<lambda>kv. ref_names (stepEntry notTask [] kv)"
    "\<lambda>kv (steps, names). (steps @ stepEntry notTask [] kv, names @ ref_names (stepEntry notTask [] kv))"
  by unfold_locales (simp add: taskPass_Inr split: prod.split)

text \<open>The members of a region that are no choices.\<close>

definition subStepOkay :: "armTable \<Rightarrow> string \<times> smState option \<Rightarrow> bool" where
  "subStepOkay choices kv \<longleftrightarrow> map_of choices (fst kv) \<noteq> None \<or> stepOkay (\<lambda>_ _. False) kv"

definition subStepEntry :: "armTable \<Rightarrow> string \<Rightarrow> string \<times> smState option \<Rightarrow> WorkflowStepRef list" where
  "subStepEntry choices c kv =
     (if map_of choices (fst kv) \<noteq> None then [] else stepEntry (\<lambda>_ _. False) c kv)"

lemma subStepPass_Inr:
  "subStepPass c choices kv (seen, steps, names) = Inr r \<longleftrightarrow>
     subStepOkay choices kv \<and> distinct (ref_names (subStepEntry choices c kv))
     \<and> set (ref_names (subStepEntry choices c kv)) \<inter> seen = {}
     \<and> r = (seen \<union> set (ref_names (subStepEntry choices c kv)),
            steps @ subStepEntry choices c kv, names @ ref_names (subStepEntry choices c kv))"
proof -
  obtain n p where kv: "kv = (n, p)" by fastforce
  show ?thesis
  proof (cases "map_of choices n = None")
    case True
    then show ?thesis
      by (cases p) (auto simp: kv subStepPass_def subStepOkay_def stepOkay_def subStepEntry_def stepEntry_def stateE)
  next
    case False
    then show ?thesis by (auto simp: kv subStepPass_def subStepOkay_def subStepEntry_def)
  qed
qed

interpretation subStep: collecting "subStepPass c choices" "subStepOkay choices"
    "\<lambda>kv. ref_names (subStepEntry choices c kv)"
    "\<lambda>kv (steps, names). (steps @ subStepEntry choices c kv, names @ ref_names (subStepEntry choices c kv))"
  for c choices
  by unfold_locales (simp add: subStepPass_Inr split: prod.split)

section \<open>The passes over routes\<close>

definition plainRoute :: "string \<Rightarrow> string \<Rightarrow> WorkflowRoute" where
  "plainRoute a b = \<lparr>r_From = a, r_To = b, r_When = [], r_Name = []\<rparr>"

definition armRoute :: "string \<Rightarrow> string \<Rightarrow> smBranch \<Rightarrow> WorkflowRoute" where
  "armRoute a b arm = \<lparr>r_From = a, r_To = b, r_When = br_when arm, r_Name = br_name arm\<rparr>"

lemma resolveRegion_Inr: "resolveRegion c choices names t = Inr d \<longleftrightarrow> t \<in> set names \<and> d = t"
  by (auto simp: resolveRegion_def)

text \<open>The routes of a member of a region.\<close>

definition subTargetOk :: "armTable \<Rightarrow> string list \<Rightarrow> string \<Rightarrow> bool" where
  "subTargetOk choices names raw \<longleftrightarrow>
     (case map_of choices raw of Some arms \<Rightarrow> \<forall>a\<in>set arms. br_to a \<in> set names | None \<Rightarrow> raw \<in> set names)"

definition subTargetList :: "armTable \<Rightarrow> string \<Rightarrow> string \<Rightarrow> WorkflowRoute list" where
  "subTargetList choices from raw =
     (case map_of choices raw of Some arms \<Rightarrow> map (\<lambda>a. armRoute from (br_to a) a) arms
      | None \<Rightarrow> [plainRoute from raw])"

lemma fold_append: "fold (\<lambda>x acc. acc @ f x) xs acc = acc @ concat (map f xs)"
  by (induction xs arbitrary: acc) auto

lemma subTargetRoutes_Inr:
  "subTargetRoutes c choices names from raw routes = Inr r \<longleftrightarrow>
     subTargetOk choices names raw \<and> r = routes @ subTargetList choices from raw"
proof (cases "map_of choices raw")
  case None
  then show ?thesis
    by (auto simp: subTargetRoutes_def subTargetOk_def subTargetList_def plainRoute_def resolveRegion_Inr)
next
  case (Some arms)
  have "foldE (\<lambda>a routes. bindE (resolveRegion c choices names (br_to a)) (\<lambda>d.
             Inr (routes @ [\<lparr>r_From = from, r_To = d, r_When = br_when a, r_Name = br_name a\<rparr>]))) arms routes = Inr r
      \<longleftrightarrow> (\<forall>a\<in>set arms. br_to a \<in> set names)
          \<and> r = fold (\<lambda>a acc. acc @ [armRoute from (br_to a) a]) arms routes"
    by (rule foldE_independent) (auto simp: resolveRegion_Inr armRoute_def)
  then show ?thesis using Some
    by (simp add: subTargetRoutes_def subTargetOk_def subTargetList_def fold_append)
qed

definition subRouteOk :: "armTable \<Rightarrow> string list \<Rightarrow> string \<times> smState option \<Rightarrow> bool" where
  "subRouteOk choices names kv \<longleftrightarrow> map_of choices (fst kv) \<noteq> None
     \<or> (\<exists>st. snd kv = Some st \<and> nextOk st
          \<and> (\<forall>t\<in>set (sm_Next (smFieldsOf st)). subTargetOk choices names t))"

definition subExit :: "armTable \<Rightarrow> string \<times> smState option \<Rightarrow> string list" where
  "subExit choices kv = (case snd kv of None \<Rightarrow> []
     | Some st \<Rightarrow> if map_of choices (fst kv) = None \<and> sm_Next (smFieldsOf st) = [] then [fst kv] else [])"

definition subRouteList :: "armTable \<Rightarrow> string \<times> smState option \<Rightarrow> WorkflowRoute list" where
  "subRouteList choices kv = (case snd kv of None \<Rightarrow> []
     | Some st \<Rightarrow> if map_of choices (fst kv) = None
         then concat (map (subTargetList choices (fst kv)) (sm_Next (smFieldsOf st))) else [])"

lemma subRoutePass_Inr:
  "subRoutePass c choices names kv (exits, routes) = Inr r \<longleftrightarrow>
     subRouteOk choices names kv
     \<and> r = (exits @ subExit choices kv, routes @ subRouteList choices kv)"
proof -
  obtain n p where kv: "kv = (n, p)" by fastforce
  have all: "foldE (subTargetRoutes c choices names n) ts routes = Inr r' \<longleftrightarrow>
      (\<forall>t\<in>set ts. subTargetOk choices names t) \<and> r' = routes @ concat (map (subTargetList choices n) ts)" for ts r'
    using foldE_independent[of "subTargetRoutes c choices names n" "subTargetOk choices names"
        "\<lambda>t acc. acc @ subTargetList choices n t" ts routes r'] subTargetRoutes_Inr
    by (simp add: fold_append)
  show ?thesis
  proof (cases "map_of choices n")
    case None
    then show ?thesis
      by (cases p) (auto simp: kv subRoutePass_def subRouteOk_def subExit_def subRouteList_def all nextTargets_Inr)
  next
    case (Some arms)
    then show ?thesis
      by (cases p) (auto simp: kv subRoutePass_def subRouteOk_def subExit_def subRouteList_def)
  qed
qed

section \<open>A region and the pass over the maps\<close>

lemma fold_append2:
  "fold (\<lambda>x (a, b). (a @ f x, b @ g x)) xs (a0, b0) = (a0 @ concat (map f xs), b0 @ concat (map g xs))"
  by (induction xs arbitrary: a0 b0) auto

definition subArms :: "iterOrder \<Rightarrow> string \<Rightarrow> stateTable \<Rightarrow> armTable" where
  "subArms ord n states = concat (map choiceEntry (rangeMap ord 2 n states))"

definition subSteps :: "iterOrder \<Rightarrow> string \<Rightarrow> stateTable \<Rightarrow> WorkflowStepRef list" where
  "subSteps ord n states = concat (map (subStepEntry (subArms ord n states) n) (rangeMap ord 3 n states))"

definition subRoutes :: "iterOrder \<Rightarrow> string \<Rightarrow> stateTable \<Rightarrow> WorkflowRoute list" where
  "subRoutes ord n states = concat (map (subRouteList (subArms ord n states)) (rangeMap ord 4 n states))"

definition subRegion :: "iterOrder \<Rightarrow> string \<Rightarrow> stateTable \<Rightarrow> smRegion" where
  "subRegion ord n states =
     \<lparr>rg_entries = sort (filter (\<lambda>m. m \<notin> r_To ` set (subRoutes ord n states))
                           (ord 5 n (ref_names (subSteps ord n states)))),
      rg_exits = sort (concat (map (subExit (subArms ord n states)) (rangeMap ord 4 n states)))\<rparr>"

definition regionOkay :: "iterOrder \<Rightarrow> string \<Rightarrow> stateTable \<Rightarrow> bool" where
  "regionOkay ord n states \<longleftrightarrow>
     (\<forall>kv\<in>set (rangeMap ord 2 n states). subChoiceOkay kv)
     \<and> (\<forall>kv\<in>set (rangeMap ord 3 n states). subStepOkay (subArms ord n states) kv)
     \<and> (\<forall>kv\<in>set (rangeMap ord 4 n states).
          subRouteOk (subArms ord n states) (ref_names (subSteps ord n states)) kv)"

definition regionNames :: "iterOrder \<Rightarrow> string \<Rightarrow> stateTable \<Rightarrow> string list" where
  "regionNames ord n states = map fst (subArms ord n states) @ ref_names (subSteps ord n states)"

lemma regionOf_Inr:
  "regionOf ord n states seen = Inr r \<longleftrightarrow>
     regionOkay ord n states \<and> distinct (regionNames ord n states) \<and> set (regionNames ord n states) \<inter> seen = {}
     \<and> r = (seen \<union> set (regionNames ord n states), subSteps ord n states, subRoutes ord n states, subRegion ord n states)"
proof -
  let ?arms = "subArms ord n states" and ?steps = "subSteps ord n states"
  have 1: "foldE (subChoicePass n) (rangeMap ord 2 n states) (seen, []) = Inr q \<longleftrightarrow>
      (\<forall>kv\<in>set (rangeMap ord 2 n states). subChoiceOkay kv) \<and> distinct (map fst ?arms)
      \<and> set (map fst ?arms) \<inter> seen = {} \<and> q = (seen \<union> set (map fst ?arms), ?arms)" for q
    unfolding subChoice.collect fold_append subArms_def map_concat by (simp add: comp_def)
  have 2: "foldE (subStepPass n ?arms) (rangeMap ord 3 n states) (seen', [], []) = Inr q \<longleftrightarrow>
      (\<forall>kv\<in>set (rangeMap ord 3 n states). subStepOkay ?arms kv) \<and> distinct (ref_names ?steps)
      \<and> set (ref_names ?steps) \<inter> seen' = {} \<and> q = (seen' \<union> set (ref_names ?steps), ?steps, ref_names ?steps)" for seen' q
    unfolding subStep.collect fold_append2 subSteps_def map_concat by (simp add: comp_def)
  have 3: "foldE (subRoutePass n ?arms (ref_names ?steps)) (rangeMap ord 4 n states) ([], []) = Inr q \<longleftrightarrow>
      (\<forall>kv\<in>set (rangeMap ord 4 n states). subRouteOk ?arms (ref_names ?steps) kv)
      \<and> q = (concat (map (subExit ?arms) (rangeMap ord 4 n states)), subRoutes ord n states)" for q
    using foldE_independent[of "subRoutePass n ?arms (ref_names ?steps)" "subRouteOk ?arms (ref_names ?steps)"
        "\<lambda>kv (e, r). (e @ subExit ?arms kv, r @ subRouteList ?arms kv)" "rangeMap ord 4 n states" "([], [])" q]
      subRoutePass_Inr[of n ?arms "ref_names ?steps"]
    by (simp add: fold_append2 subRoutes_def split: prod.splits)
  have disj: "(A \<inter> S = {} \<and> B \<inter> (S \<union> A) = {}) \<longleftrightarrow> (A \<inter> B = {} \<and> (A \<union> B) \<inter> S = {})" for A B S :: "string set"
    by blast
  show ?thesis
    unfolding regionOf_def regionOkay_def regionNames_def subRegion_def
    by (auto simp: 1 2 3 Un_assoc)
qed

text \<open>What a state contributes to the pass over the maps.\<close>

definition mapOkay :: "iterOrder \<Rightarrow> string \<times> smState option \<Rightarrow> bool" where
  "mapOkay ord kv = (case snd kv of None \<Rightarrow> False | Some st \<Rightarrow>
     (case smMapOf st of None \<Rightarrow> True
      | Some (SmMap m states) \<Rightarrow> states \<noteq> [] \<and> \<not> blank (fst kv) \<and> regionOkay ord (fst kv) states))"

definition mapStates :: "string \<times> smState option \<Rightarrow> (smMapFields \<times> stateTable) option" where
  "mapStates kv = (case snd kv of None \<Rightarrow> None | Some st \<Rightarrow>
     (case smMapOf st of None \<Rightarrow> None | Some (SmMap m states) \<Rightarrow> Some (m, states)))"

definition perMap :: "(string \<Rightarrow> smMapFields \<Rightarrow> stateTable \<Rightarrow> 'b list) \<Rightarrow> string \<times> smState option \<Rightarrow> 'b list" where
  "perMap f kv = (case mapStates kv of None \<Rightarrow> [] | Some (m, states) \<Rightarrow> f (fst kv) m states)"

definition mapNames :: "iterOrder \<Rightarrow> string \<times> smState option \<Rightarrow> string list" where
  "mapNames ord = perMap (\<lambda>n m states. n # regionNames ord n states)"

definition mapAdd :: "iterOrder \<Rightarrow> string \<times> smState option \<Rightarrow> mapAcc \<Rightarrow> mapAcc" where
  "mapAdd ord kv acc = (case acc of (maps, steps, internal, regions) \<Rightarrow>
     (maps @ perMap (\<lambda>n m states. [mapDefOf n m]) kv,
      steps @ perMap (\<lambda>n m states. subSteps ord n states) kv,
      internal @ perMap (\<lambda>n m states. subRoutes ord n states) kv,
      regions @ perMap (\<lambda>n m states. [(n, subRegion ord n states)]) kv))"

lemma fold_mapAdd:
  "fold (mapAdd ord) xs (ms, ss, rs, gs) =
     (ms @ concat (map (perMap (\<lambda>n m states. [mapDefOf n m])) xs),
      ss @ concat (map (perMap (\<lambda>n m states. subSteps ord n states)) xs),
      rs @ concat (map (perMap (\<lambda>n m states. subRoutes ord n states)) xs),
      gs @ concat (map (perMap (\<lambda>n m states. [(n, subRegion ord n states)])) xs))"
  by (induction xs arbitrary: ms ss rs gs) (auto simp: mapAdd_def)

lemma mapPass_Inr:
  "mapPass ord kv (seen, maps, steps, internal, regions) = Inr r \<longleftrightarrow>
     mapOkay ord kv \<and> distinct (mapNames ord kv) \<and> set (mapNames ord kv) \<inter> seen = {}
     \<and> r = (seen \<union> set (mapNames ord kv), mapAdd ord kv (maps, steps, internal, regions))"
proof -
  obtain n p where kv: "kv = (n, p)" by fastforce
  show ?thesis
  proof (cases p)
    case None
    then show ?thesis by (simp add: kv mapPass_def mapOkay_def)
  next
    case (Some st)
    show ?thesis
    proof (cases "smMapOf st")
      case None
      with Some show ?thesis
        by (auto simp: kv mapPass_def mapOkay_def mapNames_def mapAdd_def perMap_def mapStates_def)
    next
      case (Some sm)
      obtain m states where sm: "sm = SmMap m states" by (cases sm)
      note eval = kv \<open>p = Some st\<close> Some sm
      have "mapPass ord kv (seen, maps, steps, internal, regions) = Inr r \<longleftrightarrow>
          states \<noteq> [] \<and> \<not> blank n \<and> n \<notin> seen \<and> regionOkay ord n states \<and> distinct (regionNames ord n states)
          \<and> set (regionNames ord n states) \<inter> insert n seen = {}
          \<and> r = (insert n seen \<union> set (regionNames ord n states), maps @ [mapDefOf n m],
                 steps @ subSteps ord n states, internal @ subRoutes ord n states,
                 regions @ [(n, subRegion ord n states)])"
        by (auto simp: eval mapPass_def claimName_Inr regionOf_Inr)
      moreover have "mapNames ord kv = n # regionNames ord n states"
        "mapOkay ord kv \<longleftrightarrow> states \<noteq> [] \<and> \<not> blank n \<and> regionOkay ord n states"
        "mapAdd ord kv (maps, steps, internal, regions) = (maps @ [mapDefOf n m],
                 steps @ subSteps ord n states, internal @ subRoutes ord n states,
                 regions @ [(n, subRegion ord n states)])"
        by (simp_all add: eval mapNames_def mapOkay_def mapAdd_def perMap_def mapStates_def)
      ultimately show ?thesis by auto
    qed
  qed
qed

interpretation maps: collecting "mapPass ord" "mapOkay ord" "mapNames ord" "mapAdd ord" for ord
  by unfold_locales (metis mapPass_Inr prod_cases4)

section \<open>The pass over the routes\<close>

definition resolvable :: "smTargets \<Rightarrow> string \<Rightarrow> bool" where
  "resolvable T n \<longleftrightarrow> (case map_of (tg_regions T) n of
     Some reg \<Rightarrow> rg_entries reg \<noteq> [] | None \<Rightarrow> n \<in> set (tg_stepNodes T))"

definition resolvedTo :: "smTargets \<Rightarrow> string \<Rightarrow> string list" where
  "resolvedTo T n = (case map_of (tg_regions T) n of Some reg \<Rightarrow> rg_entries reg | None \<Rightarrow> [n])"

lemma resolveTargets_Inr: "resolveTargets T n = Inr ds \<longleftrightarrow> resolvable T n \<and> ds = resolvedTo T n"
  by (auto simp: resolveTargets_def resolvable_def resolvedTo_def split: option.splits)

definition productList :: "string list \<Rightarrow> string list \<Rightarrow> string \<Rightarrow> string \<Rightarrow> WorkflowRoute list" where
  "productList sources dests whn name =
     concat (map (\<lambda>src. map (\<lambda>d. \<lparr>r_From = src, r_To = d, r_When = whn, r_Name = name\<rparr>) dests) sources)"

lemma fold_concat_map: "fold (\<lambda>x. fold f (g x)) xs s = fold f (concat (map g xs)) s"
  by (induction xs arbitrary: s) auto

lemma addProduct_eq: "addProduct sources dests whn name = fold addRoute (productList sources dests whn name)"
proof
  fix routes
  have "fold (\<lambda>d. addRoute \<lparr>r_From = src, r_To = d, r_When = whn, r_Name = name\<rparr>) dests
      = fold addRoute (map (\<lambda>d. \<lparr>r_From = src, r_To = d, r_When = whn, r_Name = name\<rparr>) dests)" for src
    by (simp add: fold_map comp_def)
  then show "addProduct sources dests whn name routes = fold addRoute (productList sources dests whn name) routes"
    by (simp add: addProduct_def productList_def fold_concat_map)
qed

definition targetOk :: "smTargets \<Rightarrow> string \<Rightarrow> bool" where
  "targetOk T raw \<longleftrightarrow> (case map_of (tg_choices T) raw of
     Some arms \<Rightarrow> \<forall>a\<in>set arms. resolvable T (br_to a) | None \<Rightarrow> resolvable T raw)"

definition targetList :: "smTargets \<Rightarrow> string list \<Rightarrow> string \<Rightarrow> WorkflowRoute list" where
  "targetList T sources raw = (case map_of (tg_choices T) raw of
     Some arms \<Rightarrow> concat (map (\<lambda>a. productList sources (resolvedTo T (br_to a)) (br_when a) (br_name a)) arms)
   | None \<Rightarrow> productList sources (resolvedTo T raw) [] [])"

definition reachedBy :: "smTargets \<Rightarrow> string \<Rightarrow> string set" where
  "reachedBy T raw = (if map_of (tg_choices T) raw = None then {} else {raw})"

lemma targetRoutes_Inr:
  "targetRoutes T sources raw (routes, reached) = Inr r \<longleftrightarrow>
     targetOk T raw \<and> r = (fold addRoute (targetList T sources raw) routes, reached \<union> reachedBy T raw)"
proof (cases "map_of (tg_choices T) raw")
  case None
  then show ?thesis
    by (auto simp: targetRoutes_def targetOk_def targetList_def reachedBy_def resolveTargets_Inr addProduct_eq)
next
  case (Some arms)
  have "foldE (\<lambda>a routes. bindE (resolveTargets T (br_to a)) (\<lambda>dests.
             Inr (addProduct sources dests (br_when a) (br_name a) routes))) arms routes = Inr q
      \<longleftrightarrow> (\<forall>a\<in>set arms. resolvable T (br_to a))
          \<and> q = fold (\<lambda>a. fold addRoute (productList sources (resolvedTo T (br_to a)) (br_when a) (br_name a))) arms routes" for q
    by (rule foldE_independent) (auto simp: resolveTargets_Inr addProduct_eq)
  then show ?thesis using Some
    by (auto simp: targetRoutes_def targetOk_def targetList_def reachedBy_def fold_concat_map)
qed

definition routeOk :: "smTargets \<Rightarrow> string \<times> smState option \<Rightarrow> bool" where
  "routeOk T kv \<longleftrightarrow> (\<exists>st. snd kv = Some st
     \<and> (\<not> choiceKind st \<longrightarrow> nextOk st \<and> (\<forall>t\<in>set (sm_Next (smFieldsOf st)). targetOk T t)))"

text \<open>The targets of the states that are no choices.\<close>

definition nextOf :: "string \<times> smState option \<Rightarrow> string list" where
  "nextOf kv = (case snd kv of None \<Rightarrow> [] | Some st \<Rightarrow> if choiceKind st then [] else sm_Next (smFieldsOf st))"

definition routeList :: "smTargets \<Rightarrow> string \<times> smState option \<Rightarrow> WorkflowRoute list" where
  "routeList T kv = concat (map (targetList T (sourcesOf T (fst kv))) (nextOf kv))"

lemma targets_all:
  "foldE (targetRoutes T sources) ts (routes, reached) = Inr r \<longleftrightarrow>
     (\<forall>t\<in>set ts. targetOk T t)
     \<and> r = (fold addRoute (concat (map (targetList T sources) ts)) routes, reached \<union> (\<Union>t\<in>set ts. reachedBy T t))"
proof (induction ts arbitrary: routes reached)
  case (Cons t ts)
  then show ?case by (auto simp: targetRoutes_Inr Un_assoc)
qed auto

lemma routePass_Inr:
  "routePass T kv (routes, reached) = Inr r \<longleftrightarrow>
     routeOk T kv \<and> r = (fold addRoute (routeList T kv) routes, reached \<union> (\<Union>t\<in>set (nextOf kv). reachedBy T t))"
proof -
  obtain n p where kv: "kv = (n, p)" by fastforce
  show ?thesis
    by (cases p)
      (auto simp: kv routePass_def routeOk_def routeList_def nextOf_def targets_all nextTargets_Inr choiceKind_def)
qed

lemma routes_all:
  "foldE (routePass T) xs (routes, reached) = Inr r \<longleftrightarrow>
     (\<forall>kv\<in>set xs. routeOk T kv)
     \<and> r = (fold addRoute (concat (map (routeList T) xs)) routes,
            reached \<union> (\<Union>kv\<in>set xs. \<Union>t\<in>set (nextOf kv). reachedBy T t))"
proof (induction xs arbitrary: routes reached)
  case (Cons x xs)
  then show ?case by (auto simp: routePass_Inr Un_assoc)
qed auto

lemma set_addRoute [simp]: "set (fold addRoute rs routes) = set routes \<union> set rs"
  by (induction rs arbitrary: routes) (auto simp: addRoute_def)

lemma distinct_addRoute: "distinct routes \<Longrightarrow> distinct (fold addRoute rs routes)"
  by (induction rs arbitrary: routes) (auto simp: addRoute_def)

section \<open>The conversion as a whole\<close>

definition docArms :: "iterOrder \<Rightarrow> stateTable \<Rightarrow> armTable" where
  "docArms ord states = concat (map choiceEntry (rangeMap ord 0 [] states))"

definition docTasks :: "iterOrder \<Rightarrow> stateTable \<Rightarrow> WorkflowStepRef list" where
  "docTasks ord states = concat (map (stepEntry notTask []) (rangeMap ord 6 [] states))"

definition docMap :: "iterOrder \<Rightarrow> stateTable \<Rightarrow> (string \<Rightarrow> smMapFields \<Rightarrow> stateTable \<Rightarrow> 'b list) \<Rightarrow> 'b list" where
  "docMap ord states f = concat (map (perMap f) (rangeMap ord 1 [] states))"

definition docTargets :: "iterOrder \<Rightarrow> stateTable \<Rightarrow> smTargets" where
  "docTargets ord states =
     \<lparr>tg_regions = docMap ord states (\<lambda>n m sub. [(n, subRegion ord n sub)]),
      tg_choices = docArms ord states, tg_stepNodes = ref_names (docTasks ord states)\<rparr>"

definition docSteps :: "iterOrder \<Rightarrow> stateTable \<Rightarrow> WorkflowStepRef list" where
  "docSteps ord states = docMap ord states (\<lambda>n m sub. subSteps ord n sub) @ docTasks ord states"

definition docRoutes :: "iterOrder \<Rightarrow> stateTable \<Rightarrow> WorkflowRoute list" where
  "docRoutes ord states =
     fold addRoute (concat (map (routeList (docTargets ord states)) (rangeMap ord 7 [] states)))
       (docMap ord states (\<lambda>n m sub. subRoutes ord n sub))"

definition docNames :: "iterOrder \<Rightarrow> stateTable \<Rightarrow> string list" where
  "docNames ord states =
     map fst (docArms ord states) @ concat (map (mapNames ord) (rangeMap ord 1 [] states))
     @ ref_names (docTasks ord states)"

definition docReached :: "iterOrder \<Rightarrow> stateTable \<Rightarrow> string set" where
  "docReached ord states =
     (\<Union>kv\<in>set (rangeMap ord 7 [] states). \<Union>t\<in>set (nextOf kv). reachedBy (docTargets ord states) t)"

definition docOkay :: "iterOrder \<Rightarrow> stateTable \<Rightarrow> bool" where
  "docOkay ord states \<longleftrightarrow> states \<noteq> []
     \<and> (\<forall>kv\<in>set (rangeMap ord 0 [] states). choiceOkay kv)
     \<and> (\<forall>kv\<in>set (rangeMap ord 1 [] states). mapOkay ord kv)
     \<and> (\<forall>kv\<in>set (rangeMap ord 6 [] states). stepOkay notTask kv)
     \<and> distinct (docNames ord states)
     \<and> (\<forall>kv\<in>set (rangeMap ord 7 [] states). routeOk (docTargets ord states) kv)
     \<and> set (ord 8 [] (map fst (docArms ord states))) \<subseteq> docReached ord states"

lemma smToModel_Inr:
  "smToModel ord (Some d) = Inr r \<longleftrightarrow>
     docOkay ord (sd_States d)
     \<and> r = (orderSteps (docSteps ord (sd_States d)) (docRoutes ord (sd_States d)), docRoutes ord (sd_States d),
            docMap ord (sd_States d) (\<lambda>n m sub. [mapDefOf n m]))"
proof -
  let ?s = "sd_States d"
  have 1: "foldE choicePass (rangeMap ord 0 [] ?s) ({}, []) = Inr q \<longleftrightarrow>
      ((\<forall>kv\<in>set (rangeMap ord 0 [] ?s). choiceOkay kv) \<and> distinct (map fst (docArms ord ?s)))
      \<and> q = (set (map fst (docArms ord ?s)), docArms ord ?s)" for q
    unfolding choice.collect fold_append docArms_def map_concat by (simp add: comp_def)
  have 2: "foldE (mapPass ord) (rangeMap ord 1 [] ?s) (seen, [], [], [], []) = Inr q \<longleftrightarrow>
      ((\<forall>kv\<in>set (rangeMap ord 1 [] ?s). mapOkay ord kv)
      \<and> distinct (concat (map (mapNames ord) (rangeMap ord 1 [] ?s)))
      \<and> set (concat (map (mapNames ord) (rangeMap ord 1 [] ?s))) \<inter> seen = {})
      \<and> q = (seen \<union> set (concat (map (mapNames ord) (rangeMap ord 1 [] ?s))),
             docMap ord ?s (\<lambda>n m sub. [mapDefOf n m]), docMap ord ?s (\<lambda>n m sub. subSteps ord n sub),
             docMap ord ?s (\<lambda>n m sub. subRoutes ord n sub), docMap ord ?s (\<lambda>n m sub. [(n, subRegion ord n sub)]))" for seen q
    unfolding maps.collect fold_mapAdd docMap_def by simp
  have 3: "foldE taskPass (rangeMap ord 6 [] ?s) (seen, members, []) = Inr q \<longleftrightarrow>
      ((\<forall>kv\<in>set (rangeMap ord 6 [] ?s). stepOkay notTask kv) \<and> distinct (ref_names (docTasks ord ?s))
      \<and> set (ref_names (docTasks ord ?s)) \<inter> seen = {})
      \<and> q = (seen \<union> set (ref_names (docTasks ord ?s)), members @ docTasks ord ?s, ref_names (docTasks ord ?s))"
    for seen members q
    unfolding task.collect fold_append2 docTasks_def map_concat by (simp add: comp_def)
  have 4: "foldE (routePass T) (rangeMap ord 7 [] ?s) (internal, {}) = Inr q \<longleftrightarrow>
      (\<forall>kv\<in>set (rangeMap ord 7 [] ?s). routeOk T kv)
      \<and> q = (fold addRoute (concat (map (routeList T) (rangeMap ord 7 [] ?s))) internal,
             \<Union>kv\<in>set (rangeMap ord 7 [] ?s). \<Union>t\<in>set (nextOf kv). reachedBy T t)" for T internal q
    unfolding routes_all by simp
  have 5: "(case find (\<lambda>n. n \<notin> R) xs of Some n \<Rightarrow> Inl (UnreachableChoice n) | None \<Rightarrow> Inr v) = Inr q
      \<longleftrightarrow> set xs \<subseteq> R \<and> q = v" for R xs and v q :: "WorkflowStepRef list \<times> WorkflowRoute list \<times> MapDef list"
  proof (cases "find (\<lambda>n. n \<notin> R) xs")
    case None
    then have "set xs \<subseteq> R" unfolding find_None_iff by blast
    with None show ?thesis by auto
  next
    case (Some n)
    then have "\<not> set xs \<subseteq> R" by (auto dest: find_mem)
    with Some show ?thesis by simp
  qed
  let ?A = "map fst (docArms ord ?s)" and ?B = "concat (map (mapNames ord) (rangeMap ord 1 [] ?s))"
    and ?C = "ref_names (docTasks ord ?s)"
  have T: "\<lparr>tg_regions = docMap ord ?s (\<lambda>n m sub. [(n, subRegion ord n sub)]), tg_choices = docArms ord ?s,
      tg_stepNodes = ?C\<rparr> = docTargets ord ?s" by (simp only: docTargets_def)
  have "smToModel ord (Some d) = Inr r \<longleftrightarrow>
      ?s \<noteq> [] \<and> (\<forall>kv\<in>set (rangeMap ord 0 [] ?s). choiceOkay kv) \<and> distinct ?A
      \<and> (\<forall>kv\<in>set (rangeMap ord 1 [] ?s). mapOkay ord kv) \<and> distinct ?B \<and> set ?B \<inter> set ?A = {}
      \<and> (\<forall>kv\<in>set (rangeMap ord 6 [] ?s). stepOkay notTask kv) \<and> distinct ?C \<and> set ?C \<inter> (set ?A \<union> set ?B) = {}
      \<and> (\<forall>kv\<in>set (rangeMap ord 7 [] ?s). routeOk (docTargets ord ?s) kv)
      \<and> set (ord 8 [] ?A) \<subseteq> docReached ord ?s
      \<and> r = (orderSteps (docSteps ord ?s) (docRoutes ord ?s), docRoutes ord ?s, docMap ord ?s (\<lambda>n m sub. [mapDefOf n m]))"
  proof (cases "?s = []")
    case False
    show ?thesis
      unfolding smToModel_def option.case Let_def if_not_P[OF False] bindE_det[OF 1] prod.case bindE_det[OF 2]
        bindE_det[OF 3] T bindE_det[OF 4] 5 docSteps_def docRoutes_def docReached_def
      using False by blast
  qed (simp add: smToModel_def)
  moreover have "distinct (?A @ ?B @ ?C) \<longleftrightarrow>
      distinct ?A \<and> distinct ?B \<and> set ?B \<inter> set ?A = {} \<and> distinct ?C \<and> set ?C \<inter> (set ?A \<union> set ?B) = {}"
    unfolding distinct_append set_append by blast
  ultimately show ?thesis unfolding docOkay_def docNames_def by argo
qed

end
