(* ===== verification/Wf_StateRoundTrip.thy ===== *)
theory Wf_StateRoundTrip
  imports Wf_StatePasses
begin

text \<open>
  What becomes of a pipeline that is rendered as a state machine and read back, and that the result
  of reading a document does not depend on the order in which Go visits its map.
\<close>

section \<open>Iteration over a map\<close>

definition permuting :: "iterOrder \<Rightarrow> bool" where
  "permuting ord \<longleftrightarrow> (\<forall>site c ks. mset (ord site c ks) = mset ks)"

lemma map_filter_all:
  "(\<And>kv. kv \<in> set xs \<Longrightarrow> f (fst kv) = Some kv) \<Longrightarrow> List.map_filter f (map fst xs) = xs"
  by (induction xs) (auto simp: map_filter_simps)

lemma map_filter_keys:
  assumes "distinct (map fst kvs)"
  shows "List.map_filter (\<lambda>k. map_option (Pair k) (map_of kvs k)) (map fst kvs) = kvs"
proof (rule map_filter_all)
  fix kv assume "kv \<in> set kvs"
  then show "map_option (Pair (fst kv)) (map_of kvs (fst kv)) = Some kv"
    using map_of_is_SomeI[OF assms, of "fst kv" "snd kv"] by simp
qed

lemma rangeMap_mset:
  assumes "permuting ord" "distinct (map fst kvs)"
  shows "mset (rangeMap ord site c kvs) = mset kvs"
proof -
  let ?f = "\<lambda>k. map_option (Pair k) (map_of kvs k)"
  have perm: "mset (List.map_filter ?f xs) = mset (List.map_filter ?f ys)" if "mset xs = mset ys" for xs ys
    using that by (simp add: map_filter_def mset_filter[symmetric] del: mset_filter)
      (metis mset_filter)
  have "mset (rangeMap ord site c kvs) = mset (List.map_filter ?f (map fst kvs))"
    unfolding rangeMap_def using assms(1) by (intro perm) (simp add: permuting_def)
  then show ?thesis by (simp only: map_filter_keys[OF assms(2)])
qed

lemma rangeMap_set: "permuting ord \<Longrightarrow> distinct (map fst kvs) \<Longrightarrow> set (rangeMap ord site c kvs) = set kvs"
  using rangeMap_mset mset_eq_setD by blast

lemma permuting_set: "permuting ord \<Longrightarrow> set (ord site c ks) = set ks"
  unfolding permuting_def by (metis mset_eq_setD)

lemma mset_concat_map:
  assumes "mset xs = mset ys" "\<And>x. x \<in> set xs \<Longrightarrow> mset (f x) = mset (g x)"
  shows "mset (concat (map f xs)) = mset (concat (map g ys))"
proof -
  have "mset (concat (map h zs)) = sum_mset (image_mset (\<lambda>x. mset (h x)) (mset zs))" for h :: "'a \<Rightarrow> 'b list" and zs
    by (induction zs) auto
  moreover have "image_mset (\<lambda>x. mset (f x)) (mset xs) = image_mset (\<lambda>x. mset (g x)) (mset xs)"
    using assms(2) by (intro image_mset_cong) simp
  ultimately show ?thesis using assms(1) by simp
qed

section \<open>The document of a pipeline without maps\<close>

lemma update_fresh: "k \<notin> set (map fst t) \<Longrightarrow> AList.update k v t = t @ [(k, v)]"
  by (induction t) auto

lemma putState_fresh: "k \<notin> set (map fst t) \<Longrightarrow> putState k st t = t @ [(k, Some st)]"
  by (simp add: putState_def update_fresh)

lemma freeChoiceName_spec:
  "freeChoiceName used base n i \<notin> set used
   \<and> (freeChoiceName used base n i = n \<or> (\<exists>j. freeChoiceName used base n i = choiceNameAt base j))"
proof (induction used base n i rule: freeChoiceName.induct)
  case (1 used base n i)
  then show ?case by (subst (1 2 3) freeChoiceName.simps) auto
qed

lemma choice_not_blank: "\<not> blank (base @ ''_choice'' @ rest)"
proof -
  have "CHR ''_'' \<in> set (TrimSpace (base @ ''_choice'' @ rest))"
    by (rule TrimSpace_keeps) (simp_all add: asciiSpaces_def)
  then show ?thesis by (auto simp: blank_def)
qed

lemma freeChoiceName_not_blank: "\<not> blank (freeChoiceName used base (base @ ''_choice'') i)"
  using freeChoiceName_spec[of used base "base @ ''_choice''" i] choice_not_blank[of base]
  by (metis append.right_neutral append_assoc choiceNameAt_def)

definition edgesFrom :: "WorkflowRoute list \<Rightarrow> string \<Rightarrow> smBranch list" where
  "edgesFrom routes n =
     map (\<lambda>r. \<lparr>br_to = r_To r, br_when = r_When r, br_name = r_Name r\<rparr>) (filter (\<lambda>r. r_From r = n) routes)"

lemma mapOf_flat: "\<forall>s\<in>set steps. ws_MapID s = [] \<Longrightarrow> mapOf steps n = []"
  by (auto simp: mapOf_def find_None_iff split: option.splits dest!: find_mem)

lemma partition_flat:
  assumes "\<forall>s\<in>set steps. ws_MapID s = []"
  shows "partitionRoutes steps routes = (edgesFrom routes, \<lambda>_. [])"
proof -
  have "fold (partitionRoute steps) rs (edgesFrom pre, \<lambda>_. []) = (edgesFrom (pre @ rs), \<lambda>_. [])" for rs pre
  proof (induction rs arbitrary: pre)
    case (Cons r rs)
    have "partitionRoute steps r (edgesFrom pre, \<lambda>_. []) = (edgesFrom (pre @ [r]), \<lambda>_. [])"
      using mapOf_flat[OF assms]
      by (auto simp: partitionRoute_def Let_def display_def addEdge_def edgesFrom_def fun_eq_iff)
    then show ?case using Cons.IH[of "pre @ [r]"] by simp
  qed simp
  moreover have "edgesFrom [] = (\<lambda>_. [])" by (simp add: edgesFrom_def fun_eq_iff)
  ultimately show ?thesis by (metis append_Nil partitionRoutes_def)
qed

definition branching :: "smBranch list \<Rightarrow> bool" where
  "branching edges \<longleftrightarrow> (\<exists>e\<in>set edges. br_when e \<noteq> [])"

text \<open>The entries of a step: its choice, named by \<open>cn\<close>, and its state.\<close>

definition stepState :: "(string \<Rightarrow> smBranch list) \<Rightarrow> (string \<Rightarrow> string) \<Rightarrow> WorkflowStep \<Rightarrow> smFields" where
  "stepState outer cn s =
     (let es = outer (st_Name s); f = taskState s
      in if es = [] then f\<lparr>sm_End := True\<rparr>
         else if \<not> branching es then f\<lparr>sm_Next := sort (map br_to es)\<rparr>
         else f\<lparr>sm_Next := [cn (st_Name s)]\<rparr>)"

definition stepStates :: "(string \<Rightarrow> smBranch list) \<Rightarrow> (string \<Rightarrow> string) \<Rightarrow> WorkflowStep \<Rightarrow> stateTable" where
  "stepStates outer cn s =
     (let es = outer (st_Name s)
      in (if branching es then [(cn (st_Name s), Some (SmState (choiceFields (choicesOf es)) None))] else [])
         @ [(st_Name s, Some (SmState (stepState outer cn s) None))])"

lemma placeStep_flat:
  assumes "ws_MapID s = []" "st_Name s \<in> set used" "set (map fst t) \<subseteq> set used" "st_Name s \<notin> set (map fst t)"
  obtains c used' where
    "placeStep outer internal s (t, used) = (t @ stepStates outer (cn(st_Name s := c)) s, used')"
    and "branching (outer (st_Name s)) \<longrightarrow> c \<notin> set used \<and> \<not> blank c"
    and "set used' = set used \<union> (if branching (outer (st_Name s)) then {c} else {})"
proof -
  let ?n = "st_Name s" and ?es = "outer (st_Name s)"
  let ?c = "freeChoiceName used ?n (?n @ ''_choice'') 2"
  have c: "?c \<notin> set used" "\<not> blank ?c"
    using freeChoiceName_spec freeChoiceName_not_blank by blast+
  then have fresh: "?c \<notin> set (map fst t)" "?n \<notin> set (map fst (t @ [(?c, v)]))" for v
    using assms by auto
  have br: "\<not> branching ?es \<longleftrightarrow> (\<forall>e\<in>set ?es. br_when e = [])" by (auto simp: branching_def)
  have "placeStep outer internal s (t, used)
      = (t @ stepStates outer (cn(?n := ?c)) s, if branching ?es then ?c # used else used)"
  proof (cases "branching ?es")
    case True
    then have "?es \<noteq> []" by (auto simp: branching_def)
    with True br show ?thesis using assms(1) fresh
      by (simp add: placeStep_def applyEdges_def stepStates_def stepState_def uniqueChoiceName_def Let_def
          emitState_def putState_fresh del: map_append)
  next
    case False
    with br have "\<forall>e\<in>set ?es. br_when e = []" by simp
    with False show ?thesis using assms(1,4)
      by (simp add: placeStep_def applyEdges_def stepStates_def stepState_def Let_def emitState_def putState_fresh)
  qed
  then show thesis using c by (intro that) auto
qed

lemma stepStates_keys:
  "map fst (stepStates outer cn s) = (if branching (outer (st_Name s)) then [cn (st_Name s)] else []) @ [st_Name s]"
  by (simp add: stepStates_def Let_def)

lemma stepStates_cong: "cn (st_Name s) = cn' (st_Name s) \<Longrightarrow> stepStates outer cn s = stepStates outer cn' s"
  by (simp add: stepStates_def stepState_def Let_def)

lemma placeSteps_flat:
  assumes "distinct (names_of xs)" "\<forall>s\<in>set xs. ws_MapID s = []" "set (names_of xs) \<subseteq> set used"
    and "set (map fst t) \<subseteq> set used" "set (names_of xs) \<inter> set (map fst t) = {}" "distinct (map fst t)"
  shows "\<exists>cn used'. fold (placeStep outer internal) xs (t, used) = (t @ concat (map (stepStates outer cn) xs), used')
     \<and> distinct (map fst (t @ concat (map (stepStates outer cn) xs)))
     \<and> (\<forall>s\<in>set xs. branching (outer (st_Name s)) \<longrightarrow> cn (st_Name s) \<notin> set used \<and> \<not> blank (cn (st_Name s)))"
  using assms
proof (induction xs arbitrary: t used)
  case (Cons s xs)
  obtain c used1 where 1: "placeStep outer internal s (t, used) = (t @ stepStates outer (undefined(st_Name s := c)) s, used1)"
    and c: "branching (outer (st_Name s)) \<longrightarrow> c \<notin> set used \<and> \<not> blank c"
    and used1: "set used1 = set used \<union> (if branching (outer (st_Name s)) then {c} else {})"
    by (rule placeStep_flat[of s used t outer internal undefined]) (use Cons.prems in auto)
  let ?t1 = "t @ stepStates outer (undefined(st_Name s := c)) s"
  have keys: "map fst ?t1 = map fst t @ (if branching (outer (st_Name s)) then [c] else []) @ [st_Name s]"
    by (simp add: stepStates_keys)
  have fresh: "st_Name s \<noteq> c \<and> c \<notin> set (names_of xs) \<and> c \<notin> set (map fst t)" if "branching (outer (st_Name s))"
    using c that Cons.prems(3,4) by auto
  have "\<exists>cn used'. fold (placeStep outer internal) xs (?t1, used1) = (?t1 @ concat (map (stepStates outer cn) xs), used')
     \<and> distinct (map fst (?t1 @ concat (map (stepStates outer cn) xs)))
     \<and> (\<forall>s\<in>set xs. branching (outer (st_Name s)) \<longrightarrow> cn (st_Name s) \<notin> set used1 \<and> \<not> blank (cn (st_Name s)))"
  proof (rule Cons.IH)
    show "distinct (names_of xs)" "\<forall>s\<in>set xs. ws_MapID s = []" "set (names_of xs) \<subseteq> set used1"
      using Cons.prems(1-3) used1 by auto
    show "set (map fst ?t1) \<subseteq> set used1" unfolding keys used1 using Cons.prems(3,4) by auto
    show "set (names_of xs) \<inter> set (map fst ?t1) = {}" unfolding keys using Cons.prems(1,5) fresh by auto
    show "distinct (map fst ?t1)" unfolding keys using Cons.prems(5,6) fresh by auto
  qed
  then obtain cn used' where rest: "fold (placeStep outer internal) xs (?t1, used1) = (?t1 @ concat (map (stepStates outer cn) xs), used')"
    "distinct (map fst (?t1 @ concat (map (stepStates outer cn) xs)))"
    "\<forall>s\<in>set xs. branching (outer (st_Name s)) \<longrightarrow> cn (st_Name s) \<notin> set used1 \<and> \<not> blank (cn (st_Name s))"
    by blast
  let ?cn = "cn(st_Name s := c)"
  have "stepStates outer (undefined(st_Name s := c)) s = stepStates outer ?cn s"
    by (rule stepStates_cong) simp
  moreover have "map (stepStates outer cn) xs = map (stepStates outer ?cn) xs"
  proof (rule map_cong[OF refl], rule stepStates_cong)
    fix x assume "x \<in> set xs"
    then have "st_Name x \<noteq> st_Name s" using Cons.prems(1) by (auto simp: image_iff)
    then show "cn (st_Name x) = ?cn (st_Name x)" by simp
  qed
  ultimately have all: "?t1 @ concat (map (stepStates outer cn) xs) = t @ concat (map (stepStates outer ?cn) (s # xs))"
    by (simp only: list.map concat.simps append_assoc)
  have "\<forall>x\<in>set (s # xs). branching (outer (st_Name x)) \<longrightarrow> ?cn (st_Name x) \<notin> set used \<and> \<not> blank (?cn (st_Name x))"
    using c rest(3) used1 Cons.prems(1) by (auto simp: image_iff)
  moreover have "fold (placeStep outer internal) (s # xs) (t, used) = (t @ concat (map (stepStates outer ?cn) (s # xs)), used')"
    using rest(1) unfolding all by (simp only: fold_simps(2) 1)
  ultimately show ?case using rest(2) unfolding all by blast
qed simp

section \<open>Reading the document back\<close>

text \<open>A step the document can express: a gate, a stored step without an action, or an action.\<close>

definition readable :: "WorkflowStep \<Rightarrow> bool" where
  "readable s \<longleftrightarrow> ws_Approval s \<noteq> None \<or> (st_StepID s \<noteq> [] \<and> st_Action s = []) \<or> st_Action s \<noteq> []"

text \<open>What a step is read back as, and a route.\<close>

definition viaDocument :: "WorkflowStep \<Rightarrow> WorkflowStepRef" where
  "viaDocument s =
     (let gate = ws_Approval s \<noteq> None; stored = \<not> gate \<and> st_StepID s \<noteq> [] \<and> st_Action s = [];
          inline = \<not> gate \<and> \<not> stored
      in \<lparr>wsr_StepID = if stored then st_StepID s else [], wsr_Action = if inline then st_Action s else [],
          wsr_Timeout = if inline then st_Timeout s else 0, wsr_Name = st_Name s, wsr_With = st_With s,
          wsr_AllowUnresolved = st_AllowUnresolved s, wsr_Permissions = st_Permissions s,
          wsr_Matrix = ws_Matrix s, wsr_Scatter = ws_Scatter s, wsr_Approval = ws_Approval s,
          wsr_MapID = [], wsr_LoopID = []\<rparr>)"

definition routeVia :: "WorkflowRoute list \<Rightarrow> WorkflowRoute \<Rightarrow> WorkflowRoute" where
  "routeVia routes r =
     (if \<exists>r'\<in>set routes. r_From r' = r_From r \<and> r_When r' \<noteq> [] then r else r\<lparr>r_Name := []\<rparr>)"

lemma stepState_simps [simp]:
  "sm_Choice (stepState outer cn s) = []"
  "sm_Run (stepState outer cn s) = sm_Run (taskState s)" "sm_Use (stepState outer cn s) = sm_Use (taskState s)"
  "sm_Approval (stepState outer cn s) = ws_Approval s" "sm_Timeout (stepState outer cn s) = sm_Timeout (taskState s)"
  "sm_With (stepState outer cn s) = st_With s" "sm_Matrix (stepState outer cn s) = ws_Matrix s"
  "sm_Scatter (stepState outer cn s) = ws_Scatter s" "sm_Permissions (stepState outer cn s) = st_Permissions s"
  "sm_AllowUnresolved (stepState outer cn s) = st_AllowUnresolved s"
  by (simp_all add: stepState_def taskState_def Let_def)

lemma refOf_step: "readable s \<Longrightarrow> refOf (st_Name s) (SmState (stepState outer cn s) None) [] = viaDocument s"
  by (auto simp: refOf_def viaDocument_def Let_def readable_def taskState_def)

lemma hasKind_step: "readable s \<Longrightarrow> hasKind (SmState (stepState outer cn s) None)"
  by (auto simp: hasKind_def readable_def taskState_def Let_def)

lemma choicesOf_arms:
  assumes "\<forall>e\<in>set es. br_to e \<noteq> []"
  shows "\<forall>c\<in>set (choicesOf es). armOk c"
    and "map armOf (choicesOf es) = filter (\<lambda>e. br_when e \<noteq> []) es @ filter (\<lambda>e. br_when e = []) es"
proof -
  show "\<forall>c\<in>set (choicesOf es). armOk c" using assms by (auto simp: choicesOf_def armOk_def)
  have cond: "map armOf (map (\<lambda>e. \<lparr>smc_When = br_when e, smc_Next = br_to e, smc_Default = [], smc_Name = br_name e\<rparr>)
      xs) = xs" for xs
    by (induction xs) (auto simp: armOf_def)
  have els: "map armOf (map (\<lambda>e. \<lparr>smc_When = [], smc_Next = [], smc_Default = br_to e, smc_Name = br_name e\<rparr>)
      xs) = xs" if "\<forall>e\<in>set xs. br_to e \<noteq> [] \<and> br_when e = []" for xs
    using that by (induction xs) (auto simp: armOf_def)
  show "map armOf (choicesOf es) = filter (\<lambda>e. br_when e \<noteq> []) es @ filter (\<lambda>e. br_when e = []) es"
    unfolding choicesOf_def map_append cond using assms by (subst els) auto
qed

text \<open>The document of the pipeline, with \<open>cn\<close> the names of its choice states.\<close>

definition flatDoc ::
  "iterOrder \<Rightarrow> WorkflowStep list \<Rightarrow> WorkflowRoute list \<Rightarrow> (string \<Rightarrow> string) \<Rightarrow> stateTable \<Rightarrow> bool" where
  "flatDoc ord steps routes cn states \<longleftrightarrow>
     permuting ord \<and> steps \<noteq> [] \<and> distinct (names_of steps)
     \<and> (\<forall>s\<in>set steps. \<not> blank (st_Name s) \<and> readable s)
     \<and> (\<forall>r\<in>set routes. r_From r \<in> set (names_of steps) \<and> r_To r \<in> set (names_of steps))
     \<and> states = concat (map (stepStates (edgesFrom routes) cn) steps) \<and> distinct (map fst states)
     \<and> (\<forall>s\<in>set steps. branching (edgesFrom routes (st_Name s)) \<longrightarrow> \<not> blank (cn (st_Name s)))"

abbreviation choiceStateOf :: "WorkflowRoute list \<Rightarrow> string \<Rightarrow> smState" where
  "choiceStateOf routes n \<equiv> SmState (choiceFields (choicesOf (edgesFrom routes n))) None"

abbreviation taskStateOf :: "WorkflowRoute list \<Rightarrow> (string \<Rightarrow> string) \<Rightarrow> WorkflowStep \<Rightarrow> smState" where
  "taskStateOf routes cn s \<equiv> SmState (stepState (edgesFrom routes) cn s) None"

lemma blank_Nil: "blank []"
  using TrimSpace_plain[of "[]"] by (simp add: blank_def)

lemma choiceKind_choice: "branching (edgesFrom routes n) \<Longrightarrow> choiceKind (choiceStateOf routes n)"
  by (auto simp: choiceKind_def choiceFields_def choicesOf_def branching_def filter_empty_conv)

lemma pureChoice_choice: "pureChoice (choiceStateOf routes n)"
  by (simp add: pureChoice_def choiceFields_def)

lemma choiceKind_task: "\<not> choiceKind (taskStateOf routes cn s)"
  by (simp add: choiceKind_def)

lemma flat_entries:
  assumes "flatDoc ord steps routes cn states"
  shows "kv \<in> set states \<longleftrightarrow>
    (\<exists>s\<in>set steps. branching (edgesFrom routes (st_Name s)) \<and> kv = (cn (st_Name s), Some (choiceStateOf routes (st_Name s)))
                  \<or> kv = (st_Name s, Some (taskStateOf routes cn s)))"
  using assms unfolding flatDoc_def by (auto simp: stepStates_def Let_def split: if_splits)

lemma flat_target:
  "flatDoc ord steps routes cn states \<Longrightarrow> e \<in> set (edgesFrom routes n) \<Longrightarrow> br_to e \<in> set (names_of steps)"
  by (auto simp: edgesFrom_def flatDoc_def)

lemma flat_targets_nonempty:
  "flatDoc ord steps routes cn states \<Longrightarrow> \<forall>e\<in>set (edgesFrom routes n). br_to e \<noteq> []"
  using flat_target[of ord steps routes cn states _ n] blank_Nil unfolding flatDoc_def by fastforce

lemma flat_range:
  "flatDoc ord steps routes cn states \<Longrightarrow> set (rangeMap ord site [] states) = set states"
  "flatDoc ord steps routes cn states \<Longrightarrow> mset (rangeMap ord site [] states) = mset states"
  unfolding flatDoc_def by (elim conjE, rule rangeMap_set, assumption+, elim conjE, rule rangeMap_mset, assumption+)

lemma flat_no_maps:
  assumes "flatDoc ord steps routes cn states"
  shows "docMap ord states f = []" and "concat (map (mapNames ord) (rangeMap ord 1 [] states)) = []"
    and "\<forall>kv\<in>set states. mapOkay ord kv"
proof -
  have none: "mapStates kv = None" "mapOkay ord kv" if "kv \<in> set states" for kv
    using that by (auto simp: flat_entries[OF assms] mapStates_def mapOkay_def)
  then show "docMap ord states f = []"
    using flat_range(1)[OF assms] by (auto simp: docMap_def perMap_def)
  show "\<forall>kv\<in>set states. mapOkay ord kv" using none by blast
  have "mapNames ord kv = []" if "kv \<in> set states" for kv
    using none(1)[OF that] by (simp add: mapNames_def perMap_def)
  then show "concat (map (mapNames ord) (rangeMap ord 1 [] states)) = []"
    using flat_range(1)[OF assms] by auto
qed

lemma flat_okay:
  assumes "flatDoc ord steps routes cn states" "kv \<in> set states"
  shows "choiceOkay kv" "stepOkay notTask kv"
proof -
  note arms = choicesOf_arms(1)[OF flat_targets_nonempty[OF assms(1)]]
  from assms(2) show "choiceOkay kv"
    unfolding flat_entries[OF assms(1)] choiceOkay_def using arms pureChoice_choice choiceKind_task assms(1)
    by (auto simp: choiceFields_def flatDoc_def)
  from assms(2) show "stepOkay notTask kv"
    unfolding flat_entries[OF assms(1)] stepOkay_def notTask_def
    using choiceKind_choice choiceKind_task hasKind_step assms(1) by (auto simp: flatDoc_def)
qed

text \<open>A state contributes its name once, as a choice or as a step.\<close>

lemma flat_one_name:
  assumes "flatDoc ord steps routes cn states" "kv \<in> set states"
  shows "mset (map fst (choiceEntry kv)) + mset (ref_names (stepEntry notTask [] kv)) = {#fst kv#}"
  using assms(2) unfolding flat_entries[OF assms(1)] choiceEntry_def stepEntry_def notTask_def
  using choiceKind_choice choiceKind_task by auto

lemma flat_names:
  assumes "flatDoc ord steps routes cn states"
  shows "mset (docNames ord states) = mset (map fst states)"
proof -
  have "mset (map fst (docArms ord states)) = mset (concat (map (\<lambda>kv. map fst (choiceEntry kv)) states))"
    unfolding docArms_def map_concat map_map comp_def
    by (rule mset_concat_map[OF flat_range(2)[OF assms] refl])
  moreover have "mset (ref_names (docTasks ord states)) = mset (concat (map (\<lambda>kv. ref_names (stepEntry notTask [] kv)) states))"
    unfolding docTasks_def map_concat map_map comp_def
    by (rule mset_concat_map[OF flat_range(2)[OF assms] refl])
  moreover have "mset (concat (map (\<lambda>kv. map fst (choiceEntry kv)) xs))
      + mset (concat (map (\<lambda>kv. ref_names (stepEntry notTask [] kv)) xs)) = mset (map fst xs)"
    if "set xs \<subseteq> set states" for xs
    using that
  proof (induction xs)
    case (Cons x xs)
    have "mset (concat (map (\<lambda>kv. map fst (choiceEntry kv)) (x # xs)))
        + mset (concat (map (\<lambda>kv. ref_names (stepEntry notTask [] kv)) (x # xs)))
      = (mset (map fst (choiceEntry x)) + mset (ref_names (stepEntry notTask [] x)))
        + (mset (concat (map (\<lambda>kv. map fst (choiceEntry kv)) xs))
            + mset (concat (map (\<lambda>kv. ref_names (stepEntry notTask [] kv)) xs)))"
      by (simp only: list.map concat.simps mset_append ac_simps)
    also have "\<dots> = {#fst x#} + mset (map fst xs)"
      using Cons flat_one_name[OF assms, of x] by simp
    finally show ?case by simp
  qed simp
  ultimately show ?thesis unfolding docNames_def flat_no_maps(2)[OF assms] by simp
qed

text \<open>The targets of the document: every choice has its arms, every step is a node.\<close>

definition armsFrom :: "WorkflowRoute list \<Rightarrow> string \<Rightarrow> smBranch list" where
  "armsFrom routes n =
     filter (\<lambda>e. br_when e \<noteq> []) (edgesFrom routes n) @ filter (\<lambda>e. br_when e = []) (edgesFrom routes n)"

lemma flat_arms:
  assumes "flatDoc ord steps routes cn states"
  shows "set (docArms ord states) =
     {(cn (st_Name s), armsFrom routes (st_Name s)) | s. s \<in> set steps \<and> branching (edgesFrom routes (st_Name s))}"
    (is "_ = ?R")
proof -
  have "set (docArms ord states) = (\<Union>kv\<in>set states. set (choiceEntry kv))"
    by (simp add: docArms_def flat_range(1)[OF assms])
  also have "\<dots> = ?R"
  proof (intro equalityI subsetI)
    fix x assume "x \<in> (\<Union>kv\<in>set states. set (choiceEntry kv))"
    then obtain kv where kv: "kv \<in> set states" "x \<in> set (choiceEntry kv)" by blast
    from kv(1)[unfolded flat_entries[OF assms]] obtain s where s: "s \<in> set steps"
      and "branching (edgesFrom routes (st_Name s)) \<and> kv = (cn (st_Name s), Some (choiceStateOf routes (st_Name s)))
           \<or> kv = (st_Name s, Some (taskStateOf routes cn s))" by blast
    then show "x \<in> ?R"
      using kv(2) s choiceKind_choice choiceKind_task choicesOf_arms(2)[OF flat_targets_nonempty[OF assms]]
      by (auto simp: choiceEntry_def choiceFields_def armsFrom_def)
  next
    fix x assume "x \<in> ?R"
    then obtain s where s: "s \<in> set steps" "branching (edgesFrom routes (st_Name s))"
      "x = (cn (st_Name s), armsFrom routes (st_Name s))" by blast
    let ?kv = "(cn (st_Name s), Some (choiceStateOf routes (st_Name s)))"
    have "x \<in> set (choiceEntry ?kv)"
      using s(3) choiceKind_choice[OF s(2)] choicesOf_arms(2)[OF flat_targets_nonempty[OF assms]]
      by (simp add: choiceEntry_def choiceFields_def armsFrom_def)
    moreover have "?kv \<in> set states" unfolding flat_entries[OF assms] using s by blast
    ultimately show "x \<in> (\<Union>kv\<in>set states. set (choiceEntry kv))" by blast
  qed
  finally show ?thesis .
qed

lemma image_same: "(\<And>x. x \<in> A \<Longrightarrow> f x = x) \<Longrightarrow> f ` A = A"
  by force

lemma concat_map_concat: "concat (map f (concat (map g xs))) = concat (map (\<lambda>x. concat (map f (g x))) xs)"
  by (induction xs) auto

lemma flat_tasks:
  assumes "flatDoc ord steps routes cn states"
  shows "mset (docTasks ord states) = mset (map viaDocument steps)"
proof -
  have "mset (docTasks ord states) = mset (concat (map (stepEntry notTask []) states))"
    unfolding docTasks_def by (rule mset_concat_map[OF flat_range(2)[OF assms] refl])
  also have "concat (map (stepEntry notTask []) states)
      = concat (map (\<lambda>s. concat (map (stepEntry notTask []) (stepStates (edgesFrom routes) cn s))) steps)"
    using assms by (simp add: flatDoc_def concat_map_concat)
  also have "\<dots> = concat (map (\<lambda>s. [viaDocument s]) steps)"
  proof (intro arg_cong[of _ _ concat] map_cong refl)
    fix s assume "s \<in> set steps"
    then have "readable s" using assms by (simp add: flatDoc_def)
    from refOf_step[OF this] choiceKind_task[of routes cn s] choiceKind_choice[of routes "st_Name s"]
    show "concat (map (stepEntry notTask []) (stepStates (edgesFrom routes) cn s)) = [viaDocument s]"
      by (simp add: stepStates_def Let_def stepEntry_def notTask_def)
  qed
  finally show ?thesis by (simp only: concat_map_singleton)
qed

lemma flat_targets:
  assumes "flatDoc ord steps routes cn states"
  shows "tg_regions (docTargets ord states) = []"
    and "set (tg_stepNodes (docTargets ord states)) = set (names_of steps)"
    and "s \<in> set steps \<Longrightarrow> branching (edgesFrom routes (st_Name s))
          \<Longrightarrow> map_of (tg_choices (docTargets ord states)) (cn (st_Name s)) = Some (armsFrom routes (st_Name s))"
    and "n \<in> set (names_of steps) \<Longrightarrow> map_of (tg_choices (docTargets ord states)) n = None"
proof -
  show "tg_regions (docTargets ord states) = []" by (simp add: docTargets_def flat_no_maps(1)[OF assms])
  have "mset (ref_names (docTasks ord states)) = mset (ref_names (map viaDocument steps))"
    using flat_tasks[OF assms] by (simp only: mset_map)
  also have "ref_names (map viaDocument steps) = names_of steps" by (simp add: viaDocument_def Let_def)
  finally have "mset (ref_names (docTasks ord states)) = mset (names_of steps)" .
  then have tasks: "set (ref_names (docTasks ord states)) = set (names_of steps)" by (rule mset_eq_setD)
  then show "set (tg_stepNodes (docTargets ord states)) = set (names_of steps)" by (simp add: docTargets_def)
  have "distinct (map fst states)" using assms unfolding flatDoc_def by blast
  with flat_names[OF assms] have dist: "distinct (docNames ord states)" by (metis mset_eq_imp_distinct_iff)
  then have arms: "distinct (map fst (docArms ord states))"
    and disj: "set (map fst (docArms ord states)) \<inter> set (names_of steps) = {}"
    unfolding docNames_def flat_no_maps(2)[OF assms] tasks[symmetric] by auto
  show "map_of (tg_choices (docTargets ord states)) (cn (st_Name s)) = Some (armsFrom routes (st_Name s))"
    if "s \<in> set steps" "branching (edgesFrom routes (st_Name s))"
    using that arms by (simp add: docTargets_def flat_arms[OF assms]) blast
  show "map_of (tg_choices (docTargets ord states)) n = None" if "n \<in> set (names_of steps)"
  proof -
    have "n \<notin> set (map fst (docArms ord states))" using that disj by blast
    then show ?thesis by (simp add: docTargets_def map_of_eq_None_iff)
  qed
qed

text \<open>The routes of one step, as the document gives them.\<close>

lemma branching_iff: "branching (edgesFrom routes n) \<longleftrightarrow> (\<exists>r\<in>set routes. r_From r = n \<and> r_When r \<noteq> [])"
  by (auto simp: branching_def edgesFrom_def)

lemma flat_step_routes:
  assumes D: "flatDoc ord steps routes cn states" and s: "s \<in> set steps"
  shows "set (routeList (docTargets ord states) (st_Name s, Some (taskStateOf routes cn s)))
      = routeVia routes ` {r \<in> set routes. r_From r = st_Name s}"
    and "routeOk (docTargets ord states) (st_Name s, Some (taskStateOf routes cn s))"
    and "branching (edgesFrom routes (st_Name s)) \<Longrightarrow>
      cn (st_Name s) \<in> (\<Union>t\<in>set (nextOf (st_Name s, Some (taskStateOf routes cn s))). reachedBy (docTargets ord states) t)"
proof -
  let ?T = "docTargets ord states" and ?n = "st_Name s" and ?es = "edgesFrom routes (st_Name s)"
  note T = flat_targets[OF D]
  have res: "resolvable ?T m" "resolvedTo ?T m = [m]" if "m \<in> set (names_of steps)" for m
    using that T(1,2) by (simp_all add: resolvable_def resolvedTo_def)
  have targets: "e \<in> set ?es \<Longrightarrow> br_to e \<in> set (names_of steps)" for e using flat_target[OF D] by blast
  have src: "sourcesOf ?T ?n = [?n]" by (simp add: sourcesOf_def T(1))
  have nexts: "nextOf (?n, Some (taskStateOf routes cn s)) = sm_Next (stepState (edgesFrom routes) cn s)"
    using choiceKind_task by (simp add: nextOf_def)
  have split: "(if P then a else b) \<longleftrightarrow> (P \<and> a \<or> \<not> P \<and> b)" for P a b by simp
  have "set (routeList ?T (?n, Some (taskStateOf routes cn s)))
        = routeVia routes ` {r \<in> set routes. r_From r = ?n}
      \<and> routeOk ?T (?n, Some (taskStateOf routes cn s))
      \<and> (branching ?es \<longrightarrow> cn ?n \<in> (\<Union>t\<in>set (nextOf (?n, Some (taskStateOf routes cn s))). reachedBy ?T t))"
  proof (cases "branching ?es")
    case True
    then have next1: "sm_Next (stepState (edgesFrom routes) cn s) = [cn ?n]" "\<not> sm_End (stepState (edgesFrom routes) cn s)"
      by (auto simp: stepState_def Let_def branching_def taskState_def)
    note arms = T(3)[OF s True]
    have arm_to: "\<forall>a\<in>set (armsFrom routes ?n). br_to a \<in> set (names_of steps)"
      using targets by (auto simp: armsFrom_def)
    have "set (targetList ?T [?n] (cn ?n))
        = (\<lambda>a. \<lparr>r_From = ?n, r_To = br_to a, r_When = br_when a, r_Name = br_name a\<rparr>) ` set (armsFrom routes ?n)"
      using arm_to res(2) by (auto simp: targetList_def arms productList_def)
    also have "set (armsFrom routes ?n) = set ?es" by (auto simp: armsFrom_def)
    also have "(\<lambda>a. \<lparr>r_From = ?n, r_To = br_to a, r_When = br_when a, r_Name = br_name a\<rparr>) ` set ?es
        = (\<lambda>r. \<lparr>r_From = ?n, r_To = r_To r, r_When = r_When r, r_Name = r_Name r\<rparr>) ` {r \<in> set routes. r_From r = ?n}"
      by (simp add: edgesFrom_def image_image)
    also have "\<dots> = {r \<in> set routes. r_From r = ?n}"
    proof -
      have "\<lparr>r_From = ?n, r_To = r_To r, r_When = r_When r, r_Name = r_Name r\<rparr> = r" if "r_From r = ?n" for r :: WorkflowRoute
        using that by (cases r) simp
      then show ?thesis by (intro image_same) blast
    qed
    also have "\<dots> = routeVia routes ` {r \<in> set routes. r_From r = ?n}"
      using True[unfolded branching_iff] by (force simp: routeVia_def image_iff)
    finally have "set (routeList ?T (?n, Some (taskStateOf routes cn s))) = routeVia routes ` {r \<in> set routes. r_From r = ?n}"
      by (simp add: routeList_def nexts next1 src)
    moreover have "routeOk ?T (?n, Some (taskStateOf routes cn s))"
      using arm_to res(1) by (simp add: routeOk_def nextOk_def next1 targetOk_def arms)
    ultimately show ?thesis by (simp add: nexts next1 reachedBy_def arms)
  next
    case False
    then have next2: "set (sm_Next (stepState (edgesFrom routes) cn s)) = br_to ` set ?es"
      "sm_End (stepState (edgesFrom routes) cn s) \<longrightarrow> sm_Next (stepState (edgesFrom routes) cn s) = []"
      by (auto simp: stepState_def Let_def taskState_def)
    have tl: "targetList ?T [?n] t = [\<lparr>r_From = ?n, r_To = t, r_When = [], r_Name = []\<rparr>]" "targetOk ?T t"
      if "t \<in> br_to ` set ?es" for t
      using that targets T(4) res by (auto simp: targetList_def targetOk_def productList_def)
    have "set (routeList ?T (?n, Some (taskStateOf routes cn s)))
        = (\<lambda>t. \<lparr>r_From = ?n, r_To = t, r_When = [], r_Name = []\<rparr>) ` br_to ` set ?es"
      using tl(1) by (auto simp: routeList_def nexts next2 src)
    also have "\<dots> = routeVia routes ` {r \<in> set routes. r_From r = ?n}"
    proof -
      have "routeVia routes r = \<lparr>r_From = ?n, r_To = r_To r, r_When = [], r_Name = []\<rparr>"
        if "r \<in> set routes" "r_From r = ?n" for r
        using False[unfolded branching_iff] that by (auto simp: routeVia_def)
      then have "routeVia routes ` {r \<in> set routes. r_From r = ?n}
          = (\<lambda>r. \<lparr>r_From = ?n, r_To = r_To r, r_When = [], r_Name = []\<rparr>) ` {r \<in> set routes. r_From r = ?n}"
        by (intro image_cong refl) simp
      then show ?thesis by (auto simp: edgesFrom_def image_image)
    qed
    finally show ?thesis
      using False tl(2) next2 by (simp add: routeOk_def nextOk_def)
  qed
  then show "set (routeList ?T (?n, Some (taskStateOf routes cn s))) = routeVia routes ` {r \<in> set routes. r_From r = ?n}"
    "routeOk ?T (?n, Some (taskStateOf routes cn s))"
    "branching ?es \<Longrightarrow> cn ?n \<in> (\<Union>t\<in>set (nextOf (?n, Some (taskStateOf routes cn s))). reachedBy ?T t)"
    by blast+
qed

lemma flat_result:
  assumes D: "flatDoc ord steps routes cn states" and d: "sd_States d = states"
  shows "\<exists>refs routes'. smToModel ord (Some d) = Inr (refs, routes', [])
     \<and> mset refs = mset (map viaDocument steps)
     \<and> set routes' = routeVia routes ` set routes \<and> distinct routes'"
proof -
  note T = flat_targets[OF D]
  have perm: "permuting ord" and steps: "steps \<noteq> []" and keys: "distinct (map fst states)"
    and ends: "\<forall>r\<in>set routes. r_From r \<in> set (names_of steps)"
    using D unfolding flatDoc_def by blast+
  note step_of = flat_entries[OF D, THEN iffD2]
  have choice_routes: "routeList (docTargets ord states) (cn (st_Name s), Some (choiceStateOf routes (st_Name s))) = []"
    "routeOk (docTargets ord states) (cn (st_Name s), Some (choiceStateOf routes (st_Name s)))"
    if "branching (edgesFrom routes (st_Name s))" for s :: WorkflowStep
    using choiceKind_choice[OF that] by (simp_all add: routeList_def nextOf_def routeOk_def)
  have "set (docRoutes ord states) = (\<Union>kv\<in>set states. set (routeList (docTargets ord states) kv))"
    by (simp add: docRoutes_def flat_no_maps(1)[OF D] flat_range(1)[OF D])
  also have "\<dots> = (\<Union>s\<in>set steps. routeVia routes ` {r \<in> set routes. r_From r = st_Name s})"
  proof (intro equalityI subsetI)
    fix x assume "x \<in> (\<Union>kv\<in>set states. set (routeList (docTargets ord states) kv))"
    then obtain kv where kv: "kv \<in> set states" "x \<in> set (routeList (docTargets ord states) kv)" by blast
    from kv(1)[unfolded flat_entries[OF D]] obtain s where s: "s \<in> set steps"
      "branching (edgesFrom routes (st_Name s)) \<and> kv = (cn (st_Name s), Some (choiceStateOf routes (st_Name s)))
       \<or> kv = (st_Name s, Some (taskStateOf routes cn s))" by blast
    with kv(2) choice_routes(1) have "kv = (st_Name s, Some (taskStateOf routes cn s))" by auto
    with kv(2) flat_step_routes(1)[OF D s(1)] s(1)
    show "x \<in> (\<Union>s\<in>set steps. routeVia routes ` {r \<in> set routes. r_From r = st_Name s})" by blast
  next
    fix x assume "x \<in> (\<Union>s\<in>set steps. routeVia routes ` {r \<in> set routes. r_From r = st_Name s})"
    then obtain s where s: "s \<in> set steps" "x \<in> routeVia routes ` {r \<in> set routes. r_From r = st_Name s}" by blast
    then have "(st_Name s, Some (taskStateOf routes cn s)) \<in> set states" by (intro step_of) blast
    with s flat_step_routes(1)[OF D s(1)]
    show "x \<in> (\<Union>kv\<in>set states. set (routeList (docTargets ord states) kv))" by blast
  qed
  also have "\<dots> = routeVia routes ` (\<Union>s\<in>set steps. {r \<in> set routes. r_From r = st_Name s})" by (rule image_UN[symmetric])
  also have "(\<Union>s\<in>set steps. {r \<in> set routes. r_From r = st_Name s}) = set routes" using ends by fastforce
  finally have routes: "set (docRoutes ord states) = routeVia routes ` set routes" .
  have dist: "distinct (docNames ord states)" using keys flat_names[OF D] by (metis mset_eq_imp_distinct_iff)
  have ok: "routeOk (docTargets ord states) kv" if "kv \<in> set states" for kv
    using that[unfolded flat_entries[OF D]] choice_routes(2) flat_step_routes(2)[OF D] by blast
  have "set (ord 8 [] (map fst (docArms ord states))) \<subseteq> docReached ord states"
  proof
    fix c assume "c \<in> set (ord 8 [] (map fst (docArms ord states)))"
    then have "c \<in> fst ` set (docArms ord states)" by (simp add: permuting_set[OF perm])
    then obtain s where s: "s \<in> set steps" "branching (edgesFrom routes (st_Name s))" "c = cn (st_Name s)"
      by (auto simp: flat_arms[OF D])
    then have "(st_Name s, Some (taskStateOf routes cn s)) \<in> set states" by (intro step_of) blast
    with flat_step_routes(3)[OF D s(1,2)] s(3) show "c \<in> docReached ord states"
      unfolding docReached_def flat_range(1)[OF D] by blast
  qed
  then have "docOkay ord states"
    using steps D dist ok flat_okay[OF D] flat_no_maps(3)[OF D]
    unfolding docOkay_def flat_range(1)[OF D]
    by (auto simp: flatDoc_def stepStates_def Let_def neq_Nil_conv)
  then have run: "smToModel ord (Some d)
      = Inr (orderSteps (docSteps ord states) (docRoutes ord states), docRoutes ord states, [])"
    by (simp add: smToModel_Inr d flat_no_maps(1)[OF D])
  have members: "docSteps ord states = docTasks ord states" by (simp add: docSteps_def flat_no_maps(1)[OF D])
  have "distinct (ref_names (docTasks ord states))" using dist unfolding docNames_def by simp
  then have "mset (orderSteps (docSteps ord states) (docRoutes ord states)) = mset (map viaDocument steps)"
    using flat_tasks[OF D] by (simp only: members orderSteps_mset)
  moreover have "distinct (docRoutes ord states)"
    by (simp add: docRoutes_def flat_no_maps(1)[OF D] distinct_addRoute)
  ultimately show ?thesis using run routes by blast
qed

definition flatModel :: "WorkflowStep list \<Rightarrow> WorkflowRoute list \<Rightarrow> bool" where
  "flatModel steps routes \<longleftrightarrow> steps \<noteq> [] \<and> distinct (names_of steps)
     \<and> (\<forall>s\<in>set steps. ws_MapID s = [] \<and> \<not> blank (st_Name s) \<and> readable s)
     \<and> (\<forall>r\<in>set routes. r_From r \<in> set (names_of steps) \<and> r_To r \<in> set (names_of steps))"

lemma round_trip:
  assumes "permuting ord" "flatModel steps routes"
  shows "\<exists>refs routes'.
     smToModel ord (Some (modelToSM name description steps routes [] inputs outputs)) = Inr (refs, routes', [])
     \<and> mset refs = mset (map viaDocument steps)
     \<and> set routes' = routeVia routes ` set routes \<and> distinct routes'"
proof -
  have steps: "distinct (names_of steps)" "\<forall>s\<in>set steps. ws_MapID s = []"
    using assms(2) by (auto simp: flatModel_def)
  obtain cn used' where placed: "fold (placeStep (edgesFrom routes) (\<lambda>_. [])) steps ([], names_of steps)
        = (concat (map (stepStates (edgesFrom routes) cn) steps), used')"
    and keys: "distinct (map fst (concat (map (stepStates (edgesFrom routes) cn) steps)))"
    and cn: "\<forall>s\<in>set steps. branching (edgesFrom routes (st_Name s)) \<longrightarrow> \<not> blank (cn (st_Name s))"
    using placeSteps_flat[of steps "names_of steps" "[]" "edgesFrom routes" "\<lambda>_. []"] steps by auto
  let ?states = "concat (map (stepStates (edgesFrom routes) cn) steps)"
  have "sd_States (modelToSM name description steps routes [] inputs outputs) = ?states"
    by (simp add: modelToSM_def partition_flat[OF steps(2)] placed)
  moreover have "flatDoc ord steps routes cn ?states"
    using assms keys cn by (simp add: flatDoc_def flatModel_def del: map_concat)
  ultimately show ?thesis by (rule flat_result[rotated])
qed

end
