(* ===== verification/Wf_StateTheorems.thy ===== *)
theory Wf_StateTheorems
  imports Wf_StateRoundTrip
begin

text \<open>
  What the conversions of state-machine documents promise: reading does not depend on the order in
  which Go visits its maps, rendering a pipeline and reading it back keeps its steps and routes up to
  stated losses, and where the code loses more than its comments say.
\<close>

section \<open>Reading does not depend on the iteration order\<close>

text \<open>A Go map holds every key once, that of the document and those of its regions.\<close>

definition wfStates :: "stateTable \<Rightarrow> bool" where
  "wfStates states \<longleftrightarrow> distinct (map fst states)
     \<and> (\<forall>kv\<in>set states. case mapStates kv of None \<Rightarrow> True | Some (m, sub) \<Rightarrow> distinct (map fst sub))"

lemma map_of_mset:
  assumes "distinct (map fst xs)" "mset xs = mset ys"
  shows "map_of xs = map_of ys"
proof -
  have "mset (map fst xs) = mset (map fst ys)" using assms(2) by (simp only: mset_map)
  from mset_eq_imp_distinct_iff[OF this] assms(1) have "distinct (map fst ys)" by blast
  from map_of_inject_set[OF assms(1) this] mset_eq_setD[OF assms(2)] show ?thesis by blast
qed

subsection \<open>One region\<close>

lemma region_congs:
  assumes "map_of arms = map_of arms'"
  shows "subStepEntry arms c = subStepEntry arms' c" "subStepOkay arms = subStepOkay arms'"
    "subRouteList arms = subRouteList arms'" "subExit arms = subExit arms'"
    "set names = set names' \<Longrightarrow> subRouteOk arms names = subRouteOk arms' names'"
proof -
  have "subTargetList arms = subTargetList arms'"
    by (intro ext) (simp add: subTargetList_def assms)
  note eq = assms this
  show "subStepEntry arms c = subStepEntry arms' c" by (intro ext) (simp add: subStepEntry_def eq)
  show "subStepOkay arms = subStepOkay arms'" by (intro ext) (simp add: subStepOkay_def eq)
  show "subRouteList arms = subRouteList arms'" by (intro ext) (simp only: subRouteList_def eq)
  show "subExit arms = subExit arms'" by (intro ext) (simp only: subExit_def eq)
  show "subRouteOk arms names = subRouteOk arms' names'" if "set names = set names'"
    by (intro ext) (simp only: subRouteOk_def subTargetOk_def eq that)
qed

lemma sort_mset: "mset xs = mset ys \<Longrightarrow> sort xs = (sort ys :: 'a :: linorder list)"
  by (metis mset_sort properties_for_sort sorted_sort)

lemma region_independent:
  assumes ord: "permuting ord" "permuting ord'" and keys: "distinct (map fst sub)"
    and names: "distinct (regionNames ord n sub)"
  shows "mset (subSteps ord' n sub) = mset (subSteps ord n sub)"
    and "mset (subRoutes ord' n sub) = mset (subRoutes ord n sub)"
    and "subRegion ord' n sub = subRegion ord n sub"
    and "regionOkay ord' n sub = regionOkay ord n sub"
    and "mset (regionNames ord' n sub) = mset (regionNames ord n sub)"
proof -
  note range = rangeMap_mset[OF ord(1) keys] rangeMap_mset[OF ord(2) keys]
  note ranges = rangeMap_set[OF ord(1) keys] rangeMap_set[OF ord(2) keys]
  have arms: "mset (subArms ord' n sub) = mset (subArms ord n sub)"
    unfolding subArms_def by (rule mset_concat_map) (simp_all add: range)
  have "distinct (map fst (subArms ord n sub))" using names by (simp add: regionNames_def)
  then have same: "map_of (subArms ord' n sub) = map_of (subArms ord n sub)"
    using map_of_mset arms by metis
  note congs = region_congs[OF same]
  show steps: "mset (subSteps ord' n sub) = mset (subSteps ord n sub)"
    unfolding subSteps_def congs by (rule mset_concat_map) (simp_all add: range)
  show routes: "mset (subRoutes ord' n sub) = mset (subRoutes ord n sub)"
    unfolding subRoutes_def congs by (rule mset_concat_map) (simp_all add: range)
  have refs: "mset (ref_names (subSteps ord' n sub)) = mset (ref_names (subSteps ord n sub))"
    by (simp only: mset_map steps)
  have "mset (ord' 5 n (ref_names (subSteps ord' n sub))) = mset (ord 5 n (ref_names (subSteps ord n sub)))"
    using ord refs unfolding permuting_def by simp
  then have entries: "mset (filter P (ord' 5 n (ref_names (subSteps ord' n sub))))
      = mset (filter P (ord 5 n (ref_names (subSteps ord n sub))))" for P
    by (simp only: mset_filter)
  have exits: "mset (concat (map (subExit (subArms ord n sub)) (rangeMap ord' 4 n sub)))
      = mset (concat (map (subExit (subArms ord n sub)) (rangeMap ord 4 n sub)))"
    by (rule mset_concat_map) (simp_all add: range)
  show "subRegion ord' n sub = subRegion ord n sub"
    unfolding subRegion_def congs mset_eq_setD[OF routes] sort_mset[OF entries] sort_mset[OF exits] ..
  show "regionOkay ord' n sub = regionOkay ord n sub"
    unfolding regionOkay_def ranges congs(2) congs(5)[OF mset_eq_setD[OF refs]] ..
  show "mset (regionNames ord' n sub) = mset (regionNames ord n sub)"
    unfolding regionNames_def by (simp only: mset_append mset_map arms steps)
qed

subsection \<open>The document\<close>

text \<open>Two tables of targets that answer alike.\<close>

definition sameTargets :: "smTargets \<Rightarrow> smTargets \<Rightarrow> bool" where
  "sameTargets T T' \<longleftrightarrow> map_of (tg_regions T') = map_of (tg_regions T)
     \<and> map_of (tg_choices T') = map_of (tg_choices T) \<and> set (tg_stepNodes T') = set (tg_stepNodes T)"

lemma sameTargets_congs:
  assumes "sameTargets T T'"
  shows "routeOk T' = routeOk T" "routeList T' = routeList T" "reachedBy T' = reachedBy T"
proof -
  have eq: "map_of (tg_regions T') = map_of (tg_regions T)" "map_of (tg_choices T') = map_of (tg_choices T)"
    "set (tg_stepNodes T') = set (tg_stepNodes T)"
    using assms by (simp_all add: sameTargets_def)
  have res: "resolvable T' = resolvable T" "resolvedTo T' = resolvedTo T" "sourcesOf T' = sourcesOf T"
    by (intro ext, simp only: resolvable_def resolvedTo_def sourcesOf_def eq)+
  have "targetOk T' = targetOk T" "targetList T' = targetList T" "reachedBy T' = reachedBy T"
    by (intro ext, simp only: targetOk_def targetList_def reachedBy_def eq res)+
  then show "routeOk T' = routeOk T" "routeList T' = routeList T" "reachedBy T' = reachedBy T"
    by (intro ext, simp only: routeOk_def routeList_def res)+
qed

lemma keys_of_contributions:
  assumes "\<And>kv. kv \<in> set xs \<Longrightarrow> map fst (f kv) = [] \<or> map fst (f kv) = [fst kv]" "distinct (map fst xs)"
  shows "distinct (map fst (concat (map f xs))) \<and> set (map fst (concat (map f xs))) \<subseteq> set (map fst xs)"
  using assms
proof (induction xs)
  case (Cons x xs)
  then have IH: "distinct (map fst (concat (map f xs)))" "set (map fst (concat (map f xs))) \<subseteq> set (map fst xs)"
    by simp_all
  have "map fst (concat (map f (x # xs))) = map fst (f x) @ map fst (concat (map f xs))" by simp
  moreover have "map fst (f x) = [] \<or> map fst (f x) = [fst x]" using Cons.prems(1) by simp
  moreover have "fst x \<notin> set (map fst xs)" using Cons.prems(2) by simp
  ultimately show ?case using IH by (elim disjE; simp only: append_Nil append_Cons distinct.simps list.set) auto
qed simp

text \<open>The names of the steps are among the names claimed.\<close>

lemma subseq_concat:
  "(\<And>x. x \<in> set xs \<Longrightarrow> subseq (g x) (h x)) \<Longrightarrow> subseq (concat (map g xs)) (concat (map h xs))"
  by (induction xs) (auto intro: list_emb_append_mono)

lemma subseq_distinct: "subseq xs ys \<Longrightarrow> distinct ys \<Longrightarrow> distinct xs"
  by (auto simp: subseq_conv_nths distinct_nthsI)

lemma steps_claimed: "subseq (ref_names (docSteps ord states)) (docNames ord states)"
proof -
  have "subseq (ref_names (perMap (\<lambda>n m sub. subSteps ord n sub) kv)) (mapNames ord kv)" for kv
    by (auto simp: perMap_def mapNames_def regionNames_def split: option.split)
  then have "subseq (ref_names (docMap ord states (\<lambda>n m sub. subSteps ord n sub)))
      (concat (map (mapNames ord) (rangeMap ord 1 [] states)))"
    unfolding docMap_def map_concat map_map comp_def by (intro subseq_concat)
  then have "subseq (ref_names (docSteps ord states))
      (concat (map (mapNames ord) (rangeMap ord 1 [] states)) @ ref_names (docTasks ord states))"
    unfolding docSteps_def map_append by (intro list_emb_append_mono) simp_all
  then show ?thesis unfolding docNames_def by (rule list_emb_append2)
qed

lemma mset_addRoute: "mset (fold addRoute rs routes) = mset routes + mset_set (set rs - set routes)"
proof (induction rs arbitrary: routes)
  case (Cons r rs)
  show ?case
  proof (cases "r \<in> set routes")
    case True
    then have "set (r # rs) - set routes = set rs - set routes" by auto
    with Cons True show ?thesis by (simp add: addRoute_def)
  next
    case False
    then have eq: "set (r # rs) - set routes = insert r (set rs - set (routes @ [r]))" by auto
    have "mset_set (insert r (set rs - set (routes @ [r]))) = add_mset r (mset_set (set rs - set (routes @ [r])))"
      by (rule mset_set.insert) auto
    with False show ?thesis unfolding eq using Cons[of "routes @ [r]"] by (simp add: addRoute_def)
  qed
qed simp

lemma mapNames_cases:
  "mapNames ord kv = (case mapStates kv of None \<Rightarrow> [] | Some (m, sub) \<Rightarrow> fst kv # regionNames ord (fst kv) sub)"
  by (simp add: mapNames_def perMap_def)

lemma doc_independent:
  assumes ord: "permuting ord" "permuting ord'" and wf: "wfStates states" and ok: "docOkay ord states"
  shows "docOkay ord' states" and "mset (docRoutes ord' states) = mset (docRoutes ord states)"
    and "orderSteps (docSteps ord' states) (docRoutes ord' states) = orderSteps (docSteps ord states) (docRoutes ord states)"
    and "mset (docMap ord' states (\<lambda>n m sub. [mapDefOf n m])) = mset (docMap ord states (\<lambda>n m sub. [mapDefOf n m]))"
proof -
  have keys: "distinct (map fst states)" using wf by (simp add: wfStates_def)
  note range = rangeMap_mset[OF ord(1) keys] rangeMap_mset[OF ord(2) keys]
  note ranges = rangeMap_set[OF ord(1) keys] rangeMap_set[OF ord(2) keys]
  have dist: "distinct (docNames ord states)" using ok by (simp add: docOkay_def)
  have region: "mset (subSteps ord' (fst kv) sub) = mset (subSteps ord (fst kv) sub)
      \<and> mset (subRoutes ord' (fst kv) sub) = mset (subRoutes ord (fst kv) sub)
      \<and> subRegion ord' (fst kv) sub = subRegion ord (fst kv) sub
      \<and> regionOkay ord' (fst kv) sub = regionOkay ord (fst kv) sub
      \<and> mset (regionNames ord' (fst kv) sub) = mset (regionNames ord (fst kv) sub)"
    if kv: "kv \<in> set states" "mapStates kv = Some (m, sub)" for kv m sub
  proof -
    have "distinct (map fst sub)" using wf kv unfolding wfStates_def by fastforce
    moreover have "distinct (mapNames ord kv)"
      using dist kv(1) distinct_concat_iff[of "map (mapNames ord) (rangeMap ord 1 [] states)"]
      by (auto simp: docNames_def ranges)
    then have "distinct (regionNames ord (fst kv) sub)" by (simp add: mapNames_cases kv(2))
    ultimately show ?thesis using region_independent[OF ord] by blast
  qed
  have perMap: "mset (perMap f kv) = mset (perMap g kv)"
    if "\<And>m sub. mapStates kv = Some (m, sub) \<Longrightarrow> mset (f (fst kv) m sub) = mset (g (fst kv) m sub)" for f g kv
    using that by (simp add: perMap_def split: option.split)
  have docMap: "mset (docMap ord' states f) = mset (docMap ord states g)"
    if "\<And>kv m sub. kv \<in> set states \<Longrightarrow> mapStates kv = Some (m, sub) \<Longrightarrow> mset (f (fst kv) m sub) = mset (g (fst kv) m sub)"
    for f g
    unfolding docMap_def by (rule mset_concat_map, simp only: range, rule perMap) (use that ranges in simp)
  have regions: "mset (docMap ord' states (\<lambda>n m sub. [(n, subRegion ord' n sub)]))
      = mset (docMap ord states (\<lambda>n m sub. [(n, subRegion ord n sub)]))"
    by (rule docMap) (use region in simp)
  have members: "mset (docMap ord' states (\<lambda>n m sub. subSteps ord' n sub)) = mset (docMap ord states (\<lambda>n m sub. subSteps ord n sub))"
    by (rule docMap) (use region in simp)
  have internal: "mset (docMap ord' states (\<lambda>n m sub. subRoutes ord' n sub)) = mset (docMap ord states (\<lambda>n m sub. subRoutes ord n sub))"
    by (rule docMap) (use region in simp)
  show "mset (docMap ord' states (\<lambda>n m sub. [mapDefOf n m])) = mset (docMap ord states (\<lambda>n m sub. [mapDefOf n m]))"
    by (rule docMap) simp
  have arms: "mset (docArms ord' states) = mset (docArms ord states)"
    unfolding docArms_def by (rule mset_concat_map) (simp_all add: range)
  have tasks: "mset (docTasks ord' states) = mset (docTasks ord states)"
    unfolding docTasks_def by (rule mset_concat_map) (simp_all add: range)
  have "mset (map fst (rangeMap ord 1 [] states)) = mset (map fst states)" by (simp only: mset_map range)
  from mset_eq_imp_distinct_iff[OF this] keys have "distinct (map fst (rangeMap ord 1 [] states))" by blast
  then have "distinct (map fst (docMap ord states (\<lambda>n m sub. [(n, subRegion ord n sub)])))"
    unfolding docMap_def
    by (intro keys_of_contributions[THEN conjunct1]) (auto simp: perMap_def split: option.split)
  note reg = map_of_mset[OF this regions[symmetric]]
  have "distinct (map fst (docArms ord states))" using dist by (simp add: docNames_def)
  note arm = map_of_mset[OF this arms[symmetric]]
  have refs: "mset (ref_names (docTasks ord' states)) = mset (ref_names (docTasks ord states))"
    by (simp only: mset_map tasks)
  have "sameTargets (docTargets ord states) (docTargets ord' states)"
    using reg arm mset_eq_setD[OF refs] by (simp add: sameTargets_def docTargets_def)
  note T = sameTargets_congs[OF this]
  have reached: "docReached ord' states = docReached ord states"
    by (simp add: docReached_def ranges T)
  have news: "set (concat (map (routeList (docTargets ord' states)) (rangeMap ord' 7 [] states)))
      = set (concat (map (routeList (docTargets ord states)) (rangeMap ord 7 [] states)))"
    by (simp add: ranges T)
  show routes: "mset (docRoutes ord' states) = mset (docRoutes ord states)"
    unfolding docRoutes_def mset_addRoute news mset_eq_setD[OF internal] internal ..
  have names: "mset (mapNames ord' kv) = mset (mapNames ord kv)" if "kv \<in> set states" for kv
    using region[OF that] by (auto simp: mapNames_cases split: option.split)
  have "mset (concat (map (mapNames ord') (rangeMap ord' 1 [] states)))
      = mset (concat (map (mapNames ord) (rangeMap ord 1 [] states)))"
    by (rule mset_concat_map, simp only: range, rule names) (simp only: ranges)
  moreover have "mset (map fst (docArms ord' states)) = mset (map fst (docArms ord states))"
    by (simp only: mset_map arms)
  ultimately have "mset (docNames ord' states) = mset (docNames ord states)"
    unfolding docNames_def by (simp only: mset_append refs)
  from mset_eq_imp_distinct_iff[OF this] dist have dist': "distinct (docNames ord' states)" by blast
  have maps: "mapOkay ord' kv = mapOkay ord kv" if "kv \<in> set states" for kv
  proof (cases "mapStates kv")
    case None
    then show ?thesis by (auto simp: mapOkay_def mapStates_def split: option.splits smMap.splits)
  next
    case (Some msub)
    then obtain m sub where sub: "mapStates kv = Some (m, sub)" by (cases msub) auto
    then obtain st where "snd kv = Some st" "smMapOf st = Some (SmMap m sub)"
      by (auto simp: mapStates_def split: option.splits smMap.splits)
    then show ?thesis using region[OF that sub] by (simp add: mapOkay_def)
  qed
  have choices: "set (ord' 8 [] (map fst (docArms ord' states))) = set (ord 8 [] (map fst (docArms ord states)))"
    by (simp add: permuting_set[OF ord(1)] permuting_set[OF ord(2)] mset_eq_setD[OF arms])
  show "docOkay ord' states"
    using ok dist' maps unfolding docOkay_def ranges T reached choices by blast
  have "distinct (ref_names (docSteps ord states))"
    using subseq_distinct[OF steps_claimed dist] .
  moreover have "mset (docSteps ord' states) = mset (docSteps ord states)"
    unfolding docSteps_def by (simp only: mset_append members tasks)
  ultimately show "orderSteps (docSteps ord' states) (docRoutes ord' states)
      = orderSteps (docSteps ord states) (docRoutes ord states)"
    using routes by (rule orderSteps_cong)
qed

text \<open>
  the order in which Go visits the maps of a document does not matter: under two orders the
  conversion fails both times, or gives both times the same steps in the same order, the same routes
  and the same maps, these two possibly in another order.
\<close>
theorem smToModel_order_independent:
  assumes "permuting ord" "permuting ord'" "wfStates (sd_States d)"
  shows "case smToModel ord (Some d) of
      Inl _ \<Rightarrow> \<exists>e. smToModel ord' (Some d) = Inl e
    | Inr (refs, routes, maps) \<Rightarrow>
        \<exists>routes' maps'. smToModel ord' (Some d) = Inr (refs, routes', maps')
          \<and> mset routes' = mset routes \<and> mset maps' = mset maps"
proof (cases "smToModel ord (Some d)")
  case (Inr r)
  then have ok: "docOkay ord (sd_States d)" by (simp add: smToModel_Inr)
  note same = doc_independent[OF assms ok]
  have run: "smToModel o1 (Some d) = Inr (orderSteps (docSteps o1 (sd_States d)) (docRoutes o1 (sd_States d)),
      docRoutes o1 (sd_States d), docMap o1 (sd_States d) (\<lambda>n m sub. [mapDefOf n m]))"
    if "docOkay o1 (sd_States d)" for o1
    using that by (simp add: smToModel_Inr)
  show ?thesis unfolding run[OF ok] run[OF same(1)] using same(2-4) by simp
next
  case (Inl e)
  have "\<not> docOkay ord' (sd_States d)"
  proof
    assume "docOkay ord' (sd_States d)"
    from doc_independent(1)[OF assms(2,1,3) this] Inl show False by (metis Inl_Inr_False smToModel_Inr)
  qed
  then have "\<And>r. smToModel ord' (Some d) \<noteq> Inr r" by (simp add: smToModel_Inr)
  then show ?thesis using Inl by (cases "smToModel ord' (Some d)") auto
qed

section \<open>Rendering and reading back\<close>

text \<open>
  C28: a pipeline without maps survives being rendered as a state machine and read back: the
  document is accepted, every step comes back as \<open>viaDocument\<close> says, and the routes are the same but for
  the labels of routes whose source has no conditional route, which the document has no place for.
\<close>
theorem state_machine_round_trip:
  assumes "permuting ord" "flatModel steps routes"
  shows "\<exists>refs routes'.
     smToModel ord (Some (modelToSM name description steps routes [] inputs outputs)) = Inr (refs, routes', [])
     \<and> mset refs = mset (map viaDocument steps)
     \<and> set routes' = routeVia routes ` set routes \<and> distinct routes'"
  by (rule round_trip[OF assms])

section \<open>What reading a document cannot give\<close>

text \<open>
  A document has no place for the failure tolerance and the empty case of a map, nor for loops: what
  is read from one has none, whatever the pipeline it was rendered from had.
\<close>

lemma refOf_loop: "wsr_LoopID (refOf n st i) = []"
  by (simp add: refOf_def Let_def)

lemma document_forgets:
  assumes "smToModel ord (Some d) = Inr (refs, routes, maps)"
  shows "\<forall>m\<in>set maps. md_FailureTolerance m = 0 \<and> \<not> md_AllowEmpty m"
  using assms
  by (auto simp: smToModel_Inr docMap_def perMap_def mapDefOf_def split: option.splits)

text \<open>A state that is \<open>null\<close> in the document is a nil pointer the conversion follows.\<close>

lemma null_state_panics:
  assumes "permuting ord" "distinct (map fst (sd_States d))" "(n, None) \<in> set (sd_States d)"
  shows "\<exists>e. smToModel ord (Some d) = Inl e"
proof (cases "smToModel ord (Some d)")
  case (Inr r)
  then have "\<forall>kv\<in>set (sd_States d). choiceOkay kv"
    using rangeMap_set[OF assms(1,2)] by (simp add: smToModel_Inr docOkay_def)
  with assms(3) show ?thesis by (auto simp: choiceOkay_def)
qed simp

section \<open>Examples\<close>

definition inlineStep :: "string \<Rightarrow> WorkflowStep" where
  "inlineStep n = (plain_step n)\<lparr>st_StepID := []\<rparr>"

definition labelled :: "string \<Rightarrow> string \<Rightarrow> string \<Rightarrow> string \<Rightarrow> WorkflowRoute" where
  "labelled a b w l = \<lparr>r_From = a, r_To = b, r_When = w, r_Name = l\<rparr>"

definition demoMap :: MapDef where
  "demoMap = \<lparr>md_ID = ''m'', md_Var = ''v'', md_Values = [''1'', ''2''], md_ValuesFrom = [],
     md_MaxConcurrent = 0, md_Sequential = False, md_FailureTolerance = 50, md_AllowEmpty = True,
     md_Volume = [], md_MountPath = [], md_SizeMB = 0, md_Medium = [], md_Outputs = []\<rparr>"

text \<open>A step followed by a map of one step.\<close>

definition demoDoc :: smDoc where
  "demoDoc = modelToSM ''p'' [] [inlineStep ''a'', (inlineStep ''b'')\<lparr>ws_MapID := ''m''\<rparr>]
     [plain_route ''a'' ''b''] [demoMap] [] []"

definition demoRef :: "string \<Rightarrow> string \<Rightarrow> WorkflowStepRef" where
  "demoRef n m = (plain_ref n)\<lparr>wsr_MapID := m\<rparr>"

lemma permuting_id: "permuting (\<lambda>_ _ ks. ks)" "permuting (\<lambda>_ _. rev)"
  by (simp_all add: permuting_def)

lemma demoDoc_run:
  "smToModel (\<lambda>_ _ ks. ks) (Some demoDoc)
     = Inr ([demoRef ''a'' [], demoRef ''b'' ''m''], [plain_route ''a'' ''b''],
            [demoMap\<lparr>md_FailureTolerance := 0, md_AllowEmpty := False\<rparr>])"
  by code_simp

lemma smToModel_order_independent_witness:
  "\<exists>routes maps. smToModel (\<lambda>_ _. rev) (Some demoDoc) = Inr ([demoRef ''a'' [], demoRef ''b'' ''m''], routes, maps)"
proof -
  have "wfStates (sd_States demoDoc)" by code_simp
  from smToModel_order_independent[OF permuting_id this] show ?thesis unfolding demoDoc_run by auto
qed

lemma state_machine_round_trip_witness:
  "\<exists>refs routes'.
     smToModel (\<lambda>_ _. rev) (Some (modelToSM ''p'' [] [inlineStep ''a'', inlineStep ''b'', inlineStep ''c'']
       [labelled ''a'' ''b'' ''x > 1'' ''big'', labelled ''a'' ''c'' [] ''small''] [] [] [])) = Inr (refs, routes', [])
     \<and> mset refs = {#plain_ref ''a'', plain_ref ''b'', plain_ref ''c''#}
     \<and> set routes' = {labelled ''a'' ''b'' ''x > 1'' ''big'', labelled ''a'' ''c'' [] ''small''}"
proof -
  let ?s = "[inlineStep ''a'', inlineStep ''b'', inlineStep ''c'']"
    and ?r = "[labelled ''a'' ''b'' ''x > 1'' ''big'', labelled ''a'' ''c'' [] ''small'']"
  have model: "flatModel ?s ?r" by code_simp
  have steps: "map viaDocument ?s = [plain_ref ''a'', plain_ref ''b'', plain_ref ''c'']" by code_simp
  have "map (routeVia ?r) ?r = ?r" by code_simp
  then have routes: "routeVia ?r ` set ?r = set ?r" by (simp only: set_map[symmetric])
  from state_machine_round_trip[OF permuting_id(2) model] show ?thesis
    unfolding steps routes by (simp only: mset.simps list.set) blast
qed

end
