(* ===== verification/Wf_EditTheorems.thy ===== *)
theory Wf_EditTheorems
  imports Wf_StateTheorems Wf_ApiTheorems Wf_GraphTheorems
begin

text \<open>
  Editing a pipeline through its state-machine document, as clients do: what \<open>GET\<close> answers is sent back
  with \<open>PUT\<close>.  The document, the checks of a request, the assembly of the steps and the validation of the
  graph are composed here.
\<close>

section \<open>Steps read back from a document\<close>

definition gateStep :: "ApprovalGate \<Rightarrow> string \<Rightarrow> WorkflowStep" where
  "gateStep gate n = (synthesiseApprovalStep gate)\<lparr>st_Name := n\<rparr>"

lemma gateStep_fields [simp]:
  "st_StepID (gateStep gate n) = []" "st_Name (gateStep gate n) = n" "st_Action (gateStep gate n) = ActionApproval"
  "ws_Approval (gateStep gate n) = Some gate" "ws_MapID (gateStep gate n) = []" "ws_LoopID (gateStep gate n) = []"
  by (simp_all add: gateStep_def synthesiseApprovalStep_def stepOf_def Step.defs)

lemma inlineStepOf_fields [simp]:
  "st_StepID (inlineStepOf ref) = []" "st_Name (inlineStepOf ref) = wsr_Name ref"
  "st_Action (inlineStepOf ref) = wsr_Action ref" "st_With (inlineStepOf ref) = wsr_With ref"
  "st_Timeout (inlineStepOf ref) = wsr_Timeout ref" "st_AllowUnresolved (inlineStepOf ref) = wsr_AllowUnresolved ref"
  "st_Permissions (inlineStepOf ref) = wsr_Permissions ref" "ws_Matrix (inlineStepOf ref) = wsr_Matrix ref"
  "ws_Scatter (inlineStepOf ref) = wsr_Scatter ref" "ws_Approval (inlineStepOf ref) = None"
  "ws_MapID (inlineStepOf ref) = wsr_MapID ref" "ws_LoopID (inlineStepOf ref) = wsr_LoopID ref"
  by (simp_all add: inlineStepOf_def stepOf_def Step.defs)

lemma default_gate: "synthesiseApprovalStep gate = gateStep gate ''approval''"
  by (simp add: gateStep_def synthesiseApprovalStep_def stepOf_def Step.defs)

lemma gate_renamed: "(gateStep gate n)\<lparr>st_Name := k\<rparr> = gateStep gate k"
  by (simp add: gateStep_def)

text \<open>A reference enriched without the database gives a gate or an inline step.\<close>

lemma enrich_forms:
  assumes "enrichRef Map.empty ref = Some s"
  shows "(\<exists>gate n. wsr_Approval ref = Some gate \<and> s = gateStep gate n \<and> n = (if wsr_Name ref \<noteq> [] then wsr_Name ref else ''approval''))
    \<or> (wsr_Approval ref = None \<and> wsr_StepID ref = [] \<and> wsr_Action ref \<noteq> [] \<and> s = inlineStepOf ref)"
proof (cases "wsr_Approval ref")
  case None
  then show ?thesis using assms by (auto simp: enrichRef_def split: if_splits)
next
  case (Some gate)
  then show ?thesis using assms
    by (auto simp: enrichRef_def Let_def default_gate gate_renamed split: if_splits)
qed

lemma via_gate: "n \<noteq> [] \<Longrightarrow> enrichRef m (viaDocument (gateStep gate n)) = Some (gateStep gate n)"
  by (simp add: enrichRef_def viaDocument_def Let_def gateStep_def[symmetric])

lemma via_inline:
  assumes "wsr_Action ref \<noteq> []" "wsr_MapID ref = []" "wsr_LoopID ref = []"
  shows "enrichRef m (viaDocument (inlineStepOf ref)) = Some (inlineStepOf ref)"
proof -
  have "inlineStepOf (viaDocument (inlineStepOf ref)) = inlineStepOf ref"
    using assms(2,3) by (simp add: inlineStepOf_def[of "viaDocument _"] viaDocument_def Let_def)
      (simp add: inlineStepOf_def)
  moreover have "wsr_Approval (viaDocument (inlineStepOf ref)) = None" "wsr_StepID (viaDocument (inlineStepOf ref)) = []"
    "wsr_Action (viaDocument (inlineStepOf ref)) = wsr_Action ref"
    by (simp_all add: viaDocument_def)
  ultimately show ?thesis using assms(1) by (simp add: enrichRef_def)
qed

lemma enrich_via:
  assumes "enrichRef Map.empty ref = Some s" "wsr_MapID ref = []" "wsr_LoopID ref = []"
  shows "enrichRef m (viaDocument s) = Some s"
    and "wsr_Approval (viaDocument s) \<noteq> None \<or> wsr_StepID (viaDocument s) = []"
    and "ws_MapID s = [] \<and> ws_LoopID s = []" and "readable s"
  using enrich_forms[OF assms(1)] via_gate via_inline assms(2,3)
  by (auto simp: viaDocument_def Let_def readable_def ActionApproval_def)

lemma map_filter_total: "(\<And>x. x \<in> set xs \<Longrightarrow> f x = Some (g x)) \<Longrightarrow> List.map_filter f xs = map g xs"
  by (induction xs) (simp_all add: map_filter_simps)

lemma enrich_document:
  assumes "mset refs = mset (map viaDocument steps)"
    and "\<And>s m. s \<in> set steps \<Longrightarrow> enrichRef m (viaDocument s) = Some s"
    and "\<And>s. s \<in> set steps \<Longrightarrow> wsr_Approval (viaDocument s) \<noteq> None \<or> wsr_StepID (viaDocument s) = []"
  shows "\<exists>steps'. (\<forall>db. enrichRefs db refs = Inr steps') \<and> mset steps' = mset steps"
proof -
  let ?g = "\<lambda>ref. the (enrichRef Map.empty ref)"
  have refs: "set refs = viaDocument ` set steps" using mset_eq_setD[OF assms(1)] by simp
  then have "enrichRef m ref = Some (?g ref)" if "ref \<in> set refs" for ref m using assms(2) that by auto
  then have "List.map_filter (enrichRef m) refs = map ?g refs" for m by (rule map_filter_total)
  moreover have "storedIDs refs = []" using refs assms(3) by (fastforce simp: storedIDs_def filter_empty_conv)
  ultimately have "\<forall>db. enrichRefs db refs = Inr (map ?g refs)"
    by (simp add: enrichRefs_def enrichStepRefs_def Let_def)
  moreover have "mset (map ?g refs) = image_mset ?g (mset (map viaDocument steps))" by (simp only: mset_map assms(1))
  moreover have "image_mset ?g (mset (map viaDocument steps)) = mset steps"
    unfolding mset_map[symmetric] map_map
    by (rule arg_cong[of _ _ mset], rule map_idI) (simp add: assms(2))
  ultimately show ?thesis by auto
qed

section \<open>Names are not blank\<close>

lemma nameChar_plain: "nameChar c \<Longrightarrow> c \<notin> set asciiSpaces \<and> (of_char c :: nat) < 128"
  by (auto simp: nameChar_def Let_def asciiSpaces_def)

lemma valid_not_blank: "validateResourceName n = None \<Longrightarrow> \<not> blank n"
  using TrimSpace_plain[of n] nameChar_plain
  by (auto simp: validateResourceName_def blank_def list_all_iff split: if_splits)

lemma shaped_name:
  assumes "validateStepRefShape i ref = None" "enrichRef Map.empty ref = Some s"
  shows "\<not> blank (st_Name s)"
proof -
  have ok: "wsr_Name ref \<noteq> [] \<Longrightarrow> \<not> blank (wsr_Name ref)"
    using assms(1) valid_not_blank by (auto simp: validateStepRefShape_def split: if_splits)
  have "\<not> blank ''approval''" by (rule valid_not_blank) code_simp
  moreover have "wsr_Approval ref = None \<Longrightarrow> wsr_StepID ref = [] \<Longrightarrow> wsr_Name ref \<noteq> []"
    using assms(1) by (auto simp: validateStepRefShape_def inlineMsg_def split: if_splits)
  ultimately show ?thesis
    using ok enrich_forms[OF assms(2)] by (auto split: if_splits)
qed

section \<open>The graph of the document\<close>

lemma derived_good:
  "\<forall>n\<in>set (names_of steps). n \<noteq> [] \<Longrightarrow> \<forall>r\<in>set (deriveRoutes steps). goodRoute compile steps r"
  by (auto simp: deriveRoutes_def goodRoute_def)

lemma no_region_msgs:
  assumes "\<forall>s\<in>set steps. ws_MapID s = [] \<and> ws_LoopID s = []"
  shows "validateMaps steps [] routes = None" "validateLoops compile steps [] routes = None"
  using assms by (auto simp: validateMaps_def validateLoops_def first_msg_None in_set_enumerate_eq)

text \<open>Reordering the steps and dropping labels of routes keeps a graph without regions accepted.\<close>

lemma routes_accepted:
  assumes "distinct (names_of steps)" "steps \<noteq> []" "\<forall>n\<in>set (names_of steps). n \<noteq> []" "length steps \<le> 50"
    and "validateGraph compile steps routes [] [] = None" "R = effectiveRoutes steps routes"
  shows "(\<forall>r\<in>set R. goodRoute compile steps r) \<and> acyclic (edges_of steps R) \<and> length R \<le> 200"
proof (cases "routes = []")
  case True
  moreover have "length (deriveRoutes steps) \<le> 200" using assms(4) by (simp add: deriveRoutes_def)
  ultimately show ?thesis using derived_good[OF assms(3)] derived_acyclic[OF assms(1)] assms(6)
    by (simp add: effectiveRoutes_def)
next
  case False
  then show ?thesis using assms(5,6) routes_valid_iff[OF assms(1,2), of compile routes]
    by (simp add: effectiveRoutes_def validateGraph_def maxRoutes_def split: if_splits)
qed

lemma routeVia_fields [simp]:
  "r_From (routeVia R r) = r_From r" "r_To (routeVia R r) = r_To r" "r_When (routeVia R r) = r_When r"
  by (simp_all add: routeVia_def)

lemma document_graph:
  assumes "distinct (names_of steps)" "steps \<noteq> []" "\<forall>n\<in>set (names_of steps). n \<noteq> []" "length steps \<le> 50"
    and "\<forall>s\<in>set steps. ws_MapID s = [] \<and> ws_LoopID s = []"
    and "validateGraph compile steps routes [] [] = None"
    and "mset steps' = mset steps" "distinct routes'"
    and "set routes' = routeVia R ` set R" "R = effectiveRoutes steps routes"
  shows "validateGraph compile steps' routes' [] [] = None"
proof -
  note R = routes_accepted[OF assms(1-4,6,10)]
  have set': "set steps' = set steps" using mset_eq_setD[OF assms(7)] .
  have "mset (names_of steps') = mset (names_of steps)" using assms(7) by (simp only: mset_map)
  then have names: "set (names_of steps') = set (names_of steps)" "distinct (names_of steps')" "steps' \<noteq> []"
    using mset_eq_setD mset_eq_imp_distinct_iff assms(1,2,7) by (blast, blast, auto)
  have "\<forall>r\<in>set routes'. goodRoute compile steps' r"
    using R names(1) unfolding assms(9) by (auto simp: goodRoute_def)
  moreover have "edges_of steps' routes' = edges_of steps R"
    unfolding edges_of_def assms(9) names(1) by force
  moreover have "length routes' \<le> 200"
  proof -
    have "length routes' = card (routeVia R ` set R)" using distinct_card[OF assms(8)] assms(9) by simp
    also have "\<dots> \<le> length R" by (meson card_image_le card_length finite_set le_trans)
    finally show ?thesis using R by simp
  qed
  ultimately show ?thesis
    using R assms(8) routes_valid_iff[OF names(2,3), of compile routes'] assms(5) set'
    by (simp add: validateGraph_def maxRoutes_def no_region_msgs del: orElse_None)
qed

section \<open>The round trip\<close>


end
