(* ===== verification/Wf_ApiExamples.thy ===== *)
theory Wf_ApiExamples
  imports Wf_RoleLife Wf_EditTheorems
begin

text \<open>
  The service on concrete requests: a pipeline is created, triggered, claimed, parked at a gate and
  approved.  Witnesses of the theorems on runs and pipelines.
\<close>

section \<open>A run and its gate\<close>

definition exRow :: "rowStatus \<Rightarrow> int option \<Rightarrow> WorkflowRun" where
  "exRow st t = \<lparr>run_RunID = ''r'', run_WorkflowID = ''p'', run_TriggeredBy = ''u'', run_OrgID = [],
     run_Project = ''web'', run_ProjectID = ''p1'', run_ProjectNamespace = [], run_Status = st, run_CurrentStep = 0,
     run_Inputs = [], run_Outputs = [], run_Depth = 0, run_ParentRunID = [], run_TicketID = [],
     run_Token = Some ''t'', run_RunSessionID = Some ''s'', run_RoleID = ''role'', run_HeartbeatAt = t,
     run_CreatedAt = 5, run_StartedAt = t, run_EndedAt = None\<rparr>"

definition exGate :: WorkflowStepRun where
  "exGate = newStepRun 8 ''g'' ''r'' 0 ''approval'' RowAwaiting None"

definition wfExDB :: "Workflow list \<Rightarrow> WorkflowRun list \<Rightarrow> WorkflowStepRun list \<Rightarrow> wfDB" where
  "wfExDB ps rs ss = \<lparr>wdb_steps = [], wdb_workflows = ps, wdb_runs = rs, wdb_stepRuns = ss, wdb_down = (\<lambda>_. False),
     wdb_ro = (\<lambda>_. False)\<rparr>"

lemmas ex_rows = wfExDB_def exRow_def exGate_def newStepRun_def

lemma ex_unique: "uniqueRuns (wfExDB [] [] [])" "uniqueRuns (wfExDB [] [exRow st t] ss)"
  by (simp_all add: uniqueRuns_def ex_rows)

lemma ex_inserted: "run_sql (wfExDB [] [] []) (RunInserted ''r'') (wfExDB [] [exRow RowPending None] [])"
proof -
  have "addRun (exRow RowPending None) (wfExDB [] [] []) = Some (wfExDB [] [exRow RowPending None] [])"
    by (simp add: addRun_def wfExDB_def)
  from run_sql.inserted[OF this] show ?thesis by (simp add: exRow_def)
qed

lemma ex_claimed: "run_sql (wfExDB [] [exRow RowPending t] ss) (RunClaimed ''r'') (wfExDB [] [exRow RowRunning (Some 7)] ss)"
proof -
  have "Dequeue (\<lambda>_. False) 7 (wfExDB [] [exRow RowPending t] ss)
      = Inr (Some (exRow RowPending t), wfExDB [] [exRow RowRunning (Some 7)] ss)"
    by (simp add: Dequeue_def ex_rows)
  from run_sql.claimed[OF this] show ?thesis by (simp add: exRow_def)
qed

lemma ex_gate: "run_sql (wfExDB [] [exRow RowRunning t] []) OtherStatement (wfExDB [] [exRow RowRunning t] [exGate])"
  by (rule run_sql.gate_recorded[of 8 "''g''" "''r''" 0 "''approval''" "[]"])
    (simp add: AddAwaitingApproval_def addStepRun_def ex_rows)

lemma ex_paused: "run_sql (wfExDB [] [exRow RowRunning t] [exGate]) OtherStatement (wfExDB [] [exRow RowAwaiting t] [exGate])"
  by (rule run_sql.paused[of "''r''" 0 _ 1])
    (simp_all add: PauseForApproval_def execRuns_def gatesLeft_def awaitsDecision_def ex_rows)

lemma ex_approved:
  "run_sql (wfExDB [] [exRow RowAwaiting t] [exGate]) (GateDecided ''r'')
     (wfExDB [] [exRow RowPending t] [exGate\<lparr>srn_Status := RowCompleted, srn_Output := Some ''yes'', srn_EndedAt := Some 9\<rparr>])"
  by (rule run_sql.approved[of 9 "''r''" "''g''" "''yes''"])
    (simp_all add: resumeAfterApproval_def resumeWrites_def Let_def decideGate_def requeueRun_def gateOpen_def
      runAwaiting_def gatesLeft_def awaitsDecision_def gateOf_def ex_rows)

text \<open>A cancelled run, before and after the token of a late approver is written to its row.\<close>

definition exCancelled :: "string option \<Rightarrow> string \<Rightarrow> WorkflowRun" where
  "exCancelled tok sid = (exRow RowRunning None)\<lparr>run_Status := RowCancelled, run_EndedAt := Some 9, run_Token := tok,
     run_RunSessionID := Some sid\<rparr>"

lemma ex_late_token:
  "run_step (wfExDB [] [exCancelled None ''s''] []) (wfExDB [] [exCancelled (Some ''late'') ''s2''] [])"
  unfolding run_step_def
  by (rule exI, rule run_sql.token[of "''r''" "''late''" "''s2''" _ 1])
    (simp add: UpdateToken_def execRuns_def exCancelled_def ex_rows)

lemma run_life_cycle_witness:
  "sameRun (exCancelled None ''s'') (exCancelled (Some ''late'') ''s2'')
   \<and> run_Status (exCancelled (Some ''late'') ''s2'') = RowCancelled"
proof -
  have "exCancelled None ''s'' \<in> set (wdb_runs (wfExDB [] [exCancelled None ''s''] []))"
    "uniqueRuns (wfExDB [] [exCancelled None ''s''] [])"
    by (simp_all add: uniqueRuns_def wfExDB_def)
  then show ?thesis
    using run_life_cycle[of "wfExDB [] [exCancelled None ''s''] []" "wfExDB [] [exCancelled (Some ''late'') ''s2''] []"]
      ex_late_token
    by (auto simp: wfExDB_def exCancelled_def terminalRow_def dest: r_into_rtranclp)
qed

lemma ex_trace:
  "run_trace (wfExDB [] [] [])
     ([RunInserted ''r''] @ RunClaimed ''r'' # [OtherStatement, OtherStatement, GateDecided ''r''] @ RunClaimed ''r'' # [])
     (wfExDB [] [exRow RowRunning (Some 7)]
        [exGate\<lparr>srn_Status := RowCompleted, srn_Output := Some ''yes'', srn_EndedAt := Some 9\<rparr>])"
  unfolding append.simps
  by (rule trace_Cons ex_inserted ex_claimed ex_gate ex_paused ex_approved trace_Nil)+

lemma run_claimed_once_witness: "GateDecided ''r'' \<in> set [OtherStatement, OtherStatement, GateDecided ''r'']"
  by (rule run_claimed_once[OF ex_trace ex_unique(1)])

lemma ex_parked: "run_step\<^sup>*\<^sup>* (wfExDB [] [] []) (wfExDB [] [exRow RowAwaiting (Some 7)] [exGate])"
proof -
  have "run_step (wfExDB [] [] []) (wfExDB [] [exRow RowPending None] [])"
    "run_step (wfExDB [] [exRow RowPending None] []) (wfExDB [] [exRow RowRunning (Some 7)] [])"
    "run_step (wfExDB [] [exRow RowRunning (Some 7)] []) (wfExDB [] [exRow RowRunning (Some 7)] [exGate])"
    "run_step (wfExDB [] [exRow RowRunning (Some 7)] [exGate]) (wfExDB [] [exRow RowAwaiting (Some 7)] [exGate])"
    unfolding run_step_def using ex_inserted ex_claimed ex_gate ex_paused by blast+
  then show ?thesis by (meson converse_rtranclp_into_rtranclp rtranclp.rtrancl_refl)
qed


section \<open>A pipeline\<close>

definition wfExEnv :: "string apEnv" where
  "wfExEnv = \<lparr>ae_auth = (\<lambda>_ _. Some (''u'', [])), ae_bearer = ''b'', ae_uuid = (\<lambda>n. ''id'' @ replicate n CHR ''x''),
     ae_now = 3, ae_order = (\<lambda>_ _ ks. ks), ae_compile = Inr, ae_catalog = exCatalog, ae_key = ''k'',
     ae_newRole = (\<lambda>_ _ _ _ _. Some ''role''),
     ae_projects = Some [\<lparr>apr_ProjectID = ''p1'', apr_Slug = ''web'', apr_Namespace = [], apr_Tier = ''owner''\<rparr>],
     ae_ancestors = (\<lambda>_. None), ae_projectPerm = (\<lambda>_ _. True), ae_runToken = (\<lambda>_ _ _. Some (''tok'', ''s'')),
     ae_encrypt = (\<lambda>t. Some (''enc:'' @ t))\<rparr>"

definition exBody :: createWorkflowRequest where
  "exBody = \<lparr>cwr_Name = ''build'', cwr_Description = [], cwr_Project = ''web'', cwr_TimeoutSecs = 60,
     cwr_Steps = [zeroRef\<lparr>wsr_Name := ''a'', wsr_Action := ''forge/run''\<rparr>,
       zeroRef\<lparr>wsr_Approval := Some \<lparr>ap_Message = ''ship?'', ap_Approvers = [''u'']\<rparr>\<rparr>], cwr_Inputs = [\<lparr>wid_Name = ''env'',
     wid_Default = ''dev'', wid_Required = False, wid_Description = []\<rparr>], cwr_Outputs = [],
     cwr_Routes = [], cwr_Maps = [], cwr_Loops = [], cwr_Ticket = None, cwr_StateMachine = None\<rparr>"

definition exWorld :: apWorld where
  "exWorld = \<lparr>aw_db = wfExDB [] [] [], aw_n = 0, aw_calls = []\<rparr>"

definition exCreated :: apWorld where
  "exCreated = snd (handleCreateWorkflow wfExEnv (Some exBody) exWorld)"

lemma ex_created:
  "map (\<lambda>p. (wf_Name p, wf_RoleID p, length (wf_StepRefs p), storedIDs (wf_StepRefs p))) (wdb_workflows (aw_db exCreated))
     = [(''build'', ''role'', 2, [])]"
  by code_simp

definition exRequest :: triggerRunRequest where
  "exRequest = \<lparr>trr_Inputs = [], trr_Project = []\<rparr>"

lemma ex_triggered:
  "(case fst (handleTriggerRun wfExEnv ''build'' exRequest exCreated) of
      Inr r \<Rightarrow> run_Project r = ''web'' \<and> run_Inputs r = [(''env'', ''dev'')] \<and> run_RoleID r = ''role''
    | Inl _ \<Rightarrow> False)"
  by code_simp

lemma ex_reached: "api_step Inr exCatalog exWorld exCreated"
  unfolding exCreated_def by (rule api_step.create) (simp add: fits_def wfExEnv_def)



section \<open>Reading, editing, updating it\<close>

definition exFetched :: Workflow where
  "exFetched = (case handleGetWorkflow wfExEnv ''build'' exCreated of Inr q \<Rightarrow> q | Inl _ \<Rightarrow> undefined)"

lemma ex_fetched: "handleGetWorkflow wfExEnv ''build'' exCreated = Inr exFetched"
proof -
  have "(case handleGetWorkflow wfExEnv ''build'' exCreated of Inr q \<Rightarrow> True | Inl _ \<Rightarrow> False)" by code_simp
  then show ?thesis by (simp add: exFetched_def split: sum.splits)
qed

lemma ex_fetched_fields:
  "storedIDs (wf_StepRefs exFetched) = [] \<and> list_all (\<lambda>r. wsr_MapID r = [] \<and> wsr_LoopID r = []) (wf_StepRefs exFetched)
     \<and> wf_Maps exFetched = [] \<and> wf_Loops exFetched = [] \<and> distinct (names_of (wf_Steps exFetched))
     \<and> names_of (wf_Steps exFetched) = [''a'', ''approval'']"
  by code_simp


text \<open>A new role for the pipeline: the old one, which no run carries, is deleted.\<close>

definition exUpdated :: apWorld where
  "exUpdated = snd (handleUpdateWorkflow (wfExEnv\<lparr>ae_newRole := (\<lambda>_ _ _ _ _. Some ''role2'')\<rparr>) ''build'' (Some exBody) exCreated)"


end
