(* ===== verification/Wf_ApiFindings.thy ===== *)
theory Wf_ApiFindings
  imports Wf_RoleLife Wf_ApiExamples
begin

text \<open>
  Where the service does less than its comments say: projects that do not confine, roles and tokens that
  a live run loses, gates left behind.
\<close>

section \<open>Authoring\<close>

text \<open>Two inline steps of one name pass every check when no stored step is referenced.\<close>

lemma duplicate_inline_names_accepted:
  "storedIDs refs = [] \<Longrightarrow> validateStepRefs db refs u og = Inr ()"
  "let refs = [zeroRef\<lparr>wsr_Name := ''a'', wsr_Action := ''forge/run''\<rparr>, zeroRef\<lparr>wsr_Name := ''a'', wsr_Action := ''forge/run''\<rparr>]
   in shapesOk refs \<and> storedIDs refs = []
     \<and> validateGraph (\<lambda>_. Inr () :: string + unit) (inlineSteps refs) [] [] [] = None"
  by (simp add: validateStepRefs_def) code_simp

text \<open>
  An update may file a pipeline under any label, known or not; the pipeline may then be run for the
  project of that name, which creating it there would have refused.
\<close>

lemma relabelled_pipeline_unconfined:
  assumes "x \<noteq> []" "TrimSpace x = x" "resolveProjectSlug E x = None \<or> \<not> checkProjectPermission E ''updateWorkflow'' ''pipelines'' x []"
    and "inputProject inputs = x"
  shows "wf_Project (refile E x p) = x" "inputsIsolated E' (wf_Project (refile E x p)) inputs = Inr ()"
proof -
  show "wf_Project (refile E x p) = x" using assms(1) by (simp add: refile_def Let_def split: option.split)
  moreover have "pipelineMayTargetProject E' x x" by (simp add: pipelineMayTargetProject_def Let_def)
  ultimately show "inputsIsolated E' (wf_Project (refile E x p)) inputs = Inr ()"
    using assms(4) by (simp add: inputsIsolated_def)
qed

text \<open>
  The project of a run is written to a copy of the pipeline; when the role is healed on the way, the copy
  is saved, and the pipeline moves to the project of the run.
\<close>

lemma saved_row: "r \<in> set (saveRow k r rows)"
  by (auto simp: saveRow_def)

lemma heal_refiles_pipeline:
  assumes "healRole E (p\<lparr>wf_Project := x\<rparr>) w = (q, w')" "wf_RolePermsVersion p < workflowRolePermsVersion"
    and "wf_RolePermsVersion q = workflowRolePermsVersion" "\<not> wdb_ro (aw_db w) TWorkflows"
  shows "\<exists>row\<in>set (wdb_workflows (aw_db w')). wf_WorkflowID row = wf_WorkflowID p \<and> wf_Project row = x"
proof -
  obtain a w1 where prov: "provisionWorkflowRole E (wf_WorkflowID p) (wf_CreatedBy p) (wf_OrgID p) (wf_Steps p)
      (wf_Maps p) (wf_Ticket p) w = (a, w1)" by (metis surj_pair)
  note db = provision_db[OF prov]
  obtain r where r: "a = Inr r" using assms(1-3) prov by (cases a) (auto simp: healRole_def)
  let ?q = "p\<lparr>wf_Project := x, wf_RoleID := r, wf_RolePermsVersion := workflowRolePermsVersion\<rparr>"
  have "aw_db w' = (aw_db w)\<lparr>wdb_workflows := saveRow wf_WorkflowID (workflowColumns (?q\<lparr>wf_UpdatedAt := ae_now E\<rparr>))
      (wdb_workflows (aw_db w))\<rparr>"
    using assms(1,2,4) prov r db by (auto simp: healRole_def Let_def updateWorkflow_def)
  then have "workflowColumns (?q\<lparr>wf_UpdatedAt := ae_now E\<rparr>) \<in> set (wdb_workflows (aw_db w'))"
    by (simp add: saved_row)
  then show ?thesis by (rule bexI[rotated]) (simp add: workflowColumns_def)
qed

text \<open>
  The document of a pipeline shows a stored step by its action: sent back, the reference has become a copy
  that later edits of the step do not reach.
\<close>

lemma stored_reference_goes_inline:
  assumes "st_Action s \<noteq> []"
  shows "wsr_StepID (viaDocument (storedStepOf ref s)) = []"
    "wsr_Action (viaDocument (storedStepOf ref s)) = st_Action s"
proof -
  have "st_Action (storedStepOf ref s) = st_Action s" "ws_Approval (storedStepOf ref s) = None"
    by (simp_all add: storedStepOf_def Step.defs)
  then show "wsr_StepID (viaDocument (storedStepOf ref s)) = []"
    "wsr_Action (viaDocument (storedStepOf ref s)) = st_Action s"
    using assms by (simp_all add: viaDocument_def)
qed

section \<open>Roles and tokens of live runs\<close>

text \<open>
  A run of the hooks service has a token for the role of its pipeline, but does not record the role; its
  declared inputs get no defaults.
\<close>

lemma internal_run_unrecorded:
  assumes "handleInternalTriggerRun mac key E i tok ts (Some req) w = (Inr r, w')"
  shows "\<exists>p sid. getWorkflow (aw_db w) i = Inr p \<and> run_RunSessionID r = Some sid
    \<and> GkTokenMinted sid (itr_TriggeredBy req) (wf_RoleID p) \<in> set (aw_calls w')
    \<and> run_RoleID r = [] \<and> run_Inputs r = itr_Inputs req"
proof -
  from assms obtain p enc sid w1 where p: "getWorkflow (aw_db w) i = Inr p"
    and mint: "mintToken E (itr_TriggeredBy req) (wf_RoleID p) w = (Some (enc, sid), w1)"
    and ins: "insertRun E (newRun E (aw_n w1) p (itr_TriggeredBy req) (wf_OrgID p) (itr_Inputs req) 0 [] enc sid [])
      sid (tick w1) = (Inr r, w')"
    by (auto simp: handleInternalTriggerRun_def internalPlan_def split: sum.splits prod.splits option.splits)
  have "aw_calls w' = aw_calls (tick w1)" "r = newRun E (aw_n w1) p (itr_TriggeredBy req) (wf_OrgID p)
      (itr_Inputs req) 0 [] enc sid []"
    using insert_run[OF ins] by auto
  then show ?thesis using p mint_call[OF mint] by (auto simp: newRun_def tick_def)
qed

text \<open>
  Two approvals of one gate that overlap: the second stores its token, the first decides the gate, the
  second is refused and revokes its token, which the run still carries.
\<close>

lemma losing_approver_kills_token:
  assumes "approveMint E r p w = (Inr a, w1)" "approveMint E r p w1 = (Inr b, w2)" "b \<noteq> []"
    and "approveCommit E r g a d w2 = (Inr (), w3)"
    and "approveCommit E r g b d' w3 = (x, w4)"
  shows "x \<noteq> Inr ()" "GkTokenRevoked b \<in> set (aw_calls w4)"
    "\<forall>y\<in>set (wdb_runs (aw_db w4)). run_RunID y = run_RunID r \<longrightarrow> run_RunSessionID y = Some b"
proof -
  have key: "ae_key E \<noteq> []" using assms(1) by (auto simp: approveMint_def mintToken_def createRunToken_def)
  have sess: "\<forall>y\<in>set (wdb_runs (aw_db w2)). run_RunID y = run_RunID r \<longrightarrow> run_RunSessionID y = Some b"
    using assms(2) by (auto simp: approveMint_def UpdateToken_def execRuns_def putDB_def split: prod.splits option.splits if_splits)
  from assms(4) obtain db3 where res: "resumeAfterApproval (ae_now E) (run_RunID r) (srn_StepRunID g) d (aw_db w2) = Inr db3"
    and w3: "aw_db w3 = db3"
    by (auto simp: approveCommit_def split: sum.splits)
  have closed: "\<not> gateOpen (srn_StepRunID g) db3"
    using res by (auto simp: resumeAfterApproval_def resumeWrites_def Let_def gateOpen_def decideGate_def requeueRun_def
        split: if_splits)
  have "\<exists>e. resumeAfterApproval (ae_now E) (run_RunID r) (srn_StepRunID g) d' (aw_db w3) = Inl e"
    using closed w3 by (simp add: resumeAfterApproval_def resumeWrites_def Let_def)
  then have w4: "x \<noteq> Inr ()" "w4 = revokeRunToken E b w3" using assms(5) by (auto simp: approveCommit_def)
  then show "x \<noteq> Inr ()" "GkTokenRevoked b \<in> set (aw_calls w4)"
    using key assms(3) by (simp_all add: revokeRunToken_def call_def)
  have "\<forall>y\<in>set (wdb_runs db3). run_RunID y = run_RunID r \<longrightarrow> run_RunSessionID y = Some b"
    using resumed_runs[OF res] sess by (auto simp: requeueRun_def split: if_splits)
  then show "\<forall>y\<in>set (wdb_runs (aw_db w4)). run_RunID y = run_RunID r \<longrightarrow> run_RunSessionID y = Some b"
    using w4 w3 by simp
qed

text \<open>Cancelling a parked run leaves its gates awaiting a decision.\<close>

lemma cancel_strands_gates: "cancelRun now i db = Some (n, db') \<Longrightarrow> wdb_stepRuns db' = wdb_stepRuns db"
  by (auto simp: cancelRun_def execRuns_def split: if_splits)

text \<open>
  A run resumed after its pipeline was given a new role authenticates with the new role, but still records
  the old one: the next update of the pipeline deletes the role under the running run.
\<close>

definition parkedWorld :: apWorld where
  "parkedWorld = putDB ((aw_db exCreated)\<lparr>wdb_runs := [(exRow RowAwaiting (Some 1))\<lparr>run_WorkflowID := ''id'',
     run_RoleID := ''older''\<rparr>], wdb_stepRuns := [exGate]\<rparr>) exCreated"

definition resumedWorld :: apWorld where
  "resumedWorld = (let w = snd (approvalDecision (wfExEnv\<lparr>ae_runToken := (\<lambda>_ _ _. Some (''tok'', ''s2''))\<rparr>)
       True [] ''r'' [] [] id parkedWorld)
     in case Dequeue (\<lambda>_. False) 9 (aw_db w) of Inl _ \<Rightarrow> w | Inr (_, db) \<Rightarrow> putDB db w)"

lemma resumed_run_loses_role:
  "map run_Status (wdb_runs (aw_db resumedWorld)) = [RowRunning]
   \<and> GkTokenMinted ''s2'' ''u'' ''role'' \<in> set (aw_calls resumedWorld)
   \<and> (let w = snd (handleUpdateWorkflow (wfExEnv\<lparr>ae_newRole := (\<lambda>_ _ _ _ _. Some ''role3'')\<rparr>) ''build'' (Some exBody) resumedWorld)
      in map run_Status (wdb_runs (aw_db w)) = [RowRunning] \<and> GkRoleDeleted ''role'' \<in> set (aw_calls w))"
  by code_simp

end
