(* ===== verification/Gk_Match.thy ===== *)
theory Gk_Match
  imports Go_Strings
begin

text \<open>
  The permission language of gatekeeper (\<open>src/systems/gatekeeper/api_helpers.go\<close>:
  \<open>matchPermission\<close>, \<open>scopeResource\<close>, \<open>ownerQualified\<close>) and its row type
  (\<open>types.go\<close>).  A permission grants actions of a service on resources; actions and resources
  may end in a wildcard, and a resource may have wildcard segments.
\<close>

section \<open>Permissions\<close>

record Permissions =
  pm_PermissionsID :: string
  pm_Name :: string
  pm_Service :: string
  pm_Actions :: "string list"
  pm_Resources :: "string list"
  pm_OwnerID :: string
  pm_OrgID :: "string option"
  pm_Active :: bool

definition allowedAction :: "string list \<Rightarrow> string \<Rightarrow> bool" where
  "allowedAction actions action \<longleftrightarrow>
     ''*'' \<in> set actions \<or> action \<in> set actions
     \<or> (\<exists>a\<in>set actions. 0 < length a \<and> last a = CHR ''*'' \<and> HasPrefix action (butlast a))"

text \<open>Segment by segment, a \<open>*\<close> of the pattern standing for any one segment.\<close>

definition segmentMatch :: "string \<Rightarrow> string \<Rightarrow> bool" where
  "segmentMatch resource r \<longleftrightarrow>
     list_all2 (\<lambda>x p. x = p \<or> p = ''*'') (splitChar (CHR ''/'') resource) (splitChar (CHR ''/'') r)"

definition resourceMatch :: "string \<Rightarrow> string \<Rightarrow> bool" where
  "resourceMatch r resource \<longleftrightarrow>
     (HasSuffix r ''/*'' \<and> HasPrefix resource (take (length r - 2) r @ ''/'')) \<or> segmentMatch resource r"

definition matchPermission :: "Permissions \<Rightarrow> string \<Rightarrow> string \<Rightarrow> string \<Rightarrow> bool" where
  "matchPermission perm service action resource =
     (if pm_Service perm \<noteq> ''*'' \<and> pm_Service perm \<noteq> service then False
      else if \<not> allowedAction (pm_Actions perm) action then False
      else if resource \<in> set (pm_Resources perm) \<or> ''*'' \<in> set (pm_Resources perm) then True
      else (\<exists>r\<in>set (pm_Resources perm). resourceMatch r resource))"

section \<open>Scoping\<close>

text \<open>\<open>strings.Cut\<close> at the first slash: what follows it.\<close>

definition afterSlash :: "string \<Rightarrow> string option" where
  "afterSlash s = (case dropWhile (\<lambda>c. c \<noteq> CHR ''/'') s of [] \<Rightarrow> None | _ # rest \<Rightarrow> Some rest)"

definition ownerQualified :: "string \<Rightarrow> string \<Rightarrow> bool" where
  "ownerQualified resource service =
     (if HasPrefix resource (service @ ''/'') then False
      else (let rest = (case CutPrefix resource ''org/'' of Some after \<Rightarrow> after | None \<Rightarrow> resource)
            in case afterSlash rest of
                 None \<Rightarrow> False
               | Some after \<Rightarrow> after = service \<or> HasPrefix after (service @ ''/'')))"

definition scopeResource :: "string \<Rightarrow> string \<Rightarrow> string \<Rightarrow> string \<Rightarrow> string" where
  "scopeResource resource username orgName service =
     (if username = [] then resource
      else if HasPrefix resource (username @ ''/'') then resource
      else if orgName \<noteq> [] \<and> HasPrefix resource (''org/'' @ orgName @ ''/'') then resource
      else if HasPrefix resource ''project/'' then resource
      else if service \<noteq> [] \<and> ownerQualified resource service then resource
      else username @ ''/'' @ resource)"

section \<open>The language of a pattern\<close>

lemma splitChar_snoc_star:
  "splitChar (CHR ''/'') (q @ ''/*'') = splitChar (CHR ''/'') q @ [''*'']"
proof (induction q)
  case (Cons c q)
  then show ?case by (cases "splitChar (CHR ''/'') q") auto
qed simp

lemma splitChar_append:
  "splitChar (CHR ''/'') (q @ CHR ''/'' # s) = splitChar (CHR ''/'') q @ splitChar (CHR ''/'') s"
proof (induction q)
  case (Cons c q)
  then show ?case by (cases "splitChar (CHR ''/'') q") auto
qed simp

lemma splitChar_inj: "splitChar sep s = splitChar sep t \<Longrightarrow> s = t"
  by (metis join_split)

lemma HasPrefix_split:
  "HasPrefix s (q @ ''/'') \<longleftrightarrow> (\<exists>ws. ws \<noteq> [] \<and> splitChar (CHR ''/'') s = splitChar (CHR ''/'') q @ ws)"
proof
  assume "HasPrefix s (q @ ''/'')"
  then obtain r where "s = q @ CHR ''/'' # r" by (auto simp: HasPrefix_iff)
  then show "\<exists>ws. ws \<noteq> [] \<and> splitChar (CHR ''/'') s = splitChar (CHR ''/'') q @ ws"
    by (auto simp: splitChar_append)
next
  assume "\<exists>ws. ws \<noteq> [] \<and> splitChar (CHR ''/'') s = splitChar (CHR ''/'') q @ ws"
  then obtain ws where ws: "ws \<noteq> []" "splitChar (CHR ''/'') s = splitChar (CHR ''/'') q @ ws" by blast
  have "\<forall>w\<in>set ws. CHR ''/'' \<notin> set w" using splitChar_parts[of _ "CHR ''/''" s] ws(2) by auto
  then have "splitChar (CHR ''/'') (joinChar (CHR ''/'') ws) = ws" using ws(1) by (simp add: split_join)
  then have "splitChar (CHR ''/'') (q @ CHR ''/'' # joinChar (CHR ''/'') ws) = splitChar (CHR ''/'') s"
    by (simp add: splitChar_append ws(2))
  then have "s = q @ CHR ''/'' # joinChar (CHR ''/'') ws" by (metis splitChar_inj)
  then show "HasPrefix s (q @ ''/'')" by (simp add: HasPrefix_iff)
qed

abbreviation segs :: "string \<Rightarrow> string list" where "segs \<equiv> splitChar (CHR ''/'')"

abbreviation segPat :: "string list \<Rightarrow> string list \<Rightarrow> bool" where
  "segPat \<equiv> list_all2 (\<lambda>x p. x = p \<or> p = ''*'')"

text \<open>A resource pattern of a permission, as one predicate on the segments.\<close>

definition covers :: "string \<Rightarrow> string \<Rightarrow> bool" where
  "covers r resource \<longleftrightarrow>
     r = ''*'' \<or> segPat (segs resource) (segs r)
     \<or> (\<exists>pre. pre \<noteq> [] \<and> segs r = pre @ [''*''] \<and> (\<exists>ws. ws \<noteq> [] \<and> segs resource = pre @ ws))"

lemma segPat_refl: "segPat xs xs"
  by (simp add: list_all2_refl)

lemma segs_star: "segs r = [''*''] \<longleftrightarrow> r = ''*''"
proof
  assume "segs r = [''*'']"
  also have "[''*''] = segs ''*''" by simp
  finally show "r = ''*''" by (rule splitChar_inj)
qed simp

lemma prefixMatch_covers:
  "HasSuffix r ''/*'' \<and> HasPrefix resource (take (length r - 2) r @ ''/'') \<longleftrightarrow>
     (\<exists>pre. pre \<noteq> [] \<and> segs r = pre @ [''*''] \<and> (\<exists>ws. ws \<noteq> [] \<and> segs resource = pre @ ws))"
  (is "?L \<longleftrightarrow> ?R")
proof
  assume ?L
  then obtain q where q: "r = q @ ''/*''" by (auto simp: HasSuffix_iff)
  with \<open>?L\<close> have "HasPrefix resource (q @ ''/'')" by simp
  then obtain ws where "ws \<noteq> []" "segs resource = segs q @ ws" unfolding HasPrefix_split by blast
  then show ?R using q splitChar_snoc_star[of q] splitChar_nonempty[of "CHR ''/''" q] by blast
next
  assume ?R
  then obtain pre ws where pre: "pre \<noteq> []" "segs r = pre @ [''*'']" "ws \<noteq> []" "segs resource = pre @ ws" by blast
  have "\<forall>w\<in>set pre. CHR ''/'' \<notin> set w" using splitChar_parts[of _ "CHR ''/''" r] pre(2) by auto
  then have q: "segs (joinChar (CHR ''/'') pre) = pre" using pre(1) by (simp add: split_join)
  then have "segs (joinChar (CHR ''/'') pre @ ''/*'') = segs r" by (simp only: splitChar_snoc_star pre(2))
  then have r: "r = joinChar (CHR ''/'') pre @ ''/*''" by (metis splitChar_inj)
  have "HasPrefix resource (joinChar (CHR ''/'') pre @ ''/'')"
    unfolding HasPrefix_split q using pre(3,4) by blast
  then show ?L unfolding r by (auto simp: HasSuffix_iff)
qed

lemma matchPermission_iff:
  "matchPermission perm service action resource \<longleftrightarrow>
     (pm_Service perm = ''*'' \<or> pm_Service perm = service)
     \<and> allowedAction (pm_Actions perm) action \<and> (\<exists>r\<in>set (pm_Resources perm). covers r resource)"
proof -
  have "resourceMatch r resource \<or> r = resource \<or> r = ''*'' \<longleftrightarrow> covers r resource" for r
    unfolding resourceMatch_def segmentMatch_def prefixMatch_covers covers_def using segPat_refl by blast
  then show ?thesis unfolding matchPermission_def by auto
qed

section \<open>Passing a pattern on\<close>

text \<open>
  A pattern is plain when a trailing wildcard is its only one, or it has inner wildcards and no
  trailing one; an action pattern when it does not end in two stars.
\<close>

definition plainResource :: "string \<Rightarrow> bool" where
  "plainResource r \<longleftrightarrow> (last (segs r) = ''*'' \<longrightarrow> ''*'' \<notin> set (butlast (segs r)))"

definition plainPermission :: "Permissions \<Rightarrow> bool" where
  "plainPermission p \<longleftrightarrow>
     (\<forall>r\<in>set (pm_Resources p). plainResource r) \<and> (\<forall>a\<in>set (pm_Actions p). \<not> HasSuffix a ''**'')"

lemma segPat_trans: "segPat x y \<Longrightarrow> segPat y z \<Longrightarrow> segPat x z"
  by (force simp: list_all2_conv_all_nth)

lemma segPat_no_star:
  "segPat xs ps \<Longrightarrow> ''*'' \<notin> set ps \<Longrightarrow> xs = ps"
  by (induction rule: list_all2_induct) auto

text \<open>Whatever a pattern with a wildcard-free beginning matches begins like it.\<close>

lemma covers_prefix:
  assumes Rx: "covers R x" and R: "segs R = pre @ ws" "ws \<noteq> []" "pre \<noteq> []" and ns: "''*'' \<notin> set pre"
  shows "\<exists>vs. vs \<noteq> [] \<and> segs x = pre @ vs"
proof -
  have "R \<noteq> ''*''" using R segs_star[of R] by (auto simp: append_eq_Cons_conv)
  with Rx consider (s) "segPat (segs x) (segs R)"
    | (p) p2 w2 where "p2 \<noteq> []" "segs R = p2 @ [''*'']" "w2 \<noteq> []" "segs x = p2 @ w2"
    unfolding covers_def by blast
  then show ?thesis
  proof cases
    case s
    with R(1) obtain us vs where "segs x = us @ vs" "segPat us pre" "segPat vs ws"
      by (auto simp: list_all2_append2)
    moreover from this have "us = pre" "vs \<noteq> []" using segPat_no_star[OF _ ns] R(2) by auto
    ultimately show ?thesis by blast
  next
    case p
    with R obtain w3 where "p2 = pre @ w3" "ws = w3 @ [''*'']"
      by (cases ws rule: rev_cases) auto
    with p show ?thesis by auto
  qed
qed

lemma covers_trans:
  assumes plain: "plainResource r" and rR: "covers r R" and Rx: "covers R x"
  shows "covers r x"
proof (cases "r = ''*''")
  case False
  have Rns: "R \<noteq> ''*''"
  proof
    assume "R = ''*''"
    with rR False have "segPat [''*''] (segs r)" by (auto simp: covers_def Cons_eq_append_conv)
    then have "segs r = [''*'']" by (auto simp: list_all2_Cons1)
    with False segs_star show False by blast
  qed
  from rR False consider (seg) "segPat (segs R) (segs r)"
    | (pre) pre ws where "pre \<noteq> []" "segs r = pre @ [''*'']" "ws \<noteq> []" "segs R = pre @ ws"
    unfolding covers_def by blast
  then show ?thesis
  proof cases
    case seg
    from Rx Rns consider (s) "segPat (segs x) (segs R)"
      | (p) pre ws where "pre \<noteq> []" "segs R = pre @ [''*'']" "ws \<noteq> []" "segs x = pre @ ws"
      unfolding covers_def by blast
    then show ?thesis
    proof cases
      case s
      then show ?thesis using seg segPat_trans unfolding covers_def by blast
    next
      case p
      with seg obtain pre' where r: "segs r = pre' @ [''*'']" and pp: "segPat pre pre'"
        by (auto simp: list_all2_append1 list_all2_Cons1)
      with plain have "''*'' \<notin> set pre'" by (simp add: plainResource_def)
      with pp have "pre' = pre" by (metis segPat_no_star)
      with p r show ?thesis unfolding covers_def by blast
    qed
  next
    case pre
    with plain have ns: "''*'' \<notin> set pre" by (simp add: plainResource_def)
    from covers_prefix[OF Rx pre(4) pre(3) pre(1) ns]
    show ?thesis using pre unfolding covers_def by blast
  qed
qed (simp add: covers_def)

lemma allowedAction_trans:
  assumes "allowedAction acts a" "\<forall>b\<in>set acts. \<not> HasSuffix b ''**''" "allowedAction [a] a'"
  shows "allowedAction acts a'"
proof -
  from assms(1) consider "''*'' \<in> set acts" | "a \<in> set acts"
    | (w) c where "c @ ''*'' \<in> set acts" "HasPrefix a c"
    unfolding allowedAction_def by (metis append_butlast_last_id length_greater_0_conv)
  then show ?thesis
  proof cases
    case w
    from assms(3) consider "a = a'" | (p) b where "a = b @ ''*''" "HasPrefix a' b"
      unfolding allowedAction_def by (auto simp: HasPrefix_iff) (metis append_butlast_last_id)
    then show ?thesis
    proof cases
      case p
      have "c \<noteq> a"
      proof
        assume "c = a"
        then have "HasSuffix (c @ ''*'') ''**''" using p(1) by (simp add: HasSuffix_iff)
        with w(1) assms(2) show False by blast
      qed
      with w(2) p(1) have "HasPrefix b c"
        by (auto simp: HasPrefix_iff append_eq_append_conv2 append_eq_Cons_conv Cons_eq_append_conv)
      with p(2) have "HasPrefix a' c" by (auto simp: HasPrefix_iff)
      with w(1) show ?thesis unfolding allowedAction_def by force
    qed (use assms(1) in simp)
  qed (use assms(3) in \<open>auto simp: allowedAction_def\<close>)
qed

lemma matchPermission_trans:
  assumes "plainPermission q" "matchPermission q service action resource"
    and "matchPermission p s a x" "pm_Service p = service" "pm_Actions p = [action]" "pm_Resources p = [resource]"
  shows "matchPermission q s a x"
  using assms allowedAction_trans[of "pm_Actions q" action a] covers_trans[of _ resource x]
  unfolding matchPermission_iff plainPermission_def by auto

lemma segs_chars: "w \<in> set (segs u) \<Longrightarrow> c \<in> set w \<Longrightarrow> c \<in> set u"
  by (induction u arbitrary: w) (fastforce split: list.splits if_splits)+

lemma covers_namespace:
  assumes "covers R x" "HasPrefix R (u @ ''/'')" "CHR ''*'' \<notin> set u"
  shows "HasPrefix x (u @ ''/'')"
proof -
  obtain ws where ws: "ws \<noteq> []" "segs R = segs u @ ws" using assms(2) unfolding HasPrefix_split by blast
  have "CHR ''*'' \<notin> set w" if "w \<in> set (segs u)" for w
    using assms(3) segs_chars[OF that] by blast
  then have "''*'' \<notin> set (segs u)" by force
  from covers_prefix[OF assms(1) ws(2,1) _ this] show ?thesis unfolding HasPrefix_split by simp
qed

end
