(* ===== verification/Gk_Store.thy ===== *)
theory Gk_Store
  imports Gk_Match Go_Store
begin

text \<open>
  The rows of gatekeeper (\<open>types.go\<close>) and the queries its permission and token code uses
  (\<open>db_identity.go\<close>, \<open>db_permissions.go\<close>, \<open>db_projects.go\<close>, \<open>db_sessions.go\<close>, \<open>db_tokens.go\<close>).
  A table is the list of its rows in primary-key order, so \<open>First\<close> is the first row that
  matches.  \<open>db_down\<close> says for which tables a query currently fails; a write fails where
  \<open>db_ro\<close> says so.  The entity cache in front of the reads is not modelled: a read sees the
  table.  Time stamps that no decision depends on are left out; times are nanoseconds.
\<close>

section \<open>Rows\<close>

record Org =
  og_OrgID :: string
  og_OrgName :: string
  og_OwnerID :: string
  og_Active :: bool

record Role =
  ro_RoleID :: string
  ro_Name :: string
  ro_PermissionsIDs :: "string list"
  ro_OrgID :: "string option"
  ro_OwnerID :: string
  ro_Active :: bool

record Team =
  te_TeamID :: string
  te_TeamName :: string
  te_RoleID :: "string option"
  te_OwnerID :: string
  te_OrgID :: "string option"
  te_Active :: bool

record User =
  us_UserID :: string
  us_Username :: string
  us_OrgID :: "string option"
  us_RoleID :: "string option"
  us_TeamID :: "string option"
  us_DefaultRoleID :: "string option"
  us_Active :: bool

record RoleMembership =
  rm_RoleID :: string
  rm_UserID :: string
  rm_GrantedBy :: string

record Project =
  pj_ProjectID :: string
  pj_Slug :: string
  pj_OwnerID :: string
  pj_ViewerRoleID :: string
  pj_DeveloperRoleID :: string
  pj_AdminRoleID :: string
  pj_Active :: bool

record OAuthClient =
  oc_ClientID :: string
  oc_OrgID :: string
  oc_RoleID :: "string option"
  oc_Active :: bool

record Session =
  se_SessionID :: string
  se_UserID :: string
  se_ExpiresAt :: int
  se_PubKey :: string
  se_ScopedRoleID :: "string option"
  se_ClientID :: "string option"
  se_Active :: bool

record PersonalToken =
  pt_TokenID :: string
  pt_UserID :: string
  pt_Name :: string
  pt_SessionID :: string
  pt_RoleID :: string
  pt_ExpiresAt :: int
  pt_LastUsedAt :: "int option"
  pt_Active :: bool

section \<open>The database\<close>

datatype gkTable =
  TUsers | TOrgs | TRoles | TPermissions | TTeams | TMemberships | TProjects | TClients | TSessions | TTokens

record gkDB =
  db_users :: "User list"
  db_orgs :: "Org list"
  db_roles :: "Role list"
  db_permissions :: "Permissions list"
  db_teams :: "Team list"
  db_memberships :: "RoleMembership list"
  db_projects :: "Project list"
  db_clients :: "OAuthClient list"
  db_sessions :: "Session list"
  db_tokens :: "PersonalToken list"
  db_down :: "gkTable \<Rightarrow> bool"
  db_ro :: "gkTable \<Rightarrow> bool"

text \<open>
  \<open>User{UserID: id}.Get\<close>: the query is \<open>(user_id = id OR username = "") AND active\<close>, because the
  receiver's username is empty.
\<close>

definition getUser :: "gkDB \<Rightarrow> string \<Rightarrow> dbErr + User" where
  "getUser db uid = firstRow (db_down db TUsers)
     (\<lambda>u. (us_UserID u = uid \<or> us_Username u = []) \<and> us_Active u) (db_users db)"

definition getOrg :: "gkDB \<Rightarrow> string \<Rightarrow> dbErr + Org" where
  "getOrg db oid = firstRow (db_down db TOrgs) (\<lambda>r. og_OrgID r = oid \<and> og_Active r) (db_orgs db)"

definition getRole :: "gkDB \<Rightarrow> string \<Rightarrow> dbErr + Role" where
  "getRole db rid = firstRow (db_down db TRoles) (\<lambda>r. ro_RoleID r = rid \<and> ro_Active r) (db_roles db)"

definition getPermission :: "gkDB \<Rightarrow> string \<Rightarrow> dbErr + Permissions" where
  "getPermission db pid =
     firstRow (db_down db TPermissions) (\<lambda>r. pm_PermissionsID r = pid \<and> pm_Active r) (db_permissions db)"

definition getTeam :: "gkDB \<Rightarrow> string \<Rightarrow> dbErr + Team" where
  "getTeam db tid = firstRow (db_down db TTeams) (\<lambda>r. te_TeamID r = tid \<and> te_Active r) (db_teams db)"

definition getOAuthClientByClientID :: "gkDB \<Rightarrow> string \<Rightarrow> dbErr + OAuthClient" where
  "getOAuthClientByClientID db cid =
     firstRow (db_down db TClients) (\<lambda>r. oc_ClientID r = cid \<and> oc_Active r) (db_clients db)"

definition getSession :: "gkDB \<Rightarrow> string \<Rightarrow> dbErr + Session" where
  "getSession db sid =
     firstRow (db_down db TSessions) (\<lambda>r. se_SessionID r = sid \<and> se_Active r) (db_sessions db)"

text \<open>By slug, inactive projects included.\<close>

definition getProjectBySlug :: "gkDB \<Rightarrow> string \<Rightarrow> dbErr + Project" where
  "getProjectBySlug db slug = firstRow (db_down db TProjects) (\<lambda>r. pj_Slug r = slug) (db_projects db)"

text \<open>\<open>WHERE permissions_id IN ? AND active\<close>.\<close>

definition activePermissionsIn :: "gkDB \<Rightarrow> string list \<Rightarrow> dbErr + Permissions list" where
  "activePermissionsIn db ids =
     findRows (db_down db TPermissions) (\<lambda>r. pm_PermissionsID r \<in> set ids \<and> pm_Active r) (db_permissions db)"

definition membershipsOf :: "gkDB \<Rightarrow> string \<Rightarrow> dbErr + RoleMembership list" where
  "membershipsOf db uid = findRows (db_down db TMemberships) (\<lambda>m. rm_UserID m = uid) (db_memberships db)"

text \<open>A count that fails reads as zero: its error is not looked at.\<close>

definition isProjectMember :: "gkDB \<Rightarrow> string \<Rightarrow> Project \<Rightarrow> bool" where
  "isProjectMember db callerID p \<longleftrightarrow>
     pj_OwnerID p = callerID
     \<or> (\<not> db_down db TMemberships
        \<and> (\<exists>m\<in>set (db_memberships db). rm_UserID m = callerID
              \<and> rm_RoleID m \<in> {pj_ViewerRoleID p, pj_DeveloperRoleID p, pj_AdminRoleID p}))"

definition getTokenForUser :: "gkDB \<Rightarrow> string \<Rightarrow> string \<Rightarrow> dbErr + PersonalToken" where
  "getTokenForUser db uid tid = firstRow (db_down db TTokens)
     (\<lambda>t. pt_TokenID t = tid \<and> pt_UserID t = uid \<and> pt_Active t) (db_tokens db)"

definition tokenForSession :: "gkDB \<Rightarrow> string \<Rightarrow> dbErr + PersonalToken" where
  "tokenForSession db sid = firstRow (db_down db TTokens)
     (\<lambda>t. pt_SessionID t = sid \<and> pt_Active t) (db_tokens db)"

section \<open>Writes\<close>

text \<open>Each write returns the new database, or nothing when it fails.\<close>

definition addPermission :: "Permissions \<Rightarrow> gkDB \<Rightarrow> gkDB option" where
  "addPermission p db =
     (if db_ro db TPermissions then None
      else Some (db\<lparr>db_permissions := db_permissions db @ [p\<lparr>pm_Active := True\<rparr>]\<rparr>))"

definition addRole :: "Role \<Rightarrow> gkDB \<Rightarrow> gkDB option" where
  "addRole r db =
     (if db_ro db TRoles then None else Some (db\<lparr>db_roles := db_roles db @ [r\<lparr>ro_Active := True\<rparr>]\<rparr>))"

definition addSession :: "Session \<Rightarrow> gkDB \<Rightarrow> gkDB option" where
  "addSession s db =
     (if db_ro db TSessions then None
      else Some (db\<lparr>db_sessions := db_sessions db @ [s\<lparr>se_Active := True\<rparr>]\<rparr>))"

definition addToken :: "PersonalToken \<Rightarrow> gkDB \<Rightarrow> gkDB option" where
  "addToken t db = (if db_ro db TTokens then None else Some (db\<lparr>db_tokens := db_tokens db @ [t]\<rparr>))"

definition removeSession :: "string \<Rightarrow> gkDB \<Rightarrow> gkDB option" where
  "removeSession sid db =
     (if db_ro db TSessions then None
      else Some (db\<lparr>db_sessions :=
             map (\<lambda>s. if se_SessionID s = sid then s\<lparr>se_Active := False\<rparr> else s) (db_sessions db)\<rparr>))"

definition deactivateRole :: "string \<Rightarrow> gkDB \<Rightarrow> gkDB option" where
  "deactivateRole rid db =
     (if db_ro db TRoles then None
      else Some (db\<lparr>db_roles := map (\<lambda>r. if ro_RoleID r = rid then r\<lparr>ro_Active := False\<rparr> else r) (db_roles db)\<rparr>))"

definition deactivateToken :: "string \<Rightarrow> gkDB \<Rightarrow> gkDB option" where
  "deactivateToken tid db =
     (if db_ro db TTokens then None
      else Some (db\<lparr>db_tokens := map (\<lambda>t. if pt_TokenID t = tid then t\<lparr>pt_Active := False\<rparr> else t) (db_tokens db)\<rparr>))"

text \<open>\<open>FirstOrCreate\<close> of a membership, with the granter assigned; and its deletion.\<close>

definition putMembership :: "RoleMembership \<Rightarrow> gkDB \<Rightarrow> gkDB option" where
  "putMembership m db =
     (if db_ro db TMemberships \<or> db_down db TMemberships then None
      else if \<exists>x\<in>set (db_memberships db). rm_RoleID x = rm_RoleID m \<and> rm_UserID x = rm_UserID m
      then Some (db\<lparr>db_memberships := map (\<lambda>x. if rm_RoleID x = rm_RoleID m \<and> rm_UserID x = rm_UserID m
                                            then x\<lparr>rm_GrantedBy := rm_GrantedBy m\<rparr> else x) (db_memberships db)\<rparr>)
      else Some (db\<lparr>db_memberships := db_memberships db @ [m]\<rparr>))"

definition deleteMembership :: "string \<Rightarrow> string \<Rightarrow> gkDB \<Rightarrow> gkDB option" where
  "deleteMembership rid uid db =
     (if db_ro db TMemberships then None
      else Some (db\<lparr>db_memberships :=
             filter (\<lambda>x. \<not> (rm_RoleID x = rid \<and> rm_UserID x = uid)) (db_memberships db)\<rparr>))"

end
