(* ===== verification/Gk_Evaluate.thy ===== *)
theory Gk_Evaluate
  imports Gk_Store
begin

text \<open>
  Permission evaluation (\<open>api_helpers.go\<close>: \<open>evaluatePermissions\<close>, \<open>checkClientPermissions\<close>,
  \<open>handleCheckPermissions\<close>; \<open>org_service_gate.go\<close>).  Every path of the evaluation saves one
  \<open>PermissionsCheck\<close> row, which is part of the result.  Tracing and logging are left out.
\<close>

section \<open>Denials\<close>

record permissionDenial =
  de_Roles :: "string list"
  de_Service :: string
  de_Action :: string
  de_Resource :: string

definition joinComma :: "string list \<Rightarrow> string" where
  "joinComma xs = concat (map (\<lambda>(i, x). (if i = 0 then [] else '', '') @ x) (enumerate 0 xs))"

definition rolesLabel :: "permissionDenial \<Rightarrow> string" where
  "rolesLabel d = (if de_Roles d = [] then ''(none assigned)'' else joinComma (de_Roles d))"

text \<open>The message of a 403, by the number of roles consulted, with the values it quotes.\<close>

datatype denialReason =
    NoRoleGrants string string string
  | RoleNotAllowed string string string string
  | RolesNotAllowed string string string string

definition denialReasonOf :: "permissionDenial \<Rightarrow> denialReason" where
  "denialReasonOf d =
     (case de_Roles d of
        [] \<Rightarrow> NoRoleGrants (de_Action d) (de_Service d) (de_Resource d)
      | [r] \<Rightarrow> RoleNotAllowed r (de_Action d) (de_Service d) (de_Resource d)
      | _ \<Rightarrow> RolesNotAllowed (rolesLabel d) (de_Action d) (de_Service d) (de_Resource d))"

definition appendRoleLabel :: "string list \<Rightarrow> Role \<Rightarrow> string list" where
  "appendRoleLabel labels role =
     (let label = (if ro_Name role = [] then ro_RoleID role else ro_Name role)
      in if label \<in> set labels then labels else labels @ [label])"

section \<open>The org service gate\<close>

definition gateCoreServices :: "string set" where
  "gateCoreServices = {''gatekeeper'', ''conductor'', ''registry'', ''builder''}"

text \<open>
  The gate asks the builder service which services an org has disabled; \<open>gt_fetch\<close> is its answer,
  \<open>None\<close> when it cannot be reached.
\<close>

record gate =
  gt_configured :: bool
  gt_fetch :: "string \<Rightarrow> string list option"

definition orgDisabledSet :: "gate \<Rightarrow> string \<Rightarrow> string set" where
  "orgDisabledSet G orgID = (case gt_fetch G orgID of None \<Rightarrow> {} | Some xs \<Rightarrow> set xs)"

definition serviceDisabledForOrg :: "gate \<Rightarrow> string \<Rightarrow> string \<Rightarrow> bool" where
  "serviceDisabledForOrg G orgID service =
     (if \<not> gt_configured G then False
      else if service \<in> gateCoreServices then False
      else service \<in> orgDisabledSet G (if orgID = [] then ''default'' else orgID))"

section \<open>Evaluation\<close>

record PermissionsCheck =
  pc_Service :: string
  pc_Action :: string
  pc_Resource :: string
  pc_UserID :: string
  pc_OrgID :: "string option"
  pc_TeamID :: "string option"
  pc_Granted :: bool

record evalResult =
  ev_granted :: bool
  ev_detail :: permissionDenial
  ev_err :: "dbErr option"
  ev_check :: PermissionsCheck

fun loadPermissions :: "gkDB \<Rightarrow> string list \<Rightarrow> dbErr + Permissions list" where
  "loadPermissions db [] = Inr []"
| "loadPermissions db (pid # pids) =
     (case getPermission db pid of
        Inl e \<Rightarrow> Inl e
      | Inr p \<Rightarrow> (case loadPermissions db pids of Inl e \<Rightarrow> Inl e | Inr ps \<Rightarrow> Inr (p # ps)))"

text \<open>
  Loading one of the user's own roles into the labels and permissions gathered so far.  A role or
  permission that cannot be read aborts the evaluation, with the labels recorded until then.
\<close>

definition loadRole ::
  "gkDB \<Rightarrow> string option \<Rightarrow> string list \<times> Permissions list
   \<Rightarrow> (string list \<times> dbErr) + (string list \<times> Permissions list)" where
  "loadRole db rid = (\<lambda>(labels, perms).
     (case rid of
        None \<Rightarrow> Inr (labels, perms)
      | Some i \<Rightarrow>
          (case getRole db i of
             Inl e \<Rightarrow> Inl (labels, e)
           | Inr role \<Rightarrow>
               (case loadPermissions db (ro_PermissionsIDs role) of
                  Inl e \<Rightarrow> Inl (appendRoleLabel labels role, e)
                | Inr ps \<Rightarrow> Inr (appendRoleLabel labels role, perms @ ps)))))"

text \<open>The role of the user's team; a team that cannot be loaded is a stale reference.\<close>

definition teamRole :: "gkDB \<Rightarrow> User \<Rightarrow> string option" where
  "teamRole db user =
     (case us_TeamID user of
        None \<Rightarrow> None
      | Some tid \<Rightarrow> (case getTeam db tid of Inl _ \<Rightarrow> None | Inr team \<Rightarrow> te_RoleID team))"

text \<open>A role assigned by a namespace owner; what cannot be read is skipped.\<close>

definition readable :: "gkDB \<Rightarrow> string list \<Rightarrow> Permissions list" where
  "readable db ids = List.map_filter (\<lambda>pid. case getPermission db pid of Inl _ \<Rightarrow> None | Inr p \<Rightarrow> Some p) ids"

definition addMembership ::
  "gkDB \<Rightarrow> RoleMembership \<Rightarrow> string list \<times> Permissions list \<Rightarrow> string list \<times> Permissions list" where
  "addMembership db m = (\<lambda>(labels, perms).
     (case getRole db (rm_RoleID m) of
        Inl _ \<Rightarrow> (labels, perms)
      | Inr role \<Rightarrow> (appendRoleLabel labels role, perms @ readable db (ro_PermissionsIDs role))))"

definition addMemberships ::
  "gkDB \<Rightarrow> string \<Rightarrow> string list \<times> Permissions list \<Rightarrow> string list \<times> Permissions list" where
  "addMemberships db userID acc =
     (case membershipsOf db userID of Inl _ \<Rightarrow> acc | Inr ms \<Rightarrow> fold (addMembership db) ms acc)"

definition gatherPermissions ::
  "gkDB \<Rightarrow> User \<Rightarrow> string \<Rightarrow> (string list \<times> dbErr) + (string list \<times> Permissions list)" where
  "gatherPermissions db user userID =
     (case loadRole db (us_RoleID user) ([], []) of
        Inl e \<Rightarrow> Inl e
      | Inr acc1 \<Rightarrow>
          (case loadRole db (us_DefaultRoleID user) acc1 of
             Inl e \<Rightarrow> Inl e
           | Inr acc2 \<Rightarrow>
               (case loadRole db (teamRole db user) acc2 of
                  Inl e \<Rightarrow> Inl e
                | Inr acc3 \<Rightarrow> Inr (addMemberships db userID acc3))))"

definition anyMatch :: "Permissions list \<Rightarrow> string \<Rightarrow> string \<Rightarrow> string \<Rightarrow> bool" where
  "anyMatch perms service action resource \<longleftrightarrow> (\<exists>p\<in>set perms. matchPermission p service action resource)"

definition evalResultOf ::
  "PermissionsCheck \<Rightarrow> string list \<Rightarrow> string \<Rightarrow> bool \<Rightarrow> dbErr option \<Rightarrow> evalResult" where
  "evalResultOf pc labels resource granted err =
     \<lparr>ev_granted = granted,
      ev_detail = \<lparr>de_Roles = labels, de_Service = pc_Service pc, de_Action = pc_Action pc, de_Resource = resource\<rparr>,
      ev_err = err, ev_check = pc\<lparr>pc_Granted := granted\<rparr>\<rparr>"

text \<open>A session with a scoped role: only that role counts, and whatever fails is a denial.\<close>

definition evaluateScoped :: "gkDB \<Rightarrow> PermissionsCheck \<Rightarrow> string \<Rightarrow> string \<Rightarrow> evalResult" where
  "evaluateScoped db pc scopedRoleID resource =
     (case getRole db scopedRoleID of
        Inl _ \<Rightarrow> evalResultOf pc [] resource False None
      | Inr role \<Rightarrow>
          (let labels = appendRoleLabel [] role
           in if ro_PermissionsIDs role = [] then evalResultOf pc labels resource False None
              else (case activePermissionsIn db (ro_PermissionsIDs role) of
                      Inl _ \<Rightarrow> evalResultOf pc labels resource False None
                    | Inr perms \<Rightarrow>
                        evalResultOf pc labels resource (anyMatch perms (pc_Service pc) (pc_Action pc) resource) None)))"

definition evaluateOwn :: "gkDB \<Rightarrow> PermissionsCheck \<Rightarrow> User \<Rightarrow> string \<Rightarrow> evalResult" where
  "evaluateOwn db pc user resource =
     (case gatherPermissions db user (pc_UserID pc) of
        Inl (labels, e) \<Rightarrow> evalResultOf pc labels resource False (Some e)
      | Inr (labels, perms) \<Rightarrow>
          evalResultOf pc labels resource (anyMatch perms (pc_Service pc) (pc_Action pc) resource) None)"

definition orgNameOf :: "gkDB \<Rightarrow> string option \<Rightarrow> string" where
  "orgNameOf db orgID =
     (case orgID of None \<Rightarrow> [] | Some i \<Rightarrow> (case getOrg db i of Inl _ \<Rightarrow> [] | Inr org \<Rightarrow> og_OrgName org))"

text \<open>
  \<open>evaluatePermissions\<close>; \<open>scopedRoleID\<close> is the context value the middleware set, empty for an
  ordinary session.
\<close>

definition evaluatePermissions ::
  "gkDB \<Rightarrow> gate \<Rightarrow> string \<Rightarrow> string \<Rightarrow> string \<Rightarrow> string \<Rightarrow> string \<Rightarrow> evalResult" where
  "evaluatePermissions db G scopedRoleID userID service action resource0 =
     (let pc0 = \<lparr>pc_Service = service, pc_Action = action, pc_Resource = resource0, pc_UserID = userID,
                 pc_OrgID = None, pc_TeamID = None, pc_Granted = False\<rparr>
      in case getUser db userID of
           Inl e \<Rightarrow> evalResultOf pc0 [] resource0 False (Some e)
         | Inr user \<Rightarrow>
             (let pc = pc0\<lparr>pc_TeamID := us_TeamID user, pc_OrgID := us_OrgID user\<rparr>;
                  resource = scopeResource resource0 (us_Username user) (orgNameOf db (us_OrgID user)) service;
                  gateOrgID = (case us_OrgID user of None \<Rightarrow> [] | Some i \<Rightarrow> i)
              in if serviceDisabledForOrg G gateOrgID service then evalResultOf pc [] resource False None
                 else if scopedRoleID \<noteq> [] then evaluateScoped db pc scopedRoleID resource
                 else evaluateOwn db pc user resource))"

definition checkPermissions ::
  "gkDB \<Rightarrow> gate \<Rightarrow> string \<Rightarrow> string \<Rightarrow> string \<Rightarrow> string \<Rightarrow> string \<Rightarrow> bool \<times> dbErr option" where
  "checkPermissions db G scopedRoleID userID service action resource =
     (let r = evaluatePermissions db G scopedRoleID userID service action resource in (ev_granted r, ev_err r))"

text \<open>\<open>requirePermission\<close>: the decision, and on a refusal what the 403 carries.\<close>

datatype permitted = Permitted | ForbiddenPlain | ForbiddenWith denialReason

definition requirePermission ::
  "gkDB \<Rightarrow> gate \<Rightarrow> string \<Rightarrow> string \<Rightarrow> string \<Rightarrow> string \<Rightarrow> permitted" where
  "requirePermission db G scopedRoleID userID action resource =
     (let r = evaluatePermissions db G scopedRoleID userID ''gatekeeper'' action resource
      in if ev_err r \<noteq> None then ForbiddenPlain
         else if \<not> ev_granted r then ForbiddenWith (denialReasonOf (ev_detail r))
         else Permitted)"

section \<open>Clients\<close>

record clientResult =
  cr_granted :: bool
  cr_orgID :: "string option"
  cr_detail :: permissionDenial
  cr_err :: "dbErr option"

definition clientResource :: "gkDB \<Rightarrow> string option \<Rightarrow> string \<Rightarrow> string" where
  "clientResource db orgID resource =
     (let orgName = orgNameOf db orgID
      in if orgName \<noteq> [] \<and> \<not> HasPrefix resource (''org/'' @ orgName @ ''/'')
         then ''org/'' @ orgName @ ''/'' @ resource else resource)"

definition checkClientPermissions :: "gkDB \<Rightarrow> string \<Rightarrow> string \<Rightarrow> string \<Rightarrow> string \<Rightarrow> clientResult" where
  "checkClientPermissions db clientID service action resource0 =
     (let result = (\<lambda>granted orgID labels resource err.
            \<lparr>cr_granted = granted, cr_orgID = orgID,
             cr_detail = \<lparr>de_Roles = labels, de_Service = service, de_Action = action, de_Resource = resource\<rparr>,
             cr_err = err\<rparr>)
      in case getOAuthClientByClientID db clientID of
           Inl e \<Rightarrow> result False None [] resource0 (Some e)
         | Inr client \<Rightarrow>
             (let orgID = (if oc_OrgID client = [] then None else Some (oc_OrgID client));
                  resource = clientResource db orgID resource0
              in case oc_RoleID client of
                   None \<Rightarrow> result False orgID [] resource None
                 | Some rid \<Rightarrow>
                     (case getRole db rid of
                        Inl _ \<Rightarrow> result False orgID [] resource None
                      | Inr role \<Rightarrow>
                          (let labels = appendRoleLabel [] role
                           in if ro_PermissionsIDs role = [] then result False orgID labels resource None
                              else (case activePermissionsIn db (ro_PermissionsIDs role) of
                                      Inl _ \<Rightarrow> result False orgID labels resource None
                                    | Inr perms \<Rightarrow>
                                        result (anyMatch perms service action resource) orgID labels resource None)))))"

section \<open>The check endpoint\<close>

record checkRequest =
  cq_Service :: string
  cq_Resource :: string
  cq_Action :: string

record denialBody =
  dn_role :: string
  dn_service :: string
  dn_action :: string
  dn_resource :: string
  dn_reason :: denialReason

record checkBody =
  cb_authorized :: bool
  cb_subject :: string
  cb_username :: "string option"
  cb_orgID :: "string option"
  cb_denial :: "denialBody option"

datatype checkResponse = BadRequest | Forbidden | InternalError | CheckOK checkBody

definition denialResponse ::
  "bool \<Rightarrow> string \<Rightarrow> string \<Rightarrow> string option \<Rightarrow> permissionDenial \<Rightarrow> checkBody" where
  "denialResponse authorized subjectID username orgID d =
     \<lparr>cb_authorized = authorized, cb_subject = subjectID,
      cb_username = (if username = [] then None else Some username), cb_orgID = orgID,
      cb_denial = (if authorized then None
        else Some \<lparr>dn_role = rolesLabel d, dn_service = de_Service d, dn_action = de_Action d,
                   dn_resource = de_Resource d, dn_reason = denialReasonOf d\<rparr>)\<rparr>"

text \<open>\<open>body\<close> is the decoded request, \<open>None\<close> when it is no JSON object of that shape.\<close>

definition handleCheckPermissions ::
  "gkDB \<Rightarrow> gate \<Rightarrow> string \<Rightarrow> string \<Rightarrow> string \<Rightarrow> checkRequest option \<Rightarrow> checkResponse" where
  "handleCheckPermissions db G scopedRoleID clientID userID body =
     (case body of
        None \<Rightarrow> BadRequest
      | Some req \<Rightarrow>
          if clientID \<noteq> [] then
            (let r = checkClientPermissions db clientID (cq_Service req) (cq_Action req) (cq_Resource req)
             in case cr_err r of
                  Some ErrDatabase \<Rightarrow> InternalError
                | Some ErrRecordNotFound \<Rightarrow> Forbidden
                | None \<Rightarrow> CheckOK (denialResponse (cr_granted r) clientID [] (cr_orgID r) (cr_detail r)))
          else
            (let r = evaluatePermissions db G scopedRoleID userID (cq_Service req) (cq_Action req) (cq_Resource req)
             in case ev_err r of
                  Some ErrDatabase \<Rightarrow> InternalError
                | Some ErrRecordNotFound \<Rightarrow> Forbidden
                | None \<Rightarrow>
                    (case getUser db userID of
                       Inl _ \<Rightarrow> CheckOK (denialResponse (ev_granted r) userID [] None (ev_detail r))
                     | Inr u \<Rightarrow> CheckOK (denialResponse (ev_granted r) userID (us_Username u) (us_OrgID u)
                                         (ev_detail r)))))"

end
