(* ===== verification/Gk_Attenuate.thy ===== *)
theory Gk_Attenuate
  imports Gk_Evaluate "HOL-Library.Word"
begin

text \<open>
  Passing authority on: namespace roles (\<open>api_namespace_roles.go\<close>), scoped tokens
  (\<open>api_tokens.go\<close>) and the sessions that carry them (\<open>authMiddleware\<close> of
  \<open>api_helpers.go\<close>).  \<open>uuid.New\<close> and the JWT library are not part of the repository: fresh
  identifiers come from a numbered supply, and parsing, signing and verifying a token are
  parameters.  Times are nanoseconds.
\<close>

section \<open>Namespaces\<close>

definition callerNamespaces :: "gkDB \<Rightarrow> string \<Rightarrow> string \<times> string" where
  "callerNamespaces db userID =
     (case getUser db userID of
        Inl _ \<Rightarrow> ([], [])
      | Inr u \<Rightarrow> (us_Username u,
          (let name = orgNameOf db (us_OrgID u) in if name = [] then [] else ''org/'' @ name)))"

definition inOwnNamespace :: "string \<Rightarrow> string \<Rightarrow> string \<Rightarrow> bool" where
  "inOwnNamespace resource username orgNS \<longleftrightarrow>
     (username \<noteq> [] \<and> HasPrefix resource (username @ ''/'')) \<or> (orgNS \<noteq> [] \<and> HasPrefix resource (orgNS @ ''/''))"

definition inMemberProject :: "gkDB \<Rightarrow> string \<Rightarrow> string \<Rightarrow> bool" where
  "inMemberProject db callerID resource =
     (case CutPrefix resource ''project/'' of
        None \<Rightarrow> False
      | Some rest \<Rightarrow>
          (let slug = takeWhile (\<lambda>c. c \<noteq> CHR ''/'') rest
           in case afterSlash rest of
                None \<Rightarrow> False
              | Some inner \<Rightarrow>
                  if slug = [] \<or> inner = [] then False
                  else (case getProjectBySlug db slug of
                          Inl _ \<Rightarrow> False
                        | Inr p \<Rightarrow> pj_Active p \<and> isProjectMember db callerID p)))"

section \<open>Attenuated permissions\<close>

record permissionSpec =
  sp_Name :: string
  sp_Service :: string
  sp_Action :: string
  sp_Resource :: string

datatype attenuationError = AttNeedsFields | AttOutside string | AttNotHeld string string | AttInternal

fun attStatus :: "attenuationError \<Rightarrow> nat" where
  "attStatus AttNeedsFields = 400"
| "attStatus (AttOutside r) = 403"
| "attStatus (AttNotHeld a r) = 403"
| "attStatus AttInternal = 500"

definition mintedPermission :: "string \<Rightarrow> string \<Rightarrow> string \<Rightarrow> permissionSpec \<Rightarrow> Permissions" where
  "mintedPermission pid namePrefix callerID p =
     \<lparr>pm_PermissionsID = pid, pm_Name = namePrefix @ '':'' @ sp_Action p, pm_Service = sp_Service p,
      pm_Actions = [sp_Action p], pm_Resources = [sp_Resource p], pm_OwnerID = callerID,
      pm_OrgID = None, pm_Active = True\<rparr>"

text \<open>What a request is evaluated with: the gate and the scoped role of its session.\<close>

record caller =
  ca_ID :: string
  ca_scoped :: string
  ca_gate :: gate

text \<open>
  The loop of \<open>attenuatedPermissions\<close>; \<open>uuid n\<close> is the n-th fresh identifier.  Rows added before
  a later refusal stay.
\<close>

fun attenuatedPermissions ::
  "(nat \<Rightarrow> string) \<Rightarrow> caller \<Rightarrow> string \<Rightarrow> string \<Rightarrow> string \<Rightarrow> permissionSpec list \<Rightarrow> gkDB \<Rightarrow> nat
   \<Rightarrow> (attenuationError + string list) \<times> gkDB \<times> nat" where
  "attenuatedPermissions uuid ca username orgNS namePrefix [] db n = (Inr [], db, n)"
| "attenuatedPermissions uuid ca username orgNS namePrefix (p # ps) db n =
     (if sp_Service p = [] \<or> sp_Action p = [] \<or> sp_Resource p = [] then (Inl AttNeedsFields, db, n)
      else if \<not> inOwnNamespace (sp_Resource p) username orgNS \<and> \<not> inMemberProject db (ca_ID ca) (sp_Resource p)
      then (Inl (AttOutside (sp_Resource p)), db, n)
      else (case checkPermissions db (ca_gate ca) (ca_scoped ca) (ca_ID ca) (sp_Service p) (sp_Action p) (sp_Resource p) of
              (granted, Some e) \<Rightarrow> (Inl AttInternal, db, n)
            | (granted, None) \<Rightarrow>
                if \<not> granted then (Inl (AttNotHeld (sp_Action p) (sp_Resource p)), db, n)
                else (case addPermission (mintedPermission (uuid n) namePrefix (ca_ID ca) p) db of
                        None \<Rightarrow> (Inl AttInternal, db, n + 1)
                      | Some db1 \<Rightarrow>
                          (case attenuatedPermissions uuid ca username orgNS namePrefix ps db1 (n + 1) of
                             (Inl e, db2, m) \<Rightarrow> (Inl e, db2, m)
                           | (Inr ids, db2, m) \<Rightarrow> (Inr (uuid n # ids), db2, m)))))"

section \<open>Namespace roles\<close>

datatype 'a reply =
    Replied 'a
  | UnknownCaller
  | PermissionRefused permitted
  | BadBody
  | NameAndPermissions
  | ExpiryProblem string
  | AttenuationRefused attenuationError
  | RoleNotFound
  | NoSuchUser
  | TokenNotFound
  | ServerError

record namespaceRoleRequest =
  nr_Name :: string
  nr_Permissions :: "permissionSpec list"

definition namespaceRole :: "string \<Rightarrow> string \<Rightarrow> string list \<Rightarrow> string \<Rightarrow> Role" where
  "namespaceRole rid name ids ownerID =
     \<lparr>ro_RoleID = rid, ro_Name = name, ro_PermissionsIDs = ids, ro_OrgID = None, ro_OwnerID = ownerID, ro_Active = True\<rparr>"

definition handleCreateNamespaceRole ::
  "(nat \<Rightarrow> string) \<Rightarrow> caller \<Rightarrow> namespaceRoleRequest option \<Rightarrow> gkDB \<Rightarrow> nat \<Rightarrow> Role reply \<times> gkDB \<times> nat" where
  "handleCreateNamespaceRole uuid ca body db n =
     (case callerNamespaces db (ca_ID ca) of (username, orgNS) \<Rightarrow>
        if username = [] then (UnknownCaller, db, n)
        else (case requirePermission db (ca_gate ca) (ca_scoped ca) (ca_ID ca) ''createNamespaceRole''
                     (username @ ''/gatekeeper/roles'') of
                Permitted \<Rightarrow>
                  (case body of
                     None \<Rightarrow> (BadBody, db, n)
                   | Some req \<Rightarrow>
                       if TrimSpace (nr_Name req) = [] \<or> nr_Permissions req = [] then (NameAndPermissions, db, n)
                       else (case attenuatedPermissions uuid ca username orgNS
                                    (''ns:'' @ username @ '':'' @ nr_Name req) (nr_Permissions req) db n of
                               (Inl e, db1, m) \<Rightarrow> (AttenuationRefused e, db1, m)
                             | (Inr ids, db1, m) \<Rightarrow>
                                 (let role = namespaceRole (uuid m) (nr_Name req) ids (ca_ID ca)
                                  in case addRole role db1 of
                                       None \<Rightarrow> (ServerError, db1, m + 1)
                                     | Some db2 \<Rightarrow> (Replied role, db2, m + 1))))
              | refused \<Rightarrow> (PermissionRefused refused, db, n)))"

definition ownedRole :: "gkDB \<Rightarrow> string \<Rightarrow> string \<Rightarrow> Role option" where
  "ownedRole db callerID roleID =
     (case getRole db roleID of
        Inl _ \<Rightarrow> None
      | Inr role \<Rightarrow> if ro_OwnerID role \<noteq> callerID then None else Some role)"

definition handleAssignRole :: "string \<Rightarrow> string \<Rightarrow> string \<Rightarrow> gkDB \<Rightarrow> RoleMembership reply \<times> gkDB" where
  "handleAssignRole callerID roleID targetID db =
     (case ownedRole db callerID roleID of
        None \<Rightarrow> (RoleNotFound, db)
      | Some role \<Rightarrow>
          (case getUser db targetID of
             Inl _ \<Rightarrow> (NoSuchUser, db)
           | Inr u \<Rightarrow>
               (let m = \<lparr>rm_RoleID = ro_RoleID role, rm_UserID = targetID, rm_GrantedBy = callerID\<rparr>
                in case putMembership m db of
                     None \<Rightarrow> (ServerError, db)
                   | Some db1 \<Rightarrow> (Replied m, db1))))"

definition handleListRoleMembers :: "string \<Rightarrow> string \<Rightarrow> gkDB \<Rightarrow> RoleMembership list reply" where
  "handleListRoleMembers callerID roleID db =
     (case ownedRole db callerID roleID of
        None \<Rightarrow> RoleNotFound
      | Some role \<Rightarrow>
          (case findRows (db_down db TMemberships) (\<lambda>m. rm_RoleID m = ro_RoleID role) (db_memberships db) of
             Inl _ \<Rightarrow> ServerError
           | Inr ms \<Rightarrow> Replied ms))"

definition handleRevokeRole :: "string \<Rightarrow> string \<Rightarrow> string \<Rightarrow> gkDB \<Rightarrow> unit reply \<times> gkDB" where
  "handleRevokeRole callerID roleID targetID db =
     (case ownedRole db callerID roleID of
        None \<Rightarrow> (RoleNotFound, db)
      | Some role \<Rightarrow>
          (case deleteMembership (ro_RoleID role) targetID db of
             None \<Rightarrow> (ServerError, db)
           | Some db1 \<Rightarrow> (Replied (), db1)))"

section \<open>Run roles of other services\<close>

text \<open>
  \<open>handleCreateWorkflowRole\<close>: the permissions of a workflow that its owner holds, the others
  dropped, in a role of their own.
\<close>

definition canMintScopedRoles :: "string \<Rightarrow> bool" where
  "canMintScopedRoles service \<longleftrightarrow>
     service = ''workflows'' \<or> service = ''forge'' \<or> service = ''git_connector'' \<or> service = ''blacksmith''"

record workflowRoleRequest =
  wr_WorkflowID :: string
  wr_UserID :: string
  wr_Permissions :: "permissionSpec list"

definition workflowPermission ::
  "string \<Rightarrow> workflowRoleRequest \<Rightarrow> string option \<Rightarrow> string \<Rightarrow> permissionSpec \<Rightarrow> Permissions" where
  "workflowPermission pid req orgID resource p =
     \<lparr>pm_PermissionsID = pid,
      pm_Name = ''workflow:'' @ wr_WorkflowID req @ '':'' @
        (if sp_Name p = [] then sp_Service p @ ''.'' @ sp_Action p else sp_Name p),
      pm_Service = sp_Service p, pm_Actions = [sp_Action p], pm_Resources = [resource],
      pm_OwnerID = wr_UserID req, pm_OrgID = orgID, pm_Active = True\<rparr>"

fun workflowPermissions ::
  "(nat \<Rightarrow> string) \<Rightarrow> gate \<Rightarrow> workflowRoleRequest \<Rightarrow> string \<Rightarrow> string \<Rightarrow> string option \<Rightarrow> permissionSpec list
   \<Rightarrow> gkDB \<Rightarrow> nat \<Rightarrow> (string list option) \<times> gkDB \<times> nat" where
  "workflowPermissions uuid G req username orgName orgID [] db n = (Some [], db, n)"
| "workflowPermissions uuid G req username orgName orgID (p # ps) db n =
     (if sp_Service p = [] \<or> sp_Action p = [] \<or> sp_Resource p = []
      then workflowPermissions uuid G req username orgName orgID ps db n
      else (case checkPermissions db G [] (wr_UserID req) (sp_Service p) (sp_Action p) (sp_Resource p) of
              (granted, err) \<Rightarrow>
                if err \<noteq> None \<or> \<not> granted then workflowPermissions uuid G req username orgName orgID ps db n
                else (case addPermission (workflowPermission (uuid n) req orgID
                              (scopeResource (sp_Resource p) username orgName (sp_Service p)) p) db of
                        None \<Rightarrow> (None, db, n + 1)
                      | Some db1 \<Rightarrow>
                          (case workflowPermissions uuid G req username orgName orgID ps db1 (n + 1) of
                             (None, db2, m) \<Rightarrow> (None, db2, m)
                           | (Some ids, db2, m) \<Rightarrow> (Some (uuid n # ids), db2, m)))))"

definition ownerScope :: "gkDB \<Rightarrow> string \<Rightarrow> string \<times> string \<times> string option" where
  "ownerScope db uid =
     (case getUser db uid of
        Inl _ \<Rightarrow> ([], [], None)
      | Inr u \<Rightarrow> (us_Username u, orgNameOf db (us_OrgID u), us_OrgID u))"

definition removePermission :: "string \<Rightarrow> gkDB \<Rightarrow> gkDB" where
  "removePermission pid db =
     (if db_ro db TPermissions then db
      else db\<lparr>db_permissions :=
             map (\<lambda>p. if pm_PermissionsID p = pid then p\<lparr>pm_Active := False\<rparr> else p) (db_permissions db)\<rparr>)"

definition handleCreateWorkflowRole ::
  "(nat \<Rightarrow> string) \<Rightarrow> gate \<Rightarrow> string \<Rightarrow> workflowRoleRequest option \<Rightarrow> gkDB \<Rightarrow> nat \<Rightarrow> Role reply \<times> gkDB \<times> nat" where
  "handleCreateWorkflowRole uuid G service body db n =
     (if \<not> canMintScopedRoles service then (PermissionRefused ForbiddenPlain, db, n)
      else (case body of
              None \<Rightarrow> (BadBody, db, n)
            | Some req \<Rightarrow>
                if wr_WorkflowID req = [] \<or> wr_UserID req = [] then (BadBody, db, n)
                else (case ownerScope db (wr_UserID req) of (username, orgName, orgID) \<Rightarrow>
                        (case workflowPermissions uuid G req username orgName orgID (wr_Permissions req) db n of
                           (None, db1, m) \<Rightarrow> (ServerError, db1, m)
                         | (Some ids, db1, m) \<Rightarrow>
                             (let role = \<lparr>ro_RoleID = uuid m, ro_Name = ''workflow:'' @ wr_WorkflowID req,
                                         ro_PermissionsIDs = ids, ro_OrgID = orgID, ro_OwnerID = wr_UserID req,
                                         ro_Active = True\<rparr>
                              in case addRole role db1 of
                                   None \<Rightarrow> (ServerError, fold removePermission ids db1, m + 1)
                                 | Some db2 \<Rightarrow> (Replied role, db2, m + 1))))))"

definition handleDeleteWorkflowRole :: "string \<Rightarrow> string \<Rightarrow> gkDB \<Rightarrow> unit reply \<times> gkDB" where
  "handleDeleteWorkflowRole service roleID db =
     (if \<not> canMintScopedRoles service then (PermissionRefused ForbiddenPlain, db)
      else (case getRole db roleID of
              Inl _ \<Rightarrow> (Replied (), db)
            | Inr role \<Rightarrow>
                if \<not> HasPrefix (ro_Name role) ''workflow:'' then (PermissionRefused ForbiddenPlain, db)
                else (let db1 = fold removePermission (ro_PermissionsIDs role) db
                      in case deactivateRole (ro_RoleID role) db1 of
                           None \<Rightarrow> (ServerError, db1)
                         | Some db2 \<Rightarrow> (Replied (), db2))))"

section \<open>Token lifetime\<close>

text \<open>
  \<open>time.Duration\<close> is a signed 64-bit number of nanoseconds, and multiplying one wraps around.
\<close>

definition second :: int where "second = 1000000000"

definition dayNanos :: "64 word" where "dayNanos = 24 * (3600 * 1000000000)"

definition maxTokenLifetime :: int where "maxTokenLifetime = 365 * 24 * 3600 * second"

definition defaultTokenLifetime :: int where "defaultTokenLifetime = 90 * 24 * 3600 * second"

definition truncSecond :: "int \<Rightarrow> int" where "truncSecond t = t - t mod second"

record createTokenRequest =
  ct_Name :: string
  ct_ExpiresInDays :: "64 word"
  ct_ExpiresAt :: "int option"
  ct_Permissions :: "permissionSpec list"

definition resolveTokenExpiry :: "createTokenRequest \<Rightarrow> int \<Rightarrow> string + int" where
  "resolveTokenExpiry req now =
     (case ct_ExpiresAt req of
        Some t \<Rightarrow>
          (let exp = truncSecond t
           in if \<not> exp > now then Inl ''expires_at must be in the future''
              else if exp > now + maxTokenLifetime then Inl ''expires_at is more than a year away''
              else Inr exp)
      | None \<Rightarrow>
          if sint (ct_ExpiresInDays req) > 0 then
            (let d = sint (ct_ExpiresInDays req * dayNanos)
             in if d > maxTokenLifetime then Inl ''expires_in_days is more than a year''
                else Inr (truncSecond (now + d)))
          else if sint (ct_ExpiresInDays req) < 0 then Inl ''expires_in_days must be positive''
          else Inr (truncSecond (now + defaultTokenLifetime)))"

section \<open>Scoped tokens\<close>

text \<open>
  \<open>mint\<close> is the key generation and signing for a session id: the token and the PEM of the
  session's public key, or a failure.
\<close>

definition mintScopedSession ::
  "(string \<Rightarrow> (string \<times> string) option) \<Rightarrow> (nat \<Rightarrow> string) \<Rightarrow> string \<Rightarrow> string \<Rightarrow> int \<Rightarrow> gkDB \<Rightarrow> nat
   \<Rightarrow> (string \<times> string \<times> gkDB) option" where
  "mintScopedSession mint uuid userID roleID expiresAt db n =
     (case mint (uuid n) of
        None \<Rightarrow> None
      | Some (token, pem) \<Rightarrow>
          (case addSession \<lparr>se_SessionID = uuid n, se_UserID = userID, se_ExpiresAt = expiresAt, se_PubKey = pem,
                            se_ScopedRoleID = Some roleID, se_ClientID = None, se_Active = True\<rparr> db of
             None \<Rightarrow> None
           | Some db1 \<Rightarrow> Some (token, uuid n, db1)))"

record mintedToken =
  mt_token :: string
  mt_record :: PersonalToken
  mt_role :: Role

definition handleCreateToken ::
  "(string \<Rightarrow> (string \<times> string) option) \<Rightarrow> (nat \<Rightarrow> string) \<Rightarrow> caller \<Rightarrow> int \<Rightarrow> createTokenRequest option \<Rightarrow> gkDB \<Rightarrow> nat
   \<Rightarrow> mintedToken reply \<times> gkDB \<times> nat" where
  "handleCreateToken mint uuid ca now body db n =
     (case callerNamespaces db (ca_ID ca) of (username, orgNS) \<Rightarrow>
        if username = [] then (UnknownCaller, db, n)
        else (case requirePermission db (ca_gate ca) (ca_scoped ca) (ca_ID ca) ''createToken''
                     (username @ ''/gatekeeper/tokens'') of
                Permitted \<Rightarrow>
                  (case body of
                     None \<Rightarrow> (BadBody, db, n)
                   | Some req \<Rightarrow>
                       (let name = TrimSpace (ct_Name req); roleName = ''token:'' @ username @ '':'' @ name
                        in if name = [] \<or> ct_Permissions req = [] then (NameAndPermissions, db, n)
                           else (case resolveTokenExpiry req now of
                                   Inl problem \<Rightarrow> (ExpiryProblem problem, db, n)
                                 | Inr expiresAt \<Rightarrow>
                                     (case attenuatedPermissions uuid ca username orgNS roleName (ct_Permissions req) db n of
                                        (Inl e, db1, m) \<Rightarrow> (AttenuationRefused e, db1, m)
                                      | (Inr ids, db1, m) \<Rightarrow>
                                          (let role = namespaceRole (uuid m) roleName ids (ca_ID ca)
                                           in case addRole role db1 of
                                                None \<Rightarrow> (ServerError, db1, m + 1)
                                              | Some db2 \<Rightarrow>
                                                  (case mintScopedSession mint uuid (ca_ID ca) (ro_RoleID role) expiresAt db2 (m + 1) of
                                                     None \<Rightarrow> (ServerError, db2, m + 2)
                                                   | Some (token, sid, db3) \<Rightarrow>
                                                       (let rec = \<lparr>pt_TokenID = uuid (m + 2), pt_UserID = ca_ID ca, pt_Name = name,
                                                              pt_SessionID = sid, pt_RoleID = ro_RoleID role,
                                                              pt_ExpiresAt = expiresAt, pt_LastUsedAt = None, pt_Active = True\<rparr>
                                                        in case addToken rec db3 of
                                                             None \<Rightarrow> (ServerError, db3, m + 3)
                                                           | Some db4 \<Rightarrow>
                                                               (Replied \<lparr>mt_token = token, mt_record = rec, mt_role = role\<rparr>,
                                                                db4, m + 3))))))))
              | refused \<Rightarrow> (PermissionRefused refused, db, n)))"

text \<open>
  \<open>handleRevokeToken\<close>: the session first, then the role (a failure there is only logged), then
  the record.
\<close>

definition handleRevokeToken :: "caller \<Rightarrow> string \<Rightarrow> gkDB \<Rightarrow> unit reply \<times> gkDB" where
  "handleRevokeToken ca tokenID db =
     (case callerNamespaces db (ca_ID ca) of (username, orgNS) \<Rightarrow>
        if username = [] then (UnknownCaller, db)
        else (case requirePermission db (ca_gate ca) (ca_scoped ca) (ca_ID ca) ''deleteToken''
                     (username @ ''/gatekeeper/tokens'') of
                Permitted \<Rightarrow>
                  (case getTokenForUser db (ca_ID ca) tokenID of
                     Inl _ \<Rightarrow> (TokenNotFound, db)
                   | Inr rec \<Rightarrow>
                       (case removeSession (pt_SessionID rec) db of
                          None \<Rightarrow> (ServerError, db)
                        | Some db1 \<Rightarrow>
                            (let db2 = (case deactivateRole (pt_RoleID rec) db1 of None \<Rightarrow> db1 | Some d \<Rightarrow> d)
                             in case deactivateToken (pt_TokenID rec) db2 of
                                  None \<Rightarrow> (ServerError, db2)
                                | Some db3 \<Rightarrow> (Replied (), db3))))
              | refused \<Rightarrow> (PermissionRefused refused, db)))"

section \<open>The authentication middleware\<close>

text \<open>
  The JWT library: the session id of a token before verification, and the subject of a token
  verified against a key (signature, signing method, issuer, times).
\<close>

record jwtLib =
  jw_jti :: "string \<Rightarrow> string option"
  jw_pem :: "string \<Rightarrow> string option"
  jw_verify :: "string \<Rightarrow> string \<Rightarrow> string option"

datatype bearerReject = NoBearer | InvalidToken | ExpiredToken int

datatype authResult =
    AuthReject bearerReject
  | AuthInternal
  | AuthAccept string string string

definition bearerToken :: "string option \<Rightarrow> string option \<Rightarrow> string option" where
  "bearerToken header cookie =
     (let h = (case header of None \<Rightarrow> [] | Some v \<Rightarrow> v);
          h1 = (if HasPrefix h ''Bearer '' then h
                else case cookie of
                       Some c \<Rightarrow> if c \<noteq> [] then ''Bearer '' @ c else h
                     | None \<Rightarrow> h)
      in CutPrefix h1 ''Bearer '')"

definition optStr :: "string option \<Rightarrow> string" where
  "optStr x = (case x of None \<Rightarrow> [] | Some s \<Rightarrow> s)"

text \<open>An accepted request carries the subject, the client id and the scoped role, empty for none.\<close>

definition authMiddleware ::
  "jwtLib \<Rightarrow> gkDB \<Rightarrow> int \<Rightarrow> string option \<Rightarrow> string option \<Rightarrow> authResult" where
  "authMiddleware J db now header cookie =
     (case bearerToken header cookie of
        None \<Rightarrow> AuthReject NoBearer
      | Some token \<Rightarrow>
          (case jw_jti J token of
             None \<Rightarrow> AuthReject InvalidToken
           | Some jti \<Rightarrow>
               if jti = [] then AuthReject InvalidToken
               else (case getSession db jti of
                       Inl _ \<Rightarrow> AuthReject InvalidToken
                     | Inr session \<Rightarrow>
                         if now > se_ExpiresAt session then AuthReject (ExpiredToken (se_ExpiresAt session))
                         else (case jw_pem J (se_PubKey session) of
                                 None \<Rightarrow> AuthInternal
                               | Some key \<Rightarrow>
                                   (case jw_verify J key token of
                                      None \<Rightarrow> AuthReject InvalidToken
                                    | Some subject \<Rightarrow>
                                        if subject = [] then AuthReject InvalidToken
                                        else AuthAccept subject (optStr (se_ClientID session))
                                               (optStr (se_ScopedRoleID session)))))))"

end
