(* ===== verification/Gk_Authority.thy ===== *)
theory Gk_Authority
  imports Gk_Attenuate
begin

text \<open>
  The authority of a session: the permissions an evaluation consults.  The decision of
  \<open>evaluatePermissions\<close> is a match against it, its members are characterised by the rows of
  the database, and minting permissions with fresh identifiers leaves it as it is.
\<close>

section \<open>The decision in terms of the authority\<close>

definition authority :: "gkDB \<Rightarrow> string \<Rightarrow> User \<Rightarrow> string \<Rightarrow> Permissions list" where
  "authority db scopedRoleID user userID =
     (if scopedRoleID \<noteq> [] then
        (case getRole db scopedRoleID of
           Inl _ \<Rightarrow> []
         | Inr role \<Rightarrow>
             if ro_PermissionsIDs role = [] then []
             else (case activePermissionsIn db (ro_PermissionsIDs role) of Inl _ \<Rightarrow> [] | Inr ps \<Rightarrow> ps))
      else (case gatherPermissions db user userID of Inl _ \<Rightarrow> [] | Inr (labels, ps) \<Rightarrow> ps))"

definition scopedTo :: "gkDB \<Rightarrow> User \<Rightarrow> string \<Rightarrow> string \<Rightarrow> string" where
  "scopedTo db user service resource =
     scopeResource resource (us_Username user) (orgNameOf db (us_OrgID user)) service"

lemma evalResultOf_simps [simp]:
  "ev_granted (evalResultOf pc labels resource granted err) = granted"
  "ev_err (evalResultOf pc labels resource granted err) = err"
  "pc_Granted (ev_check (evalResultOf pc labels resource granted err)) = granted"
  "de_Resource (ev_detail (evalResultOf pc labels resource granted err)) = resource"
  by (simp_all add: evalResultOf_def)

lemma anyMatch_Nil [simp]: "anyMatch [] s a x = False"
  by (simp add: anyMatch_def)

lemma granted_authority:
  "ev_granted (evaluatePermissions db G scoped uid s a x) \<longleftrightarrow>
     (\<exists>user. getUser db uid = Inr user \<and> \<not> serviceDisabledForOrg G (optStr (us_OrgID user)) s
        \<and> anyMatch (authority db scoped user uid) s a (scopedTo db user s x))"
  by (auto simp: evaluatePermissions_def evaluateScoped_def evaluateOwn_def authority_def scopedTo_def
      optStr_def Let_def split: sum.split option.split)

text \<open>An evaluation never grants when something went wrong, and records what it decided.\<close>

lemma evaluate_closed:
  "pc_Granted (ev_check (evaluatePermissions db G scoped uid s a x))
     = ev_granted (evaluatePermissions db G scoped uid s a x)
   \<and> (ev_err (evaluatePermissions db G scoped uid s a x) \<noteq> None
       \<longrightarrow> \<not> ev_granted (evaluatePermissions db G scoped uid s a x))"
  by (auto simp: evaluatePermissions_def evaluateScoped_def evaluateOwn_def Let_def split: sum.split)

section \<open>The authority of an ordinary session\<close>

definition roleIDsOf :: "gkDB \<Rightarrow> User \<Rightarrow> string \<Rightarrow> string set" where
  "roleIDsOf db user uid =
     set_option (us_RoleID user) \<union> set_option (us_DefaultRoleID user) \<union> set_option (teamRole db user)
     \<union> {rm_RoleID m | m. m \<in> set (db_memberships db) \<and> rm_UserID m = uid \<and> \<not> db_down db TMemberships}"

definition effective :: "gkDB \<Rightarrow> User \<Rightarrow> string \<Rightarrow> Permissions set" where
  "effective db user uid =
     {p. \<exists>rid\<in>roleIDsOf db user uid. \<exists>role pid. getRole db rid = Inr role
           \<and> pid \<in> set (ro_PermissionsIDs role) \<and> getPermission db pid = Inr p}"

definition permsOfRole :: "gkDB \<Rightarrow> string \<Rightarrow> Permissions set" where
  "permsOfRole db rid = {p. \<exists>role pid. getRole db rid = Inr role \<and> pid \<in> set (ro_PermissionsIDs role)
     \<and> getPermission db pid = Inr p}"

lemma loadPermissions_set:
  "loadPermissions db pids = Inr ps \<Longrightarrow> set ps = {p. \<exists>pid\<in>set pids. getPermission db pid = Inr p}"
  by (induction pids arbitrary: ps) (auto split: sum.splits)

lemma readable_set: "set (readable db pids) = {p. \<exists>pid\<in>set pids. getPermission db pid = Inr p}"
  by (force simp: readable_def List.map_filter_def image_iff split: sum.splits)

lemma loadRole_set:
  "loadRole db rid (labels, perms) = Inr (labels', perms') \<Longrightarrow>
     set perms' = set perms \<union> (\<Union>i\<in>set_option rid. permsOfRole db i)"
  by (auto simp: loadRole_def permsOfRole_def split: option.splits sum.splits dest!: loadPermissions_set)

lemma addMembership_set:
  "set (snd (addMembership db m acc)) = set (snd acc) \<union> permsOfRole db (rm_RoleID m)"
  by (cases acc) (auto simp: addMembership_def permsOfRole_def readable_set split: sum.splits)

lemma addMemberships_fold:
  "set (snd (fold (addMembership db) ms acc)) = set (snd acc) \<union> (\<Union>m\<in>set ms. permsOfRole db (rm_RoleID m))"
  by (induction ms arbitrary: acc) (simp_all add: addMembership_set Un_assoc)

lemma addMemberships_set:
  "set (snd (addMemberships db uid acc)) = set (snd acc)
     \<union> (\<Union>m\<in>{m \<in> set (db_memberships db). rm_UserID m = uid \<and> \<not> db_down db TMemberships}. permsOfRole db (rm_RoleID m))"
  by (auto simp: addMemberships_def membershipsOf_def findRows_def addMemberships_fold)

lemma gather_set:
  assumes "gatherPermissions db user uid = Inr (labels, perms)"
  shows "set perms = effective db user uid"
proof -
  from assms obtain l1 p1 l2 p2 l3 p3 where
    a: "loadRole db (us_RoleID user) ([], []) = Inr (l1, p1)"
      "loadRole db (us_DefaultRoleID user) (l1, p1) = Inr (l2, p2)"
      "loadRole db (teamRole db user) (l2, p2) = Inr (l3, p3)"
      "addMemberships db uid (l3, p3) = (labels, perms)"
    by (auto simp: gatherPermissions_def split: sum.splits)
  have "set perms = set p3 \<union> (\<Union>m\<in>{m \<in> set (db_memberships db). rm_UserID m = uid \<and> \<not> db_down db TMemberships}.
      permsOfRole db (rm_RoleID m))"
    using addMemberships_set[of db uid "(l3, p3)"] unfolding a(4) by simp
  then show ?thesis
    using loadRole_set[OF a(1)] loadRole_set[OF a(2)] loadRole_set[OF a(3)]
    by (auto simp: effective_def permsOfRole_def roleIDsOf_def)
qed

section \<open>Fresh identifiers\<close>

text \<open>The permission ids some role of the database mentions.\<close>

definition referenced :: "gkDB \<Rightarrow> string set" where
  "referenced db = (\<Union>r\<in>set (db_roles db). set (ro_PermissionsIDs r))"

definition freshSupply :: "(nat \<Rightarrow> string) \<Rightarrow> gkDB \<Rightarrow> nat \<Rightarrow> bool" where
  "freshSupply uuid db n \<longleftrightarrow> inj uuid
     \<and> (\<forall>k\<ge>n. uuid k \<notin> referenced db \<and> uuid k \<notin> pm_PermissionsID ` set (db_permissions db)
              \<and> uuid k \<notin> ro_RoleID ` set (db_roles db) \<and> uuid k \<notin> se_SessionID ` set (db_sessions db) \<and> uuid k \<noteq> [])"

definition extendPerms :: "Permissions list \<Rightarrow> gkDB \<Rightarrow> gkDB" where
  "extendPerms rows db = db\<lparr>db_permissions := db_permissions db @ rows\<rparr>"

lemma extendPerms_simps [simp]:
  "db_users (extendPerms rows db) = db_users db" "db_orgs (extendPerms rows db) = db_orgs db"
  "db_roles (extendPerms rows db) = db_roles db" "db_teams (extendPerms rows db) = db_teams db"
  "db_memberships (extendPerms rows db) = db_memberships db" "db_projects (extendPerms rows db) = db_projects db"
  "db_sessions (extendPerms rows db) = db_sessions db" "db_tokens (extendPerms rows db) = db_tokens db"
  "db_permissions (extendPerms rows db) = db_permissions db @ rows"
  "db_down (extendPerms rows db) = db_down db" "db_ro (extendPerms rows db) = db_ro db"
  "extendPerms xs (extendPerms rows db) = extendPerms (rows @ xs) db" "extendPerms [] db = db"
  by (simp_all add: extendPerms_def)

lemma extendPerms_queries [simp]:
  "getUser (extendPerms rows db) = getUser db" "getOrg (extendPerms rows db) = getOrg db"
  "getRole (extendPerms rows db) = getRole db" "getTeam (extendPerms rows db) = getTeam db"
  "membershipsOf (extendPerms rows db) = membershipsOf db"
  "getProjectBySlug (extendPerms rows db) = getProjectBySlug db"
  "isProjectMember (extendPerms rows db) = isProjectMember db"
  "referenced (extendPerms rows db) = referenced db"
  by (simp_all add: fun_eq_iff getUser_def getOrg_def getRole_def getTeam_def membershipsOf_def getProjectBySlug_def
      isProjectMember_def referenced_def)

lemma extendPerms_derived [simp]:
  "orgNameOf (extendPerms rows db) = orgNameOf db" "teamRole (extendPerms rows db) = teamRole db"
  "inMemberProject (extendPerms rows db) = inMemberProject db"
  by (simp_all add: fun_eq_iff orgNameOf_def teamRole_def inMemberProject_def Let_def
      cong: option.case_cong sum.case_cong if_cong)

lemma extendPerms_scoped [simp]: "scopedTo (extendPerms rows db) = scopedTo db"
  by (simp add: fun_eq_iff scopedTo_def)

definition freshFor :: "gkDB \<Rightarrow> Permissions list \<Rightarrow> bool" where
  "freshFor db rows \<longleftrightarrow> (\<forall>p\<in>set rows. pm_PermissionsID p \<notin> referenced db)"

lemma find_append: "find P (xs @ ys) = (case find P xs of None \<Rightarrow> find P ys | Some x \<Rightarrow> Some x)"
  by (induction xs) auto

lemma extend_getPermission:
  assumes "freshFor db rows" "pid \<in> referenced db"
  shows "getPermission (extendPerms rows db) pid = getPermission db pid"
proof -
  have "find (\<lambda>r. pm_PermissionsID r = pid \<and> pm_Active r) rows = None"
    using assms by (auto simp: find_None_iff freshFor_def)
  then show ?thesis by (simp add: getPermission_def firstRow_def find_append split: option.split)
qed

lemma role_referenced: "getRole db rid = Inr role \<Longrightarrow> set (ro_PermissionsIDs role) \<subseteq> referenced db"
  by (auto simp: getRole_def referenced_def dest!: firstRow_Inr)

lemma extend_load:
  "freshFor db rows \<Longrightarrow> set pids \<subseteq> referenced db \<Longrightarrow>
     loadPermissions (extendPerms rows db) pids = loadPermissions db pids"
  by (induction pids) (simp_all add: extend_getPermission cong: sum.case_cong)

lemma extend_readable:
  assumes "freshFor db rows" "set pids \<subseteq> referenced db"
  shows "readable (extendPerms rows db) pids = readable db pids"
  using assms by (induction pids)
    (auto simp: readable_def List.map_filter_simps extend_getPermission split: option.split)

lemma extend_loadRole: "freshFor db rows \<Longrightarrow> loadRole (extendPerms rows db) rid acc = loadRole db rid acc"
  using role_referenced by (cases acc) (auto simp: loadRole_def extend_load split: option.split sum.split)

lemma extend_addMembership: "freshFor db rows \<Longrightarrow> addMembership (extendPerms rows db) = addMembership db"
  using role_referenced by (auto simp: fun_eq_iff addMembership_def extend_readable split: sum.split)

lemma extend_gather:
  "freshFor db rows \<Longrightarrow> gatherPermissions (extendPerms rows db) user uid = gatherPermissions db user uid"
  by (simp add: gatherPermissions_def extend_loadRole addMemberships_def extend_addMembership
      cong: sum.case_cong)

lemma extend_active:
  assumes "freshFor db rows" "set ids \<subseteq> referenced db"
  shows "activePermissionsIn (extendPerms rows db) ids = activePermissionsIn db ids"
proof -
  have "filter (\<lambda>r. pm_PermissionsID r \<in> set ids \<and> pm_Active r) rows = []"
    using assms by (auto simp: filter_empty_conv freshFor_def)
  then show ?thesis by (simp add: activePermissionsIn_def findRows_def)
qed

lemma extend_scoped:
  "freshFor db rows \<Longrightarrow> evaluateScoped (extendPerms rows db) pc rid x = evaluateScoped db pc rid x"
  using role_referenced by (auto simp: evaluateScoped_def extend_active Let_def split: sum.split)

lemma extend_own:
  "freshFor db rows \<Longrightarrow> evaluateOwn (extendPerms rows db) pc user x = evaluateOwn db pc user x"
  by (simp add: evaluateOwn_def extend_gather)

lemma extend_evaluate:
  "freshFor db rows \<Longrightarrow>
     evaluatePermissions (extendPerms rows db) G scoped uid s a x = evaluatePermissions db G scoped uid s a x"
  by (simp add: evaluatePermissions_def extend_scoped extend_own Let_def split: sum.split)

section \<open>What a minted set of permissions contains\<close>

definition mintedRows :: "(nat \<Rightarrow> string) \<Rightarrow> string \<Rightarrow> string \<Rightarrow> nat \<Rightarrow> permissionSpec list \<Rightarrow> Permissions list" where
  "mintedRows uuid namePrefix callerID n specs =
     map (\<lambda>(k, p). mintedPermission (uuid k) namePrefix callerID p) (enumerate n specs)"

lemma mintedRows_ids: "map pm_PermissionsID (mintedRows uuid pre c n specs) = map uuid [n..<n + length specs]"
  by (auto simp: mintedRows_def mintedPermission_def comp_def case_prod_unfold enumerate_eq_zip intro!: nth_equalityI)

lemma mintedRows_Cons:
  "mintedRows uuid pre c n (p # ps) = mintedPermission (uuid n) pre c p # mintedRows uuid pre c (Suc n) ps"
  by (simp add: mintedRows_def)

lemma attenuated_rows:
  assumes "attenuatedPermissions uuid ca username orgNS pre specs db n = (Inr ids, db', m)"
    and "\<forall>k\<ge>n. uuid k \<notin> referenced db"
  shows "db' = extendPerms (mintedRows uuid pre (ca_ID ca) n specs) db
    \<and> ids = map uuid [n..<n + length specs] \<and> m = n + length specs
    \<and> (\<forall>p\<in>set specs. (inOwnNamespace (sp_Resource p) username orgNS \<or> inMemberProject db (ca_ID ca) (sp_Resource p))
         \<and> checkPermissions db (ca_gate ca) (ca_scoped ca) (ca_ID ca) (sp_Service p) (sp_Action p) (sp_Resource p)
             = (True, None))"
  using assms
proof (induction specs arbitrary: db n ids)
  case Nil
  then show ?case by (simp add: mintedRows_def)
next
  case (Cons p ps)
  let ?row = "mintedPermission (uuid n) pre (ca_ID ca) p"
  from Cons.prems(1) obtain db1 ids1 where
    c: "inOwnNamespace (sp_Resource p) username orgNS \<or> inMemberProject db (ca_ID ca) (sp_Resource p)"
      "checkPermissions db (ca_gate ca) (ca_scoped ca) (ca_ID ca) (sp_Service p) (sp_Action p) (sp_Resource p) = (True, None)"
      "addPermission ?row db = Some db1"
      "attenuatedPermissions uuid ca username orgNS pre ps db1 (n + 1) = (Inr ids1, db', m)" "ids = uuid n # ids1"
    by (auto split: if_splits prod.splits option.splits sum.splits)
  have db1: "db1 = extendPerms [?row] db"
    using c(3) by (auto simp: addPermission_def extendPerms_def mintedPermission_def split: if_splits)
  have fresh: "freshFor db [?row]"
    using Cons.prems(2) by (simp add: mintedPermission_def freshFor_def)
  have same: "checkPermissions db1 G sc uid s a x = checkPermissions db G sc uid s a x" for G sc uid s a x
    unfolding db1 checkPermissions_def extend_evaluate[OF fresh] ..
  have "\<forall>k\<ge>n + 1. uuid k \<notin> referenced db1" using Cons.prems(2) by (simp add: db1)
  note ih = Cons.IH[OF c(4) this]
  have "[n..<n + length (p # ps)] = n # [n + 1..<n + 1 + length ps]" by (simp add: upt_conv_Cons del: upt_Suc)
  with ih show ?case
    using c(1,2,5) unfolding same by (simp add: db1 mintedRows_Cons del: upt_Suc)
qed

end
