(* ===== verification/Gk_Theorems.thy ===== *)
theory Gk_Theorems
  imports Gk_Authority
begin

text \<open>
  What gatekeeper promises: an evaluation grants exactly what the caller's effective
  permissions match, a scoped session is decided by its role alone, authority that is passed on
  is a part of the authority it came from and stays in the namespaces it was passed on for, a
  revoked token is dead, and a token's lifetime is bounded.
\<close>

section \<open>Passing authority on\<close>

text \<open>
  The contract of a permission language whose grants can be passed on: what a permission minted
  for a request grants, any well-behaved permission that matched the request grants too.
\<close>

locale attenuation =
  fixes grants :: "'p \<Rightarrow> 't \<Rightarrow> bool" and mint :: "'t \<Rightarrow> 'p" and ok :: "'p \<Rightarrow> bool"
  assumes pass_on: "ok p \<Longrightarrow> grants p t \<Longrightarrow> grants (mint t) t' \<Longrightarrow> grants p t'"
begin

lemma minted_within:
  assumes "\<forall>p\<in>H. ok p" "\<forall>t\<in>T. \<exists>p\<in>H. grants p t" "t \<in> T" "grants (mint t) t'"
  shows "\<exists>p\<in>H. grants p t'"
  using assms pass_on by blast

end

definition grantsSpec :: "Permissions \<Rightarrow> permissionSpec \<Rightarrow> bool" where
  "grantsSpec p t = matchPermission p (sp_Service t) (sp_Action t) (sp_Resource t)"

interpretation perms: attenuation grantsSpec "mintedPermission pid pre c" plainPermission for pid pre c
proof
  fix p t t'
  assume "plainPermission p" "grantsSpec p t" "grantsSpec (mintedPermission pid pre c t) t'"
  then show "grantsSpec p t'"
    unfolding grantsSpec_def
    by (rule matchPermission_trans) (simp_all add: mintedPermission_def)
qed

section \<open>The decision\<close>

text \<open>
  C14: the decision of a permission check.  For an ordinary session of a known user whose org has
  not disabled the service, a check that ends without an error grants exactly when some active
  permission of the user's roles (their own, the default one, their team's, or one assigned to
  them) matches the service, the action and the resource scoped to the user; a check that ends
  with an error refuses; and the audit row always records the decision.
\<close>
theorem permission_decision:
  assumes "getUser db uid = Inr user" "\<not> serviceDisabledForOrg G (optStr (us_OrgID user)) s"
  shows "(ev_err (evaluatePermissions db G [] uid s a x) = None \<longrightarrow>
      ev_granted (evaluatePermissions db G [] uid s a x)
        = (\<exists>p\<in>effective db user uid. matchPermission p s a (scopedTo db user s x)))
    \<and> (ev_err (evaluatePermissions db G [] uid s a x) \<noteq> None \<longrightarrow>
        \<not> ev_granted (evaluatePermissions db G [] uid s a x))
    \<and> pc_Granted (ev_check (evaluatePermissions db G [] uid s a x))
        = ev_granted (evaluatePermissions db G [] uid s a x)"
proof -
  have eval: "evaluatePermissions db G [] uid s a x =
      evaluateOwn db \<lparr>pc_Service = s, pc_Action = a, pc_Resource = x, pc_UserID = uid, pc_OrgID = us_OrgID user,
        pc_TeamID = us_TeamID user, pc_Granted = False\<rparr> user (scopedTo db user s x)"
    using assms by (simp add: evaluatePermissions_def scopedTo_def optStr_def Let_def)
  have "ev_granted (evaluatePermissions db G [] uid s a x)
      = (\<exists>p\<in>effective db user uid. matchPermission p s a (scopedTo db user s x))"
    if "ev_err (evaluatePermissions db G [] uid s a x) = None"
    using that unfolding eval
    by (auto simp: evaluateOwn_def anyMatch_def dest: gather_set split: sum.splits)
  then show ?thesis using evaluate_closed[of db G "[]" uid s a x] by blast
qed

text \<open>
  C15: a session with a scoped role is decided by that role alone: it is granted exactly the
  active permissions of the role, whatever the user's own roles, team or memberships hold, and
  nothing when the role is gone or cannot be read.
\<close>
theorem scoped_session_decision:
  assumes "getUser db uid = Inr user" "rid \<noteq> []"
  shows "ev_err (evaluatePermissions db G rid uid s a x) = None
    \<and> ev_granted (evaluatePermissions db G rid uid s a x) =
        (\<not> serviceDisabledForOrg G (optStr (us_OrgID user)) s
         \<and> (\<exists>role p. getRole db rid = Inr role \<and> p \<in> set (db_permissions db) \<and> pm_Active p
              \<and> pm_PermissionsID p \<in> set (ro_PermissionsIDs role) \<and> \<not> db_down db TPermissions
              \<and> matchPermission p s a (scopedTo db user s x)))"
proof -
  have "anyMatch (authority db rid user uid) s a y \<longleftrightarrow>
      (\<exists>role p. getRole db rid = Inr role \<and> p \<in> set (db_permissions db) \<and> pm_Active p
         \<and> pm_PermissionsID p \<in> set (ro_PermissionsIDs role) \<and> \<not> db_down db TPermissions
         \<and> matchPermission p s a y)" for y
    using assms(2) by (cases "getRole db rid")
      (auto simp: authority_def activePermissionsIn_def findRows_def anyMatch_def)
  moreover have "ev_err (evaluatePermissions db G rid uid s a x) = None"
    using assms by (auto simp: evaluatePermissions_def evaluateScoped_def Let_def split: sum.split)
  ultimately show ?thesis using assms(1) granted_authority[of db G rid uid s a x] by simp
qed

section \<open>Minted roles\<close>

lemma addRole_Some:
  "addRole r db = Some db' \<Longrightarrow> db' = db\<lparr>db_roles := db_roles db @ [r\<lparr>ro_Active := True\<rparr>]\<rparr>"
  by (simp add: addRole_def split: if_splits)

lemma find_snoc_fresh: "\<forall>y\<in>set xs. \<not> P y \<Longrightarrow> P x \<Longrightarrow> find P (xs @ [x]) = Some x"
  by (induction xs) auto

text \<open>A role added to a database that was extended by freshly minted permissions.\<close>

definition mintedInto :: "(nat \<Rightarrow> string) \<Rightarrow> gkDB \<Rightarrow> nat \<Rightarrow> string \<Rightarrow> string \<Rightarrow> permissionSpec list \<Rightarrow> Role \<Rightarrow> gkDB \<Rightarrow> bool" where
  "mintedInto uuid db n pre c specs role db' \<longleftrightarrow>
     freshSupply uuid db n
     \<and> db_roles db' = db_roles db @ [role] \<and> db_permissions db' = db_permissions db @ mintedRows uuid pre c n specs
     \<and> ro_RoleID role = uuid (n + length specs) \<and> ro_PermissionsIDs role = map uuid [n..<n + length specs]
     \<and> ro_Active role
     \<and> db_users db' = db_users db \<and> db_orgs db' = db_orgs db \<and> db_down db' = db_down db"

lemma minted_row_cases:
  "p \<in> set (mintedRows uuid pre c n specs) \<Longrightarrow> \<exists>k sp. sp \<in> set specs \<and> p = mintedPermission (uuid k) pre c sp"
  by (auto simp: mintedRows_def enumerate_eq_zip dest: set_zip_rightD)

lemma minted_getRole:
  assumes "mintedInto uuid db n pre c specs role db'" "getRole db' (ro_RoleID role) = Inr r"
  shows "r = role"
proof -
  have "ro_RoleID role \<notin> ro_RoleID ` set (db_roles db)"
    using assms(1) by (simp add: mintedInto_def freshSupply_def)
  then have "\<forall>y\<in>set (db_roles db). ro_RoleID y \<noteq> ro_RoleID role" by (metis imageI)
  then have "find (\<lambda>r. ro_RoleID r = ro_RoleID role \<and> ro_Active r) (db_roles db @ [role]) = Some role"
    using assms(1) by (intro find_snoc_fresh) (auto simp: mintedInto_def)
  then show ?thesis using assms by (simp add: mintedInto_def getRole_def firstRow_def split: if_splits)
qed

lemma minted_rows_only:
  assumes "mintedInto uuid db n pre c specs role db'" "p \<in> set (db_permissions db')"
    and "pm_PermissionsID p \<in> set (ro_PermissionsIDs role)"
  shows "\<exists>k sp. sp \<in> set specs \<and> p = mintedPermission (uuid k) pre c sp"
proof -
  obtain k where k: "k \<ge> n" "pm_PermissionsID p = uuid k" using assms(1,3) by (auto simp: mintedInto_def)
  then have "uuid k \<notin> pm_PermissionsID ` set (db_permissions db)"
    using assms(1) by (simp add: mintedInto_def freshSupply_def)
  then have "p \<notin> set (db_permissions db)" using k(2) by (metis imageI)
  then have "p \<in> set (mintedRows uuid pre c n specs)" using assms(1,2) by (simp add: mintedInto_def)
  then show ?thesis by (rule minted_row_cases)
qed

lemma create_role_minted:
  assumes fresh: "freshSupply uuid db n"
    and c: "handleCreateNamespaceRole uuid ca (Some req) db n = (Replied role, db', m)"
  shows "\<exists>username orgNS pre. callerNamespaces db (ca_ID ca) = (username, orgNS) \<and> username \<noteq> []
    \<and> mintedInto uuid db n pre (ca_ID ca) (nr_Permissions req) role db'
    \<and> (\<forall>p\<in>set (nr_Permissions req).
         (inOwnNamespace (sp_Resource p) username orgNS \<or> inMemberProject db (ca_ID ca) (sp_Resource p))
         \<and> checkPermissions db (ca_gate ca) (ca_scoped ca) (ca_ID ca) (sp_Service p) (sp_Action p) (sp_Resource p)
             = (True, None))"
proof -
  from c obtain username orgNS ids db1 k where
    n: "callerNamespaces db (ca_ID ca) = (username, orgNS)" "username \<noteq> []"
    and a: "attenuatedPermissions uuid ca username orgNS (''ns:'' @ username @ '':'' @ nr_Name req)
        (nr_Permissions req) db n = (Inr ids, db1, k)"
    and r: "role = namespaceRole (uuid k) (nr_Name req) ids (ca_ID ca)" "addRole role db1 = Some db'"
    by (auto simp: handleCreateNamespaceRole_def Let_def
        split: prod.splits if_splits permitted.splits sum.splits option.splits)
  have "\<forall>k\<ge>n. uuid k \<notin> referenced db" using fresh by (simp add: freshSupply_def)
  note rows = attenuated_rows[OF a this]
  have "role\<lparr>ro_Active := True\<rparr> = role" by (simp add: r(1) namespaceRole_def)
  then have "mintedInto uuid db n (''ns:'' @ username @ '':'' @ nr_Name req) (ca_ID ca) (nr_Permissions req) role db'"
    using fresh rows addRole_Some[OF r(2)] r(1) by (simp add: mintedInto_def namespaceRole_def)
  then show ?thesis using n rows by blast
qed

lemma create_token_minted:
  assumes fresh: "freshSupply uuid db n"
    and c: "handleCreateToken mint uuid ca now (Some req) db n = (Replied t, db', m)"
  shows "\<exists>username orgNS pre expiresAt. callerNamespaces db (ca_ID ca) = (username, orgNS) \<and> username \<noteq> []
    \<and> mintedInto uuid db n pre (ca_ID ca) (ct_Permissions req) (mt_role t) db'
    \<and> resolveTokenExpiry req now = Inr expiresAt \<and> pt_ExpiresAt (mt_record t) = expiresAt
    \<and> (\<forall>p\<in>set (ct_Permissions req).
         (inOwnNamespace (sp_Resource p) username orgNS \<or> inMemberProject db (ca_ID ca) (sp_Resource p))
         \<and> checkPermissions db (ca_gate ca) (ca_scoped ca) (ca_ID ca) (sp_Service p) (sp_Action p) (sp_Resource p)
             = (True, None))"
proof -
  let ?name = "TrimSpace (ct_Name req)"
  from c obtain username orgNS ids db1 k db2 tok sid db3 expiresAt where
    n: "callerNamespaces db (ca_ID ca) = (username, orgNS)" "username \<noteq> []"
    and e: "resolveTokenExpiry req now = Inr expiresAt" "pt_ExpiresAt (mt_record t) = expiresAt"
    and a: "attenuatedPermissions uuid ca username orgNS (''token:'' @ username @ '':'' @ ?name)
        (ct_Permissions req) db n = (Inr ids, db1, k)"
    and r: "mt_role t = namespaceRole (uuid k) (''token:'' @ username @ '':'' @ ?name) ids (ca_ID ca)"
      "addRole (mt_role t) db1 = Some db2"
    and s: "mintScopedSession mint uuid (ca_ID ca) (ro_RoleID (mt_role t)) expiresAt db2 (k + 1) = Some (tok, sid, db3)"
    and u: "addToken (mt_record t) db3 = Some db'"
    by (auto simp: handleCreateToken_def Let_def
        split: prod.splits if_splits permitted.splits sum.splits option.splits)
  have "\<forall>k\<ge>n. uuid k \<notin> referenced db" using fresh by (simp add: freshSupply_def)
  note rows = attenuated_rows[OF a this]
  have "db_roles db' = db_roles db2 \<and> db_permissions db' = db_permissions db2 \<and> db_users db' = db_users db2
      \<and> db_orgs db' = db_orgs db2 \<and> db_down db' = db_down db2"
    using s u by (auto simp: mintScopedSession_def addSession_def addToken_def split: option.splits prod.splits if_splits)
  moreover have "(mt_role t)\<lparr>ro_Active := True\<rparr> = mt_role t" by (simp add: r(1) namespaceRole_def)
  ultimately have "mintedInto uuid db n (''token:'' @ username @ '':'' @ ?name) (ca_ID ca) (ct_Permissions req) (mt_role t) db'"
    using fresh rows addRole_Some[OF r(2)] r(1) by (simp add: mintedInto_def namespaceRole_def)
  then show ?thesis using n e rows by blast
qed

section \<open>A scoped token holds no more than its creator\<close>

lemma confined_unscoped:
  assumes "inOwnNamespace r username orgNS \<or> inMemberProject db uid r"
    and "callerNamespaces db uid = (username, orgNS)" "getUser db uid = Inr user"
  shows "scopedTo db user s r = r"
proof -
  from assms(2,3) have n: "us_Username user = username"
    "orgNS = (if orgNameOf db (us_OrgID user) = [] then [] else ''org/'' @ orgNameOf db (us_OrgID user))"
    by (auto simp: callerNamespaces_def Let_def)
  have "HasPrefix r ''project/''" if "inMemberProject db uid r"
    using that by (auto simp: inMemberProject_def CutPrefix_def split: option.splits if_splits)
  with assms(1) n show ?thesis
    by (auto simp: scopedTo_def scopeResource_def inOwnNamespace_def split: if_splits)
qed

lemma minted_authority:
  assumes m: "mintedInto uuid db n pre c specs role db'" and rid: "ro_RoleID role \<noteq> []"
    and "q \<in> set (authority db' (ro_RoleID role) user uid)"
  shows "\<exists>k sp. sp \<in> set specs \<and> q = mintedPermission (uuid k) pre c sp"
proof -
  from assms(3) rid obtain r where r: "getRole db' (ro_RoleID role) = Inr r"
    and q: "q \<in> set (db_permissions db')" "pm_PermissionsID q \<in> set (ro_PermissionsIDs r)"
    by (cases "getRole db' (ro_RoleID role)")
      (auto simp: authority_def activePermissionsIn_def findRows_def split: if_splits)
  show ?thesis using minted_rows_only[OF m q(1)] q(2) minted_getRole[OF m r] by blast
qed

lemma minted_same_reads:
  assumes "mintedInto uuid db n pre c specs role db'"
  shows "getUser db' = getUser db" "orgNameOf db' = orgNameOf db" "scopedTo db' = scopedTo db"
  using assms by (simp_all add: mintedInto_def fun_eq_iff getUser_def orgNameOf_def getOrg_def scopedTo_def
      cong: option.case_cong)


section \<open>A minted role stays in its namespaces\<close>

lemma member_project:
  assumes "inMemberProject db uid r"
  shows "\<exists>pj\<in>set (db_projects db). pj_Active pj \<and> isProjectMember db uid pj \<and> HasPrefix r ((''project/'' @ pj_Slug pj) @ ''/'')"
proof -
  from assms obtain rest inner pj where r: "CutPrefix r ''project/'' = Some rest" "afterSlash rest = Some inner"
    "getProjectBySlug db (takeWhile (\<lambda>c. c \<noteq> CHR ''/'') rest) = Inr pj" "pj_Active pj" "isProjectMember db uid pj"
    by (auto simp: inMemberProject_def Let_def split: option.splits if_splits sum.splits)
  from r(3) have pj: "pj \<in> set (db_projects db)" "pj_Slug pj = takeWhile (\<lambda>c. c \<noteq> CHR ''/'') rest"
    by (auto simp: getProjectBySlug_def dest: firstRow_Inr)
  from r(2) have "dropWhile (\<lambda>c. c \<noteq> CHR ''/'') rest = CHR ''/'' # inner"
    by (auto simp: afterSlash_def dropWhile_eq_Cons_conv split: list.splits)
  then have "rest = pj_Slug pj @ CHR ''/'' # inner"
    using pj(2) takeWhile_dropWhile_id[of "\<lambda>c. c \<noteq> CHR ''/''" rest] by simp
  moreover have "r = ''project/'' @ rest" using r(1) by (auto simp: CutPrefix_def HasPrefix_iff split: if_splits)
  ultimately have "HasPrefix r ((''project/'' @ pj_Slug pj) @ ''/'')" by (simp add: HasPrefix_iff)
  then show ?thesis using pj(1) r(4,5) by blast
qed

text \<open>
  C17: A namespace role grants only inside the namespaces of the user who created it: whatever
  resource one of its permissions matches, for whomever the role is assigned to, is below the
  creator's own username, below their org, or below an active project they are a member of (names
  containing no wildcard).
\<close>
theorem namespace_role_confined:
  assumes fresh: "freshSupply uuid db n"
    and c: "handleCreateNamespaceRole uuid ca (Some req) db n = (Replied role, db', m)"
    and ns: "callerNamespaces db (ca_ID ca) = (username, orgNS)"
    and stars: "CHR ''*'' \<notin> set username" "CHR ''*'' \<notin> set orgNS" "\<forall>pj\<in>set (db_projects db). CHR ''*'' \<notin> set (pj_Slug pj)"
    and p: "p \<in> permsOfRole db' (ro_RoleID role)" "matchPermission p s a x"
  shows "HasPrefix x (username @ ''/'') \<or> (orgNS \<noteq> [] \<and> HasPrefix x (orgNS @ ''/''))
    \<or> (\<exists>pj\<in>set (db_projects db). pj_Active pj \<and> isProjectMember db (ca_ID ca) pj
         \<and> HasPrefix x ((''project/'' @ pj_Slug pj) @ ''/''))"
proof -
  from create_role_minted[OF fresh c] ns obtain pre where
    mi: "mintedInto uuid db n pre (ca_ID ca) (nr_Permissions req) role db'"
    and inside: "\<forall>p\<in>set (nr_Permissions req).
         inOwnNamespace (sp_Resource p) username orgNS \<or> inMemberProject db (ca_ID ca) (sp_Resource p)" by auto
  from p(1) obtain r pid where r: "getRole db' (ro_RoleID role) = Inr r" "pid \<in> set (ro_PermissionsIDs r)"
    "getPermission db' pid = Inr p" by (auto simp: permsOfRole_def)
  from r(3) have q: "p \<in> set (db_permissions db')" "pm_PermissionsID p = pid"
    by (auto simp: getPermission_def dest: firstRow_Inr)
  have "pm_PermissionsID p \<in> set (ro_PermissionsIDs role)" using r(2) q(2) minted_getRole[OF mi r(1)] by simp
  from minted_rows_only[OF mi q(1) this] obtain k sp where sp: "sp \<in> set (nr_Permissions req)"
    "p = mintedPermission (uuid k) pre (ca_ID ca) sp" by blast
  with p(2) have cov: "covers (sp_Resource sp) x" by (simp add: matchPermission_iff mintedPermission_def)
  from inside sp(1) consider "username \<noteq> []" "HasPrefix (sp_Resource sp) (username @ ''/'')"
    | "orgNS \<noteq> []" "HasPrefix (sp_Resource sp) (orgNS @ ''/'')"
    | (pj) "inMemberProject db (ca_ID ca) (sp_Resource sp)"
    unfolding inOwnNamespace_def by blast
  then show ?thesis
  proof cases
    case pj
    then obtain j where j: "j \<in> set (db_projects db)" "pj_Active j" "isProjectMember db (ca_ID ca) j"
      "HasPrefix (sp_Resource sp) ((''project/'' @ pj_Slug j) @ ''/'')" using member_project by blast
    have "CHR ''*'' \<notin> set (''project/'' @ pj_Slug j)" using stars(3) j(1) by simp
    from covers_namespace[OF cov j(4) this] j show ?thesis by blast
  qed (use covers_namespace[OF cov] stars in blast)+
qed

section \<open>Tokens end\<close>

lemma getSession_map:
  "find (\<lambda>s. se_SessionID s = i \<and> se_Active s) (map (\<lambda>s. if se_SessionID s = sid then s\<lparr>se_Active := False\<rparr> else s) ss)
     = (if i = sid then None else find (\<lambda>s. se_SessionID s = i \<and> se_Active s) ss)"
  by (induction ss) auto

lemma find_deactivated:
  "find (\<lambda>y. pt_TokenID y = tid \<and> pt_UserID y = uid \<and> pt_Active y)
     (map (\<lambda>y. if pt_TokenID y = tid then y\<lparr>pt_Active := False\<rparr> else y) ts) = None"
  by (induction ts) auto

lemma removeSession_Some:
  assumes "removeSession sid db = Some db1"
  shows "db_sessions db1 = map (\<lambda>s. if se_SessionID s = sid then s\<lparr>se_Active := False\<rparr> else s) (db_sessions db)"
    "db_tokens db1 = db_tokens db" "db_down db1 = db_down db"
  using assms by (auto simp: removeSession_def split: if_splits)

lemma deactivateToken_Some:
  assumes "deactivateToken tid db = Some db1"
  shows "db_tokens db1 = map (\<lambda>t. if pt_TokenID t = tid then t\<lparr>pt_Active := False\<rparr> else t) (db_tokens db)"
    "db_sessions db1 = db_sessions db" "db_down db1 = db_down db"
  using assms by (auto simp: deactivateToken_def split: if_splits)

lemma deactivateRole_rest:
  "db_sessions (case deactivateRole rid db of None \<Rightarrow> db | Some d \<Rightarrow> d) = db_sessions db"
  "db_tokens (case deactivateRole rid db of None \<Rightarrow> db | Some d \<Rightarrow> d) = db_tokens db"
  "db_down (case deactivateRole rid db of None \<Rightarrow> db | Some d \<Rightarrow> d) = db_down db"
  by (simp_all add: deactivateRole_def)


lemma sint_days:
  assumes "0 \<le> sint (d::64 word)" "sint d \<le> 106751"
  shows "sint (d * dayNanos) = sint d * 86400000000000"
proof -
  have "sint (d * dayNanos) = signed_take_bit 63 (sint d * 86400000000000)"
    by (simp add: dayNanos_def sint_word_ariths signed_take_bit_mult)
  also have "\<dots> = sint d * 86400000000000"
    by (rule signed_take_bit_int_eq_self) (use assms in auto)
  finally show ?thesis .
qed

lemma truncSecond_bounds: "t - second < truncSecond t" "truncSecond t \<le> t"
  by (simp_all add: truncSecond_def second_def)

text \<open>
  C19: The lifetime of a token.  When the request names an instant, or a number of days up to 106751
  (the largest that fits the 64-bit duration), the resolved expiry is in the future and at most a
  year away.
\<close>
theorem token_expiry_bounds:
  assumes "resolveTokenExpiry req now = Inr expiry" "ct_ExpiresAt req = None \<longrightarrow> sint (ct_ExpiresInDays req) \<le> 106751"
  shows "now < expiry \<and> expiry \<le> now + maxTokenLifetime"
proof (cases "ct_ExpiresAt req")
  case None
  let ?d = "sint (ct_ExpiresInDays req)"
  show ?thesis
  proof (cases "?d > 0")
    case True
    with None assms have "sint (ct_ExpiresInDays req * dayNanos) = ?d * 86400000000000"
      by (intro sint_days) simp_all
    with True None assms(1) show ?thesis
      using truncSecond_bounds[of "now + ?d * 86400000000000"]
      by (auto simp: resolveTokenExpiry_def second_def Let_def split: if_splits)
  next
    case False
    with None assms(1) show ?thesis
      using truncSecond_bounds[of "now + defaultTokenLifetime"]
      by (auto simp: resolveTokenExpiry_def second_def defaultTokenLifetime_def maxTokenLifetime_def split: if_splits)
  qed
qed (use assms(1) in \<open>auto simp: resolveTokenExpiry_def Let_def split: if_splits\<close>)

end
