(* ===== verification/Gk_Examples.thy ===== *)
theory Gk_Examples
  imports Gk_Theorems
begin

text \<open>
  The gatekeeper theorems at a concrete database, and two places where the code does not keep
  what its comments promise.
\<close>

section \<open>A database\<close>

definition demoPerm :: "string \<Rightarrow> string \<Rightarrow> string list \<Rightarrow> string list \<Rightarrow> Permissions" where
  "demoPerm pid s acts res = \<lparr>pm_PermissionsID = pid, pm_Name = pid, pm_Service = s, pm_Actions = acts,
     pm_Resources = res, pm_OwnerID = ''u1'', pm_OrgID = None, pm_Active = True\<rparr>"

definition demoRole :: "string \<Rightarrow> string list \<Rightarrow> Role" where
  "demoRole rid ids = \<lparr>ro_RoleID = rid, ro_Name = rid, ro_PermissionsIDs = ids, ro_OrgID = None,
     ro_OwnerID = ''u1'', ro_Active = True\<rparr>"

definition demoUser :: User where
  "demoUser = \<lparr>us_UserID = ''u1'', us_Username = ''alice'', us_OrgID = None, us_RoleID = Some ''r1'',
     us_TeamID = None, us_DefaultRoleID = None, us_Active = True\<rparr>"

definition demoSession :: Session where
  "demoSession = \<lparr>se_SessionID = ''s1'', se_UserID = ''u1'', se_ExpiresAt = 1000, se_PubKey = ''k'',
     se_ScopedRoleID = Some ''r2'', se_ClientID = None, se_Active = True\<rparr>"

definition demoToken :: PersonalToken where
  "demoToken = \<lparr>pt_TokenID = ''t1'', pt_UserID = ''u1'', pt_Name = ''ci'', pt_SessionID = ''s1'',
     pt_RoleID = ''r2'', pt_ExpiresAt = 1000, pt_LastUsedAt = None, pt_Active = True\<rparr>"

definition demoDB :: "Permissions list \<Rightarrow> gkDB" where
  "demoDB perms = \<lparr>db_users = [demoUser], db_orgs = [],
     db_roles = [demoRole ''r1'' (map pm_PermissionsID perms), demoRole ''r2'' [''p1'']],
     db_permissions = perms, db_teams = [], db_memberships = [], db_projects = [], db_clients = [],
     db_sessions = [demoSession], db_tokens = [demoToken], db_down = (\<lambda>t. False), db_ro = (\<lambda>t. False)\<rparr>"

definition demoHeld :: "Permissions list" where
  "demoHeld = [demoPerm ''p1'' ''git'' [''read*''] [''alice/git/*''], demoPerm ''p2'' ''gatekeeper'' [''*''] [''alice/gatekeeper/*'']]"

definition demoGate :: gate where
  "demoGate = \<lparr>gt_configured = False, gt_fetch = (\<lambda>o'. None)\<rparr>"

definition demoCaller :: caller where
  "demoCaller = \<lparr>ca_ID = ''u1'', ca_scoped = [], ca_gate = demoGate\<rparr>"

definition demoUuid :: "nat \<Rightarrow> string" where
  "demoUuid k = replicate (k + 3) (CHR ''u'')"

definition demoMint :: "string \<Rightarrow> (string \<times> string) option" where
  "demoMint sid = Some (''jwt-'' @ sid, ''pem'')"

definition demoSpec :: "string \<Rightarrow> permissionSpec" where
  "demoSpec r = \<lparr>sp_Name = [], sp_Service = ''git'', sp_Action = ''readRepo'', sp_Resource = r\<rparr>"

definition demoTokenReq :: createTokenRequest where
  "demoTokenReq = \<lparr>ct_Name = ''ci'', ct_ExpiresInDays = 30, ct_ExpiresAt = None, ct_Permissions = [demoSpec ''alice/git/site'']\<rparr>"

definition demoRoleReq :: namespaceRoleRequest where
  "demoRoleReq = \<lparr>nr_Name = ''readers'', nr_Permissions = [demoSpec ''alice/git/site/*'']\<rparr>"

lemmas demo_defs = demoPerm_def demoRole_def demoUser_def demoSession_def demoToken_def demoDB_def demoHeld_def
  demoGate_def demoCaller_def demoUuid_def demoMint_def demoSpec_def demoTokenReq_def demoRoleReq_def

lemma demo_fresh: "freshSupply demoUuid (demoDB demoHeld) 0"
proof -
  have "inj demoUuid" by (rule injI) (metis add_right_cancel demoUuid_def length_replicate)
  moreover have "demoUuid k \<noteq> x" if "length x = 2" for k x
    using that by (metis add_eq_if demoUuid_def length_replicate le_add2 not_less_eq_eq numeral_2_eq_2 numeral_3_eq_3)
  ultimately show ?thesis
    by (auto simp: freshSupply_def referenced_def demo_defs image_iff)
qed

lemma demo_user: "getUser (demoDB ps) ''u1'' = Inr demoUser"
  by (simp add: getUser_def firstRow_def demo_defs)

text \<open>The result of a handler, when it replied.\<close>

lemma replied: "(case fst r of Replied x \<Rightarrow> True | _ \<Rightarrow> False) \<Longrightarrow> \<exists>x. fst r = Replied x"
  by (cases "fst r") auto

section \<open>The theorems at the database\<close>

lemma demo_gate: "\<not> serviceDisabledForOrg demoGate oid s"
  by (simp add: serviceDisabledForOrg_def demoGate_def)

lemma permission_decision_witness:
  "ev_err (evaluatePermissions (demoDB demoHeld) demoGate [] ''u1'' ''git'' ''readRepo'' ''git/site'') = None
   \<and> ev_granted (evaluatePermissions (demoDB demoHeld) demoGate [] ''u1'' ''git'' ''readRepo'' ''git/site'')
   \<and> (\<exists>p\<in>effective (demoDB demoHeld) demoUser ''u1''.
        matchPermission p ''git'' ''readRepo'' (scopedTo (demoDB demoHeld) demoUser ''git'' ''git/site''))"
proof -
  have "ev_err (evaluatePermissions (demoDB demoHeld) demoGate [] ''u1'' ''git'' ''readRepo'' ''git/site'') = None
    \<and> ev_granted (evaluatePermissions (demoDB demoHeld) demoGate [] ''u1'' ''git'' ''readRepo'' ''git/site'')"
    by code_simp
  then show ?thesis
    using permission_decision[OF demo_user demo_gate, of demoHeld "''git''" "''readRepo''" "''git/site''"] by blast
qed

lemma scoped_session_decision_witness:
  "ev_granted (evaluatePermissions (demoDB demoHeld) demoGate ''r2'' ''u1'' ''git'' ''readRepo'' ''git/site'')
   \<and> \<not> ev_granted (evaluatePermissions (demoDB demoHeld) demoGate ''r2'' ''u1'' ''gatekeeper'' ''createToken'' ''alice/gatekeeper/tokens'')
   \<and> ev_err (evaluatePermissions (demoDB demoHeld) demoGate ''r2'' ''u1'' ''git'' ''readRepo'' ''git/site'') = None
   \<and> (\<exists>role p. getRole (demoDB demoHeld) ''r2'' = Inr role \<and> pm_PermissionsID p \<in> set (ro_PermissionsIDs role)
        \<and> matchPermission p ''git'' ''readRepo'' (scopedTo (demoDB demoHeld) demoUser ''git'' ''git/site''))"
proof -
  have g: "ev_granted (evaluatePermissions (demoDB demoHeld) demoGate ''r2'' ''u1'' ''git'' ''readRepo'' ''git/site'')"
    and "\<not> ev_granted (evaluatePermissions (demoDB demoHeld) demoGate ''r2'' ''u1'' ''gatekeeper'' ''createToken'' ''alice/gatekeeper/tokens'')"
    by code_simp+
  moreover have "''r2'' \<noteq> []" by simp
  note scoped_session_decision[OF demo_user this, of demoHeld demoGate "''git''" "''readRepo''" "''git/site''"]
  ultimately show ?thesis by blast
qed

lemma demo_plain:
  assumes "getUser (demoDB demoHeld) (ca_ID demoCaller) = Inr user"
  shows "\<forall>q\<in>set (authority (demoDB demoHeld) (ca_scoped demoCaller) user (ca_ID demoCaller)). plainPermission q"
proof -
  have "ca_ID demoCaller = ''u1''" by (simp add: demoCaller_def)
  then have "user = demoUser" using assms demo_user[of demoHeld] by simp
  moreover have "\<forall>q\<in>set (authority (demoDB demoHeld) (ca_scoped demoCaller) demoUser (ca_ID demoCaller)). plainPermission q"
    by code_simp
  ultimately show ?thesis by simp
qed

definition demoTokenOut :: "mintedToken reply \<times> gkDB \<times> nat" where
  "demoTokenOut = handleCreateToken demoMint demoUuid demoCaller 0 (Some demoTokenReq) (demoDB demoHeld) 0"


definition demoRoleOut :: "Role reply \<times> gkDB \<times> nat" where
  "demoRoleOut = handleCreateNamespaceRole demoUuid demoCaller (Some demoRoleReq) (demoDB demoHeld) 0"

lemma namespace_role_confined_witness:
  "\<exists>role. fst demoRoleOut = Replied role
     \<and> (\<exists>p\<in>permsOfRole (fst (snd demoRoleOut)) (ro_RoleID role). matchPermission p ''git'' ''readRepo'' ''alice/git/site/x'')
     \<and> HasPrefix ''alice/git/site/x'' (''alice'' @ ''/'')"
proof -
  let ?db = "fst (snd demoRoleOut)" and ?p = "mintedPermission ''uuu'' ''ns:alice:readers'' ''u1'' (demoSpec ''alice/git/site/*'')"
  have d: "case fst demoRoleOut of Replied role \<Rightarrow>
      getRole ?db (ro_RoleID role) = Inr role \<and> ''uuu'' \<in> set (ro_PermissionsIDs role)
      \<and> getPermission ?db ''uuu'' = Inr ?p \<and> matchPermission ?p ''git'' ''readRepo'' ''alice/git/site/x''
    | _ \<Rightarrow> False" by code_simp
  then obtain role where r: "fst demoRoleOut = Replied role" by (cases "fst demoRoleOut") auto
  then have c: "handleCreateNamespaceRole demoUuid demoCaller (Some demoRoleReq) (demoDB demoHeld) 0
      = (Replied role, ?db, snd (snd demoRoleOut))" by (simp flip: demoRoleOut_def add: prod_eq_iff)
  have p: "?p \<in> permsOfRole ?db (ro_RoleID role)" and q: "matchPermission ?p ''git'' ''readRepo'' ''alice/git/site/x''"
    using d r unfolding permsOfRole_def by auto
  have ns: "callerNamespaces (demoDB demoHeld) (ca_ID demoCaller) = (''alice'', [])" by code_simp
  have "CHR ''*'' \<notin> set ''alice''" "CHR ''*'' \<notin> set ([] :: string)"
    "\<forall>pj\<in>set (db_projects (demoDB demoHeld)). CHR ''*'' \<notin> set (pj_Slug pj)" by (simp_all add: demoDB_def)
  from namespace_role_confined[OF demo_fresh c ns this p q]
  have "HasPrefix ''alice/git/site/x'' (''alice'' @ ''/'')" by (simp add: demoDB_def)
  then show ?thesis using r p q by blast
qed

definition demoRevoked :: "unit reply \<times> gkDB" where
  "demoRevoked = handleRevokeToken demoCaller ''t1'' (demoDB demoHeld)"

definition demoJwt :: jwtLib where
  "demoJwt = \<lparr>jw_jti = (\<lambda>t. Some ''s1''), jw_pem = Some, jw_verify = (\<lambda>k t. Some ''u1'')\<rparr>"


lemma token_expiry_bounds_witness: "0 < (2592000 * second) \<and> 2592000 * second \<le> maxTokenLifetime"
proof -
  have "resolveTokenExpiry demoTokenReq 0 = Inr (2592000 * second)" by code_simp
  moreover have "ct_ExpiresAt demoTokenReq = None \<longrightarrow> sint (ct_ExpiresInDays demoTokenReq) \<le> 106751" by code_simp
  ultimately show ?thesis using token_expiry_bounds[of demoTokenReq 0 "2592000 * second"] by simp
qed

section \<open>Where the code departs from its comments\<close>

text \<open>
  The number of days wraps the 64-bit duration: 106752 days is accepted and gives an expiry
  before now, and so is 213504 days, with an expiry within the hour.
\<close>
theorem expiry_overflow:
  "(case resolveTokenExpiry (demoTokenReq\<lparr>ct_ExpiresInDays := 106752\<rparr>) 0 of Inr e \<Rightarrow> e < 0 | Inl m \<Rightarrow> False)
   \<and> (case resolveTokenExpiry (demoTokenReq\<lparr>ct_ExpiresInDays := 213504\<rparr>) 0 of Inr e \<Rightarrow> 0 < e \<and> e < 3600 * second | Inl m \<Rightarrow> False)"
  by code_simp

definition starredHeld :: "Permissions list" where
  "starredHeld = [demoPerm ''p1'' ''git'' [''read*''] [''alice/git/*/*''], demoPerm ''p2'' ''gatekeeper'' [''*''] [''alice/gatekeeper/*'']]"

definition starredReq :: createTokenRequest where
  "starredReq = demoTokenReq\<lparr>ct_Permissions := [demoSpec ''alice/git/site/*'']\<rparr>"

definition starredOut :: "mintedToken reply \<times> gkDB \<times> nat" where
  "starredOut = handleCreateToken demoMint demoUuid demoCaller 0 (Some starredReq) (demoDB starredHeld) 0"

text \<open>
  Two wildcard segments break the attenuation.  A caller who holds \<open>alice/git/*/*\<close>, which
  matches exactly two segments below \<open>alice/git\<close>, can mint a token for \<open>alice/git/site/*\<close>, whose
  trailing wildcard is a prefix match and so reaches \<open>alice/git/site/refs/main\<close>, which the caller is refused.
\<close>
theorem double_wildcard_escalates:
  "case fst starredOut of Replied t \<Rightarrow>
     ev_granted (evaluatePermissions (fst (snd starredOut)) demoGate (ro_RoleID (mt_role t)) ''u1'' ''git'' ''readRepo''
        ''alice/git/site/refs/main'')
     \<and> \<not> ev_granted (evaluatePermissions (demoDB starredHeld) demoGate [] ''u1'' ''git'' ''readRepo'' ''alice/git/site/refs/main'')
   | _ \<Rightarrow> False"
  by code_simp

end
