(* ===== verification/Tk_Store.thy ===== *)
theory Tk_Store
  imports Go_Numbers Go_Store
begin

text \<open>
  The tickets service: its rows (\<open>types.go\<close>), its queries (\<open>db.go\<close>) and its field definitions.
  A table is the list of its rows, in the order \<open>First\<close> reads them; \<open>ORDER BY\<close> is a stable sort.
  Times are numbers.  \<open>tks_down\<close> and \<open>tks_ro\<close> say which tables cannot be read or written.
\<close>

section \<open>Rows\<close>

definition StatusOpen :: string where "StatusOpen = ''open''"
definition StatusInProgress :: string where "StatusInProgress = ''in_progress''"
definition StatusResolved :: string where "StatusResolved = ''resolved''"
definition StatusClosed :: string where "StatusClosed = ''closed''"

definition PriorityMedium :: string where "PriorityMedium = ''medium''"

definition FieldKindStatus :: string where "FieldKindStatus = ''status''"
definition FieldKindPriority :: string where "FieldKindPriority = ''priority''"
definition FieldKindTimescale :: string where "FieldKindTimescale = ''timescale''"

definition validStatuses :: "string list" where
  "validStatuses = [StatusOpen, StatusInProgress, StatusResolved, StatusClosed]"

definition validPriorities :: "string list" where
  "validPriorities = [''low'', PriorityMedium, ''high'', ''critical'']"

record TicketComment =
  co_CommentID :: string
  co_TicketID :: string
  co_AuthorID :: string
  co_Body :: string
  co_Active :: bool
  co_CreatedAt :: int

record TicketDependency =
  td_TicketID :: string
  td_DependsOnID :: string
  td_CreatedBy :: string
  td_CreatedAt :: int

record TicketDependencyView =
  tv_TicketID :: string
  tv_Title :: string
  tv_Status :: string

record Ticket =
  ti_TicketID :: string
  ti_Title :: string
  ti_Description :: string
  ti_Status :: string
  ti_Priority :: string
  ti_Timescale :: string
  ti_DueDate :: "int option"
  ti_CreatedBy :: string
  ti_OrgID :: string
  ti_Namespace :: string
  ti_Project :: string
  ti_BoardID :: "string option"
  ti_ParentID :: "string option"
  ti_AssigneeID :: "string option"
  ti_WorkflowID :: "string option"
  ti_RunID :: "string option"
  ti_ForgeExecutionID :: "string option"
  ti_Active :: bool
  ti_Version :: int
  ti_Comments :: "TicketComment list"
  ti_DependsOn :: "TicketDependencyView list"
  ti_CreatedAt :: int
  ti_UpdatedAt :: int

record Board =
  bd_BoardID :: string
  bd_Name :: string
  bd_Description :: string
  bd_CreatedBy :: string
  bd_OrgID :: string
  bd_Project :: string
  bd_ProjectID :: string
  bd_Active :: bool
  bd_CreatedAt :: int

record TicketFieldDef =
  fd_FieldDefID :: string
  fd_OrgID :: string
  fd_BoardID :: string
  fd_Kind :: string
  fd_Value :: string
  fd_Label :: string
  fd_Color :: string
  fd_Position :: int
  fd_Active :: bool
  fd_CreatedAt :: int

section \<open>The database\<close>

datatype tkTable = TTickets | TDeps | TBoards | TFields | TComments

record tkDB =
  tks_tickets :: "Ticket list"
  tks_deps :: "TicketDependency list"
  tks_boards :: "Board list"
  tks_fields :: "TicketFieldDef list"
  tks_comments :: "TicketComment list"
  tks_down :: "tkTable \<Rightarrow> bool"
  tks_ro :: "tkTable \<Rightarrow> bool"

definition getTicket :: "tkDB \<Rightarrow> string \<Rightarrow> dbErr + Ticket" where
  "getTicket db i =
     (case firstRow (tks_down db TTickets) (\<lambda>t. ti_TicketID t = i \<and> ti_Active t) (tks_tickets db) of
        Inl e \<Rightarrow> Inl e | Inr t \<Rightarrow> Inr (t\<lparr>ti_Comments := []\<rparr>))"

definition getBoard :: "tkDB \<Rightarrow> string \<Rightarrow> dbErr + Board" where
  "getBoard db i = firstRow (tks_down db TBoards) (\<lambda>b. bd_BoardID b = i \<and> bd_Active b) (tks_boards db)"

definition listComments :: "tkDB \<Rightarrow> string \<Rightarrow> dbErr + TicketComment list" where
  "listComments db i =
     (case findRows (tks_down db TComments) (\<lambda>c. co_TicketID c = i \<and> co_Active c) (tks_comments db) of
        Inl e \<Rightarrow> Inl e | Inr cs \<Rightarrow> Inr (sort_key co_CreatedAt cs))"

text \<open>The ticket id is the primary key.\<close>

definition addTicket :: "Ticket \<Rightarrow> tkDB \<Rightarrow> tkDB option" where
  "addTicket t db =
     (if tks_ro db TTickets \<or> ti_TicketID t \<in> ti_TicketID ` set (tks_tickets db) then None
      else Some (db\<lparr>tks_tickets := tks_tickets db @ [t]\<rparr>))"

text \<open>The columns a PUT may change; the database increments the version.\<close>

definition mutableTicketAssignments :: "Ticket \<Rightarrow> int \<Rightarrow> Ticket \<Rightarrow> Ticket" where
  "mutableTicketAssignments t now row =
     row\<lparr>ti_Title := ti_Title t, ti_Description := ti_Description t, ti_Status := ti_Status t,
         ti_Priority := ti_Priority t, ti_Timescale := ti_Timescale t, ti_DueDate := ti_DueDate t,
         ti_Project := ti_Project t, ti_BoardID := ti_BoardID t, ti_ParentID := ti_ParentID t,
         ti_AssigneeID := ti_AssigneeID t, ti_WorkflowID := ti_WorkflowID t, ti_RunID := ti_RunID t,
         ti_ForgeExecutionID := ti_ForgeExecutionID t, ti_UpdatedAt := now, ti_Version := ti_Version row + 1\<rparr>"

datatype storeResult = Stored | VersionConflict | StoreFailed

definition updateTicket :: "Ticket \<Rightarrow> int \<Rightarrow> tkDB \<Rightarrow> storeResult \<times> tkDB" where
  "updateTicket t now db =
     (if tks_ro db TTickets then (StoreFailed, db)
      else (Stored, db\<lparr>tks_tickets :=
              map (\<lambda>row. if ti_TicketID row = ti_TicketID t \<and> ti_Active row
                         then mutableTicketAssignments t now row else row) (tks_tickets db)\<rparr>))"

text \<open>\<open>UpdateIfVersion\<close>: the comparison is part of the update; no row affected is a conflict.\<close>

definition UpdateIfVersion :: "Ticket \<Rightarrow> int \<Rightarrow> int \<Rightarrow> tkDB \<Rightarrow> storeResult \<times> tkDB" where
  "UpdateIfVersion t expected now db =
     (let hit = (\<lambda>row. ti_TicketID row = ti_TicketID t \<and> ti_Active row \<and> ti_Version row = expected)
      in if tks_ro db TTickets then (StoreFailed, db)
         else if \<not> (\<exists>row\<in>set (tks_tickets db). hit row) then (VersionConflict, db)
         else (Stored, db\<lparr>tks_tickets :=
                 map (\<lambda>row. if hit row then mutableTicketAssignments t now row else row) (tks_tickets db)\<rparr>))"

definition removeTicket :: "string \<Rightarrow> tkDB \<Rightarrow> tkDB option" where
  "removeTicket i db =
     (if tks_ro db TTickets then None
      else Some (db\<lparr>tks_tickets :=
             map (\<lambda>t. if ti_TicketID t = i \<and> ti_Active t then t\<lparr>ti_Active := False\<rparr> else t) (tks_tickets db)\<rparr>))"

section \<open>Dependencies\<close>

text \<open>Declaring an edge twice is a no-op; the pair is the key.\<close>

definition addDependency :: "TicketDependency \<Rightarrow> tkDB \<Rightarrow> tkDB option" where
  "addDependency d db =
     (if tks_ro db TDeps then None
      else if \<exists>x\<in>set (tks_deps db). td_TicketID x = td_TicketID d \<and> td_DependsOnID x = td_DependsOnID d
      then Some db
      else Some (db\<lparr>tks_deps := tks_deps db @ [d]\<rparr>))"

definition removeDependency :: "string \<Rightarrow> string \<Rightarrow> tkDB \<Rightarrow> tkDB option" where
  "removeDependency ticketID dependsOnID db =
     (if tks_ro db TDeps then None
      else Some (db\<lparr>tks_deps :=
             filter (\<lambda>x. \<not> (td_TicketID x = ticketID \<and> td_DependsOnID x = dependsOnID)) (tks_deps db)\<rparr>))"

definition removeDependenciesOf :: "string \<Rightarrow> tkDB \<Rightarrow> tkDB option" where
  "removeDependenciesOf i db =
     (if tks_ro db TDeps then None
      else Some (db\<lparr>tks_deps := filter (\<lambda>x. \<not> (td_TicketID x = i \<or> td_DependsOnID x = i)) (tks_deps db)\<rparr>))"

definition dependencyIDs :: "tkDB \<Rightarrow> string \<Rightarrow> dbErr + string list" where
  "dependencyIDs db i =
     (case findRows (tks_down db TDeps) (\<lambda>d. td_TicketID d = i) (tks_deps db) of
        Inl e \<Rightarrow> Inl e | Inr ds \<Rightarrow> Inr (map td_DependsOnID (sort_key td_CreatedAt ds)))"

section \<open>Access\<close>

definition canAccessTicket :: "Ticket \<Rightarrow> string \<Rightarrow> string \<Rightarrow> bool" where
  "canAccessTicket t userID orgID \<longleftrightarrow> ti_CreatedBy t = userID \<or> (orgID \<noteq> [] \<and> ti_OrgID t = orgID)"

definition canAccessBoard :: "Board \<Rightarrow> string \<Rightarrow> string \<Rightarrow> bool" where
  "canAccessBoard b userID orgID \<longleftrightarrow> bd_CreatedBy b = userID \<or> (orgID \<noteq> [] \<and> bd_OrgID b = orgID)"

definition ticketResource :: "string \<Rightarrow> string \<Rightarrow> string" where
  "ticketResource ns i = (if ns = [] then ''tickets/tickets/'' @ i else ns @ ''/tickets/tickets/'' @ i)"

definition namespaceMatches :: "string \<Rightarrow> string \<Rightarrow> bool" where
  "namespaceMatches recorded fromURL \<longleftrightarrow> fromURL = [] \<or> recorded = fromURL"

text \<open>\<open>callerNamespace\<close>, from gatekeeper's answer to the user-info request (\<open>None\<close>: no answer).\<close>

definition callerNamespace :: "string option \<Rightarrow> string" where
  "callerNamespace answer =
     (case answer of None \<Rightarrow> [] | Some u \<Rightarrow> if CHR ''/'' \<in> set u then [] else u)"

text \<open>
  \<open>loadDependencies\<close> for a batch: one query for the edges, one for the blockers.  A blocker the
  caller cannot see is a bare id.  A ticket listed twice gets the views at its last position, as
  the index of the code does.
\<close>

definition depView :: "(string \<rightharpoonup> Ticket) \<Rightarrow> string \<Rightarrow> string \<Rightarrow> TicketDependency \<Rightarrow> TicketDependencyView" where
  "depView byID userID orgID e =
     (case byID (td_DependsOnID e) of
        None \<Rightarrow> \<lparr>tv_TicketID = td_DependsOnID e, tv_Title = [], tv_Status = []\<rparr>
      | Some b \<Rightarrow> if canAccessTicket b userID orgID
                  then \<lparr>tv_TicketID = td_DependsOnID e, tv_Title = ti_Title b, tv_Status = ti_Status b\<rparr>
                  else \<lparr>tv_TicketID = td_DependsOnID e, tv_Title = [], tv_Status = []\<rparr>)"

definition loadDependencies :: "tkDB \<Rightarrow> string \<Rightarrow> string \<Rightarrow> Ticket list \<Rightarrow> dbErr + Ticket list" where
  "loadDependencies db userID orgID tickets =
     (if tickets = [] then Inr []
      else
        (let ids = map ti_TicketID tickets
         in case findRows (tks_down db TDeps) (\<lambda>d. td_TicketID d \<in> set ids) (tks_deps db) of
              Inl e \<Rightarrow> Inl e
            | Inr rows \<Rightarrow>
                (let edges = sort_key td_CreatedAt rows
                 in if edges = [] then Inr (map (\<lambda>t. t\<lparr>ti_DependsOn := []\<rparr>) tickets)
                    else (case findRows (tks_down db TTickets)
                                 (\<lambda>t. ti_TicketID t \<in> set (map td_DependsOnID edges) \<and> ti_Active t) (tks_tickets db) of
                            Inl e \<Rightarrow> Inl e
                          | Inr blockers \<Rightarrow>
                              (let byID = map_of (rev (map (\<lambda>b. (ti_TicketID b, b)) blockers));
                                   indexed = map_of (rev (zip ids [0..<length ids]))
                               in Inr (map (\<lambda>(i, t). t\<lparr>ti_DependsOn :=
                                     map (depView byID userID orgID)
                                       (filter (\<lambda>e. indexed (td_TicketID e) = Some i) edges)\<rparr>)
                                   (enumerate 0 tickets)))))))"

section \<open>Field definitions\<close>

fun dedupDefs :: "(string \<times> string) set \<Rightarrow> TicketFieldDef list \<Rightarrow> TicketFieldDef list" where
  "dedupDefs seen [] = []"
| "dedupDefs seen (d # ds) =
     (let key = (fd_Kind d, fd_Value d)
      in if key \<in> seen then dedupDefs seen ds else d # dedupDefs (insert key seen) ds)"

text \<open>
  Definitions of one board scope, those of the org before the global ones.  The code's dedup key
  joins kind and value with a colon; kinds are one of three words without a colon, so the pair
  is the same key.
\<close>

definition queryFieldDefs :: "tkDB \<Rightarrow> string \<Rightarrow> string \<Rightarrow> string \<Rightarrow> dbErr + TicketFieldDef list" where
  "queryFieldDefs db orgID kind boardID =
     (case findRows (tks_down db TFields)
             (\<lambda>d. fd_Active d \<and> fd_BoardID d = boardID \<and> (fd_OrgID d = [] \<or> fd_OrgID d = orgID)
                  \<and> (kind \<noteq> [] \<longrightarrow> fd_Kind d = kind)) (tks_fields db) of
        Inl e \<Rightarrow> Inl e
      | Inr rows \<Rightarrow>
          Inr (dedupDefs {} (sort_key (\<lambda>d. if fd_OrgID d = [] then (1::nat) else 0)
                 (sort_key fd_Position (sort_key fd_CreatedAt rows)))))"

definition boardScopedKind :: "string \<Rightarrow> bool" where
  "boardScopedKind kind \<longleftrightarrow> kind = FieldKindStatus \<or> kind = FieldKindPriority"

definition resolveBoardScopedDefs :: "tkDB \<Rightarrow> string \<Rightarrow> string \<Rightarrow> string \<Rightarrow> dbErr + TicketFieldDef list" where
  "resolveBoardScopedDefs db orgID kind boardID =
     (if boardID \<noteq> [] then
        (case queryFieldDefs db orgID kind boardID of
           Inl e \<Rightarrow> Inl e
         | Inr own \<Rightarrow> if own \<noteq> [] then Inr own else queryFieldDefs db orgID kind [])
      else queryFieldDefs db orgID kind [])"

definition listFieldDefs :: "tkDB \<Rightarrow> string \<Rightarrow> string \<Rightarrow> string \<Rightarrow> dbErr + TicketFieldDef list" where
  "listFieldDefs db orgID kind boardID =
     (if kind \<noteq> [] \<and> \<not> boardScopedKind kind then queryFieldDefs db orgID kind []
      else if kind \<noteq> [] then resolveBoardScopedDefs db orgID kind boardID
      else (case resolveBoardScopedDefs db orgID FieldKindStatus boardID of
              Inl e \<Rightarrow> Inl e
            | Inr statuses \<Rightarrow>
                (case resolveBoardScopedDefs db orgID FieldKindPriority boardID of
                   Inl e \<Rightarrow> Inl e
                 | Inr priorities \<Rightarrow>
                     (case queryFieldDefs db orgID [] [] of
                        Inl e \<Rightarrow> Inl e
                      | Inr others \<Rightarrow>
                          Inr (statuses @ priorities @ filter (\<lambda>d. \<not> boardScopedKind (fd_Kind d)) others)))))"

fun distinctValues :: "string set \<Rightarrow> string list \<Rightarrow> string list" where
  "distinctValues seen [] = []"
| "distinctValues seen (v # vs) =
     (if v \<in> seen then distinctValues seen vs else v # distinctValues (insert v seen) vs)"

definition getFieldDefValues :: "tkDB \<Rightarrow> string \<Rightarrow> string \<Rightarrow> string \<Rightarrow> string list \<Rightarrow> string list" where
  "getFieldDefValues db orgID kind boardID fallback =
     (case listFieldDefs db orgID kind boardID of
        Inl _ \<Rightarrow> fallback
      | Inr defs \<Rightarrow> if defs = [] then fallback else distinctValues {} (map fd_Value defs))"

lemma distinctValues_set: "set (distinctValues seen vs) = set vs - seen"
  by (induction vs arbitrary: seen) auto

text \<open>The valid values are never empty, so the code's index 0 is in range.\<close>

lemma getFieldDefValues_nonempty:
  "fallback \<noteq> [] \<Longrightarrow> getFieldDefValues db orgID kind boardID fallback \<noteq> []"
proof -
  assume f: "fallback \<noteq> []"
  have "distinctValues {} vs \<noteq> []" if "vs \<noteq> []" for vs
    using that distinctValues_set[of "{}" vs] by auto
  then show ?thesis using f by (simp add: getFieldDefValues_def split: sum.split)
qed

section \<open>Default boards\<close>

definition defaultBoardName :: string where "defaultBoardName = ''Default''"

definition findDefaultBoard :: "tkDB \<Rightarrow> string \<Rightarrow> string \<Rightarrow> dbErr + Board" where
  "findDefaultBoard db userID orgID =
     firstRow (tks_down db TBoards)
       (\<lambda>b. bd_Active b \<and> bd_Name b = defaultBoardName
          \<and> (if orgID \<noteq> [] then bd_OrgID b = orgID else bd_OrgID b = [] \<and> bd_CreatedBy b = userID))
       (tks_boards db)"

definition addBoard :: "Board \<Rightarrow> tkDB \<Rightarrow> tkDB option" where
  "addBoard b db = (if tks_ro db TBoards then None else Some (db\<lparr>tks_boards := tks_boards db @ [b]\<rparr>))"

definition builtinDefs :: "string \<Rightarrow> (string \<times> string \<times> string) list" where
  "builtinDefs kind =
     (if kind = FieldKindStatus
      then [(StatusOpen, ''Open'', []), (StatusInProgress, ''In Progress'', []),
            (StatusResolved, ''Resolved'', []), (StatusClosed, ''Closed'', [])]
      else [(''low'', ''Low'', ''#4a5346''), (PriorityMedium, ''Medium'', ''#7d8a78''),
            (''high'', ''High'', ''#c9b060''), (''critical'', ''Critical'', ''#d46b55'')])"

definition boardDefs ::
  "(nat \<Rightarrow> string) \<Rightarrow> nat \<Rightarrow> int \<Rightarrow> Board \<Rightarrow> string \<Rightarrow> (string \<times> string \<times> string) list \<Rightarrow> TicketFieldDef list" where
  "boardDefs uuid n now b kind base =
     map (\<lambda>(i, (value, label, color)). \<lparr>fd_FieldDefID = uuid (n + i), fd_OrgID = bd_OrgID b, fd_BoardID = bd_BoardID b,
            fd_Kind = kind, fd_Value = value, fd_Label = label, fd_Color = color, fd_Position = int i,
            fd_Active = True, fd_CreatedAt = now\<rparr>) (enumerate 0 base)"

definition seedBase :: "tkDB \<Rightarrow> string \<Rightarrow> string \<Rightarrow> dbErr + (string \<times> string \<times> string) list" where
  "seedBase db orgID kind =
     (case queryFieldDefs db orgID kind [] of
        Inl e \<Rightarrow> Inl e
      | Inr base \<Rightarrow> Inr (if base = [] then builtinDefs kind
                         else map (\<lambda>d. (fd_Value d, fd_Label d, fd_Color d)) base))"

text \<open>Best effort: on failure the database is as it was.  The new next identifier is returned.\<close>

definition seedBoardFieldDefs :: "(nat \<Rightarrow> string) \<Rightarrow> int \<Rightarrow> Board \<Rightarrow> tkDB \<Rightarrow> nat \<Rightarrow> tkDB \<times> nat" where
  "seedBoardFieldDefs uuid now b db n =
     (case seedBase db (bd_OrgID b) FieldKindStatus of
        Inl _ \<Rightarrow> (db, n)
      | Inr statuses \<Rightarrow>
          (let n1 = n + length statuses
           in case seedBase db (bd_OrgID b) FieldKindPriority of
                Inl _ \<Rightarrow> (db, n1)
              | Inr priorities \<Rightarrow>
                  (let defs = boardDefs uuid n now b FieldKindStatus statuses
                              @ boardDefs uuid n1 now b FieldKindPriority priorities;
                       n2 = n1 + length priorities
                   in if tks_ro db TFields then (db, n2)
                      else (db\<lparr>tks_fields := tks_fields db @ defs\<rparr>, n2))))"

definition getOrCreateDefaultBoard ::
  "(nat \<Rightarrow> string) \<Rightarrow> int \<Rightarrow> string \<Rightarrow> string \<Rightarrow> tkDB \<Rightarrow> nat \<Rightarrow> (dbErr + Board) \<times> tkDB \<times> nat" where
  "getOrCreateDefaultBoard uuid now userID orgID db n =
     (case findDefaultBoard db userID orgID of
        Inr b \<Rightarrow> (Inr b, db, n)
      | Inl ErrDatabase \<Rightarrow> (Inl ErrDatabase, db, n)
      | Inl ErrRecordNotFound \<Rightarrow>
          (let b = \<lparr>bd_BoardID = uuid n, bd_Name = defaultBoardName, bd_Description = ''Default board'',
                   bd_CreatedBy = userID, bd_OrgID = orgID, bd_Project = [], bd_ProjectID = [],
                   bd_Active = True, bd_CreatedAt = now\<rparr>
           in case addBoard b db of
                None \<Rightarrow>
                  (case findDefaultBoard db userID orgID of
                     Inr raced \<Rightarrow> (Inr raced, db, n + 1)
                   | Inl _ \<Rightarrow> (Inl ErrDatabase, db, n + 1))
              | Some db1 \<Rightarrow> (case seedBoardFieldDefs uuid now b db1 (n + 1) of (db2, m) \<Rightarrow> (Inr b, db2, m))))"

end
