(* ===== verification/Tk_Tickets.thy ===== *)
theory Tk_Tickets
  imports Tk_Store
begin

text \<open>
  The handlers of the tickets service (\<open>api_tickets.go\<close>, \<open>api_dependencies.go\<close>,
  \<open>concurrency.go\<close>, \<open>events.go\<close>).  A handler takes the database and returns its reply, the new
  database and the events it emits.  The permission check of gatekeeper, the caller's username,
  \<open>uuid.New\<close> and \<open>time.Parse\<close> are the environment of a request; \<open>now\<close> is its time.
\<close>

section \<open>Requests and replies\<close>

record tkEnv =
  tke_auth :: "string \<Rightarrow> string \<Rightarrow> (string \<times> string) option"
  tke_username :: "string option"
  tke_uuid :: "nat \<Rightarrow> string"
  tke_parseTime :: "string \<Rightarrow> int option"
  tke_now :: int

datatype tkProblem =
    InvalidBody | TitleRequired | InvalidPriority | BoardProblem | ParentProblem | InvalidStatus
  | InvalidDueDate | InvalidIfMatch | SelfDependency | DependencyProblem | CycleProblem

datatype 'a tkReply =
    TkOK 'a
  | TkDenied
  | TkBadRequest tkProblem
  | TkNotFound
  | TkPreconditionFailed "int option"
  | TkServerError

record createTicketRequest =
  cr_Title :: string
  cr_Description :: string
  cr_Status :: string
  cr_Priority :: string
  cr_Project :: string
  cr_BoardID :: "string option"
  cr_ParentID :: "string option"
  cr_Timescale :: string
  cr_DueDate :: "string option"
  cr_AssigneeID :: "string option"
  cr_WorkflowID :: "string option"
  cr_RunID :: "string option"
  cr_ForgeExecutionID :: "string option"

record updateTicketRequest =
  up_Title :: string
  up_Description :: "string option"
  up_Status :: string
  up_Priority :: string
  up_Project :: string
  up_BoardID :: "string option"
  up_ParentID :: "string option"
  up_Timescale :: string
  up_DueDate :: "string option"
  up_AssigneeID :: "string option"
  up_WorkflowID :: "string option"
  up_RunID :: "string option"
  up_ForgeExecutionID :: "string option"

section \<open>Events\<close>

record ticketEvent =
  te_Type :: string
  te_Subject :: string
  te_OrgID :: string
  te_UserID :: string
  te_Data :: "(string \<times> string) list"

definition ticketEventFields :: "Ticket \<Rightarrow> (string \<times> string) list" where
  "ticketEventFields t =
     [(''ticket_id'', ti_TicketID t), (''title'', ti_Title t), (''description'', ti_Description t),
      (''status'', ti_Status t), (''priority'', ti_Priority t), (''timescale'', ti_Timescale t),
      (''project'', ti_Project t), (''created_by'', ti_CreatedBy t), (''org_id'', ti_OrgID t)]
     @ (case ti_BoardID t of None \<Rightarrow> [] | Some v \<Rightarrow> [(''board_id'', v)])
     @ (case ti_AssigneeID t of None \<Rightarrow> [] | Some v \<Rightarrow> [(''assignee_id'', v)])
     @ (case ti_WorkflowID t of None \<Rightarrow> [] | Some v \<Rightarrow> [(''workflow_id'', v)])
     @ (case ti_RunID t of None \<Rightarrow> [] | Some v \<Rightarrow> [(''run_id'', v)])"

text \<open>The extra fields of a transition; their names are none of the ticket's.\<close>

definition notifyEvents :: "string \<Rightarrow> Ticket \<Rightarrow> (string \<times> string) list \<Rightarrow> ticketEvent" where
  "notifyEvents eventType t extra =
     \<lparr>te_Type = eventType, te_Subject = ti_TicketID t, te_OrgID = ti_OrgID t, te_UserID = ti_CreatedBy t,
      te_Data = ticketEventFields t @ extra\<rparr>"

section \<open>Optimistic concurrency\<close>

definition etagFor :: "int \<Rightarrow> string" where
  "etagFor version = ''\"'' @ itoa version @ ''\"''"

record ifMatch =
  im_present :: bool
  im_any :: bool
  im_version :: int

text \<open>\<open>strings.Trim(s, "\"")\<close>.\<close>

definition trimQuotes :: "string \<Rightarrow> string" where
  "trimQuotes s = rev (dropWhile (\<lambda>c. c = CHR 0x22) (rev (dropWhile (\<lambda>c. c = CHR 0x22) s)))"

fun firstVersion :: "string list \<Rightarrow> int option" where
  "firstVersion [] = None"
| "firstVersion (part # parts) =
     (let tag = TrimSpace part
      in if HasPrefix tag ''W/'' then firstVersion parts
         else case ParseInt64 (trimQuotes tag) of None \<Rightarrow> firstVersion parts | Some v \<Rightarrow> Some v)"

definition parseIfMatch :: "string \<Rightarrow> ifMatch option" where
  "parseIfMatch header =
     (let raw = TrimSpace header
      in if raw = [] then Some \<lparr>im_present = False, im_any = False, im_version = 0\<rparr>
         else if raw = ''*'' then Some \<lparr>im_present = True, im_any = True, im_version = 0\<rparr>
         else (case firstVersion (splitChar (CHR '','') raw) of
                 None \<Rightarrow> None
               | Some v \<Rightarrow> Some \<lparr>im_present = True, im_any = False, im_version = v\<rparr>))"

section \<open>Validation of a request\<close>

definition normalizeBoardID :: "tkDB \<Rightarrow> string \<Rightarrow> string \<Rightarrow> string \<Rightarrow> dbErr + string option \<times> bool" where
  "normalizeBoardID db boardID userID orgID =
     (if boardID = [] then Inr (None, True)
      else (case getBoard db boardID of
              Inl ErrRecordNotFound \<Rightarrow> Inr (None, False)
            | Inl ErrDatabase \<Rightarrow> Inl ErrDatabase
            | Inr b \<Rightarrow> if \<not> canAccessBoard b userID orgID then Inr (None, False)
                      else Inr (Some (bd_BoardID b), True)))"

definition resolveCreateBoardID ::
  "tkEnv \<Rightarrow> string option \<Rightarrow> string \<Rightarrow> string \<Rightarrow> tkDB \<Rightarrow> nat \<Rightarrow> (dbErr + string option \<times> bool) \<times> tkDB \<times> nat" where
  "resolveCreateBoardID E boardID userID orgID db n =
     (case boardID of
        Some (c # cs) \<Rightarrow> (normalizeBoardID db (c # cs) userID orgID, db, n)
      | _ \<Rightarrow>
          (case getOrCreateDefaultBoard (tke_uuid E) (tke_now E) userID orgID db n of
             (Inl e, db1, m) \<Rightarrow> (Inl e, db1, m)
           | (Inr b, db1, m) \<Rightarrow> (Inr (Some (bd_BoardID b), True), db1, m)))"

definition boardScope :: "string option \<Rightarrow> string" where
  "boardScope boardID = (case boardID of None \<Rightarrow> [] | Some b \<Rightarrow> b)"

text \<open>
  \<open>normalizeParentID\<close>: the walk up the ancestor chain.  \<open>Inr True\<close> when it ended without
  meeting \<open>selfID\<close>, which includes running out of steps.
\<close>

definition maxParentDepth :: nat where "maxParentDepth = 64"

fun parentWalk :: "nat \<Rightarrow> tkDB \<Rightarrow> string \<Rightarrow> string \<Rightarrow> string \<Rightarrow> string \<Rightarrow> dbErr + bool" where
  "parentWalk 0 db selfID userID orgID cur = Inr True"
| "parentWalk (Suc k) db selfID userID orgID cur =
     (case getTicket db cur of
        Inl ErrRecordNotFound \<Rightarrow> Inr False
      | Inl ErrDatabase \<Rightarrow> Inl ErrDatabase
      | Inr t \<Rightarrow>
          if \<not> canAccessTicket t userID orgID then Inr False
          else (case ti_ParentID t of
                  None \<Rightarrow> Inr True
                | Some p \<Rightarrow>
                    if p = [] then Inr True
                    else if p = selfID then Inr False
                    else parentWalk k db selfID userID orgID p))"

definition normalizeParentID ::
  "tkDB \<Rightarrow> string option \<Rightarrow> string \<Rightarrow> string \<Rightarrow> string \<Rightarrow> dbErr + string option \<times> bool" where
  "normalizeParentID db parentID selfID userID orgID =
     (case parentID of
        None \<Rightarrow> Inr (None, True)
      | Some p \<Rightarrow>
          if p = [] then Inr (None, True)
          else if p = selfID then Inr (None, False)
          else (case parentWalk maxParentDepth db selfID userID orgID p of
                  Inl e \<Rightarrow> Inl e
                | Inr ok \<Rightarrow> if ok then Inr (Some p, True) else Inr (None, False)))"

definition parseDueDate :: "tkEnv \<Rightarrow> string option \<Rightarrow> (int option) option" where
  "parseDueDate E s =
     (case s of
        None \<Rightarrow> Some None
      | Some v \<Rightarrow> if v = [] then Some None
                  else (case tke_parseTime E v of None \<Rightarrow> None | Some t \<Rightarrow> Some (Some t)))"

section \<open>Creating\<close>

definition eventTicketCreated :: string where "eventTicketCreated = ''ticket.created''"
definition eventTicketUpdated :: string where "eventTicketUpdated = ''ticket.updated''"
definition eventTicketStatus :: string where "eventTicketStatus = ''ticket.status_changed''"
definition eventTicketDeleted :: string where "eventTicketDeleted = ''ticket.deleted''"

definition newTicket ::
  "tkEnv \<Rightarrow> string \<Rightarrow> string \<Rightarrow> createTicketRequest \<Rightarrow> nat \<Rightarrow> string \<Rightarrow> string \<Rightarrow> string option \<Rightarrow> string option \<Rightarrow> int option \<Rightarrow> Ticket" where
  "newTicket E userID orgID req n status priority boardID parentID dueDate =
     \<lparr>ti_TicketID = tke_uuid E n, ti_Title = cr_Title req, ti_Description = cr_Description req,
      ti_Status = status, ti_Priority = priority, ti_Timescale = cr_Timescale req, ti_DueDate = dueDate,
      ti_CreatedBy = userID, ti_OrgID = orgID, ti_Namespace = callerNamespace (tke_username E),
      ti_Project = cr_Project req, ti_BoardID = boardID, ti_ParentID = parentID,
      ti_AssigneeID = cr_AssigneeID req, ti_WorkflowID = cr_WorkflowID req, ti_RunID = cr_RunID req,
      ti_ForgeExecutionID = cr_ForgeExecutionID req, ti_Active = True, ti_Version = 0, ti_Comments = [],
      ti_DependsOn = [], ti_CreatedAt = tke_now E, ti_UpdatedAt = tke_now E\<rparr>"

definition handleCreateTicket ::
  "tkEnv \<Rightarrow> createTicketRequest option \<Rightarrow> tkDB \<Rightarrow> nat \<Rightarrow> Ticket tkReply \<times> tkDB \<times> nat \<times> ticketEvent list" where
  "handleCreateTicket E body db n =
     (case tke_auth E ''createTicket'' ''tickets/tickets'' of
        None \<Rightarrow> (TkDenied, db, n, [])
      | Some (userID, orgID) \<Rightarrow>
          (case body of
             None \<Rightarrow> (TkBadRequest InvalidBody, db, n, [])
           | Some req \<Rightarrow>
               if cr_Title req = [] then (TkBadRequest TitleRequired, db, n, [])
               else
                 (let priority = (if cr_Priority req = [] then PriorityMedium else cr_Priority req)
                  in if priority \<notin> set (getFieldDefValues db orgID FieldKindPriority [] validPriorities)
                     then (TkBadRequest InvalidPriority, db, n, [])
                     else (case resolveCreateBoardID E (cr_BoardID req) userID orgID db n of
                             (Inl e, db1, m) \<Rightarrow> (TkServerError, db1, m, [])
                           | (Inr (boardID, boardOK), db1, m) \<Rightarrow>
                               if \<not> boardOK then (TkBadRequest BoardProblem, db1, m, [])
                               else (case normalizeParentID db1 (cr_ParentID req) [] userID orgID of
                                       Inl e \<Rightarrow> (TkServerError, db1, m, [])
                                     | Inr (parentID, parentOK) \<Rightarrow>
                                         if \<not> parentOK then (TkBadRequest ParentProblem, db1, m, [])
                                         else
                                           (let values = getFieldDefValues db1 orgID FieldKindStatus (boardScope boardID) validStatuses;
                                                status = (if cr_Status req = [] then values ! 0 else cr_Status req)
                                            in if status \<notin> set values then (TkBadRequest InvalidStatus, db1, m, [])
                                               else (case parseDueDate E (cr_DueDate req) of
                                                       None \<Rightarrow> (TkBadRequest InvalidDueDate, db1, m, [])
                                                     | Some due \<Rightarrow>
                                                         (let t = newTicket E userID orgID req m status priority boardID parentID due
                                                          in case addTicket t db1 of
                                                               None \<Rightarrow> (TkServerError, db1, m + 1, [])
                                                             | Some db2 \<Rightarrow>
                                                                 (TkOK t, db2, m + 1,
                                                                  [notifyEvents eventTicketCreated t [],
                                                                   notifyEvents eventTicketStatus t
                                                                     [(''old_status'', []), (''new_status'', ti_Status t)]])))))))))"

section \<open>Updating\<close>

text \<open>
  An update in the three parts the handler has: loading the ticket it changes, computing the
  changed row, and storing it, conditionally or not.
\<close>

definition loadAccessibleTicket ::
  "tkDB \<Rightarrow> string \<Rightarrow> string \<Rightarrow> string \<Rightarrow> string \<Rightarrow> unit tkReply + Ticket" where
  "loadAccessibleTicket db i ns userID orgID =
     (case getTicket db i of
        Inl ErrRecordNotFound \<Rightarrow> Inl TkNotFound
      | Inl ErrDatabase \<Rightarrow> Inl TkServerError
      | Inr t \<Rightarrow>
          if \<not> namespaceMatches (ti_Namespace t) ns \<or> \<not> canAccessTicket t userID orgID then Inl TkNotFound
          else Inr t)"

definition orOld :: "'a option \<Rightarrow> 'a option \<Rightarrow> 'a option" where
  "orOld new old = (case new of None \<Rightarrow> old | Some v \<Rightarrow> Some v)"

definition patchTicket ::
  "updateTicketRequest \<Rightarrow> string \<Rightarrow> string \<Rightarrow> int option \<Rightarrow> string option \<Rightarrow> string option \<Rightarrow> Ticket \<Rightarrow> Ticket" where
  "patchTicket req status priority due boardID parentID t =
     t\<lparr>ti_Title := (if up_Title req = [] then ti_Title t else up_Title req),
       ti_Description := (case up_Description req of None \<Rightarrow> ti_Description t | Some d \<Rightarrow> d),
       ti_Status := status, ti_Priority := priority,
       ti_Timescale := (if up_Timescale req \<noteq> [] then up_Timescale req else ti_Timescale t),
       ti_Project := (if up_Project req \<noteq> [] then up_Project req else ti_Project t),
       ti_DueDate := (if up_DueDate req \<noteq> None then due else ti_DueDate t),
       ti_AssigneeID := orOld (up_AssigneeID req) (ti_AssigneeID t),
       ti_WorkflowID := orOld (up_WorkflowID req) (ti_WorkflowID t),
       ti_RunID := orOld (up_RunID req) (ti_RunID t),
       ti_ForgeExecutionID := orOld (up_ForgeExecutionID req) (ti_ForgeExecutionID t),
       ti_BoardID := (if up_BoardID req \<noteq> None then boardID else ti_BoardID t),
       ti_ParentID := (if up_ParentID req \<noteq> None then parentID else ti_ParentID t)\<rparr>"

definition planUpdate ::
  "tkEnv \<Rightarrow> string \<Rightarrow> string \<Rightarrow> updateTicketRequest \<Rightarrow> Ticket \<Rightarrow> tkDB \<Rightarrow> nat \<Rightarrow> (unit tkReply + Ticket) \<times> tkDB \<times> nat" where
  "planUpdate E userID orgID req t db n =
     (case (if up_BoardID req = None then (Inr (None, True), db, n)
            else resolveCreateBoardID E (up_BoardID req) userID orgID db n) of
        (Inl e, db1, m) \<Rightarrow> (Inl TkServerError, db1, m)
      | (Inr (boardID, boardOK), db1, m) \<Rightarrow>
          if \<not> boardOK then (Inl (TkBadRequest BoardProblem), db1, m)
          else (case (if up_ParentID req = None then Inr (None, True)
                      else normalizeParentID db1 (up_ParentID req) (ti_TicketID t) userID orgID) of
                  Inl e \<Rightarrow> (Inl TkServerError, db1, m)
                | Inr (parentID, parentOK) \<Rightarrow>
                    if \<not> parentOK then (Inl (TkBadRequest ParentProblem), db1, m)
                    else
                      (let scope = boardScope (if up_BoardID req \<noteq> None then boardID else ti_BoardID t);
                           wanted = (if up_Status req = [] then ti_Status t else up_Status req);
                           values = getFieldDefValues db1 orgID FieldKindStatus scope validStatuses;
                           priority = (if up_Priority req = [] then ti_Priority t else up_Priority req)
                       in if wanted \<notin> set values \<and> up_BoardID req = None then (Inl (TkBadRequest InvalidStatus), db1, m)
                          else if priority \<notin> set (getFieldDefValues db1 orgID FieldKindPriority [] validPriorities)
                          then (Inl (TkBadRequest InvalidPriority), db1, m)
                          else (case parseDueDate E (up_DueDate req) of
                                  None \<Rightarrow> (Inl (TkBadRequest InvalidDueDate), db1, m)
                                | Some due \<Rightarrow>
                                    (Inr (patchTicket req (if wanted \<in> set values then wanted else values ! 0)
                                            priority due boardID parentID t), db1, m)))))"

definition storeUpdate :: "ifMatch \<Rightarrow> Ticket \<Rightarrow> int \<Rightarrow> tkDB \<Rightarrow> storeResult \<times> tkDB" where
  "storeUpdate cond t now db =
     (if im_present cond \<and> \<not> im_any cond then UpdateIfVersion t (im_version cond) now db
      else updateTicket t now db)"

definition updateEvents :: "Ticket \<Rightarrow> string \<Rightarrow> ticketEvent list" where
  "updateEvents t prevStatus =
     notifyEvents eventTicketUpdated t []
     # (if ti_Status t \<noteq> prevStatus
        then [notifyEvents eventTicketStatus t [(''old_status'', prevStatus), (''new_status'', ti_Status t)]] else [])"

definition cast :: "unit tkReply \<Rightarrow> 'a tkReply" where
  "cast r = (case r of TkDenied \<Rightarrow> TkDenied | TkBadRequest p \<Rightarrow> TkBadRequest p | TkNotFound \<Rightarrow> TkNotFound
     | TkPreconditionFailed v \<Rightarrow> TkPreconditionFailed v | _ \<Rightarrow> TkServerError)"

definition handleUpdateTicket ::
  "tkEnv \<Rightarrow> string \<Rightarrow> string \<Rightarrow> updateTicketRequest option \<Rightarrow> string \<Rightarrow> tkDB \<Rightarrow> nat
   \<Rightarrow> Ticket tkReply \<times> tkDB \<times> nat \<times> ticketEvent list" where
  "handleUpdateTicket E i ns body header db n =
     (case tke_auth E ''updateTicket'' (ticketResource ns i) of
        None \<Rightarrow> (TkDenied, db, n, [])
      | Some (userID, orgID) \<Rightarrow>
          (case loadAccessibleTicket db i ns userID orgID of
             Inl r \<Rightarrow> (cast r, db, n, [])
           | Inr existing \<Rightarrow>
               (case body of
                  None \<Rightarrow> (TkBadRequest InvalidBody, db, n, [])
                | Some req \<Rightarrow>
                    (case planUpdate E userID orgID req existing db n of
                       (Inl r, db1, m) \<Rightarrow> (cast r, db1, m, [])
                     | (Inr t, db1, m) \<Rightarrow>
                         (case parseIfMatch header of
                            None \<Rightarrow> (TkBadRequest InvalidIfMatch, db1, m, [])
                          | Some cond \<Rightarrow>
                              (case storeUpdate cond t (tke_now E) db1 of
                                 (VersionConflict, db2) \<Rightarrow>
                                   (case getTicket db2 i of
                                      Inl _ \<Rightarrow> (TkPreconditionFailed None, db2, m, [])
                                    | Inr current \<Rightarrow> (TkPreconditionFailed (Some (ti_Version current)), db2, m, []))
                               | (StoreFailed, db2) \<Rightarrow> (TkServerError, db2, m, [])
                               | (Stored, db2) \<Rightarrow>
                                   (let events = updateEvents t (ti_Status existing)
                                    in case getTicket db2 i of
                                         Inl _ \<Rightarrow> (TkServerError, db2, m, events)
                                       | Inr t2 \<Rightarrow>
                                           (case listComments db2 i of
                                              Inl _ \<Rightarrow> (TkServerError, db2, m, events)
                                            | Inr cs \<Rightarrow> (TkOK (t2\<lparr>ti_Comments := cs\<rparr>), db2, m, events)))))))))"

section \<open>Reading and deleting\<close>

definition handleGetTicket :: "tkEnv \<Rightarrow> string \<Rightarrow> string \<Rightarrow> tkDB \<Rightarrow> (Ticket \<times> string) tkReply" where
  "handleGetTicket E i ns db =
     (case tke_auth E ''getTicket'' (ticketResource ns i) of
        None \<Rightarrow> TkDenied
      | Some (userID, orgID) \<Rightarrow>
          (case loadAccessibleTicket db i ns userID orgID of
             Inl r \<Rightarrow> cast r
           | Inr t \<Rightarrow>
               (case listComments db i of
                  Inl _ \<Rightarrow> TkServerError
                | Inr cs \<Rightarrow>
                    (case loadDependencies db userID orgID [t\<lparr>ti_Comments := cs\<rparr>] of
                       Inr [t1] \<Rightarrow> TkOK (t1, etagFor (ti_Version t1))
                     | _ \<Rightarrow> TkServerError))))"

text \<open>The clean-up of the edges is best effort.\<close>

definition handleDeleteTicket :: "tkEnv \<Rightarrow> string \<Rightarrow> string \<Rightarrow> tkDB \<Rightarrow> unit tkReply \<times> tkDB \<times> ticketEvent list" where
  "handleDeleteTicket E i ns db =
     (case tke_auth E ''deleteTicket'' (ticketResource ns i) of
        None \<Rightarrow> (TkDenied, db, [])
      | Some (userID, orgID) \<Rightarrow>
          (case loadAccessibleTicket db i ns userID orgID of
             Inl r \<Rightarrow> (cast r, db, [])
           | Inr t \<Rightarrow>
               (case removeTicket (ti_TicketID t) db of
                  None \<Rightarrow> (TkServerError, db, [])
                | Some db1 \<Rightarrow>
                    (TkOK (), (case removeDependenciesOf i db1 of None \<Rightarrow> db1 | Some db2 \<Rightarrow> db2),
                     [notifyEvents eventTicketDeleted t []]))))"

section \<open>Dependencies\<close>

definition maxDependencyNodes :: nat where "maxDependencyNodes = 256"

text \<open>The inner loop over the ids a ticket depends on: \<open>None\<close> when the ticket itself is one.\<close>

fun scanDeps :: "string \<Rightarrow> string list \<Rightarrow> string list \<Rightarrow> string list \<Rightarrow> (string list \<times> string list) option" where
  "scanDeps ticketID [] seen queue = Some (seen, queue)"
| "scanDeps ticketID (i # ids) seen queue =
     (if i = ticketID then None
      else if i \<in> set seen then scanDeps ticketID ids seen queue
      else scanDeps ticketID ids (seen @ [i]) (queue @ [i]))"

lemma scanDeps_length:
  "scanDeps ticketID ids seen queue = Some (seen', queue') \<Longrightarrow>
     \<exists>new. seen' = seen @ new \<and> queue' = queue @ new"
  by (induction ids arbitrary: seen queue) (fastforce split: if_splits)+

text \<open>\<open>seen\<close> holds the keys of the map in the order they were entered.\<close>

function wouldCycleLoop :: "tkDB \<Rightarrow> string \<Rightarrow> string list \<Rightarrow> string list \<Rightarrow> dbErr + bool" where
  "wouldCycleLoop db ticketID seen queue =
     (case queue of
        [] \<Rightarrow> Inr False
      | cur # rest \<Rightarrow>
          if \<not> length seen \<le> maxDependencyNodes then Inr False
          else (case dependencyIDs db cur of
                  Inl e \<Rightarrow> Inl e
                | Inr next \<Rightarrow>
                    (case scanDeps ticketID next seen rest of
                       None \<Rightarrow> Inr True
                     | Some (seen', queue') \<Rightarrow> wouldCycleLoop db ticketID seen' queue')))"
  by pat_completeness auto
termination
proof (relation "measures [\<lambda>(db, t, seen, q). maxDependencyNodes + 1 - length seen, \<lambda>(db, t, seen, q). length q]",
    goal_cases)
  case (2 db ticketID seen queue cur rest deps p seen' queue')
  then obtain new where new: "seen' = seen @ new" "queue' = rest @ new" using scanDeps_length by metis
  show ?case
  proof (cases new)
    case (Cons x xs)
    with 2 new show ?thesis by auto
  qed (use 2 new in auto)
qed simp

declare wouldCycleLoop.simps [simp del]

definition wouldCycle :: "tkDB \<Rightarrow> string \<Rightarrow> string \<Rightarrow> dbErr + bool" where
  "wouldCycle db ticketID blockerID = wouldCycleLoop db ticketID [blockerID] [blockerID]"

definition writeDependencies ::
  "tkDB \<Rightarrow> string \<Rightarrow> string \<Rightarrow> Ticket \<Rightarrow> (string \<times> TicketDependencyView list) tkReply" where
  "writeDependencies db userID orgID t =
     (case loadDependencies db userID orgID [t] of
        Inr [t1] \<Rightarrow> TkOK (ti_TicketID t, ti_DependsOn t1)
      | _ \<Rightarrow> TkServerError)"

definition handleAddDependency ::
  "tkEnv \<Rightarrow> string \<Rightarrow> string \<Rightarrow> string option \<Rightarrow> tkDB \<Rightarrow> (string \<times> TicketDependencyView list) tkReply \<times> tkDB" where
  "handleAddDependency E i ns body db =
     (case tke_auth E ''updateTicket'' (ticketResource ns i) of
        None \<Rightarrow> (TkDenied, db)
      | Some (userID, orgID) \<Rightarrow>
          (case body of
             None \<Rightarrow> (TkBadRequest InvalidBody, db)
           | Some dependsOn \<Rightarrow>
               (case loadAccessibleTicket db i ns userID orgID of
                  Inl r \<Rightarrow> (cast r, db)
                | Inr t \<Rightarrow>
                    if dependsOn = [] \<or> dependsOn = ti_TicketID t then (TkBadRequest SelfDependency, db)
                    else (case getTicket db dependsOn of
                            Inl ErrDatabase \<Rightarrow> (TkServerError, db)
                          | Inl ErrRecordNotFound \<Rightarrow> (TkBadRequest DependencyProblem, db)
                          | Inr blocker \<Rightarrow>
                              if \<not> canAccessTicket blocker userID orgID then (TkBadRequest DependencyProblem, db)
                              else (case wouldCycle db (ti_TicketID t) (ti_TicketID blocker) of
                                      Inl e \<Rightarrow> (TkServerError, db)
                                    | Inr cyclic \<Rightarrow>
                                        if cyclic then (TkBadRequest CycleProblem, db)
                                        else (case addDependency
                                                 \<lparr>td_TicketID = ti_TicketID t, td_DependsOnID = ti_TicketID blocker,
                                                  td_CreatedBy = userID, td_CreatedAt = tke_now E\<rparr> db of
                                                None \<Rightarrow> (TkServerError, db)
                                              | Some db1 \<Rightarrow> (writeDependencies db1 userID orgID t, db1)))))))"

definition handleRemoveDependency ::
  "tkEnv \<Rightarrow> string \<Rightarrow> string \<Rightarrow> string \<Rightarrow> tkDB \<Rightarrow> (string \<times> TicketDependencyView list) tkReply \<times> tkDB" where
  "handleRemoveDependency E i ns dependsOnID db =
     (case tke_auth E ''updateTicket'' (ticketResource ns i) of
        None \<Rightarrow> (TkDenied, db)
      | Some (userID, orgID) \<Rightarrow>
          (case loadAccessibleTicket db i ns userID orgID of
             Inl r \<Rightarrow> (cast r, db)
           | Inr t \<Rightarrow>
               (case removeDependency (ti_TicketID t) dependsOnID db of
                  None \<Rightarrow> (TkServerError, db)
                | Some db1 \<Rightarrow> (writeDependencies db1 userID orgID t, db1))))"

end
