(* ===== verification/Tk_Concurrent.thy ===== *)
theory Tk_Concurrent
  imports Tk_Tickets
begin

text \<open>
  Concurrent updates of tickets.  Every request of \<open>handleUpdateTicket\<close> reads its ticket, computes
  the changed row and stores it later; other requests run in between.  With \<open>If-Match\<close> the three
  parts together are one atomic patch of the current row.
\<close>

section \<open>What the parts leave alone\<close>

lemma seedBoard_tickets:
  "seedBoardFieldDefs uuid now b db n = (db', m) \<Longrightarrow> tks_tickets db' = tks_tickets db \<and> tks_ro db' = tks_ro db"
  by (auto simp: seedBoardFieldDefs_def Let_def split: sum.splits if_splits)

lemma defaultBoard_tickets:
  assumes "getOrCreateDefaultBoard uuid now userID orgID db n = (r, db', m)"
  shows "tks_tickets db' = tks_tickets db \<and> tks_ro db' = tks_ro db"
  using assms
  by (auto simp: getOrCreateDefaultBoard_def addBoard_def Let_def dest!: seedBoard_tickets
      split: sum.splits dbErr.splits option.splits prod.splits if_splits)

lemma resolveBoard_tickets:
  assumes "resolveCreateBoardID E boardID userID orgID db n = (r, db', m)"
  shows "tks_tickets db' = tks_tickets db \<and> tks_ro db' = tks_ro db"
  using assms
  by (auto simp: resolveCreateBoardID_def dest: defaultBoard_tickets
      split: option.splits list.splits prod.splits sum.splits)

lemma planUpdate_tickets:
  assumes "planUpdate E userID orgID req t db n = (r, db', m)"
  shows "tks_tickets db' = tks_tickets db \<and> tks_ro db' = tks_ro db"
  using assms
  by (auto simp: planUpdate_def Let_def dest: resolveBoard_tickets split: prod.splits sum.splits if_splits option.splits)

lemma planUpdate_patch:
  assumes "planUpdate E userID orgID req t db n = (Inr planned, db', m)"
  shows "\<exists>st pr du bo pa. planned = patchTicket req st pr du bo pa t"
  using assms
  by (auto simp: planUpdate_def Let_def split: prod.splits sum.splits if_splits option.splits; blast)

lemma patchTicket_key [simp]:
  "ti_TicketID (patchTicket req st pr du bo pa t) = ti_TicketID t"
  by (simp add: patchTicket_def)

lemma assign_simps [simp]:
  "ti_TicketID (mutableTicketAssignments t now row) = ti_TicketID row"
  "ti_Active (mutableTicketAssignments t now row) = ti_Active row"
  "ti_Version (mutableTicketAssignments t now row) = ti_Version row + 1"
  by (simp_all add: mutableTicketAssignments_def)

section \<open>Requests in flight\<close>

text \<open>A pending request: the row it read, its patch, and its condition.\<close>

record tkSys =
  sy_db :: tkDB
  sy_pending :: "(Ticket \<times> (Ticket \<Rightarrow> Ticket) \<times> ifMatch) list"

inductive tk_step :: "tkSys \<Rightarrow> tkSys \<Rightarrow> bool" where
  begin_update: "getTicket (sy_db s) i = Inr base
     \<Longrightarrow> planUpdate E userID orgID req base (sy_db s) n = (Inr planned, db1, m)
     \<Longrightarrow> f = patchTicket req st pr du bo pa \<Longrightarrow> planned = f base \<Longrightarrow> parseIfMatch header = Some cond
     \<Longrightarrow> tk_step s (s\<lparr>sy_db := db1, sy_pending := sy_pending s @ [(base, f, cond)]\<rparr>)"
| store_update: "k < length (sy_pending s) \<Longrightarrow> sy_pending s ! k = (base, f, cond)
     \<Longrightarrow> storeUpdate cond (f base) now (sy_db s) = (r, db1)
     \<Longrightarrow> tk_step s (s\<lparr>sy_db := db1, sy_pending := take k (sy_pending s) @ drop (Suc k) (sy_pending s)\<rparr>)"
| create: "handleCreateTicket E body (sy_db s) n = (r, db1, m, events) \<Longrightarrow> tk_step s (s\<lparr>sy_db := db1\<rparr>)"
| delete: "handleDeleteTicket E i ns (sy_db s) = (u, db1, events) \<Longrightarrow> tk_step s (s\<lparr>sy_db := db1\<rparr>)"
| add_dep: "handleAddDependency E i ns bod (sy_db s) = (v, db1) \<Longrightarrow> tk_step s (s\<lparr>sy_db := db1\<rparr>)"
| remove_dep: "handleRemoveDependency E i ns d (sy_db s) = (v, db1) \<Longrightarrow> tk_step s (s\<lparr>sy_db := db1\<rparr>)"

inductive_cases tk_stepE: "tk_step s s'"

section \<open>A version determines the row\<close>

definition fitsRow :: "Ticket \<Rightarrow> Ticket \<Rightarrow> bool" where
  "fitsRow base row \<longleftrightarrow> ti_TicketID row = ti_TicketID base \<longrightarrow>
     ti_Version base \<le> ti_Version row
     \<and> (ti_Version base = ti_Version row \<and> ti_Active row \<longrightarrow> base = row\<lparr>ti_Comments := []\<rparr>)"

definition tkInv :: "tkSys \<Rightarrow> bool" where
  "tkInv s \<longleftrightarrow> distinct (map ti_TicketID (tks_tickets (sy_db s)))
     \<and> (\<forall>(base, f, cond)\<in>set (sy_pending s). ti_TicketID (f base) = ti_TicketID base
          \<and> ti_TicketID base \<in> ti_TicketID ` set (tks_tickets (sy_db s))
          \<and> (\<forall>row\<in>set (tks_tickets (sy_db s)). fitsRow base row))"

text \<open>How a step may change a row that stays: not at all, by a new version, or by deactivating it.\<close>

definition rowStep :: "Ticket \<Rightarrow> Ticket \<Rightarrow> bool" where
  "rowStep row row' \<longleftrightarrow> ti_TicketID row' = ti_TicketID row
     \<and> (row' = row \<or> ti_Version row' > ti_Version row \<or> row' = row\<lparr>ti_Active := False\<rparr>)"

lemma fitsRow_step: "fitsRow base row \<Longrightarrow> rowStep row row' \<Longrightarrow> fitsRow base row'"
  unfolding fitsRow_def rowStep_def by (elim conjE disjE) (simp_all, linarith+)

definition tableStep :: "Ticket list \<Rightarrow> Ticket list \<Rightarrow> bool" where
  "tableStep rows rows' \<longleftrightarrow> (\<exists>new. (\<forall>t\<in>set new. ti_TicketID t \<notin> ti_TicketID ` set rows) \<and> distinct (map ti_TicketID new)
     \<and> (\<exists>old. list_all2 rowStep rows old \<and> rows' = old @ new))"

lemma list_all2_rowStep_ids: "list_all2 rowStep rows old \<Longrightarrow> map ti_TicketID old = map ti_TicketID rows"
  by (induction rule: list_all2_induct) (auto simp: rowStep_def)

lemma tableStep_map:
  assumes "\<And>row. row \<in> set rows \<Longrightarrow> rowStep row (g row)"
  shows "tableStep rows (map g rows)"
  unfolding tableStep_def using assms by (intro exI[of _ "[]"]) (auto simp: list_all2_map2 list_all2_same)

lemma rowStep_refl [simp]: "rowStep row row"
  by (simp add: rowStep_def)

lemma tableStep_refl [simp]: "tableStep rows rows"
  using tableStep_map[of rows id] by simp

lemma inv_table:
  assumes inv: "tkInv s" and t: "tableStep (tks_tickets (sy_db s)) (tks_tickets db')"
    and p: "set (sy_pending s') \<subseteq> set (sy_pending s)" "sy_db s' = db'"
  shows "tkInv s'"
proof -
  from t obtain old new where on: "\<forall>t\<in>set new. ti_TicketID t \<notin> ti_TicketID ` set (tks_tickets (sy_db s))"
    "distinct (map ti_TicketID new)" "list_all2 rowStep (tks_tickets (sy_db s)) old" "tks_tickets db' = old @ new"
    unfolding tableStep_def by blast
  note ids = list_all2_rowStep_ids[OF on(3)]
  then have ids': "ti_TicketID ` set old = ti_TicketID ` set (tks_tickets (sy_db s))" by (metis set_map)
  have "distinct (map ti_TicketID (tks_tickets db'))"
    using inv on(1,2,4) ids ids' by (auto simp: tkInv_def) (metis image_eqI)
  moreover have "fitsRow base row'" if "(base, f, cond) \<in> set (sy_pending s)" "row' \<in> set (tks_tickets db')" for base f cond row'
  proof (cases "row' \<in> set old")
    case True
    then obtain row where "row \<in> set (tks_tickets (sy_db s))" "rowStep row row'"
      using on(3) by (metis in_set_conv_nth list_all2_conv_all_nth)
    then show ?thesis using inv that(1) fitsRow_step unfolding tkInv_def by fast
  next
    case False
    then have "row' \<in> set new" using that(2) on(4) by simp
    moreover have "ti_TicketID base \<in> ti_TicketID ` set (tks_tickets (sy_db s))"
      using inv that(1) unfolding tkInv_def by fast
    ultimately show ?thesis using on(1) unfolding fitsRow_def by force
  qed
  moreover have "ti_TicketID ` set (tks_tickets (sy_db s)) \<subseteq> ti_TicketID ` set (tks_tickets db')"
    using on(4) ids' by auto
  ultimately show ?thesis using inv p unfolding tkInv_def by fast
qed

section \<open>The steps\<close>

lemma storeUpdate_table:
  assumes "storeUpdate cond t now db = (r, db')"
  shows "tableStep (tks_tickets db) (tks_tickets db')"
proof -
  have "rowStep row (mutableTicketAssignments t now row)" for row by (simp add: rowStep_def)
  then show ?thesis using assms
    by (auto simp: storeUpdate_def updateTicket_def UpdateIfVersion_def Let_def intro!: tableStep_map split: if_splits)
qed

lemma tableStep_snoc:
  "ti_TicketID t \<notin> ti_TicketID ` set rows \<Longrightarrow> tableStep rows (rows @ [t])"
  unfolding tableStep_def by (intro exI[of _ "[t]"] conjI exI[of _ rows]) (simp_all add: list_all2_same)

lemma create_table:
  assumes "handleCreateTicket E body db n = (r, db', m, events)"
  shows "tableStep (tks_tickets db) (tks_tickets db')"
proof -
  have add: "tableStep (tks_tickets d) (tks_tickets d')" if "addTicket t d = Some d'" for t d d'
    using that by (auto simp: addTicket_def intro!: tableStep_snoc split: if_splits)
  show ?thesis using assms
    by (auto simp: handleCreateTicket_def Let_def dest!: resolveBoard_tickets dest: add
        split: option.splits prod.splits if_splits sum.splits)
qed

lemma delete_table:
  assumes "handleDeleteTicket E i ns db = (u, db', events)"
  shows "tableStep (tks_tickets db) (tks_tickets db')"
proof -
  have rem: "tableStep (tks_tickets d) (tks_tickets d')" if "removeTicket j d = Some d'" for j d d'
    using that unfolding removeTicket_def by (auto intro!: tableStep_map simp: rowStep_def split: if_splits)
  show ?thesis using assms
    by (auto simp: handleDeleteTicket_def removeDependenciesOf_def dest: rem
        split: option.splits prod.splits if_splits sum.splits)
qed

lemma dependency_table:
  "handleAddDependency E i ns body db = (v, db') \<Longrightarrow> tks_tickets db' = tks_tickets db"
  "handleRemoveDependency E i ns d db = (v, db') \<Longrightarrow> tks_tickets db' = tks_tickets db"
  by (auto simp: handleAddDependency_def addDependency_def handleRemoveDependency_def removeDependency_def
      split: option.splits prod.splits if_splits sum.splits dbErr.splits)

lemma getTicket_row:
  assumes "getTicket db i = Inr base"
  shows "\<exists>row\<in>set (tks_tickets db). ti_TicketID row = i \<and> ti_Active row \<and> base = row\<lparr>ti_Comments := []\<rparr>"
  using assms by (auto simp: getTicket_def dest: firstRow_Inr split: sum.splits)

lemma begin_inv:
  assumes inv: "tkInv s" and b: "getTicket (sy_db s) i = Inr base" and f: "ti_TicketID (f base) = ti_TicketID base"
    and t: "tks_tickets db1 = tks_tickets (sy_db s)"
  shows "tkInv (s\<lparr>sy_db := db1, sy_pending := sy_pending s @ [(base, f, cond)]\<rparr>)"
proof -
  from getTicket_row[OF b] obtain row where row: "row \<in> set (tks_tickets (sy_db s))" "base = row\<lparr>ti_Comments := []\<rparr>"
    by blast
  have d: "distinct (map ti_TicketID (tks_tickets (sy_db s)))" using inv by (simp add: tkInv_def)
  have "fitsRow base row'" if "row' \<in> set (tks_tickets (sy_db s))" for row'
    using d row that unfolding fitsRow_def by (auto simp: distinct_map dest: inj_onD)
  moreover have "ti_TicketID base \<in> ti_TicketID ` set (tks_tickets (sy_db s))" using row by auto
  ultimately show ?thesis using inv f t by (auto simp: tkInv_def)
qed

lemma take_drop_subset: "set (take k xs @ drop n xs) \<subseteq> set xs"
  using set_take_subset[of k xs] set_drop_subset[of n xs] by auto

lemma tk_step_inv:
  assumes inv: "tkInv s" and step: "tk_step s s'"
  shows "tkInv s'"
  using step
proof (cases rule: tk_step.cases)
  case (begin_update i base E userID orgID req n planned db1 m f st pr du bo pa header cond)
  then show ?thesis using planUpdate_tickets[OF begin_update(3)] inv by (simp add: begin_inv)
next
  case (store_update k base f cond now r db1)
  then show ?thesis using inv_table[OF inv storeUpdate_table[OF store_update(4)]] take_drop_subset[of k "sy_pending s"]
    by simp
next
  case (create E body n r db1 m events)
  then show ?thesis using inv_table[OF inv create_table] by simp
next
  case (delete E i ns u db1 events)
  then show ?thesis using inv_table[OF inv delete_table] by simp
next
  case (add_dep E i ns bod v db1)
  then show ?thesis using inv_table[OF inv, of db1] dependency_table(1)[OF add_dep(2)] by simp
next
  case (remove_dep E i ns d v db1)
  then show ?thesis using inv_table[OF inv, of db1] dependency_table(2)[OF remove_dep(2)] by simp
qed

definition tkInit :: "tkSys \<Rightarrow> bool" where
  "tkInit s \<longleftrightarrow> sy_pending s = [] \<and> distinct (map ti_TicketID (tks_tickets (sy_db s)))"

interpretation tickets: invariant_system tkInit tk_step tkInv
  by unfold_locales (simp add: tkInit_def tkInv_def, rule tk_step_inv)

section \<open>The atomic patch\<close>

text \<open>
  The specification of a conditional update: one step that patches the current row, provided it
  has the expected version.
\<close>

definition atomicPatch :: "string \<Rightarrow> int \<Rightarrow> (Ticket \<Rightarrow> Ticket) \<Rightarrow> int \<Rightarrow> tkDB \<Rightarrow> tkDB option" where
  "atomicPatch i v f now db =
     (case getTicket db i of
        Inl _ \<Rightarrow> None
      | Inr t \<Rightarrow>
          if ti_Version t \<noteq> v then None
          else Some (db\<lparr>tks_tickets :=
                 map (\<lambda>row. if ti_TicketID row = i \<and> ti_Active row
                            then mutableTicketAssignments (f t) now row else row) (tks_tickets db)\<rparr>))"

lemma map_by_key:
  assumes "distinct (map ti_TicketID rows)" "row \<in> set rows" "\<And>x. x \<in> set rows \<Longrightarrow> P x \<longleftrightarrow> x = row"
    and "\<And>x. x \<in> set rows \<Longrightarrow> Q x \<longleftrightarrow> x = row"
  shows "map (\<lambda>x. if P x then g x else x) rows = map (\<lambda>x. if Q x then g x else x) rows"
  using assms by (intro map_cong) auto

lemma key_unique:
  "distinct (map ti_TicketID rows) \<Longrightarrow> x \<in> set rows \<Longrightarrow> row \<in> set rows \<Longrightarrow> ti_TicketID x = ti_TicketID row \<Longrightarrow> x = row"
  by (auto simp: distinct_map dest: inj_onD)

lemma getTicket_active_row:
  assumes "distinct (map ti_TicketID (tks_tickets db))" "\<not> tks_down db TTickets" "row \<in> set (tks_tickets db)" "ti_Active row"
  shows "getTicket db (ti_TicketID row) = Inr (row\<lparr>ti_Comments := []\<rparr>)"
proof -
  obtain r where r: "firstRow (tks_down db TTickets) (\<lambda>t. ti_TicketID t = ti_TicketID row \<and> ti_Active t) (tks_tickets db) = Inr r"
    using firstRow_Inr_ex[of "tks_down db TTickets" row "tks_tickets db" "\<lambda>t. ti_TicketID t = ti_TicketID row \<and> ti_Active t"] assms by auto
  then have "r = row" using firstRow_Inr[OF r] key_unique[OF assms(1)] assms(3) by auto
  with r show ?thesis by (simp add: getTicket_def)
qed

text \<open>
  C21: Optimistic concurrency is atomic.  In every state any interleaving of requests can reach, for
  an update in flight whose \<open>If-Match\<close> version its client had seen before the row was read:
  storing it succeeds exactly when the atomic conditional patch of the row stored now succeeds,
  with the same result, and is refused as a conflict otherwise, changing nothing.  No update is lost.
\<close>
theorem conditional_update_atomic:
  assumes "tkInit s0" "tk_step\<^sup>*\<^sup>* s0 s" and p: "(base, f, cond) \<in> set (sy_pending s)"
    and c: "im_present cond" "\<not> im_any cond" "im_version cond \<le> ti_Version base"
    and up: "\<not> tks_ro (sy_db s) TTickets" "\<not> tks_down (sy_db s) TTickets"
  shows "storeUpdate cond (f base) now (sy_db s) =
     (case atomicPatch (ti_TicketID base) (im_version cond) f now (sy_db s) of
        None \<Rightarrow> (VersionConflict, sy_db s)
      | Some db' \<Rightarrow> (Stored, db'))"
proof -
  let ?db = "sy_db s" and ?i = "ti_TicketID base" and ?v = "im_version cond"
  have inv: "tkInv s" using tickets.reachable_inv[OF assms(1,2)] .
  then have d: "distinct (map ti_TicketID (tks_tickets ?db))" and key: "ti_TicketID (f base) = ?i"
    and fits: "\<And>row. row \<in> set (tks_tickets ?db) \<Longrightarrow> fitsRow base row" using p unfolding tkInv_def by fast+
  show ?thesis
  proof (cases "\<exists>row\<in>set (tks_tickets ?db). ti_TicketID row = ?i \<and> ti_Active row \<and> ti_Version row = ?v")
    case True
    then obtain row where row: "row \<in> set (tks_tickets ?db)" "ti_TicketID row = ?i" "ti_Active row" "ti_Version row = ?v" by blast
    have "?v = ti_Version base" using fits[OF row(1)] row(2,4) c(3) by (auto simp: fitsRow_def)
    then have b: "base = row\<lparr>ti_Comments := []\<rparr>" using fits[OF row(1)] row by (auto simp: fitsRow_def)
    have g: "getTicket ?db ?i = Inr base" 
      using getTicket_active_row[OF d up(2) row(1,3)] unfolding row(2) b[symmetric] .
    have uniq: "x = row" if "x \<in> set (tks_tickets ?db)" "ti_TicketID x = ?i" for x
      using key_unique[OF d that(1) row(1)] that(2) row(2) by simp
    have m: "map (\<lambda>x. if ti_TicketID x = ?i \<and> ti_Active x \<and> ti_Version x = ?v then mutableTicketAssignments (f base) now x else x) (tks_tickets ?db)
        = map (\<lambda>x. if ti_TicketID x = ?i \<and> ti_Active x then mutableTicketAssignments (f base) now x else x) (tks_tickets ?db)"
      by (rule map_by_key[OF d row(1)]) (use uniq row in blast)+
    have "storeUpdate cond (f base) now ?db = (Stored, ?db\<lparr>tks_tickets :=
        map (\<lambda>x. if ti_TicketID x = ?i \<and> ti_Active x \<and> ti_Version x = ?v then mutableTicketAssignments (f base) now x else x) (tks_tickets ?db)\<rparr>)"
      using True c(1,2) up(1) by (auto simp: storeUpdate_def UpdateIfVersion_def key)
    moreover have "atomicPatch ?i ?v f now ?db = Some (?db\<lparr>tks_tickets :=
        map (\<lambda>x. if ti_TicketID x = ?i \<and> ti_Active x then mutableTicketAssignments (f base) now x else x) (tks_tickets ?db)\<rparr>)"
      using \<open>?v = ti_Version base\<close> by (simp add: atomicPatch_def g)
    ultimately show ?thesis unfolding m by simp
  next
    case False
    have "atomicPatch ?i ?v f now ?db = None"
    proof (cases "getTicket ?db ?i")
      case (Inr t)
      then have "ti_Version t \<noteq> ?v" using getTicket_row[OF Inr] False by auto
      with Inr show ?thesis by (simp add: atomicPatch_def)
    qed (simp add: atomicPatch_def)
    then show ?thesis using False c up key by (auto simp: storeUpdate_def UpdateIfVersion_def Let_def)
  qed
qed

end
