(* ===== verification/Tk_Theorems.thy ===== *)
theory Tk_Theorems
  imports Tk_Concurrent
begin

text \<open>
  The dependency graph stays acyclic, the cycle check is exact below its bound, and an ETag reads
  back as the version it was made from.
\<close>

section \<open>The cycle check\<close>

definition depGraph :: "tkDB \<Rightarrow> (string \<times> string) set" where
  "depGraph db = {(td_TicketID d, td_DependsOnID d) | d. d \<in> set (tks_deps db)}"

lemma depGraph_image: "depGraph db = (\<lambda>d. (td_TicketID d, td_DependsOnID d)) ` set (tks_deps db)"
  by (auto simp: depGraph_def)

lemma finite_depGraph: "finite (depGraph db)"
  by (simp add: depGraph_image)

lemma dependencyIDs_set:
  "\<not> tks_down db TDeps \<Longrightarrow> \<exists>ids. dependencyIDs db i = Inr ids \<and> set ids = depGraph db `` {i}"
  by (auto simp: dependencyIDs_def findRows_def depGraph_def)

lemma scanDeps_None: "scanDeps t ids seen q = None \<longleftrightarrow> t \<in> set ids"
  by (induction ids arbitrary: seen q) auto

lemma scanDeps_Some:
  "scanDeps t ids seen q = Some (seen', q') \<Longrightarrow> distinct seen \<Longrightarrow>
     distinct seen' \<and> (\<exists>new. seen' = seen @ new \<and> q' = q @ new) \<and> set seen' = set seen \<union> set ids \<and> t \<notin> set ids"
  by (induction ids arbitrary: seen q) (fastforce split: if_splits)+

text \<open>
  The invariant of the walk: what has been seen is reachable from the blocker, and everything
  seen and no longer queued has all its successors among what has been seen.
\<close>

definition walkInv :: "tkDB \<Rightarrow> string \<Rightarrow> string \<Rightarrow> string list \<Rightarrow> string list \<Rightarrow> bool" where
  "walkInv db t b seen queue \<longleftrightarrow> distinct seen \<and> b \<in> set seen \<and> set queue \<subseteq> set seen
     \<and> set seen \<subseteq> (depGraph db)\<^sup>* `` {b}
     \<and> (\<forall>x\<in>set seen - set queue. depGraph db `` {x} \<subseteq> set seen \<and> t \<notin> depGraph db `` {x})"

lemma walkInv_step:
  assumes inv: "walkInv db t b seen (cur # rest)" and ids: "set ids = depGraph db `` {cur}"
    and scan: "scanDeps t ids seen rest = Some (seen', queue')"
  shows "walkInv db t b seen' queue'"
proof -
  from inv have d: "distinct seen" "cur \<in> set seen" "set rest \<subseteq> set seen" "b \<in> set seen"
    and reach: "set seen \<subseteq> (depGraph db)\<^sup>* `` {b}"
    and closed: "\<And>x. x \<in> set seen \<Longrightarrow> x \<noteq> cur \<Longrightarrow> x \<notin> set rest \<Longrightarrow> depGraph db `` {x} \<subseteq> set seen \<and> t \<notin> depGraph db `` {x}"
    by (auto simp: walkInv_def)
  from scanDeps_Some[OF scan d(1)] obtain new where n: "distinct seen'" "seen' = seen @ new" "queue' = rest @ new"
    "set seen' = set seen \<union> set ids" "t \<notin> set ids" by blast
  have "(b, cur) \<in> (depGraph db)\<^sup>*" using reach d(2) by blast
  then have "set ids \<subseteq> (depGraph db)\<^sup>* `` {b}" using ids by (auto intro: rtrancl_into_rtrancl)
  then have "set seen' \<subseteq> (depGraph db)\<^sup>* `` {b}" using reach n(4) by blast
  moreover have "depGraph db `` {x} \<subseteq> set seen' \<and> t \<notin> depGraph db `` {x}" if x: "x \<in> set seen'" "x \<notin> set queue'" for x
  proof (cases "x = cur")
    case True
    then show ?thesis using ids n(4,5) by auto
  next
    case False
    moreover have "x \<in> set seen" "x \<notin> set rest" using x n(2,3) by auto
    ultimately show ?thesis using closed n(4) by blast
  qed
  moreover have "set queue' \<subseteq> set seen'" "b \<in> set seen'" using n(2,3) d(3,4) by auto
  ultimately show ?thesis using n(1) unfolding walkInv_def by blast
qed

lemma wouldCycleLoop_exact:
  assumes "walkInv db t b seen queue" "\<not> tks_down db TDeps" "card ((depGraph db)\<^sup>* `` {b}) \<le> maxDependencyNodes"
  shows "wouldCycleLoop db t seen queue = Inr ((b, t) \<in> (depGraph db)\<^sup>+)"
  using assms
proof (induction db t seen queue rule: wouldCycleLoop.induct)
  case (1 db t seen queue)
  have fin: "finite ((depGraph db)\<^sup>* `` {b})"
    by (simp add: finite_rtrancl_Image finite_depGraph)
  show ?case
  proof (cases queue)
    case Nil
    have "x \<in> set seen" if "(b, x) \<in> (depGraph db)\<^sup>*" for x
      using that
    proof (induction rule: rtrancl_induct)
      case base
      then show ?case using 1(2) by (simp add: walkInv_def)
    next
      case (step y z)
      then show ?case using 1(2) Nil by (auto simp: walkInv_def)
    qed
    then have "(b, t) \<notin> (depGraph db)\<^sup>+" using 1(2) Nil by (auto simp: walkInv_def dest!: tranclD2)
    then show ?thesis using Nil by (simp add: wouldCycleLoop.simps)
  next
    case (Cons cur rest)
    obtain ids where ids: "dependencyIDs db cur = Inr ids" "set ids = depGraph db `` {cur}"
      using dependencyIDs_set 1(3) by blast
    have "length seen = card (set seen)" using 1(2) by (simp add: walkInv_def distinct_card)
    also have "\<dots> \<le> card ((depGraph db)\<^sup>* `` {b})" using 1(2) fin by (auto simp: walkInv_def intro: card_mono)
    finally have len: "length seen \<le> maxDependencyNodes" using 1(4) by simp
    show ?thesis
    proof (cases "scanDeps t ids seen rest")
      case None
      have "(b, cur) \<in> (depGraph db)\<^sup>*" using 1(2) Cons by (auto simp: walkInv_def)
      moreover have "(cur, t) \<in> depGraph db" using None ids(2) by (auto simp: scanDeps_None)
      ultimately have "(b, t) \<in> (depGraph db)\<^sup>+" by (rule rtrancl_into_trancl1)
      then show ?thesis using Cons len ids None by (simp add: wouldCycleLoop.simps)
    next
      case (Some p)
      obtain seen' queue' where p: "p = (seen', queue')" by fastforce
      have "walkInv db t b seen' queue'" using walkInv_step 1(2) ids(2) Some p Cons by blast
      moreover have "wouldCycleLoop db t seen queue = wouldCycleLoop db t seen' queue'"
        using Cons len ids Some p by (subst wouldCycleLoop.simps) simp
      moreover have "\<not> \<not> length seen \<le> maxDependencyNodes" using len by simp
      ultimately show ?thesis using 1(1)[OF Cons _ ids(1) Some p[symmetric]] 1(3,4) by simp
    qed
  qed
qed

lemma wouldCycle_exact:
  assumes "\<not> tks_down db TDeps" "card ((depGraph db)\<^sup>* `` {b}) \<le> maxDependencyNodes"
  shows "wouldCycle db t b = Inr ((b, t) \<in> (depGraph db)\<^sup>+)"
  unfolding wouldCycle_def by (rule wouldCycleLoop_exact) (use assms in \<open>auto simp: walkInv_def\<close>)

section \<open>Dependencies stay acyclic\<close>

definition depSmall :: "tkDB \<Rightarrow> bool" where
  "depSmall db \<longleftrightarrow> \<not> tks_down db TDeps \<and> (\<forall>b. card ((depGraph db)\<^sup>* `` {b}) \<le> maxDependencyNodes)"

inductive dep_step :: "tkDB \<Rightarrow> tkDB \<Rightarrow> bool" where
  add: "handleAddDependency E i ns body db = (r, db') \<Longrightarrow> dep_step db db'"
| remove: "handleRemoveDependency E i ns d db = (r, db') \<Longrightarrow> dep_step db db'"
| delete: "handleDeleteTicket E i ns db = (u, db', events) \<Longrightarrow> dep_step db db'"
| create: "handleCreateTicket E req db n = (v, db', m, events) \<Longrightarrow> dep_step db db'"
| update: "handleUpdateTicket E i ns upd header db n = (v, db', m, events) \<Longrightarrow> dep_step db db'"

lemma seedBoard_deps: "seedBoardFieldDefs uuid now b db n = (db', m) \<Longrightarrow> tks_deps db' = tks_deps db"
  by (auto simp: seedBoardFieldDefs_def Let_def split: sum.splits if_splits)

lemma resolveBoard_deps:
  "resolveCreateBoardID E boardID userID orgID db n = (r, db', m) \<Longrightarrow> tks_deps db' = tks_deps db"
  by (auto simp: resolveCreateBoardID_def getOrCreateDefaultBoard_def addBoard_def Let_def dest!: seedBoard_deps
      split: option.splits list.splits prod.splits sum.splits dbErr.splits if_splits)

lemma planUpdate_deps: "planUpdate E userID orgID req t db n = (r, db', m) \<Longrightarrow> tks_deps db' = tks_deps db"
  by (auto simp: planUpdate_def Let_def dest: resolveBoard_deps split: prod.splits sum.splits if_splits option.splits)

lemma storeUpdate_deps: "storeUpdate cond t now db = (r, db') \<Longrightarrow> tks_deps db' = tks_deps db"
  by (auto simp: storeUpdate_def updateTicket_def UpdateIfVersion_def Let_def split: if_splits)

lemma create_deps: "handleCreateTicket E req db n = (v, db', m, events) \<Longrightarrow> tks_deps db' = tks_deps db"
  by (auto simp: handleCreateTicket_def addTicket_def Let_def dest!: resolveBoard_deps
      split: option.splits prod.splits if_splits sum.splits)

lemma update_deps:
  "handleUpdateTicket E i ns upd header db n = (v, db', m, events) \<Longrightarrow> tks_deps db' = tks_deps db"
  by (auto simp: handleUpdateTicket_def Let_def dest!: planUpdate_deps storeUpdate_deps
      split: option.splits prod.splits if_splits sum.splits storeResult.splits)

lemma delete_deps: "handleDeleteTicket E i ns db = (u, db', events) \<Longrightarrow> set (tks_deps db') \<subseteq> set (tks_deps db)"
  by (auto simp: handleDeleteTicket_def removeTicket_def removeDependenciesOf_def
      split: option.splits prod.splits if_splits sum.splits)

lemma remove_deps: "handleRemoveDependency E i ns d db = (r, db') \<Longrightarrow> set (tks_deps db') \<subseteq> set (tks_deps db)"
  by (auto simp: handleRemoveDependency_def removeDependency_def split: option.splits prod.splits if_splits sum.splits)

lemma depGraph_mono: "set (tks_deps db') \<subseteq> set (tks_deps db) \<Longrightarrow> depGraph db' \<subseteq> depGraph db"
  by (auto simp: depGraph_def)

text \<open>An edge is only entered after the cycle check has cleared it.\<close>

lemma add_deps:
  assumes "handleAddDependency E i ns body db = (r, db')"
  shows "depGraph db' = depGraph db
    \<or> (\<exists>t b. t \<noteq> b \<and> wouldCycle db t b = Inr False \<and> depGraph db' = insert (t, b) (depGraph db))"
proof -
  have new: "depGraph d' = insert (td_TicketID e, td_DependsOnID e) (depGraph d)" if "addDependency e d = Some d'" for e d d'
    using that by (auto simp: addDependency_def depGraph_def split: if_splits; metis)
  have id: "ti_TicketID b = j" if "getTicket db j = Inr b" for j b
    using getTicket_row[OF that] by auto
  show ?thesis using assms
    by (auto simp: handleAddDependency_def dest!: new split: option.splits prod.splits if_splits sum.splits dbErr.splits)
      (metis id)
qed

lemma dep_step_acyclic:
  assumes "acyclic (depGraph db)" "depSmall db" "dep_step db db'"
  shows "acyclic (depGraph db')"
  using assms(3)
proof (cases rule: dep_step.cases)
  case (add E i ns body r)
  from add_deps[OF add] show ?thesis
  proof (elim disjE exE conjE)
    fix t b assume tb: "t \<noteq> b" "wouldCycle db t b = Inr False" "depGraph db' = insert (t, b) (depGraph db)"
    have "(b, t) \<notin> (depGraph db)\<^sup>+"
      using wouldCycle_exact[of db b t] tb(2) assms(2) by (simp add: depSmall_def)
    then show ?thesis using assms(1) tb(1,3) by (simp add: acyclic_insert rtrancl_eq_or_trancl)
  qed (use assms(1) in simp)
next
  case (create E req n v m events)
  show ?thesis using create_deps[OF create] assms(1) by (simp add: depGraph_def)
next
  case (update E i ns upd header n v m events)
  show ?thesis using update_deps[OF update] assms(1) by (simp add: depGraph_def)
qed (use assms(1) depGraph_mono acyclic_subset delete_deps remove_deps in metis)+

interpretation dependencies: invariant_system "\<lambda>db. tks_deps db = []" "\<lambda>db db'. depSmall db \<and> dep_step db db'"
    "\<lambda>db. acyclic (depGraph db)"
  by unfold_locales (simp add: depGraph_def acyclic_def, use dep_step_acyclic in blast)


section \<open>ETags\<close>

lemma spaceLen_quote: "spaceLen (CHR 0x22 # s) = 0"
  by (simp add: spaceLen_def spaceSeqs_def asciiSpaces_def find_None_iff HasPrefix_def)

lemma spaceLenEnd_quote: "spaceLenEnd (s @ [CHR 0x22]) = 0"
proof -
  have "\<not> HasSuffix (s @ [CHR 0x22]) p" if "p \<in> set spaceSeqs" for p
  proof
    assume "HasSuffix (s @ [CHR 0x22]) p"
    then obtain r where "s @ [CHR 0x22] = r @ p" by (auto simp: HasSuffix_iff)
    then have "last (r @ p) = CHR 0x22" by (metis last_snoc)
    moreover have "p \<noteq> [] \<and> last p \<noteq> CHR 0x22" using that by (auto simp: spaceSeqs_def asciiSpaces_def)
    ultimately show False by simp
  qed
  then have "find (HasSuffix (s @ [CHR 0x22])) spaceSeqs = None" by (simp add: find_None_iff)
  then show ?thesis by (simp add: spaceLenEnd_def)
qed

lemma TrimSpace_quoted: "TrimSpace (CHR 0x22 # s @ [CHR 0x22]) = CHR 0x22 # s @ [CHR 0x22]"
  using spaceLen_quote[of "s @ [CHR 0x22]"] spaceLenEnd_quote[of "CHR 0x22 # s"] by (simp add: TrimSpace_def)

lemma trimQuotes_quoted:
  assumes "CHR 0x22 \<notin> set s" "s \<noteq> []"
  shows "trimQuotes (CHR 0x22 # s @ [CHR 0x22]) = s"
proof -
  have dw: "dropWhile (\<lambda>c. c = CHR 0x22) (xs @ ys) = xs @ ys" if "CHR 0x22 \<notin> set xs" "xs \<noteq> []" for xs ys :: string
    using that by (cases xs) auto
  have "rev s \<noteq> []" "CHR 0x22 \<notin> set (rev s)" using assms by simp_all
  then show ?thesis using dw[OF assms, of "[CHR 0x22]"] dw[of "rev s" "[]"] by (simp add: trimQuotes_def)
qed

lemma itoa_plain: "CHR 0x22 \<notin> set (itoa v)" "CHR '','' \<notin> set (itoa v)" "itoa v \<noteq> []"
  using itoa_chars[of "CHR 0x22" v] itoa_chars[of "CHR '',''" v] by (auto simp: isDigit_def itoa_def)

text \<open>
  The ETag a client is given reads back as the condition on exactly that version, for every
  version of a 64-bit integer, so a client that echoes it is conditional on what it saw.
\<close>
theorem etag_round_trip:
  assumes "- (2 ^ 63) \<le> v" "v < 2 ^ 63"
  shows "parseIfMatch (etagFor v) = Some \<lparr>im_present = True, im_any = False, im_version = v\<rparr>"
proof -
  have e: "etagFor v = CHR 0x22 # itoa v @ [CHR 0x22]" by (simp add: etagFor_def)
  have "splitChar (CHR '','') (etagFor v) = [etagFor v]"
    using itoa_plain(2) by (intro splitChar_no_sep) (simp add: e)
  moreover have "firstVersion [etagFor v] = Some v"
    unfolding e using trimQuotes_quoted[OF itoa_plain(1,3)] ParseInt64_itoa[OF assms] TrimSpace_quoted
    by simp
  ultimately show ?thesis unfolding parseIfMatch_def e TrimSpace_quoted by simp
qed

end
