(* ===== verification/Tk_Examples.thy ===== *)
theory Tk_Examples
  imports Tk_Theorems
begin

text \<open>
  The theorems of the tickets service on concrete tickets, and the places where the code departs
  from what its comments say.
\<close>

section \<open>Tickets\<close>

definition exTicket :: "string \<Rightarrow> string option \<Rightarrow> Ticket" where
  "exTicket i parent = \<lparr>ti_TicketID = i, ti_Title = ''T'', ti_Description = [], ti_Status = StatusOpen,
     ti_Priority = PriorityMedium, ti_Timescale = [], ti_DueDate = None, ti_CreatedBy = ''u'', ti_OrgID = [],
     ti_Namespace = [], ti_Project = [], ti_BoardID = Some ''b1'', ti_ParentID = parent, ti_AssigneeID = None,
     ti_WorkflowID = None, ti_RunID = None, ti_ForgeExecutionID = None, ti_Active = True, ti_Version = 7,
     ti_Comments = [], ti_DependsOn = [], ti_CreatedAt = 0, ti_UpdatedAt = 0\<rparr>"

definition exBoard :: Board where
  "exBoard = \<lparr>bd_BoardID = ''b1'', bd_Name = ''Default'', bd_Description = [], bd_CreatedBy = ''u'', bd_OrgID = [],
     bd_Project = [], bd_ProjectID = [], bd_Active = True, bd_CreatedAt = 0\<rparr>"

definition exDB :: "Ticket list \<Rightarrow> TicketDependency list \<Rightarrow> TicketFieldDef list \<Rightarrow> tkDB" where
  "exDB ts ds fs = \<lparr>tks_tickets = ts, tks_deps = ds, tks_boards = [exBoard], tks_fields = fs, tks_comments = [],
     tks_down = (\<lambda>t. False), tks_ro = (\<lambda>t. False)\<rparr>"

definition exEnv :: tkEnv where
  "exEnv = \<lparr>tke_auth = (\<lambda>a r. Some (''u'', [])), tke_username = Some ''u'', tke_uuid = (\<lambda>k. ''id-'' @ digitsOf k),
     tke_parseTime = (\<lambda>s. None), tke_now = 5\<rparr>"

definition exDep :: "string \<Rightarrow> string \<Rightarrow> TicketDependency" where
  "exDep a b = \<lparr>td_TicketID = a, td_DependsOnID = b, td_CreatedBy = ''u'', td_CreatedAt = 0\<rparr>"

definition exUpdate :: updateTicketRequest where
  "exUpdate = \<lparr>up_Title = [], up_Description = None, up_Status = StatusClosed, up_Priority = [], up_Project = [],
     up_BoardID = None, up_ParentID = None, up_Timescale = [], up_DueDate = None, up_AssigneeID = None,
     up_WorkflowID = None, up_RunID = None, up_ForgeExecutionID = None\<rparr>"

definition exCreate :: "string \<Rightarrow> createTicketRequest" where
  "exCreate prio = \<lparr>cr_Title = ''T'', cr_Description = [], cr_Status = [], cr_Priority = prio, cr_Project = [],
     cr_BoardID = Some ''b1'', cr_ParentID = None, cr_Timescale = [], cr_DueDate = None, cr_AssigneeID = None,
     cr_WorkflowID = None, cr_RunID = None, cr_ForgeExecutionID = None\<rparr>"

section \<open>The theorems at work\<close>

text \<open>Two tickets, one made to wait for the other: no cycle, and the converse link is refused.\<close>

definition exTwo :: tkDB where
  "exTwo = exDB [exTicket ''a'' None, exTicket ''b'' None] [] []"

definition exLinked :: tkDB where
  "exLinked = snd (handleAddDependency exEnv ''a'' [] (Some ''b'') exTwo)"


lemma etag_round_trip_witness:
  "parseIfMatch (etagFor 42) = Some \<lparr>im_present = True, im_any = False, im_version = 42\<rparr>"
  by (rule etag_round_trip) simp_all

text \<open>
  A conditional update of a ticket at version 7: in flight after reading it, and stored because
  nobody came first.
\<close>

definition exIf :: ifMatch where
  "exIf = \<lparr>im_present = True, im_any = False, im_version = 7\<rparr>"

definition exPatch :: "Ticket \<Rightarrow> Ticket" where
  "exPatch = patchTicket exUpdate StatusClosed PriorityMedium None None None"

definition exSys :: "tkDB \<Rightarrow> tkSys" where
  "exSys db = \<lparr>sy_db = db, sy_pending = []\<rparr>"

definition exFlight :: tkSys where
  "exFlight = \<lparr>sy_db = exTwo, sy_pending = [(exTicket ''a'' None, exPatch, exIf)]\<rparr>"

lemma conditional_update_atomic_witness:
  "\<exists>db'. storeUpdate exIf (exPatch (exTicket ''a'' None)) 9 exTwo = (Stored, db')
     \<and> atomicPatch ''a'' 7 exPatch 9 exTwo = Some db'"
proof -
  have get: "getTicket exTwo ''a'' = Inr (exTicket ''a'' None)" by code_simp
  have plan: "planUpdate exEnv ''u'' [] exUpdate (exTicket ''a'' None) exTwo 0 = (Inr (exPatch (exTicket ''a'' None)), exTwo, 0)"
  proof -
    have "fst (planUpdate exEnv ''u'' [] exUpdate (exTicket ''a'' None) exTwo 0) = Inr (exPatch (exTicket ''a'' None))"
      by code_simp
    moreover have "snd (planUpdate exEnv ''u'' [] exUpdate (exTicket ''a'' None) exTwo 0) = (exTwo, 0)"
      by (simp add: planUpdate_def exUpdate_def Let_def split: option.split)
    ultimately show ?thesis by (simp add: prod_eq_iff)
  qed
  have im: "parseIfMatch (etagFor 7) = Some exIf" by code_simp
  have "tk_step (exSys exTwo) exFlight"
    using tk_step.begin_update[of "exSys exTwo", simplified exSys_def tkSys.simps, OF get plan _ _ im]
    by (simp add: exSys_def exFlight_def exPatch_def)
  then have "tk_step\<^sup>*\<^sup>* (exSys exTwo) exFlight" by blast
  moreover have "tkInit (exSys exTwo)" by (simp add: tkInit_def exSys_def exTwo_def exDB_def exTicket_def)
  moreover have "(exTicket ''a'' None, exPatch, exIf) \<in> set (sy_pending exFlight)" by (simp add: exFlight_def)
  moreover have "im_present exIf" "\<not> im_any exIf" "im_version exIf \<le> ti_Version (exTicket ''a'' None)"
    by (simp_all add: exIf_def exTicket_def)
  moreover have "\<not> tks_ro (sy_db exFlight) TTickets" "\<not> tks_down (sy_db exFlight) TTickets"
    by (simp_all add: exFlight_def exTwo_def exDB_def)
  moreover have e: "sy_db exFlight = exTwo" "im_version exIf = 7" "ti_TicketID (exTicket ''a'' None) = ''a''"
    by (simp_all add: exFlight_def exIf_def exTicket_def)
  ultimately have eq: "storeUpdate exIf (exPatch (exTicket ''a'' None)) 9 exTwo =
     (case atomicPatch ''a'' 7 exPatch 9 exTwo of None \<Rightarrow> (VersionConflict, exTwo) | Some db' \<Rightarrow> (Stored, db'))"
    using conditional_update_atomic[of "exSys exTwo" exFlight "exTicket ''a'' None" exPatch exIf 9] unfolding e by blast
  have "fst (storeUpdate exIf (exPatch (exTicket ''a'' None)) 9 exTwo) = Stored" by code_simp
  with eq show ?thesis by (cases "atomicPatch ''a'' 7 exPatch 9 exTwo") auto
qed

section \<open>Where the code departs from its comments\<close>

text \<open>The cycle check gives up after 256 tickets and then lets the edge in.\<close>

definition wideName :: "nat \<Rightarrow> string" where
  "wideName k = replicate (k + 3) (CHR ''x'')"

definition wideIDs :: "string list" where
  "wideIDs = map wideName [0..<256]"

definition wideDB :: tkDB where
  "wideDB = exDB [exTicket ''t'' None, exTicket ''b'' None] (map (exDep ''b'') wideIDs @ [exDep ''xxx'' ''t'']) []"

lemma wideName_neq: "wideName k \<noteq> ''t''" "wideName k \<noteq> ''b''"
  by (auto simp: wideName_def replicate_add eval_nat_numeral)

lemma wideIDs_props: "distinct wideIDs" "length wideIDs = 256" "''t'' \<notin> set wideIDs" "''b'' \<notin> set wideIDs" "''xxx'' \<in> set wideIDs"
proof -
  have "inj wideName" by (rule injI) (auto simp: wideName_def dest: arg_cong[of _ _ length])
  then show "distinct wideIDs" by (simp add: wideIDs_def distinct_map inj_on_def del: upt_rec_numeral)
  show "length wideIDs = 256" by (simp add: wideIDs_def)
  show "''t'' \<notin> set wideIDs" "''b'' \<notin> set wideIDs" using wideName_neq by (force simp: wideIDs_def simp del: upt_rec_numeral)+
  have "wideName 0 = ''xxx''" by (simp add: wideName_def eval_nat_numeral)
  moreover have "wideName 0 \<in> wideName ` {0..<256}" by (intro imageI) simp
  ultimately show "''xxx'' \<in> set wideIDs" by (simp add: wideIDs_def del: upt_rec_numeral)
qed

lemma scanDeps_fresh:
  "distinct ids \<Longrightarrow> set ids \<inter> set seen = {} \<Longrightarrow> t \<notin> set ids \<Longrightarrow> scanDeps t ids seen q = Some (seen @ ids, q @ ids)"
  by (induction ids arbitrary: seen q) auto

lemma wide_check: "wouldCycle wideDB ''t'' ''b'' = Inr False"
proof -
  have "filter (\<lambda>d. td_TicketID d = ''b'') (tks_deps wideDB) = map (exDep ''b'') wideIDs"
    by (simp add: wideDB_def exDB_def exDep_def comp_def)
  moreover have "sort_key td_CreatedAt (map (exDep ''b'') ks) = map (exDep ''b'') ks" for ks
    by (rule sort_key_id_if_sorted) (induction ks, simp_all add: exDep_def)
  ultimately have ids: "dependencyIDs wideDB ''b'' = Inr wideIDs"
    by (simp add: dependencyIDs_def findRows_def comp_def) (simp add: wideDB_def exDB_def exDep_def)
  have "scanDeps ''t'' wideIDs [''b''] [] = Some (''b'' # wideIDs, wideIDs)"
    using scanDeps_fresh[of wideIDs "[''b'']" "''t''" "[]"] wideIDs_props by simp
  moreover have "wouldCycleLoop wideDB ''t'' seen q = Inr False" if "length seen = 257" for seen q
    using that by (subst wouldCycleLoop.simps) (simp add: maxDependencyNodes_def split: list.split)
  ultimately show ?thesis unfolding wouldCycle_def
    by (subst wouldCycleLoop.simps) (simp add: ids maxDependencyNodes_def wideIDs_props(2))
qed

lemma wide_graph: "depGraph wideDB = (\<lambda>y. (''b'', y)) ` set wideIDs \<union> {(''xxx'', ''t'')}"
  by (simp add: depGraph_image wideDB_def exDB_def exDep_def image_Un image_image)

lemma wide_added:
  "depGraph (snd (handleAddDependency exEnv ''t'' [] (Some ''b'') wideDB)) = insert (''t'', ''b'') (depGraph wideDB)"
proof -
  have get: "getTicket wideDB ''t'' = Inr (exTicket ''t'' None)" "getTicket wideDB ''b'' = Inr (exTicket ''b'' None)"
    by (simp_all add: getTicket_def firstRow_def wideDB_def exDB_def exTicket_def)
  have acc: "canAccessTicket (exTicket i None) ''u'' []" "ti_TicketID (exTicket i None) = i" "ti_Namespace (exTicket i None) = []" for i
    by (simp_all add: canAccessTicket_def exTicket_def)
  let ?d = "\<lparr>td_TicketID = ''t'', td_DependsOnID = ''b'', td_CreatedBy = ''u'', td_CreatedAt = 5\<rparr>"
  have "\<not> (\<exists>x\<in>set (tks_deps wideDB). td_TicketID x = ''t'' \<and> td_DependsOnID x = ''b'')"
    by (auto simp: wideDB_def exDB_def exDep_def)
  then have add: "addDependency ?d wideDB = Some (wideDB\<lparr>tks_deps := tks_deps wideDB @ [?d]\<rparr>)"
    by (auto simp: addDependency_def) (simp add: wideDB_def exDB_def)
  have "snd (handleAddDependency exEnv ''t'' [] (Some ''b'') wideDB) = wideDB\<lparr>tks_deps := tks_deps wideDB @ [?d]\<rparr>"
    by (simp add: handleAddDependency_def exEnv_def loadAccessibleTicket_def get acc namespaceMatches_def wide_check add)
  then show ?thesis by (simp add: depGraph_image)
qed

theorem cycle_check_fails_open:
  "acyclic (depGraph wideDB)
   \<and> \<not> acyclic (depGraph (snd (handleAddDependency exEnv ''t'' [] (Some ''b'') wideDB)))"
proof -
  have "acyclic (depGraph wideDB)"
    by (rule acyclic_by_rank[of _ "\<lambda>y. if y = ''b'' then 0 else if y = ''t'' then 2 else (1::nat)"])
      (use wideIDs_props(3,4) in \<open>auto simp: wide_graph\<close>)
  moreover have "(''b'', ''xxx'') \<in> depGraph wideDB" "(''xxx'', ''t'') \<in> depGraph wideDB"
    using wideIDs_props(5) by (simp_all add: wide_graph)
  then have "(''b'', ''t'') \<in> (depGraph wideDB)\<^sup>*" by (meson converse_rtrancl_into_rtrancl rtrancl.rtrancl_refl)
  ultimately show ?thesis unfolding wide_added by simp
qed

text \<open>An If-Match header with several versions is conditional on the first one only.\<close>

theorem if_match_list_first_only:
  "parseIfMatch ''\"3\", \"5\"'' = Some \<lparr>im_present = True, im_any = False, im_version = 3\<rparr>"
  by code_simp

text \<open>A board's own priorities are not accepted on its tickets.\<close>

definition ownPriority :: TicketFieldDef where
  "ownPriority = \<lparr>fd_FieldDefID = ''f'', fd_OrgID = [], fd_BoardID = ''b1'', fd_Kind = FieldKindPriority,
     fd_Value = ''p0'', fd_Label = ''P0'', fd_Color = [], fd_Position = 0, fd_Active = True, fd_CreatedAt = 0\<rparr>"

theorem board_priorities_ignored:
  "getFieldDefValues (exDB [] [] [ownPriority]) [] FieldKindPriority ''b1'' validPriorities = [''p0'']
   \<and> fst (handleCreateTicket exEnv (Some (exCreate ''p0'')) (exDB [] [] [ownPriority]) 0) = TkBadRequest InvalidPriority"
  by code_simp

text \<open>The ancestor walk gives up after 64 steps and then lets the parent in.\<close>

definition deepDB :: tkDB where
  "deepDB = exDB (map (\<lambda>k. exTicket [char_of (k + 1)] (if k = 0 then None else Some [char_of k])) [0..<66]) [] []"

theorem parent_check_fails_open:
  "normalizeParentID deepDB (Some [char_of (66::nat)]) [char_of (1::nat)] ''u'' [] = Inr (Some [char_of (66::nat)], True)"
  by code_simp

end
