(* ===== verification/Og_Store.thy ===== *)
theory Og_Store
  imports Go_Numbers Go_Store "HOL-Library.Word"
begin

text \<open>
  The outpost gateway: its rows (\<open>outpost-gateway/types.go\<close>) and its queries (\<open>db.go\<close>): the
  outposts, the queue of commands they poll and the outbox of the events they send.  Times are
  nanoseconds, as \<open>time.Time\<close> counts them.  A JSON payload is the string it is stored as.
  \<open>ogs_down\<close> and \<open>ogs_ro\<close> say which tables cannot be read or written; a read replica is taken to
  be up to date.  \<open>SKIP LOCKED\<close> leaves out the rows other transactions hold, a parameter of the
  two claiming queries.
\<close>

section \<open>Rows\<close>

definition OutpostPending :: string where "OutpostPending = ''pending''"
definition OutpostConnected :: string where "OutpostConnected = ''connected''"
definition OutpostStale :: string where "OutpostStale = ''stale''"

definition CmdPending :: string where "CmdPending = ''pending''"
definition CmdClaimed :: string where "CmdClaimed = ''claimed''"
definition CmdDone :: string where "CmdDone = ''done''"
definition CmdFailed :: string where "CmdFailed = ''failed''"

definition EvPending :: string where "EvPending = ''pending''"
definition EvDelivered :: string where "EvDelivered = ''delivered''"
definition EvFailed :: string where "EvFailed = ''failed''"

lemma cmd_status_distinct [simp]:
  "CmdPending \<noteq> CmdClaimed" "CmdPending \<noteq> CmdDone" "CmdPending \<noteq> CmdFailed"
  "CmdClaimed \<noteq> CmdPending" "CmdClaimed \<noteq> CmdDone" "CmdClaimed \<noteq> CmdFailed"
  "CmdDone \<noteq> CmdPending" "CmdDone \<noteq> CmdClaimed" "CmdFailed \<noteq> CmdPending" "CmdFailed \<noteq> CmdClaimed"
  by (simp_all add: CmdPending_def CmdClaimed_def CmdDone_def CmdFailed_def)

lemma ev_status_distinct [simp]:
  "EvPending \<noteq> EvDelivered" "EvPending \<noteq> EvFailed" "EvDelivered \<noteq> EvPending" "EvFailed \<noteq> EvPending"
  "EvDelivered \<noteq> EvFailed" "EvFailed \<noteq> EvDelivered"
  by (simp_all add: EvPending_def EvDelivered_def EvFailed_def)

lemma outpost_status_distinct [simp]:
  "OutpostPending \<noteq> OutpostConnected" "OutpostConnected \<noteq> OutpostPending"
  by (simp_all add: OutpostPending_def OutpostConnected_def)

definition maxBodyBytes :: nat where "maxBodyBytes = 64 * 1024"
definition maxDeliveryAttempts :: int where "maxDeliveryAttempts = 8"

definition Second :: int where "Second = 1000000000"

definition commandClaimLease :: int where "commandClaimLease = 5 * (60 * Second)"

record Outpost =
  op_OutpostID :: string
  op_OrgID :: string
  op_UserID :: string
  op_Name :: string
  op_Modules :: string
  op_Status :: string
  op_EnrollTokenHash :: string
  op_KeyHash :: string
  op_Active :: bool
  op_LastSeenAt :: "int option"
  op_CreatedAt :: int
  op_UpdatedAt :: int

record OutpostCommand =
  oc_ID :: string
  oc_OutpostID :: string
  oc_Integration :: string
  oc_Type :: string
  oc_Payload :: string
  oc_Status :: string
  oc_Error :: string
  oc_CreatedAt :: int
  oc_ClaimedAt :: "int option"

record OutpostEvent =
  ev_ID :: string
  ev_OutpostID :: string
  ev_OrgID :: string
  ev_UserID :: string
  ev_Integration :: string
  ev_Type :: string
  ev_Payload :: string
  ev_Status :: string
  ev_Attempt :: int
  ev_LastError :: string
  ev_NextRetryAt :: int
  ev_CreatedAt :: int

section \<open>The database\<close>

datatype ogTable = TOutposts | TCommands | TEvents

record ogDB =
  ogs_outposts :: "Outpost list"
  ogs_commands :: "OutpostCommand list"
  ogs_events :: "OutpostEvent list"
  ogs_down :: "ogTable \<Rightarrow> bool"
  ogs_ro :: "ogTable \<Rightarrow> bool"

definition getOutpost :: "ogDB \<Rightarrow> string \<Rightarrow> dbErr + Outpost" where
  "getOutpost db i = firstRow (ogs_down db TOutposts) (\<lambda>o'. op_OutpostID o' = i \<and> op_Active o') (ogs_outposts db)"

definition listOutposts :: "ogDB \<Rightarrow> string \<Rightarrow> string \<Rightarrow> dbErr + Outpost list" where
  "listOutposts db orgID userID =
     (case findRows (ogs_down db TOutposts)
            (\<lambda>o'. op_Active o' \<and> (if orgID \<noteq> [] then op_OrgID o' = orgID else op_UserID o' = userID)) (ogs_outposts db) of
        Inl e \<Rightarrow> Inl e | Inr rows \<Rightarrow> Inr (sort_key (\<lambda>o'. - op_CreatedAt o') rows))"

text \<open>On a query error the name counts as free.\<close>

definition outpostNameTaken :: "ogDB \<Rightarrow> string \<Rightarrow> string \<Rightarrow> string \<Rightarrow> bool" where
  "outpostNameTaken db orgID userID name =
     (case findRows (ogs_down db TOutposts)
            (\<lambda>o'. op_Active o' \<and> op_Name o' = name
                  \<and> (if orgID \<noteq> [] then op_OrgID o' = orgID else op_OrgID o' = [] \<and> op_UserID o' = userID))
            (ogs_outposts db) of
        Inl e \<Rightarrow> False | Inr rows \<Rightarrow> length rows > 0)"

text \<open>The two partial unique indexes the service creates: active names per org, or per user without org.\<close>

definition nameClash :: "Outpost \<Rightarrow> Outpost \<Rightarrow> bool" where
  "nameClash a b \<longleftrightarrow> op_Active a \<and> op_Active b \<and> op_Name a = op_Name b
     \<and> (if op_OrgID a \<noteq> [] then op_OrgID b = op_OrgID a else op_OrgID b = [] \<and> op_UserID b = op_UserID a)"

definition addOutpost :: "Outpost \<Rightarrow> ogDB \<Rightarrow> ogDB option" where
  "addOutpost o' db =
     (if ogs_ro db TOutposts \<or> op_OutpostID o' \<in> op_OutpostID ` set (ogs_outposts db)
         \<or> (\<exists>b\<in>set (ogs_outposts db). nameClash o' b) then None
      else Some (db\<lparr>ogs_outposts := ogs_outposts db @ [o']\<rparr>))"

text \<open>\<open>Save\<close> writes every column of the row with this key, and inserts the row when there is none.\<close>

definition saveOutpost :: "Outpost \<Rightarrow> int \<Rightarrow> ogDB \<Rightarrow> ogDB option" where
  "saveOutpost o' now db =
     (let row = o'\<lparr>op_UpdatedAt := now\<rparr>
      in if ogs_ro db TOutposts
            \<or> (\<exists>b\<in>set (ogs_outposts db). op_OutpostID b \<noteq> op_OutpostID o' \<and> nameClash row b) then None
         else if op_OutpostID o' \<in> op_OutpostID ` set (ogs_outposts db)
         then Some (db\<lparr>ogs_outposts :=
                map (\<lambda>b. if op_OutpostID b = op_OutpostID o' then row else b) (ogs_outposts db)\<rparr>)
         else Some (db\<lparr>ogs_outposts := ogs_outposts db @ [row]\<rparr>))"

definition softDeleteOutpost :: "string \<Rightarrow> ogDB \<Rightarrow> ogDB option" where
  "softDeleteOutpost i db =
     (if ogs_ro db TOutposts then None
      else Some (db\<lparr>ogs_outposts := map (\<lambda>b. if op_OutpostID b = i \<and> op_Active b then b\<lparr>op_Active := False\<rparr> else b)
             (ogs_outposts db)\<rparr>))"

definition touchOutpost :: "string \<Rightarrow> int \<Rightarrow> ogDB \<Rightarrow> ogDB option" where
  "touchOutpost i now db =
     (if ogs_ro db TOutposts then None
      else Some (db\<lparr>ogs_outposts := map (\<lambda>b. if op_OutpostID b = i
               then b\<lparr>op_LastSeenAt := Some now, op_Status := OutpostConnected, op_UpdatedAt := now\<rparr> else b)
             (ogs_outposts db)\<rparr>))"

section \<open>The command queue\<close>

definition enqueueCommandDB :: "OutpostCommand \<Rightarrow> ogDB \<Rightarrow> ogDB option" where
  "enqueueCommandDB c db =
     (if ogs_ro db TCommands \<or> oc_ID c \<in> oc_ID ` set (ogs_commands db) then None
      else Some (db\<lparr>ogs_commands := ogs_commands db @ [c]\<rparr>))"

text \<open>Pending, or claimed with an expired lease; a missing claim time is before nothing.\<close>

definition deliverable :: "string \<Rightarrow> int \<Rightarrow> OutpostCommand \<Rightarrow> bool" where
  "deliverable outpostID leaseCutoff c \<longleftrightarrow> oc_OutpostID c = outpostID
     \<and> (oc_Status c = CmdPending
        \<or> oc_Status c = CmdClaimed \<and> (case oc_ClaimedAt c of None \<Rightarrow> False | Some t \<Rightarrow> t < leaseCutoff))"

text \<open>
  \<open>claimCommands\<close>, a transaction: \<open>start\<close> is the time the cutoff was computed at, \<open>now\<close> the
  time the claim is stamped with, \<open>locked\<close> the rows other transactions hold.  The rows are returned
  as they were read, before the update.
\<close>

definition claimCommands ::
  "string set \<Rightarrow> string \<Rightarrow> nat \<Rightarrow> int \<Rightarrow> int \<Rightarrow> ogDB \<Rightarrow> (dbErr + OutpostCommand list) \<times> ogDB" where
  "claimCommands locked outpostID n start now db =
     (case findRows (ogs_down db TCommands)
            (\<lambda>c. deliverable outpostID (start - commandClaimLease) c \<and> oc_ID c \<notin> locked) (ogs_commands db) of
        Inl e \<Rightarrow> (Inl e, db)
      | Inr rows \<Rightarrow>
          (let cmds = take n (sort_key oc_CreatedAt rows); ids = map oc_ID cmds
           in if cmds = [] then (Inr [], db)
              else if ogs_ro db TCommands then (Inl ErrDatabase, db)
              else (Inr cmds, db\<lparr>ogs_commands :=
                     map (\<lambda>c. if oc_ID c \<in> set ids then c\<lparr>oc_Status := CmdClaimed, oc_ClaimedAt := Some now\<rparr> else c)
                       (ogs_commands db)\<rparr>)))"

definition ackCommand :: "string \<Rightarrow> string \<Rightarrow> string \<Rightarrow> string \<Rightarrow> ogDB \<Rightarrow> ogDB option" where
  "ackCommand outpostID i status errDetail db =
     (let st = (if status \<noteq> CmdDone \<and> status \<noteq> CmdFailed then CmdDone else status)
      in if ogs_ro db TCommands then None
         else Some (db\<lparr>ogs_commands :=
                map (\<lambda>c. if oc_ID c = i \<and> oc_OutpostID c = outpostID
                         then c\<lparr>oc_Status := st, oc_Error := errDetail\<rparr> else c) (ogs_commands db)\<rparr>))"

definition getCommandByID :: "ogDB \<Rightarrow> string \<Rightarrow> dbErr + OutpostCommand" where
  "getCommandByID db i = firstRow (ogs_down db TCommands) (\<lambda>c. oc_ID c = i) (ogs_commands db)"

section \<open>The event outbox\<close>

datatype insertResult = Inserted | DuplicateKey | InsertFailed

text \<open>A zero \<open>NextRetryAt\<close> is replaced by the current time; time zero is the zero \<open>time.Time\<close>.\<close>

definition addEvent :: "OutpostEvent \<Rightarrow> int \<Rightarrow> ogDB \<Rightarrow> insertResult \<times> ogDB" where
  "addEvent e now db =
     (let e' = (if ev_NextRetryAt e = 0 then e\<lparr>ev_NextRetryAt := now\<rparr> else e)
      in if ogs_ro db TEvents then (InsertFailed, db)
         else if ev_ID e \<in> ev_ID ` set (ogs_events db) then (DuplicateKey, db)
         else (Inserted, db\<lparr>ogs_events := ogs_events db @ [e']\<rparr>))"

definition claimDueEvents ::
  "string set \<Rightarrow> nat \<Rightarrow> int \<Rightarrow> int \<Rightarrow> int \<Rightarrow> ogDB \<Rightarrow> (dbErr + OutpostEvent list) \<times> ogDB" where
  "claimDueEvents locked n lease start now db =
     (case findRows (ogs_down db TEvents)
            (\<lambda>e. ev_Status e = EvPending \<and> ev_NextRetryAt e \<le> start \<and> ev_ID e \<notin> locked) (ogs_events db) of
        Inl e \<Rightarrow> (Inl e, db)
      | Inr rows \<Rightarrow>
          (let events = take n (sort_key ev_NextRetryAt rows); ids = map ev_ID events
           in if events = [] then (Inr [], db)
              else if ogs_ro db TEvents then (Inl ErrDatabase, db)
              else (Inr events, db\<lparr>ogs_events :=
                     map (\<lambda>e. if ev_ID e \<in> set ids then e\<lparr>ev_NextRetryAt := now + lease\<rparr> else e) (ogs_events db)\<rparr>)))"

text \<open>An update of the event with an id; it changes nothing when the table cannot be written.\<close>

definition updateEvent :: "string \<Rightarrow> (OutpostEvent \<Rightarrow> OutpostEvent) \<Rightarrow> ogDB \<Rightarrow> ogDB option" where
  "updateEvent i f db =
     (if ogs_ro db TEvents then None
      else Some (db\<lparr>ogs_events := map (\<lambda>e. if ev_ID e = i then f e else e) (ogs_events db)\<rparr>))"

definition markEventDelivered :: "string \<Rightarrow> ogDB \<Rightarrow> ogDB option" where
  "markEventDelivered i = updateEvent i (\<lambda>e. e\<lparr>ev_Status := EvDelivered, ev_LastError := []\<rparr>)"

text \<open>
  The delay before an attempt, in nanoseconds, computed in 64-bit integers as in the code; a
  negative shift count panics.
\<close>

definition retryBackoff :: "int \<Rightarrow> int option" where
  "retryBackoff attempt =
     (if attempt < 1 then None
      else let d = 30 * push_bit (nat (attempt - 1)) (1 :: 64 word);
               d' = (if 900 <s d then 900 else d)
           in Some (sint (d' * of_int Second)))"

definition scheduleEventRetry :: "OutpostEvent \<Rightarrow> string \<Rightarrow> int \<Rightarrow> ogDB \<Rightarrow> ogDB option" where
  "scheduleEventRetry e dispatchErr now db =
     (let attempt = ev_Attempt e + 1
      in if attempt \<ge> maxDeliveryAttempts
         then updateEvent (ev_ID e) (\<lambda>r. r\<lparr>ev_Status := EvFailed, ev_Attempt := attempt, ev_LastError := dispatchErr\<rparr>) db
         else case retryBackoff attempt of
                None \<Rightarrow> None
              | Some d \<Rightarrow> updateEvent (ev_ID e)
                  (\<lambda>r. r\<lparr>ev_Attempt := attempt, ev_LastError := dispatchErr, ev_NextRetryAt := now + d\<rparr>) db)"

text \<open>For every attempt the service makes, the delay is the documented doubling one, without wrap-around.\<close>

lemma retryBackoff_exact:
  assumes "1 \<le> attempt" "attempt < maxDeliveryAttempts"
  shows "retryBackoff attempt = Some (min 900 (30 * 2 ^ nat (attempt - 1)) * Second)"
proof -
  have "attempt \<in> {1, 2, 3, 4, 5, 6, 7}" using assms by (auto simp: maxDeliveryAttempts_def)
  then show ?thesis
    by (elim insertE emptyE; simp only: retryBackoff_def Second_def) (simp_all add: word_sless_alt push_bit_eq_mult Let_def)
qed

end
