(* ===== verification/Og_Gateway.thy ===== *)
theory Og_Gateway
  imports Og_Store
begin

text \<open>
  The outpost gateway: authentication (\<open>auth.go\<close>), the user's endpoints (\<open>api_user.go\<close>), the
  outposts' endpoints (\<open>api_outpost.go\<close>), the internal endpoint (\<open>api_internal.go\<close>) and the
  dispatcher of events (\<open>dispatch.go\<close>).  Parameters are gatekeeper's answer to a permission check,
  the random bytes and uuids drawn (numbered in order), bcrypt, HMAC-SHA256, the JSON library and
  what a consumer answers to a delivery.
\<close>

section \<open>The environment\<close>

record enqueueCommandRequest =
  eq_OutpostID :: string
  eq_Integration :: string
  eq_Type :: string
  eq_OrgID :: string
  eq_UserID :: string
  eq_Payload :: string

record ingestEvent =
  in_EventID :: string
  in_Integration :: string
  in_Type :: string
  in_Payload :: string

record ogEnv =
  ge_auth :: "string \<Rightarrow> string \<Rightarrow> (string \<times> string) option"
  ge_rand :: "nat \<Rightarrow> nat \<Rightarrow> string"
  ge_uuid :: "nat \<Rightarrow> string"
  ge_bcrypt :: "nat \<Rightarrow> string \<Rightarrow> string option"
  ge_compare :: "string \<Rightarrow> string \<Rightarrow> bool"
  ge_hmac :: "string \<Rightarrow> string \<Rightarrow> string"
  ge_internalKey :: string
  ge_decodeCommand :: "string \<Rightarrow> enqueueCommandRequest option"
  ge_decodeEvent :: "string \<Rightarrow> ingestEvent option"
  ge_encodeEvent :: "OutpostEvent \<Rightarrow> string + string"

text \<open>A reply: a result, or a status code with its message; \<open>OgDenied\<close> is gatekeeper's own refusal.\<close>

datatype 'a ogReply = OgOK 'a | OgDenied | OgErr nat string

section \<open>Tokens\<close>

definition hexDigit :: "nat \<Rightarrow> char" where
  "hexDigit n = (if n < 10 then char_of (48 + n) else char_of (87 + n))"

definition hexEncode :: "string \<Rightarrow> string" where
  "hexEncode bs = concat (map (\<lambda>c. [hexDigit (of_char c div 16), hexDigit (of_char c mod 16)]) bs)"

definition randToken :: "ogEnv \<Rightarrow> nat \<Rightarrow> nat \<Rightarrow> string" where
  "randToken E n draw = hexEncode (ge_rand E n draw)"

text \<open>The token, its hash, and the next draw.\<close>

definition mintEnrollmentToken :: "ogEnv \<Rightarrow> string \<Rightarrow> nat \<Rightarrow> (string \<times> string) option \<times> nat" where
  "mintEnrollmentToken E outpostID k =
     (let secretPart = randToken E 24 k
      in (case ge_bcrypt E (Suc k) secretPart of
            None \<Rightarrow> None | Some h \<Rightarrow> Some (outpostID @ ''.'' @ secretPart, h), k + 2))"

definition splitEnrollmentToken :: "string \<Rightarrow> (string \<times> string) option" where
  "splitEnrollmentToken token =
     (case strIndex token ''.'' of
        None \<Rightarrow> None
      | Some i \<Rightarrow> if i = 0 \<or> i = length token - 1 then None
                  else Some (take i token, drop (i + 1) token))"

definition mintOutpostKey :: "ogEnv \<Rightarrow> nat \<Rightarrow> (string \<times> string) option \<times> nat" where
  "mintOutpostKey E k =
     (let key = randToken E 32 k
      in (case ge_bcrypt E (Suc k) key of None \<Rightarrow> None | Some h \<Rightarrow> Some (key, h), k + 2))"

definition outpostBearerToken :: "string \<Rightarrow> string" where
  "outpostBearerToken h = (if HasPrefix h ''Bearer '' then TrimSpace (drop (length ''Bearer '') h) else [])"

text \<open>An outpost's request: its id and its \<open>Authorization\<close> header.\<close>

definition authenticateOutpost :: "ogEnv \<Rightarrow> string \<Rightarrow> string \<Rightarrow> ogDB \<Rightarrow> Outpost ogReply" where
  "authenticateOutpost E i authorization db =
     (let key = outpostBearerToken authorization
      in if i = [] \<or> key = [] then OgErr 401 ''missing outpost credentials''
         else case getOutpost db i of
           Inl e \<Rightarrow> OgErr 401 ''unknown or unenrolled outpost''
         | Inr out \<Rightarrow>
             if op_KeyHash out = [] \<or> op_Status out = OutpostPending then OgErr 401 ''unknown or unenrolled outpost''
             else if \<not> ge_compare E (op_KeyHash out) key then OgErr 401 ''invalid outpost key''
             else OgOK out)"

section \<open>Internal requests\<close>

text \<open>\<open>"%s:%s:"\<close> and the body.\<close>

definition macInput :: "string \<Rightarrow> string \<Rightarrow> string \<Rightarrow> string" where
  "macInput plane timestamp body = plane @ '':'' @ timestamp @ '':'' @ body"

definition internalMAC :: "ogEnv \<Rightarrow> string \<Rightarrow> string \<Rightarrow> string \<Rightarrow> string" where
  "internalMAC E plane timestamp body = hexEncode (ge_hmac E (ge_internalKey E) (macInput plane timestamp body))"

definition signInternalAt :: "ogEnv \<Rightarrow> string \<Rightarrow> string \<Rightarrow> int \<Rightarrow> string \<times> string" where
  "signInternalAt E plane body unixTime = (internalMAC E plane (itoa unixTime) body, itoa unixTime)"

definition unixTime :: "int \<Rightarrow> int" where "unixTime now = now div Second"

definition signInternal :: "ogEnv \<Rightarrow> string \<Rightarrow> string \<Rightarrow> int \<Rightarrow> string \<times> string" where
  "signInternal E plane body now = signInternalAt E plane body (unixTime now)"

text \<open>The difference of the times is taken in 64 bits.\<close>

definition verifyInternal :: "ogEnv \<Rightarrow> string \<Rightarrow> string \<Rightarrow> string \<Rightarrow> string \<Rightarrow> int \<Rightarrow> bool" where
  "verifyInternal E plane body token timestamp now =
     (if ge_internalKey E = [] then False
      else case ParseInt64 timestamp of
        None \<Rightarrow> False
      | Some ts \<Rightarrow>
          (let d = (word_of_int (unixTime now) - word_of_int ts :: 64 word)
           in if 30 <s d \<or> d <s - 30 then False
              else token = internalMAC E plane timestamp body))"

section \<open>Modules and ownership\<close>

definition splitCSV :: "string \<Rightarrow> string list" where
  "splitCSV s = filter (\<lambda>p. p \<noteq> []) (map TrimSpace (splitChar (CHR '','') s))"

definition outpostHasModule :: "Outpost \<Rightarrow> string \<Rightarrow> bool" where
  "outpostHasModule out module \<longleftrightarrow> module \<in> set (splitCSV (op_Modules out))"

definition canAccessOutpost :: "Outpost \<Rightarrow> string \<Rightarrow> string \<Rightarrow> bool" where
  "canAccessOutpost out userID orgID \<longleftrightarrow> op_UserID out = userID \<or> (orgID \<noteq> [] \<and> op_OrgID out = orgID)"

section \<open>Users\<close>

definition knownModules :: "string list" where
  "knownModules = [''chaos'', ''argo'', ''deploy'', ''test'']"

record createOutpostRequest =
  cq_Name :: string
  cq_Modules :: "string list"

text \<open>The modules asked for, trimmed, empty ones dropped; the first unknown one is refused.\<close>

fun pickModules :: "string list \<Rightarrow> string + string list" where
  "pickModules [] = Inr []"
| "pickModules (m # ms) =
     (let m' = TrimSpace m
      in if m' = [] then pickModules ms
         else if m' \<notin> set knownModules then Inl m'
         else case pickModules ms of Inl u \<Rightarrow> Inl u | Inr rest \<Rightarrow> Inr (m' # rest))"

definition handleCreateOutpost ::
  "ogEnv \<Rightarrow> createOutpostRequest option \<Rightarrow> int \<Rightarrow> ogDB \<Rightarrow> nat \<Rightarrow> (Outpost \<times> string) ogReply \<times> ogDB \<times> nat" where
  "handleCreateOutpost E body now db k =
     (case ge_auth E ''createOutpost'' ''outpost-gateway/outposts'' of
        None \<Rightarrow> (OgDenied, db, k)
      | Some (userID, orgID) \<Rightarrow>
        (case body of
           None \<Rightarrow> (OgErr 400 ''invalid request body'', db, k)
         | Some req \<Rightarrow>
           if TrimSpace (cq_Name req) = [] then (OgErr 400 ''name is required'', db, k)
           else if outpostNameTaken db orgID userID (TrimSpace (cq_Name req))
           then (OgErr 409 ''outpost with that name already exists'', db, k)
           else case pickModules (cq_Modules req) of
             Inl m \<Rightarrow> (OgErr 400 (''unknown module: '' @ m), db, k)
           | Inr modules \<Rightarrow>
             (let outpostID = ge_uuid E k
              in case mintEnrollmentToken E outpostID (Suc k) of
                   (None, k') \<Rightarrow> (OgErr 500 ''failed to mint enrollment token'', db, k')
                 | (Some (token, tokenHash), k') \<Rightarrow>
                   (let out = \<lparr>op_OutpostID = outpostID, op_OrgID = orgID, op_UserID = userID,
                          op_Name = TrimSpace (cq_Name req), op_Modules = joinChar (CHR '','') modules,
                          op_Status = OutpostPending, op_EnrollTokenHash = tokenHash, op_KeyHash = [],
                          op_Active = True, op_LastSeenAt = None, op_CreatedAt = now, op_UpdatedAt = now\<rparr>
                    in case addOutpost out db of
                         None \<Rightarrow> (OgErr 500 ''failed to create outpost'', db, k')
                       | Some db' \<Rightarrow> (OgOK (out, token), db', k')))))"

definition markStale :: "int \<Rightarrow> Outpost list \<Rightarrow> Outpost list" where
  "markStale now out =
     (let cutoff = now - 90 * Second
      in map (\<lambda>b. if op_Status b = OutpostConnected
                     \<and> (case op_LastSeenAt b of None \<Rightarrow> True | Some t \<Rightarrow> t < cutoff)
                  then b\<lparr>op_Status := OutpostStale\<rparr> else b) out)"

definition handleListOutposts :: "ogEnv \<Rightarrow> int \<Rightarrow> ogDB \<Rightarrow> Outpost list ogReply" where
  "handleListOutposts E now db =
     (case ge_auth E ''listOutpost'' ''outpost-gateway/outposts'' of
        None \<Rightarrow> OgDenied
      | Some (userID, orgID) \<Rightarrow>
        (case listOutposts db orgID userID of
           Inl e \<Rightarrow> OgErr 500 ''failed to list outposts''
         | Inr out \<Rightarrow> OgOK (markStale now out)))"

text \<open>The lookup the user's endpoints share: missing and foreign outposts look the same.\<close>

definition ownOutpost :: "string \<Rightarrow> string \<Rightarrow> string \<Rightarrow> ogDB \<Rightarrow> Outpost ogReply" where
  "ownOutpost i userID orgID db =
     (case getOutpost db i of
        Inl ErrRecordNotFound \<Rightarrow> OgErr 404 ''outpost not found''
      | Inl ErrDatabase \<Rightarrow> OgErr 500 ''failed to get outpost''
      | Inr out \<Rightarrow> if \<not> canAccessOutpost out userID orgID then OgErr 404 ''outpost not found'' else OgOK out)"

definition handleGetOutpost :: "ogEnv \<Rightarrow> string \<Rightarrow> int \<Rightarrow> ogDB \<Rightarrow> Outpost ogReply" where
  "handleGetOutpost E i now db =
     (case ge_auth E ''getOutpost'' (''outpost-gateway/outposts/'' @ i) of
        None \<Rightarrow> OgDenied
      | Some (userID, orgID) \<Rightarrow>
        (case ownOutpost i userID orgID db of
           OgOK out \<Rightarrow> OgOK (hd (markStale now [out])) | r \<Rightarrow> r))"

definition handleDeleteOutpost :: "ogEnv \<Rightarrow> string \<Rightarrow> ogDB \<Rightarrow> unit ogReply \<times> ogDB" where
  "handleDeleteOutpost E i db =
     (case ge_auth E ''deleteOutpost'' (''outpost-gateway/outposts/'' @ i) of
        None \<Rightarrow> (OgDenied, db)
      | Some (userID, orgID) \<Rightarrow>
        (case ownOutpost i userID orgID db of
           OgDenied \<Rightarrow> (OgDenied, db)
         | OgErr n m \<Rightarrow> (OgErr n m, db)
         | OgOK out \<Rightarrow>
           (case softDeleteOutpost i db of
              None \<Rightarrow> (OgErr 500 ''failed to delete outpost'', db)
            | Some db' \<Rightarrow> (OgOK (), db'))))"

record userEnqueueRequest =
  ue_Integration :: string
  ue_Type :: string
  ue_Payload :: string

text \<open>
  What the two ways to enqueue share once the caller and the fields are known: the outpost is
  there, belongs to the tenant and runs the module.
\<close>

definition enqueueFor ::
  "ogEnv \<Rightarrow> string \<Rightarrow> string \<Rightarrow> string \<Rightarrow> string \<Rightarrow> string \<Rightarrow> string \<Rightarrow> string \<Rightarrow> int \<Rightarrow> ogDB \<Rightarrow> nat
   \<Rightarrow> OutpostCommand ogReply \<times> ogDB \<times> nat" where
  "enqueueFor E foreign i integration typ payload userID orgID now db k =
     (case getOutpost db i of
        Inl ErrRecordNotFound \<Rightarrow> (OgErr 404 ''unknown outpost'', db, k)
      | Inl ErrDatabase \<Rightarrow> (OgErr 500 ''failed to look up outpost'', db, k)
      | Inr out \<Rightarrow>
        if \<not> canAccessOutpost out userID orgID then (OgErr 403 foreign, db, k)
        else if \<not> outpostHasModule out integration
        then (OgErr 409 (''outpost does not have the '' @ integration @ '' module enabled''), db, k)
        else
          (let cmd = \<lparr>oc_ID = ge_uuid E k, oc_OutpostID = i, oc_Integration = integration, oc_Type = typ,
                      oc_Payload = payload, oc_Status = CmdPending, oc_Error = [], oc_CreatedAt = now,
                      oc_ClaimedAt = None\<rparr>
           in case enqueueCommandDB cmd db of
                None \<Rightarrow> (OgErr 500 ''failed to enqueue command'', db, Suc k)
              | Some db' \<Rightarrow> (OgOK cmd, db', Suc k)))"

definition handleEnqueueOutpostCommand ::
  "ogEnv \<Rightarrow> string \<Rightarrow> userEnqueueRequest option \<Rightarrow> int \<Rightarrow> ogDB \<Rightarrow> nat \<Rightarrow> OutpostCommand ogReply \<times> ogDB \<times> nat" where
  "handleEnqueueOutpostCommand E i body now db k =
     (case ge_auth E ''enqueueCommand'' (''outpost-gateway/outposts/'' @ i) of
        None \<Rightarrow> (OgDenied, db, k)
      | Some (userID, orgID) \<Rightarrow>
        (case body of
           None \<Rightarrow> (OgErr 400 ''invalid request body'', db, k)
         | Some req \<Rightarrow>
           if ue_Integration req = [] \<or> ue_Type req = []
           then (OgErr 400 ''integration and type are required'', db, k)
           else enqueueFor E ''outpost does not belong to you'' i (ue_Integration req) (ue_Type req)
                  (ue_Payload req) userID orgID now db k))"

section \<open>Other services\<close>

definition handleEnqueueCommand ::
  "ogEnv \<Rightarrow> string \<Rightarrow> string \<Rightarrow> string \<Rightarrow> int \<Rightarrow> ogDB \<Rightarrow> nat \<Rightarrow> string ogReply \<times> ogDB \<times> nat" where
  "handleEnqueueCommand E rawBody token timestamp now db k =
     (let body = take maxBodyBytes rawBody
      in if \<not> verifyInternal E ''command'' body token timestamp now then (OgErr 401 ''unauthorized'', db, k)
         else case ge_decodeCommand E body of
           None \<Rightarrow> (OgErr 400 ''invalid request body'', db, k)
         | Some req \<Rightarrow>
           if eq_OutpostID req = [] \<or> eq_Integration req = [] \<or> eq_Type req = []
           then (OgErr 400 ''outpost_id, integration and type are required'', db, k)
           else case enqueueFor E ''outpost does not belong to the requesting tenant'' (eq_OutpostID req)
                       (eq_Integration req) (eq_Type req) (eq_Payload req) (eq_UserID req) (eq_OrgID req) now db k of
                  (OgOK cmd, db', k') \<Rightarrow> (OgOK (oc_ID cmd), db', k')
                | (OgErr n m, db', k') \<Rightarrow> (OgErr n m, db', k')
                | (OgDenied, db', k') \<Rightarrow> (OgDenied, db', k'))"

section \<open>Outposts\<close>

text \<open>
  Enrolment reads the row and mints the key, then saves the whole row.  Other requests may run
  in between, so the two halves are separate definitions; \<open>handleRegister\<close> is one after the other.
\<close>

definition beginRegister ::
  "ogEnv \<Rightarrow> string option \<Rightarrow> int \<Rightarrow> ogDB \<Rightarrow> nat \<Rightarrow> (Outpost \<times> string) ogReply \<times> nat" where
  "beginRegister E enrollmentToken now db k =
     (case enrollmentToken of
        None \<Rightarrow> (OgErr 400 ''invalid request body'', k)
      | Some tok \<Rightarrow>
        (case splitEnrollmentToken tok of
           None \<Rightarrow> (OgErr 401 ''malformed enrollment token'', k)
         | Some (outpostID, secretPart) \<Rightarrow>
           (case getOutpost db outpostID of
              Inl e \<Rightarrow> (OgErr 401 ''invalid or already-used enrollment token'', k)
            | Inr out \<Rightarrow>
              if op_Status out \<noteq> OutpostPending \<or> op_EnrollTokenHash out = []
              then (OgErr 401 ''invalid or already-used enrollment token'', k)
              else if \<not> ge_compare E (op_EnrollTokenHash out) secretPart
              then (OgErr 401 ''invalid enrollment token'', k)
              else case mintOutpostKey E k of
                (None, k') \<Rightarrow> (OgErr 500 ''failed to mint outpost key'', k')
              | (Some (key, keyHash), k') \<Rightarrow>
                (OgOK (out\<lparr>op_KeyHash := keyHash, op_EnrollTokenHash := [], op_Status := OutpostConnected,
                           op_LastSeenAt := Some now\<rparr>, key), k'))))"

definition finishRegister :: "Outpost \<Rightarrow> int \<Rightarrow> ogDB \<Rightarrow> unit ogReply \<times> ogDB" where
  "finishRegister out now db =
     (case saveOutpost out now db of
        None \<Rightarrow> (OgErr 500 ''failed to enroll outpost'', db)
      | Some db' \<Rightarrow> (OgOK (), db'))"

definition handleRegister ::
  "ogEnv \<Rightarrow> string option \<Rightarrow> int \<Rightarrow> ogDB \<Rightarrow> nat \<Rightarrow> (string \<times> string \<times> string) ogReply \<times> ogDB \<times> nat" where
  "handleRegister E enrollmentToken now db k =
     (case beginRegister E enrollmentToken now db k of
        (OgDenied, k') \<Rightarrow> (OgDenied, db, k')
      | (OgErr n m, k') \<Rightarrow> (OgErr n m, db, k')
      | (OgOK (out, key), k') \<Rightarrow>
        (case finishRegister out now db of
           (OgOK u, db') \<Rightarrow> (OgOK (op_OutpostID out, key, op_Modules out), db', k')
         | (OgErr n m, db') \<Rightarrow> (OgErr n m, db', k')
         | (OgDenied, db') \<Rightarrow> (OgDenied, db', k')))"

text \<open>
  The long poll: authentication and the sign of life come first (an error of the latter is
  ignored), then the loop claims at most 16 commands at a time.  After each claim it replies or,
  before the deadline, waits a second and tries again; a cancelled request ends it without a reply.
\<close>

definition commandLongPollTimeout :: int where "commandLongPollTimeout = 30 * Second"

definition beginPoll :: "ogEnv \<Rightarrow> string \<Rightarrow> string \<Rightarrow> int \<Rightarrow> ogDB \<Rightarrow> Outpost ogReply \<times> ogDB" where
  "beginPoll E i authorization now db =
     (case authenticateOutpost E i authorization db of
        OgOK out \<Rightarrow> (OgOK out, case touchOutpost (op_OutpostID out) now db of None \<Rightarrow> db | Some db' \<Rightarrow> db')
      | r \<Rightarrow> (r, db))"

datatype pollNext = PollReply "OutpostCommand list ogReply" | PollGone | PollAgain

definition pollOnce ::
  "string set \<Rightarrow> string \<Rightarrow> bool \<Rightarrow> int \<Rightarrow> int \<Rightarrow> int \<Rightarrow> ogDB \<Rightarrow> pollNext \<times> ogDB" where
  "pollOnce locked outpostID cancelled deadline start now db =
     (case claimCommands locked outpostID 16 start now db of
        (Inl e, db') \<Rightarrow> (if cancelled then PollGone else PollReply (OgErr 500 ''failed to claim commands''), db')
      | (Inr cmds, db') \<Rightarrow>
          (if cmds \<noteq> [] then PollReply (OgOK cmds)
           else if deadline < now then PollReply (OgOK [])
           else if cancelled then PollGone else PollAgain, db'))"

definition handleAckCommand ::
  "ogEnv \<Rightarrow> string \<Rightarrow> string \<Rightarrow> string \<Rightarrow> string \<Rightarrow> string \<Rightarrow> ogDB \<Rightarrow> unit ogReply \<times> ogDB" where
  "handleAckCommand E outpostID authorization i status errDetail db =
     (case authenticateOutpost E outpostID authorization db of
        OgDenied \<Rightarrow> (OgDenied, db)
      | OgErr n m \<Rightarrow> (OgErr n m, db)
      | OgOK out \<Rightarrow>
        (case ackCommand (op_OutpostID out) i status errDetail db of
           None \<Rightarrow> (OgErr 500 ''failed to ack command'', db)
         | Some db' \<Rightarrow> (OgOK (), db')))"

text \<open>Status, error, integration and type of the command.\<close>

definition handleGetCommand ::
  "ogEnv \<Rightarrow> string \<Rightarrow> ogDB \<Rightarrow> (string \<times> string \<times> string \<times> string \<times> string) ogReply" where
  "handleGetCommand E i db =
     (case ge_auth E ''getCommand'' (''outpost-gateway/outpost-commands/'' @ i) of
        None \<Rightarrow> OgDenied
      | Some (userID, orgID) \<Rightarrow>
        (case getCommandByID db i of
           Inl ErrRecordNotFound \<Rightarrow> OgErr 404 ''command not found''
         | Inl ErrDatabase \<Rightarrow> OgErr 500 ''failed to look up command''
         | Inr cmd \<Rightarrow>
           (case getOutpost db (oc_OutpostID cmd) of
              Inl e \<Rightarrow> OgErr 404 ''command not found''
            | Inr out \<Rightarrow>
              if \<not> canAccessOutpost out userID orgID then OgErr 404 ''command not found''
              else OgOK (oc_ID cmd, oc_Status cmd, oc_Error cmd, oc_Integration cmd, oc_Type cmd))))"

text \<open>The reply is the status code: 202 for a new event, 200 for one that was there already.\<close>

definition handleEvents ::
  "ogEnv \<Rightarrow> string \<Rightarrow> string \<Rightarrow> string \<Rightarrow> int \<Rightarrow> ogDB \<Rightarrow> nat \<Rightarrow> nat ogReply \<times> ogDB \<times> nat" where
  "handleEvents E outpostID authorization rawBody now db k =
     (case authenticateOutpost E outpostID authorization db of
        OgDenied \<Rightarrow> (OgDenied, db, k)
      | OgErr n m \<Rightarrow> (OgErr n m, db, k)
      | OgOK out \<Rightarrow>
        (case ge_decodeEvent E (take maxBodyBytes rawBody) of
           None \<Rightarrow> (OgErr 400 ''invalid request body'', db, k)
         | Some ev \<Rightarrow>
           if in_Integration ev = [] \<or> in_Type ev = []
           then (OgErr 400 ''integration and type are required'', db, k)
           else if \<not> outpostHasModule out (in_Integration ev)
           then (OgErr 403 (''outpost does not have the '' @ in_Integration ev @ '' module enabled''), db, k)
           else
             (let (i, k') = (if in_EventID ev = [] then (ge_uuid E k, Suc k) else (in_EventID ev, k));
                  row = \<lparr>ev_ID = i, ev_OutpostID = op_OutpostID out, ev_OrgID = op_OrgID out,
                         ev_UserID = op_UserID out, ev_Integration = in_Integration ev, ev_Type = in_Type ev,
                         ev_Payload = in_Payload ev, ev_Status = EvPending, ev_Attempt = 0, ev_LastError = [],
                         ev_NextRetryAt = now, ev_CreatedAt = now\<rparr>
              in case addEvent row now db of
                   (Inserted, db') \<Rightarrow> (OgOK 202, db', k')
                 | (DuplicateKey, db') \<Rightarrow> (OgOK 200, db', k')
                 | (InsertFailed, db') \<Rightarrow> (OgErr 500 ''failed to enqueue event'', db', k'))))"

definition handleHeartbeat :: "ogEnv \<Rightarrow> string \<Rightarrow> string \<Rightarrow> int \<Rightarrow> ogDB \<Rightarrow> unit ogReply \<times> ogDB" where
  "handleHeartbeat E i authorization now db =
     (case authenticateOutpost E i authorization db of
        OgDenied \<Rightarrow> (OgDenied, db)
      | OgErr n m \<Rightarrow> (OgErr n m, db)
      | OgOK out \<Rightarrow>
        (case touchOutpost (op_OutpostID out) now db of
           None \<Rightarrow> (OgErr 500 ''failed to record heartbeat'', db)
         | Some db' \<Rightarrow> (OgOK (), db')))"

section \<open>The dispatcher\<close>

text \<open>\<open>strings.Cut\<close> by a one-byte separator and \<open>strings.TrimRight\<close> of slashes.\<close>

definition cutChar :: "char \<Rightarrow> string \<Rightarrow> (string \<times> string) option" where
  "cutChar sep s = (if sep \<in> set s then Some (takeWhile (\<lambda>c. c \<noteq> sep) s, drop 1 (dropWhile (\<lambda>c. c \<noteq> sep) s)) else None)"

definition trimRightChar :: "char \<Rightarrow> string \<Rightarrow> string" where
  "trimRightChar x s = rev (dropWhile (\<lambda>c. c = x) (rev s))"

text \<open>A later pair with the same key overwrites an earlier one; pairs without \<open>=\<close> are ignored.\<close>

definition parseConsumers :: "string \<Rightarrow> (string \<rightharpoonup> string)" where
  "parseConsumers raw =
     fold (\<lambda>p m. case cutChar (CHR ''='') p of
                   None \<Rightarrow> m
                 | Some (k, v) \<Rightarrow> m(TrimSpace k \<mapsto> trimRightChar (CHR ''/'') (TrimSpace v)))
       (splitCSV raw) Map.empty"

definition dispatchBatchSize :: nat where "dispatchBatchSize = 20"
definition perEventTimeout :: int where "perEventTimeout = 10 * Second"

definition dispatchLease :: int where
  "dispatchLease = int dispatchBatchSize * perEventTimeout + 30 * Second"

text \<open>What comes of the request to the consumer: no request, no answer, or a status with a body.\<close>

datatype sendOutcome = BadRequestURL string | SendError string | Answered nat string string

text \<open>
  \<open>deliverEvent\<close> decides what is recorded: the event is delivered, or it is tried again or given
  up with a message.  Errors of the recording itself are ignored.
\<close>

definition deliveryMessage :: "ogEnv \<Rightarrow> OutpostEvent \<Rightarrow> sendOutcome \<Rightarrow> string option" where
  "deliveryMessage E e out =
     (case ge_encodeEvent E e of
        Inl m \<Rightarrow> Some (''marshal: '' @ m)
      | Inr body \<Rightarrow>
        (case out of
           BadRequestURL m \<Rightarrow> Some (''build request: '' @ m)
         | SendError m \<Rightarrow> Some m
         | Answered code line body \<Rightarrow>
             if code < 200 \<or> 300 \<le> code
             then Some (''consumer returned '' @ line @ '': '' @ TrimSpace (take 2048 body)) else None))"

definition deliverEvent ::
  "ogEnv \<Rightarrow> (string \<rightharpoonup> string) \<Rightarrow> OutpostEvent \<Rightarrow> sendOutcome \<Rightarrow> int \<Rightarrow> ogDB \<Rightarrow> ogDB" where
  "deliverEvent E consumers e out now db =
     (let keep = (\<lambda>r. case r of None \<Rightarrow> db | Some db' \<Rightarrow> db')
      in case consumers (ev_Integration e) of
           None \<Rightarrow> keep (scheduleEventRetry (e\<lparr>ev_Attempt := maxDeliveryAttempts\<rparr>)
                     (''no consumer for integration '' @ ev_Integration e) now db)
         | Some base \<Rightarrow>
           (case deliveryMessage E e out of
              Some m \<Rightarrow> keep (scheduleEventRetry e m now db)
            | None \<Rightarrow> keep (markEventDelivered (ev_ID e) db)))"

text \<open>The events of a batch are delivered one after the other, each at its own time.\<close>

fun deliverBatch ::
  "ogEnv \<Rightarrow> (string \<rightharpoonup> string) \<Rightarrow> OutpostEvent list \<Rightarrow> (sendOutcome \<times> int) list \<Rightarrow> ogDB \<Rightarrow> ogDB" where
  "deliverBatch E consumers (e # es) ((out, now) # rest) db =
     deliverBatch E consumers es rest (deliverEvent E consumers e out now db)"
| "deliverBatch E consumers _ _ db = db"

definition dispatchDue ::
  "ogEnv \<Rightarrow> (string \<rightharpoonup> string) \<Rightarrow> string set \<Rightarrow> int \<Rightarrow> int \<Rightarrow> (sendOutcome \<times> int) list \<Rightarrow> ogDB \<Rightarrow> ogDB" where
  "dispatchDue E consumers locked start now outs db =
     (case claimDueEvents locked dispatchBatchSize dispatchLease start now db of
        (Inl e, db') \<Rightarrow> db'
      | (Inr events, db') \<Rightarrow> deliverBatch E consumers events outs db')"

end
