(* ===== verification/Og_Queue.thy ===== *)
theory Og_Queue
  imports Og_Gateway
begin

text \<open>
  The gateway as a transition system: any number of requests and dispatcher replicas interleave,
  time passes, tables fail and recover.  What has been handed to outposts is recorded in a log, and
  the events dispatchers hold are in flight.  The invariants of the command queue are proved here.
\<close>

section \<open>The transition system\<close>

record ogSys =
  gs_db :: ogDB
  gs_now :: int
  gs_log :: "(string \<times> string \<times> int) list"
  gs_flight :: "(OutpostEvent \<times> int) list"

definition removeAt :: "nat \<Rightarrow> 'a list \<Rightarrow> 'a list" where
  "removeAt i xs = take i xs @ drop (Suc i) xs"

lemma set_removeAt: "set (removeAt i xs) \<subseteq> set xs"
  unfolding removeAt_def using set_take_subset[of i xs] set_drop_subset[of "Suc i" xs] by simp

text \<open>
  Handlers run at the current time on the current state.  A claim is stamped with the time it takes
  effect at; the time its cutoff was computed from may be earlier.  A dispatcher that holds an
  event records the outcome before the lease ends, or never does (it crashed).
\<close>

inductive og_step :: "ogSys \<Rightarrow> ogSys \<Rightarrow> bool" where
  tick: "gs_now s \<le> t \<Longrightarrow> og_step s (s\<lparr>gs_now := t\<rparr>)"
| fault: "og_step s (s\<lparr>gs_db := (gs_db s)\<lparr>ogs_down := down, ogs_ro := ro\<rparr>\<rparr>)"
| create: "handleCreateOutpost E crq (gs_now s) (gs_db s) k = (cr, db', k') \<Longrightarrow> og_step s (s\<lparr>gs_db := db'\<rparr>)"
| delete: "handleDeleteOutpost E i (gs_db s) = (dr, db') \<Longrightarrow> og_step s (s\<lparr>gs_db := db'\<rparr>)"
| enqueue: "handleEnqueueOutpostCommand E i erq (gs_now s) (gs_db s) k = (er, db', k') \<Longrightarrow> og_step s (s\<lparr>gs_db := db'\<rparr>)"
| internal: "handleEnqueueCommand E raw token stamp (gs_now s) (gs_db s) k = (ir, db', k') \<Longrightarrow> og_step s (s\<lparr>gs_db := db'\<rparr>)"
| register: "finishRegister out now (gs_db s) = (gr, db') \<Longrightarrow> og_step s (s\<lparr>gs_db := db'\<rparr>)"
| poll: "beginPoll E i authz (gs_now s) (gs_db s) = (pr, db') \<Longrightarrow> og_step s (s\<lparr>gs_db := db'\<rparr>)"
| claim: "pollOnce locked i cancelled deadline start (gs_now s) (gs_db s) = (PollReply (OgOK cmds), db')
     \<Longrightarrow> start \<le> gs_now s
     \<Longrightarrow> og_step s (s\<lparr>gs_db := db', gs_log := gs_log s @ map (\<lambda>c. (oc_ID c, i, gs_now s)) cmds\<rparr>)"
| ack: "handleAckCommand E i authz c status detail (gs_db s) = (ar, db') \<Longrightarrow> og_step s (s\<lparr>gs_db := db'\<rparr>)"
| beat: "handleHeartbeat E i authz (gs_now s) (gs_db s) = (hr, db') \<Longrightarrow> og_step s (s\<lparr>gs_db := db'\<rparr>)"
| ingest: "handleEvents E i authz raw (gs_now s) (gs_db s) k = (vr, db', k') \<Longrightarrow> og_step s (s\<lparr>gs_db := db'\<rparr>)"
| due: "claimDueEvents locked dispatchBatchSize dispatchLease start (gs_now s) (gs_db s) = (Inr events, db')
     \<Longrightarrow> start \<le> gs_now s
     \<Longrightarrow> og_step s (s\<lparr>gs_db := db', gs_flight := gs_flight s @ map (\<lambda>e. (e, gs_now s)) events\<rparr>)"
| deliver: "j < length (gs_flight s) \<Longrightarrow> gs_flight s ! j = (e, t) \<Longrightarrow> gs_now s < t + dispatchLease
     \<Longrightarrow> og_step s (s\<lparr>gs_db := deliverEvent E consumers e sent (gs_now s) (gs_db s), gs_flight := removeAt j (gs_flight s)\<rparr>)"
| crash: "j < length (gs_flight s) \<Longrightarrow> og_step s (s\<lparr>gs_flight := removeAt j (gs_flight s)\<rparr>)"

definition og_init :: "ogSys \<Rightarrow> bool" where
  "og_init s \<longleftrightarrow> ogs_commands (gs_db s) = [] \<and> ogs_events (gs_db s) = [] \<and> gs_log s = [] \<and> gs_flight s = []"

section \<open>Which tables a handler writes\<close>

definition sameCommands :: "ogDB \<Rightarrow> ogDB \<Rightarrow> bool" where
  "sameCommands db db' \<longleftrightarrow> ogs_commands db' = ogs_commands db"

definition sameEvents :: "ogDB \<Rightarrow> ogDB \<Rightarrow> bool" where
  "sameEvents db db' \<longleftrightarrow> ogs_events db' = ogs_events db"

lemmas same_defs = sameCommands_def sameEvents_def

lemma outpost_writes:
  "addOutpost b db = Some db' \<Longrightarrow> sameCommands db db' \<and> sameEvents db db'"
  "saveOutpost b now db = Some db' \<Longrightarrow> sameCommands db db' \<and> sameEvents db db'"
  "softDeleteOutpost i db = Some db' \<Longrightarrow> sameCommands db db' \<and> sameEvents db db'"
  "touchOutpost i now db = Some db' \<Longrightarrow> sameCommands db db' \<and> sameEvents db db'"
  unfolding same_defs addOutpost_def saveOutpost_def softDeleteOutpost_def touchOutpost_def Let_def
  by (force split: if_split_asm)+

lemma same_refl [simp]: "sameCommands db db" "sameEvents db db"
  by (simp_all add: same_defs)

lemma create_same:
  "handleCreateOutpost E body now db k = (r, db', k') \<Longrightarrow> sameCommands db db' \<and> sameEvents db db'"
  by (auto simp: handleCreateOutpost_def Let_def dest: outpost_writes split: option.splits prod.splits sum.splits if_splits)

lemma delete_same: "handleDeleteOutpost E i db = (r, db') \<Longrightarrow> sameCommands db db' \<and> sameEvents db db'"
  by (auto simp: handleDeleteOutpost_def dest: outpost_writes split: option.splits prod.splits ogReply.splits)

lemma register_same: "finishRegister b now db = (r, db') \<Longrightarrow> sameCommands db db' \<and> sameEvents db db'"
  by (auto simp: finishRegister_def dest: outpost_writes split: option.splits)

lemma poll_same: "beginPoll E i authz now db = (r, db') \<Longrightarrow> sameCommands db db' \<and> sameEvents db db'"
  by (auto simp: beginPoll_def dest: outpost_writes split: option.splits ogReply.splits)

lemma beat_same: "handleHeartbeat E i authz now db = (r, db') \<Longrightarrow> sameCommands db db' \<and> sameEvents db db'"
  by (auto simp: handleHeartbeat_def dest: outpost_writes split: option.splits ogReply.splits)

lemma enqueueFor_rows:
  assumes "enqueueFor E foreign i integration typ payload userID orgID now db k = (r, db', k')"
  shows "sameEvents db db' \<and> (ogs_commands db' = ogs_commands db
     \<or> (\<exists>c. ogs_commands db' = ogs_commands db @ [c] \<and> oc_ID c \<notin> oc_ID ` set (ogs_commands db) \<and> oc_Status c = CmdPending))"
  using assms
  by (auto simp: enqueueFor_def enqueueCommandDB_def same_defs Let_def split: sum.splits dbErr.splits option.splits if_splits)

lemma enqueue_rows:
  assumes "handleEnqueueOutpostCommand E i body now db k = (r, db', k')"
  shows "sameEvents db db' \<and> (ogs_commands db' = ogs_commands db
     \<or> (\<exists>c. ogs_commands db' = ogs_commands db @ [c] \<and> oc_ID c \<notin> oc_ID ` set (ogs_commands db) \<and> oc_Status c = CmdPending))"
  using assms
  by (auto simp: handleEnqueueOutpostCommand_def dest: enqueueFor_rows split: option.splits prod.splits if_splits)

lemma internal_rows:
  assumes "handleEnqueueCommand E raw token stamp now db k = (r, db', k')"
  shows "sameEvents db db' \<and> (ogs_commands db' = ogs_commands db
     \<or> (\<exists>c. ogs_commands db' = ogs_commands db @ [c] \<and> oc_ID c \<notin> oc_ID ` set (ogs_commands db) \<and> oc_Status c = CmdPending))"
  using assms
  by (auto simp: handleEnqueueCommand_def Let_def dest: enqueueFor_rows split: option.splits prod.splits if_splits ogReply.splits)

text \<open>An acknowledgement settles the commands it hits.\<close>

definition hasOutcome :: "OutpostCommand \<Rightarrow> bool" where
  "hasOutcome c \<longleftrightarrow> oc_Status c = CmdDone \<or> oc_Status c = CmdFailed"

lemma ack_rows:
  assumes "handleAckCommand E i authz c status detail db = (r, db')"
  shows "sameEvents db db' \<and> (\<exists>f. ogs_commands db' = map f (ogs_commands db)
     \<and> (\<forall>x. oc_ID (f x) = oc_ID x \<and> oc_OutpostID (f x) = oc_OutpostID x \<and> (f x = x \<or> hasOutcome (f x))))"
proof -
  have same: "\<exists>f. ogs_commands db = map f (ogs_commands db)
     \<and> (\<forall>x. oc_ID (f x) = oc_ID x \<and> oc_OutpostID (f x) = oc_OutpostID x \<and> (f x = x \<or> hasOutcome (f x)))"
    by (intro exI[of _ "\<lambda>x. x"]) simp
  have hit: "sameEvents db db'' \<and> (\<exists>f. ogs_commands db'' = map f (ogs_commands db)
     \<and> (\<forall>x. oc_ID (f x) = oc_ID x \<and> oc_OutpostID (f x) = oc_OutpostID x \<and> (f x = x \<or> hasOutcome (f x))))"
    if "ackCommand q c status detail db = Some db''" for q db''
  proof -
    let ?f = "\<lambda>x. if oc_ID x = c \<and> oc_OutpostID x = q
       then x\<lparr>oc_Status := (if status \<noteq> CmdDone \<and> status \<noteq> CmdFailed then CmdDone else status), oc_Error := detail\<rparr> else x"
    have "db'' = db\<lparr>ogs_commands := map ?f (ogs_commands db)\<rparr>"
      using that unfolding ackCommand_def Let_def by (cases "ogs_ro db TCommands") simp_all
    moreover have "\<forall>x. oc_ID (?f x) = oc_ID x \<and> oc_OutpostID (?f x) = oc_OutpostID x \<and> (?f x = x \<or> hasOutcome (?f x))"
      by (simp add: hasOutcome_def)
    ultimately show ?thesis by (intro conjI exI[of _ ?f]) (simp_all add: same_defs)
  qed
  show ?thesis using assms same hit
    by (auto simp: handleAckCommand_def split: ogReply.splits option.splits)
qed

lemma ingest_rows:
  assumes "handleEvents E i authz raw now db k = (r, db', k')"
  shows "sameCommands db db' \<and> (ogs_events db' = ogs_events db
     \<or> (\<exists>e. ogs_events db' = ogs_events db @ [e] \<and> ev_ID e \<notin> ev_ID ` set (ogs_events db)
            \<and> ev_Status e = EvPending \<and> ev_Attempt e = 0))"
  using assms
  by (auto simp: handleEvents_def addEvent_def same_defs Let_def split: ogReply.splits option.splits prod.splits if_splits insertResult.splits)

lemma updateEvent_commands: "updateEvent i f db = Some db' \<Longrightarrow> sameCommands db db'"
  by (auto simp: updateEvent_def same_defs split: if_splits)

lemma deliver_commands [simp]: "ogs_commands (deliverEvent E consumers e sent now db) = ogs_commands db"
  by (auto simp: deliverEvent_def scheduleEventRetry_def markEventDelivered_def Let_def same_defs
      dest!: updateEvent_commands split: option.splits if_splits)

lemma due_commands: "claimDueEvents locked n lease start now db = (r, db') \<Longrightarrow> sameCommands db db'"
  by (auto simp: claimDueEvents_def same_defs Let_def split: sum.splits if_splits)

lemma distinct_take_sort: "distinct (map f xs) \<Longrightarrow> distinct (map f (take n (sort_key g (filter P xs))))"
proof -
  assume "distinct (map f xs)"
  then have "inj_on f (set xs)" "distinct xs" by (simp_all add: distinct_map)
  moreover have "set (take n (sort_key g (filter P xs))) \<subseteq> set xs"
    using set_take_subset[of n "sort_key g (filter P xs)"] by auto
  ultimately show "distinct (map f (take n (sort_key g (filter P xs))))"
    by (auto simp: distinct_map intro: inj_on_subset distinct_take)
qed

lemma claim_rows:
  assumes "pollOnce locked i cancelled deadline start now db = (PollReply (OgOK cmds), db')"
  shows "sameEvents db db' \<and> (\<forall>c\<in>set cmds. c \<in> set (ogs_commands db) \<and> deliverable i (start - commandClaimLease) c)
     \<and> ogs_commands db' = map (\<lambda>c. if oc_ID c \<in> oc_ID ` set cmds
          then c\<lparr>oc_Status := CmdClaimed, oc_ClaimedAt := Some now\<rparr> else c) (ogs_commands db)
     \<and> (distinct (map oc_ID (ogs_commands db)) \<longrightarrow> distinct (map oc_ID cmds))"
proof -
  define rows where "rows = filter (\<lambda>c. deliverable i (start - commandClaimLease) c \<and> oc_ID c \<notin> locked) (ogs_commands db)"
  define cs where "cs = take 16 (sort_key oc_CreatedAt rows)"
  have sub: "set cs \<subseteq> set rows" unfolding cs_def using set_take_subset[of 16 "sort_key oc_CreatedAt rows"] by simp
  have d: "distinct (map oc_ID (ogs_commands db)) \<longrightarrow> distinct (map oc_ID cs)"
    unfolding cs_def rows_def using distinct_take_sort by blast
  have c: "claimCommands locked i 16 start now db =
      (if ogs_down db TCommands then (Inl ErrDatabase, db) else if cs = [] then (Inr [], db)
       else if ogs_ro db TCommands then (Inl ErrDatabase, db)
       else (Inr cs, db\<lparr>ogs_commands := map (\<lambda>c. if oc_ID c \<in> oc_ID ` set cs
               then c\<lparr>oc_Status := CmdClaimed, oc_ClaimedAt := Some now\<rparr> else c) (ogs_commands db)\<rparr>))"
    by (simp add: claimCommands_def findRows_def Let_def rows_def cs_def)
  consider "cmds = [] \<and> db' = db" | "cmds = cs \<and> db' = db\<lparr>ogs_commands :=
      map (\<lambda>c. if oc_ID c \<in> oc_ID ` set cs then c\<lparr>oc_Status := CmdClaimed, oc_ClaimedAt := Some now\<rparr> else c) (ogs_commands db)\<rparr>"
    using assms unfolding pollOnce_def c
    by (cases "ogs_down db TCommands"; cases "cs = []"; cases "ogs_ro db TCommands"; cases cancelled; cases "deadline < now") auto
  then show ?thesis
  proof cases
    case 1
    then show ?thesis by (simp add: same_defs)
  next
    case 2
    have "c \<in> set (ogs_commands db) \<and> deliverable i (start - commandClaimLease) c" if "c \<in> set cs" for c
      using that sub unfolding rows_def by auto
    then show ?thesis using 2 d by (simp add: same_defs)
  qed
qed

section \<open>The invariant of the command queue\<close>

definition spaced :: "(string \<times> string \<times> int) list \<Rightarrow> bool" where
  "spaced = sorted_wrt (\<lambda>(i, p, t) (i', p', t'). i = i' \<longrightarrow> p = p' \<and> t + commandClaimLease < t')"

text \<open>What the log may say of a command in its present state.\<close>

definition logFits :: "OutpostCommand \<Rightarrow> string \<times> string \<times> int \<Rightarrow> bool" where
  "logFits c = (\<lambda>(i, p, t). i = oc_ID c \<longrightarrow> p = oc_OutpostID c \<and> oc_Status c \<noteq> CmdPending
     \<and> (oc_Status c = CmdClaimed \<longrightarrow> (\<exists>u. oc_ClaimedAt c = Some u \<and> t \<le> u)))"

definition cmdInv :: "ogSys \<Rightarrow> bool" where
  "cmdInv s \<longleftrightarrow> distinct (map oc_ID (ogs_commands (gs_db s)))
     \<and> (\<forall>c\<in>set (ogs_commands (gs_db s)). \<forall>l\<in>set (gs_log s). logFits c l)
     \<and> (\<forall>(i, p, t)\<in>set (gs_log s). i \<in> oc_ID ` set (ogs_commands (gs_db s)))
     \<and> spaced (gs_log s)"

lemma cmdInv_same:
  "cmdInv s \<Longrightarrow> sameCommands (gs_db s) (gs_db s') \<Longrightarrow> gs_log s' = gs_log s \<Longrightarrow> cmdInv s'"
  by (simp add: cmdInv_def same_defs)

lemma cmdInv_new:
  assumes "cmdInv s" "ogs_commands (gs_db s') = ogs_commands (gs_db s) @ [c]"
    and "oc_ID c \<notin> oc_ID ` set (ogs_commands (gs_db s))" "gs_log s' = gs_log s"
  shows "cmdInv s'"
proof -
  have "logFits c l" if "l \<in> set (gs_log s)" for l
    using assms(1,3) that unfolding cmdInv_def logFits_def by fastforce
  then show ?thesis using assms unfolding cmdInv_def by auto
qed

lemma cmdInv_map:
  assumes "cmdInv s" "ogs_commands (gs_db s') = map f (ogs_commands (gs_db s))"
    and f: "\<forall>x. oc_ID (f x) = oc_ID x \<and> oc_OutpostID (f x) = oc_OutpostID x \<and> (f x = x \<or> hasOutcome (f x))"
    and "gs_log s' = gs_log s"
  shows "cmdInv s'"
proof -
  let ?cs = "ogs_commands (gs_db s)"
  have fit: "logFits (f c) l" if "logFits c l" for c l
    using that f[rule_format, of c] by (auto simp: logFits_def hasOutcome_def split: prod.splits)
  have ids: "oc_ID \<circ> f = oc_ID" using f by (simp add: fun_eq_iff)
  show ?thesis unfolding cmdInv_def assms(2,4)
  proof (intro conjI)
    show "distinct (map oc_ID (map f ?cs))" using assms(1) unfolding cmdInv_def map_map ids by blast
    show "\<forall>c\<in>set (map f ?cs). \<forall>l\<in>set (gs_log s). logFits c l"
      using assms(1) fit unfolding cmdInv_def by auto
    show "\<forall>(i, p, t)\<in>set (gs_log s). i \<in> oc_ID ` set (map f ?cs)"
      using assms(1) unfolding cmdInv_def set_map image_comp ids by blast
    show "spaced (gs_log s)" using assms(1) unfolding cmdInv_def by blast
  qed
qed

lemma cmdInv_claim:
  assumes inv: "cmdInv s" and p: "pollOnce locked i cancelled deadline start (gs_now s) (gs_db s) = (PollReply (OgOK cmds), db')"
    and st: "start \<le> gs_now s"
  shows "cmdInv (s\<lparr>gs_db := db', gs_log := gs_log s @ map (\<lambda>c. (oc_ID c, i, gs_now s)) cmds\<rparr>)"
proof -
  let ?cs = "ogs_commands (gs_db s)" and ?now = "gs_now s" and ?ids = "oc_ID ` set cmds"
  let ?f = "\<lambda>c. if oc_ID c \<in> ?ids then c\<lparr>oc_Status := CmdClaimed, oc_ClaimedAt := Some ?now\<rparr> else c"
  let ?new = "map (\<lambda>c. (oc_ID c, i, ?now)) cmds"
  note r = claim_rows[OF p]
  have dist: "distinct (map oc_ID ?cs)" and fits: "\<And>c l. c \<in> set ?cs \<Longrightarrow> l \<in> set (gs_log s) \<Longrightarrow> logFits c l"
    and known: "\<And>x. x \<in> set (gs_log s) \<Longrightarrow> fst x \<in> oc_ID ` set ?cs" and sp: "spaced (gs_log s)"
    using inv unfolding cmdInv_def by auto
  have dc: "distinct (map oc_ID cmds)" and mem: "\<And>c. c \<in> set cmds \<Longrightarrow> c \<in> set ?cs \<and> deliverable i (start - commandClaimLease) c"
    using r dist by auto
  have same: "c \<in> set cmds" if "c \<in> set ?cs" "oc_ID c \<in> ?ids" for c
    using that mem dist by (metis (no_types, lifting) distinct_map image_iff inj_onD)
  text \<open>an entry for a claimed command is older than the lease\<close>
  have old: "p' = i \<and> t + commandClaimLease < ?now" if l: "(j, p', t) \<in> set (gs_log s)" "j \<in> ?ids" for j p' t
  proof -
    obtain c where c: "c \<in> set cmds" "j = oc_ID c" using l(2) by blast
    from fits[OF mem[OF c(1), THEN conjunct1] l(1)] mem[OF c(1)] c(2) st show ?thesis
      by (auto simp: logFits_def deliverable_def split: option.splits)
  qed
  have fit: "logFits (?f c) l" if "c \<in> set ?cs" "l \<in> set (gs_log s) \<union> set ?new" for c l
  proof (cases "oc_ID c \<in> ?ids")
    case True
    then have "oc_OutpostID c = i" using mem same[OF that(1)] by (auto simp: deliverable_def)
    then show ?thesis using True that(2) old commandClaimLease_def by (fastforce simp: logFits_def Second_def)
  next
    case False
    then show ?thesis using that fits by (auto simp: logFits_def)
  qed
  have space: "spaced (gs_log s @ ?new)"
  proof -
    have "spaced ?new" using dc unfolding spaced_def
      by (induction cmds) (auto simp: image_iff)
    then show ?thesis using sp old unfolding spaced_def by (fastforce simp: sorted_wrt_append)
  qed
  have known': "fst x \<in> oc_ID ` set ?cs" if "x \<in> set (gs_log s) \<union> set ?new" for x
    using that known[of x] mem by (elim UnE) auto
  have ids: "oc_ID \<circ> ?f = oc_ID" by (simp add: fun_eq_iff)
  have db: "ogs_commands db' = map ?f ?cs" using r by blast
  have s': "ogs_commands (gs_db (s\<lparr>gs_db := db', gs_log := gs_log s @ ?new\<rparr>)) = map ?f ?cs"
    "gs_log (s\<lparr>gs_db := db', gs_log := gs_log s @ ?new\<rparr>) = gs_log s @ ?new" by (simp_all add: db)
  show ?thesis unfolding cmdInv_def s'
  proof (intro conjI)
    show "distinct (map oc_ID (map ?f ?cs))" unfolding map_map ids by (rule dist)
    show "\<forall>c\<in>set (map ?f ?cs). \<forall>l\<in>set (gs_log s @ ?new). logFits c l"
      unfolding set_map[of ?f] set_append ball_simps(9) using fit by blast
    show "\<forall>(j, p, t)\<in>set (gs_log s @ ?new). j \<in> oc_ID ` set (map ?f ?cs)"
      unfolding set_map[of ?f] image_comp ids using known' by fastforce
    show "spaced (gs_log s @ ?new)" by (rule space)
  qed
qed

lemma cmdInv_frame:
  "cmdInv s \<Longrightarrow> ogs_commands (gs_db s') = ogs_commands (gs_db s) \<Longrightarrow> gs_log s' = gs_log s \<Longrightarrow> cmdInv s'"
  by (simp add: cmdInv_def)

lemma og_step_cmdInv:
  assumes inv: "cmdInv s" and step: "og_step s s'"
  shows "cmdInv s'"
  using step
proof (cases rule: og_step.cases)
  case (enqueue E i erq k er db' k')
  from enqueue_rows[OF enqueue(2)] show ?thesis using cmdInv_same[OF inv] cmdInv_new[OF inv] enqueue(1) by (auto simp: same_defs)
next
  case (internal E raw token stamp k ir db' k')
  from internal_rows[OF internal(2)] show ?thesis using cmdInv_same[OF inv] cmdInv_new[OF inv] internal(1) by (auto simp: same_defs)
next
  case (claim locked i cancelled deadline start cmds db')
  show ?thesis unfolding claim(1) by (rule cmdInv_claim[OF inv claim(2,3)])
next
  case (ack E i authz c status detail ar db')
  then obtain f where "ogs_commands db' = map f (ogs_commands (gs_db s))"
    "\<forall>x. oc_ID (f x) = oc_ID x \<and> oc_OutpostID (f x) = oc_OutpostID x \<and> (f x = x \<or> hasOutcome (f x))"
    using ack_rows[OF ack(2)] by blast
  then show ?thesis using cmdInv_map[OF inv, of s' f] ack(1) by simp
qed (use inv in \<open>auto intro!: cmdInv_frame[OF inv] dest: create_same delete_same register_same poll_same beat_same
      ingest_rows due_commands simp: same_defs\<close>)

end
