(* ===== verification/Og_Events.thy ===== *)
theory Og_Events
  imports Og_Queue
begin

text \<open>
  The outbox of events: what a delivery records, the invariant that an event has at most one
  dispatcher whose lease runs, and that a settled event is never touched again.
\<close>

section \<open>What a delivery records\<close>

text \<open>
  The specification: without a consumer the event is given up at once; a delivered event is marked;
  a failed attempt is counted and tried again after a delay that doubles from 30 seconds up to 15
  minutes, and the eighth one gives the event up.
\<close>

definition afterDelivery ::
  "ogEnv \<Rightarrow> (string \<rightharpoonup> string) \<Rightarrow> OutpostEvent \<Rightarrow> sendOutcome \<Rightarrow> int \<Rightarrow> OutpostEvent \<Rightarrow> OutpostEvent" where
  "afterDelivery E consumers e sent now r =
     (if consumers (ev_Integration e) = None
      then r\<lparr>ev_Status := EvFailed, ev_Attempt := 9, ev_LastError := ''no consumer for integration '' @ ev_Integration e\<rparr>
      else case deliveryMessage E e sent of
        None \<Rightarrow> r\<lparr>ev_Status := EvDelivered, ev_LastError := []\<rparr>
      | Some m \<Rightarrow>
          if ev_Attempt e \<ge> 7 then r\<lparr>ev_Status := EvFailed, ev_Attempt := ev_Attempt e + 1, ev_LastError := m\<rparr>
          else r\<lparr>ev_Attempt := ev_Attempt e + 1, ev_LastError := m,
                 ev_NextRetryAt := now + min 900 (30 * 2 ^ nat (ev_Attempt e)) * Second\<rparr>)"

lemma deliverEvent_rows:
  assumes "0 \<le> ev_Attempt e"
  shows "ogs_events (deliverEvent E consumers e sent now db) =
     (if ogs_ro db TEvents then ogs_events db
      else map (\<lambda>r. if ev_ID r = ev_ID e then afterDelivery E consumers e sent now r else r) (ogs_events db))"
proof -
  have b: "retryBackoff (ev_Attempt e + 1) = Some (min 900 (30 * 2 ^ nat (ev_Attempt e)) * Second)" if "ev_Attempt e < 7"
    using retryBackoff_exact[of "ev_Attempt e + 1"] assms that by (simp add: maxDeliveryAttempts_def)
  show ?thesis
  proof (cases "ev_Attempt e \<ge> 7")
    case True
    then show ?thesis
      by (simp add: deliverEvent_def afterDelivery_def scheduleEventRetry_def markEventDelivered_def updateEvent_def
          maxDeliveryAttempts_def Let_def cong: if_cong split: option.split)
  next
    case False
    then show ?thesis using b
      by (simp add: deliverEvent_def afterDelivery_def scheduleEventRetry_def markEventDelivered_def updateEvent_def
          maxDeliveryAttempts_def Let_def cong: if_cong split: option.split)
  qed
qed

section \<open>The invariant of the outbox\<close>

definition live :: "int \<Rightarrow> OutpostEvent \<times> int \<Rightarrow> bool" where
  "live now p \<longleftrightarrow> now < snd p + dispatchLease"

definition held :: "OutpostEvent list \<Rightarrow> OutpostEvent \<times> int \<Rightarrow> bool" where
  "held rows p \<longleftrightarrow> (\<exists>r\<in>set rows. ev_ID r = ev_ID (fst p) \<and> ev_Status r = EvPending
     \<and> ev_Attempt r = ev_Attempt (fst p) \<and> ev_NextRetryAt r = snd p + dispatchLease)"

lemma held_map:
  assumes h: "held rows p" and keep: "\<And>r. r \<in> set rows \<Longrightarrow> ev_ID r = ev_ID (fst p) \<Longrightarrow> f r = r"
  shows "held (map f rows) p"
proof -
  from h obtain x where x: "x \<in> set rows" "ev_ID x = ev_ID (fst p)" "ev_Status x = EvPending"
    "ev_Attempt x = ev_Attempt (fst p)" "ev_NextRetryAt x = snd p + dispatchLease"
    unfolding held_def by blast
  have "x \<in> set (map f rows)" using imageI[OF x(1), of f] keep[OF x(1,2)] by simp
  then show ?thesis unfolding held_def by (rule bexI[rotated]) (intro conjI x)
qed

definition rowOk :: "OutpostEvent \<Rightarrow> bool" where
  "rowOk r \<longleftrightarrow> 0 \<le> ev_Attempt r \<and> ev_Attempt r \<le> 9 \<and> (ev_Status r = EvPending \<longrightarrow> ev_Attempt r < maxDeliveryAttempts)"

definition evInv :: "ogSys \<Rightarrow> bool" where
  "evInv s \<longleftrightarrow> distinct (map ev_ID (ogs_events (gs_db s)))
     \<and> (\<forall>r\<in>set (ogs_events (gs_db s)). rowOk r)
     \<and> (\<forall>p\<in>set (gs_flight s). live (gs_now s) p \<longrightarrow> held (ogs_events (gs_db s)) p)
     \<and> distinct (map (\<lambda>p. ev_ID (fst p)) (filter (live (gs_now s)) (gs_flight s)))"

lemma evInv_map:
  assumes e: "ogs_events (gs_db s') = map f rows" and f: "ev_ID \<circ> f = ev_ID" and d: "distinct (map ev_ID rows)"
    and ok: "\<And>r. r \<in> set rows \<Longrightarrow> rowOk (f r)"
    and h: "\<And>p. p \<in> set (gs_flight s') \<Longrightarrow> live (gs_now s') p \<Longrightarrow> held (map f rows) p"
    and one: "distinct (map (\<lambda>p. ev_ID (fst p)) (filter (live (gs_now s')) (gs_flight s')))"
  shows "evInv s'"
  unfolding evInv_def e
proof (intro conjI)
  show "distinct (map ev_ID (map f rows))" unfolding map_map f by (rule d)
  show "\<forall>r\<in>set (map f rows). rowOk r" unfolding set_map ball_simps(9) using ok by blast
  show "\<forall>p\<in>set (gs_flight s'). live (gs_now s') p \<longrightarrow> held (map f rows) p" using h by blast
qed (rule one)

lemma distinct_map_filter_sub: "distinct (map f (filter P xs)) \<Longrightarrow> (\<And>x. Q x \<Longrightarrow> P x) \<Longrightarrow> distinct (map f (filter Q xs))"
  by (induction xs) (auto split: if_splits)

lemma live_mono: "now \<le> t \<Longrightarrow> live t p \<Longrightarrow> live now p"
  by (simp add: live_def)

lemma split_at: "j < length xs \<Longrightarrow> xs = take j xs @ xs ! j # drop (Suc j) xs"
  by (rule id_take_nth_drop)

lemma distinct_removeAt:
  assumes "distinct (map f (filter P xs))" "j < length xs"
  shows "distinct (map f (filter P (removeAt j xs)))"
    and "P (xs ! j) \<Longrightarrow> p \<in> set (removeAt j xs) \<Longrightarrow> P p \<Longrightarrow> f p \<noteq> f (xs ! j)"
proof -
  have e: "map f (filter P xs) = map f (filter P (take j xs)) @ map f (filter P [xs ! j]) @ map f (filter P (drop (Suc j) xs))"
    using arg_cong[OF split_at[OF assms(2)], of "\<lambda>l. map f (filter P l)"] by simp
  show "distinct (map f (filter P (removeAt j xs)))"
    using assms(1) unfolding e removeAt_def by auto
  show "P (xs ! j) \<Longrightarrow> p \<in> set (removeAt j xs) \<Longrightarrow> P p \<Longrightarrow> f p \<noteq> f (xs ! j)"
    using assms(1) unfolding e removeAt_def by (auto simp: rev_image_eqI)
qed

lemma evInv_frame:
  "evInv s \<Longrightarrow> ogs_events (gs_db s') = ogs_events (gs_db s) \<Longrightarrow> gs_flight s' = gs_flight s \<Longrightarrow> gs_now s' = gs_now s \<Longrightarrow> evInv s'"
  by (simp add: evInv_def)

lemma evInv_tick:
  assumes "evInv s" "gs_now s \<le> t"
  shows "evInv (s\<lparr>gs_now := t\<rparr>)"
  using assms live_mono[OF assms(2)]
    distinct_map_filter_sub[of "\<lambda>p. ev_ID (fst p)" "live (gs_now s)" "gs_flight s" "live t"]
  unfolding evInv_def by (simp add: live_mono)

lemma evInv_new:
  assumes "evInv s" "ogs_events (gs_db s') = ogs_events (gs_db s) @ [e]" "ev_ID e \<notin> ev_ID ` set (ogs_events (gs_db s))"
    and "ev_Status e = EvPending" "ev_Attempt e = 0" "gs_flight s' = gs_flight s" "gs_now s' = gs_now s"
  shows "evInv s'"
proof -
  have "held (rows @ [e]) p" if "held rows p" for rows p using that by (auto simp: held_def)
  then show ?thesis using assms by (simp add: evInv_def rowOk_def maxDeliveryAttempts_def)
qed

lemma evInv_remove:
  assumes "evInv s" "j < length (gs_flight s)"
  shows "evInv (s\<lparr>gs_flight := removeAt j (gs_flight s)\<rparr>)"
  using assms(1) distinct_removeAt(1)[OF _ assms(2)] set_removeAt[of j "gs_flight s"]
  unfolding evInv_def by auto

text \<open>Claiming takes due events, moves their retry time to the end of the lease and leaves the rest alone.\<close>

lemma due_rows:
  assumes "claimDueEvents locked n lease start now db = (Inr events, db')"
  shows "(\<forall>e\<in>set events. e \<in> set (ogs_events db) \<and> ev_Status e = EvPending \<and> ev_NextRetryAt e \<le> start)
     \<and> ogs_events db' = map (\<lambda>e. if ev_ID e \<in> ev_ID ` set events then e\<lparr>ev_NextRetryAt := now + lease\<rparr> else e) (ogs_events db)
     \<and> (distinct (map ev_ID (ogs_events db)) \<longrightarrow> distinct (map ev_ID events))"
proof -
  define rows where "rows = filter (\<lambda>e. ev_Status e = EvPending \<and> ev_NextRetryAt e \<le> start \<and> ev_ID e \<notin> locked) (ogs_events db)"
  define es where "es = take n (sort_key ev_NextRetryAt rows)"
  have sub: "set es \<subseteq> set rows" unfolding es_def using set_take_subset[of n "sort_key ev_NextRetryAt rows"] by simp
  have d: "distinct (map ev_ID (ogs_events db)) \<longrightarrow> distinct (map ev_ID es)"
    unfolding es_def rows_def using distinct_take_sort by blast
  have c: "claimDueEvents locked n lease start now db =
      (if ogs_down db TEvents then (Inl ErrDatabase, db) else if es = [] then (Inr [], db)
       else if ogs_ro db TEvents then (Inl ErrDatabase, db)
       else (Inr es, db\<lparr>ogs_events := map (\<lambda>e. if ev_ID e \<in> ev_ID ` set es
               then e\<lparr>ev_NextRetryAt := now + lease\<rparr> else e) (ogs_events db)\<rparr>))"
    by (simp add: claimDueEvents_def findRows_def Let_def rows_def es_def)
  have r: "e \<in> set (ogs_events db) \<and> ev_Status e = EvPending \<and> ev_NextRetryAt e \<le> start" if "e \<in> set es" for e
    using that sub unfolding rows_def by auto
  consider "events = [] \<and> db' = db" | "events = es \<and> db' = db\<lparr>ogs_events := map (\<lambda>e. if ev_ID e \<in> ev_ID ` set es
               then e\<lparr>ev_NextRetryAt := now + lease\<rparr> else e) (ogs_events db)\<rparr>"
    using assms unfolding c by (cases "ogs_down db TEvents"; cases "es = []"; cases "ogs_ro db TEvents") auto
  then show ?thesis
  proof cases
    case 2
    then show ?thesis using r d by simp
  qed simp
qed

lemma evInv_due:
  assumes inv: "evInv s" and c: "claimDueEvents locked n dispatchLease start (gs_now s) (gs_db s) = (Inr events, db')"
    and st: "start \<le> gs_now s"
  shows "evInv (s\<lparr>gs_db := db', gs_flight := gs_flight s @ map (\<lambda>e. (e, gs_now s)) events\<rparr>)" (is "evInv ?s'")
proof -
  let ?rows = "ogs_events (gs_db s)" and ?now = "gs_now s" and ?ids = "ev_ID ` set events"
  let ?f = "\<lambda>e. if ev_ID e \<in> ?ids then e\<lparr>ev_NextRetryAt := ?now + dispatchLease\<rparr> else e"
  note r = due_rows[OF c]
  have dist: "distinct (map ev_ID ?rows)" and ok: "\<And>r. r \<in> set ?rows \<Longrightarrow> rowOk r"
    and h: "\<And>p. p \<in> set (gs_flight s) \<Longrightarrow> live ?now p \<Longrightarrow> held ?rows p"
    and one: "distinct (map (\<lambda>p. ev_ID (fst p)) (filter (live ?now) (gs_flight s)))"
    using inv unfolding evInv_def by auto
  have mem: "e \<in> set ?rows" "ev_Status e = EvPending" "ev_NextRetryAt e \<le> ?now" if "e \<in> set events" for e
    using r that st by auto
  have fresh: "ev_ID (fst p) \<notin> ?ids" if p: "p \<in> set (gs_flight s)" "live ?now p" for p
  proof
    assume "ev_ID (fst p) \<in> ?ids"
    then obtain e where e: "e \<in> set events" "ev_ID e = ev_ID (fst p)" by auto
    obtain x where x: "x \<in> set ?rows" "ev_ID x = ev_ID (fst p)" "ev_NextRetryAt x = snd p + dispatchLease"
      using h[OF p] unfolding held_def by (elim bexE conjE)
    have "x = e" using distinct_key[OF dist x(1) mem(1)[OF e(1)]] e(2) x(2) by simp
    then show False using mem(3)[OF e(1)] x(3) p(2) by (simp add: live_def)
  qed
  have old: "held (map ?f ?rows) p" if "p \<in> set (gs_flight s)" "live ?now p" for p
    by (rule held_map[OF h[OF that]]) (use fresh[OF that] in simp)
  have new: "held (map ?f ?rows) (e, ?now)" if "e \<in> set events" for e
    using mem[OF that] that unfolding held_def by (intro bexI[of _ "?f e"]) auto
  have one': "distinct (map (\<lambda>p. ev_ID (fst p)) (filter (live ?now) (gs_flight s @ map (\<lambda>e. (e, ?now)) events)))"
  proof -
    have "filter (live ?now) (map (\<lambda>e. (e, ?now)) events) = map (\<lambda>e. (e, ?now)) events"
      by (simp add: filter_id_conv live_def dispatchLease_def dispatchBatchSize_def perEventTimeout_def Second_def)
    moreover have "distinct (map ev_ID events)" using r dist by blast
    ultimately show ?thesis using one fresh by (auto simp: o_def)
  qed
  show ?thesis
  proof (rule evInv_map)
    show "ogs_events (gs_db ?s') = map ?f ?rows" using r by simp
    show "ev_ID \<circ> ?f = ev_ID" by (simp add: fun_eq_iff)
    show "rowOk (?f e)" if "e \<in> set ?rows" for e using ok[OF that] by (simp add: rowOk_def)
    show "held (map ?f ?rows) p" if "p \<in> set (gs_flight ?s')" "live (gs_now ?s') p" for p
      using that old[of p] new by auto
  qed (use dist one' in simp_all)
qed

lemma rowOk_after:
  "rowOk r \<Longrightarrow> ev_Status r = EvPending \<Longrightarrow> ev_Attempt r = ev_Attempt e \<Longrightarrow> rowOk (afterDelivery E consumers e sent now r)"
  by (auto simp: rowOk_def afterDelivery_def maxDeliveryAttempts_def split: option.split)

lemma after_id [simp]: "ev_ID (afterDelivery E consumers e sent now r) = ev_ID r"
  by (simp add: afterDelivery_def split: option.split)

lemma evInv_deliver:
  assumes inv: "evInv s" and j: "j < length (gs_flight s)" "gs_flight s ! j = (e, t)" "gs_now s < t + dispatchLease"
  shows "evInv (s\<lparr>gs_db := deliverEvent E consumers e sent (gs_now s) (gs_db s), gs_flight := removeAt j (gs_flight s)\<rparr>)"
proof -
  let ?rows = "ogs_events (gs_db s)" and ?now = "gs_now s"
  let ?f = "\<lambda>r. if ev_ID r = ev_ID e then afterDelivery E consumers e sent ?now r else r"
  have dist: "distinct (map ev_ID ?rows)" and ok: "\<And>r. r \<in> set ?rows \<Longrightarrow> rowOk r"
    and h: "\<And>p. p \<in> set (gs_flight s) \<Longrightarrow> live ?now p \<Longrightarrow> held ?rows p"
    and one: "distinct (map (\<lambda>p. ev_ID (fst p)) (filter (live ?now) (gs_flight s)))"
    using inv unfolding evInv_def by auto
  have l: "live ?now (gs_flight s ! j)" using j by (simp add: live_def)
  obtain x where x: "x \<in> set ?rows" "ev_ID x = ev_ID e" "ev_Status x = EvPending" "ev_Attempt x = ev_Attempt e"
    using h[OF nth_mem[OF j(1)] l] j(2) unfolding held_def by auto
  have a: "0 \<le> ev_Attempt e" using ok[OF x(1)] x(4) by (simp add: rowOk_def)
  have other: "ev_ID (fst p) \<noteq> ev_ID e" if "p \<in> set (removeAt j (gs_flight s))" "live ?now p" for p
    using distinct_removeAt(2)[OF one j(1) l that] j(2) by simp
  have uniq: "r = x" if "r \<in> set ?rows" "ev_ID r = ev_ID e" for r
    using distinct_key[OF dist that(1) x(1)] that(2) x(2) by simp
  have ok': "rowOk (?f r)" if "r \<in> set ?rows" for r
    using ok[OF that] uniq[OF that] rowOk_after[of r e] x(3,4) by auto
  have h': "held (map ?f ?rows) p" if p: "p \<in> set (removeAt j (gs_flight s))" "live ?now p" for p
  proof (rule held_map)
    show "held ?rows p" using h[OF _ p(2)] p(1) set_removeAt[of j "gs_flight s"] by blast
    show "?f r = r" if "ev_ID r = ev_ID (fst p)" for r using that other[OF p] by simp
  qed
  have ids: "ev_ID \<circ> ?f = ev_ID" by (simp add: fun_eq_iff)
  note rows = deliverEvent_rows[OF a, of E consumers sent ?now "gs_db s"]
  have one': "distinct (map (\<lambda>p. ev_ID (fst p)) (filter (live ?now) (removeAt j (gs_flight s))))"
    by (rule distinct_removeAt(1)[OF one j(1)])
  show ?thesis
  proof (cases "ogs_ro (gs_db s) TEvents")
    case True
    then show ?thesis using dist ok h one' set_removeAt[of j "gs_flight s"] unfolding evInv_def by (simp add: rows) blast
  next
    case False
    show ?thesis by (rule evInv_map[where f = ?f and rows = ?rows]) (use False dist ok' h' one' ids in \<open>simp_all add: rows\<close>)
  qed
qed

section \<open>Events only move forward\<close>

definition eventLe :: "ogSys \<Rightarrow> ogSys \<Rightarrow> bool" where
  "eventLe s s' \<longleftrightarrow> (\<forall>r\<in>set (ogs_events (gs_db s)). \<exists>r'\<in>set (ogs_events (gs_db s')). ev_ID r' = ev_ID r
     \<and> ev_Attempt r \<le> ev_Attempt r' \<and> (ev_Status r \<noteq> EvPending \<longrightarrow> r' = r))"

lemma eventLe_refl: "eventLe s s"
  unfolding eventLe_def by blast

lemma eventLe_trans: "eventLe a b \<Longrightarrow> eventLe b c \<Longrightarrow> eventLe a c"
  unfolding eventLe_def by (metis order_trans)

lemma eventLe_same: "ogs_events (gs_db s') = ogs_events (gs_db s) \<Longrightarrow> eventLe s s'"
  unfolding eventLe_def by (simp, blast)

lemma eventLe_map:
  assumes "ogs_events (gs_db s') = map f (ogs_events (gs_db s))"
    and "\<And>r. r \<in> set (ogs_events (gs_db s)) \<Longrightarrow> ev_ID (f r) = ev_ID r \<and> ev_Attempt r \<le> ev_Attempt (f r) \<and> (ev_Status r \<noteq> EvPending \<longrightarrow> f r = r)"
  shows "eventLe s s'"
  unfolding eventLe_def assms(1) using assms(2) by auto

text \<open>Every step keeps the invariant and only moves events forward.\<close>

lemma og_step_events:
  assumes inv: "evInv s" and step: "og_step s s'"
  shows "evInv s' \<and> eventLe s s'"
  using step
proof (cases rule: og_step.cases)
  case (tick t)
  then show ?thesis using evInv_tick[OF inv] by (simp add: eventLe_same)
next
  case (enqueue E i erq k er db' k')
  then show ?thesis using enqueue_rows[OF enqueue(2)] evInv_frame[OF inv, of s'] eventLe_same[of s' s] by (simp add: same_defs)
next
  case (internal E raw token stamp k ir db' k')
  then show ?thesis using internal_rows[OF internal(2)] evInv_frame[OF inv, of s'] eventLe_same[of s' s] by (simp add: same_defs)
next
  case (claim locked i cancelled deadline start cmds db')
  then show ?thesis using claim_rows[OF claim(2)] evInv_frame[OF inv, of s'] eventLe_same[of s' s] by (simp add: same_defs)
next
  case (ack E i authz c status detail ar db')
  then show ?thesis using ack_rows[OF ack(2)] evInv_frame[OF inv, of s'] eventLe_same[of s' s] by (simp add: same_defs)
next
  case (ingest E i authz raw k vr db' k')
  from ingest_rows[OF ingest(2)] consider "ogs_events db' = ogs_events (gs_db s)"
    | e where "ogs_events db' = ogs_events (gs_db s) @ [e]" "ev_ID e \<notin> ev_ID ` set (ogs_events (gs_db s))"
      "ev_Status e = EvPending" "ev_Attempt e = 0" by blast
  then show ?thesis
  proof cases
    case 1
    then show ?thesis using evInv_frame[OF inv, of s'] eventLe_same[of s' s] ingest(1) by simp
  next
    case 2
    then show ?thesis using evInv_new[OF inv, of s' e] ingest(1) by (auto simp: eventLe_def)
  qed
next
  case (due locked start events db')
  have "eventLe s s'"
    by (rule eventLe_map[where f = "\<lambda>e. if ev_ID e \<in> ev_ID ` set events then e\<lparr>ev_NextRetryAt := gs_now s + dispatchLease\<rparr> else e"])
      (use due_rows[OF due(2)] due(1) inv in \<open>auto simp: evInv_def distinct_map dest: inj_onD\<close>)
  then show ?thesis using evInv_due[OF inv due(2,3)] due(1) by simp
next
  case (deliver j e t E consumers sent)
  have a: "evInv s'" unfolding deliver(1) by (rule evInv_deliver[OF inv deliver(2-4)])
  obtain x where x: "x \<in> set (ogs_events (gs_db s))" "ev_ID x = ev_ID e" "ev_Status x = EvPending" "ev_Attempt x = ev_Attempt e"
    using inv nth_mem[OF deliver(2)] deliver(3,4) unfolding evInv_def held_def live_def by fastforce
  have "rowOk x" using x(1) inv unfolding evInv_def by blast
  then have att: "0 \<le> ev_Attempt e" "ev_Attempt e < 8" using x(3,4) by (simp_all add: rowOk_def maxDeliveryAttempts_def)
  have u: "r = x" if "r \<in> set (ogs_events (gs_db s))" "ev_ID r = ev_ID e" for r
    using distinct_key[of ev_ID, OF _ that(1) x(1)] that(2) x(2) inv unfolding evInv_def by simp
  have "eventLe s s'"
  proof (cases "ogs_ro (gs_db s) TEvents")
    case True
    then show ?thesis using deliver(1) by (intro eventLe_same) (simp add: deliverEvent_rows[OF att(1)])
  next
    case False
    have "ev_Attempt x \<le> ev_Attempt (afterDelivery E consumers e sent (gs_now s) x)"
      using x(4) att by (simp add: afterDelivery_def split: option.split)
    then show ?thesis using False deliver(1) u x(3)
      by (intro eventLe_map[where f = "\<lambda>r. if ev_ID r = ev_ID e then afterDelivery E consumers e sent (gs_now s) r else r"])
        (auto simp: deliverEvent_rows[OF att(1)])
  qed
  with a show ?thesis by blast
next
  case (crash j)
  then show ?thesis using evInv_remove[OF inv] by (simp add: eventLe_same)
qed (use inv in \<open>auto intro!: evInv_frame[OF inv] eventLe_same dest: create_same delete_same register_same poll_same beat_same
      simp: same_defs\<close>)

interpretation outbox: forward_system og_init og_step evInv eventLe
proof
  show "evInv s" if "og_init s" for s using that by (simp add: og_init_def evInv_def)
  show "eventLe s s" for s by (rule eventLe_refl)
  show "eventLe a c" if "eventLe a b" "eventLe b c" for a b c using that by (rule eventLe_trans)
  show "evInv s'" "eventLe s s'" if "evInv s" "og_step s s'" for s s' using og_step_events[OF that] by auto
qed

end
