(* ===== verification/Og_Theorems.thy ===== *)
theory Og_Theorems
  imports Og_Events
begin

text \<open>
  What the outpost gateway guarantees: deliveries of commands under a lease, one dispatcher per
  event, tokens of internal requests that fit exactly one request, and enrolment.
\<close>

section \<open>Commands\<close>

definition commandLe :: "ogSys \<Rightarrow> ogSys \<Rightarrow> bool" where
  "commandLe s s' \<longleftrightarrow> (\<forall>c\<in>set (ogs_commands (gs_db s)). hasOutcome c \<longrightarrow>
     filter (\<lambda>l. fst l = oc_ID c) (gs_log s') = filter (\<lambda>l. fst l = oc_ID c) (gs_log s)
     \<and> (\<exists>c'\<in>set (ogs_commands (gs_db s')). oc_ID c' = oc_ID c \<and> hasOutcome c'))"

lemma commandLe_refl: "commandLe s s"
  unfolding commandLe_def by blast

lemma commandLe_trans:
  assumes ab: "commandLe a b" and bc: "commandLe b c"
  shows "commandLe a c"
  unfolding commandLe_def
proof (intro ballI impI)
  fix r assume "r \<in> set (ogs_commands (gs_db a))" "hasOutcome r"
  then obtain r' where r': "r' \<in> set (ogs_commands (gs_db b))" "oc_ID r' = oc_ID r" "hasOutcome r'"
    "filter (\<lambda>l. fst l = oc_ID r) (gs_log b) = filter (\<lambda>l. fst l = oc_ID r) (gs_log a)"
    using ab unfolding commandLe_def by blast
  then show "filter (\<lambda>l. fst l = oc_ID r) (gs_log c) = filter (\<lambda>l. fst l = oc_ID r) (gs_log a)
      \<and> (\<exists>c'\<in>set (ogs_commands (gs_db c)). oc_ID c' = oc_ID r \<and> hasOutcome c')"
    using bc[unfolded commandLe_def, rule_format, of r'] by simp
qed

lemma commandLe_rows:
  assumes "gs_log s' = gs_log s"
    and "\<And>c. c \<in> set (ogs_commands (gs_db s)) \<Longrightarrow> hasOutcome c \<Longrightarrow>
      \<exists>c'\<in>set (ogs_commands (gs_db s')). oc_ID c' = oc_ID c \<and> hasOutcome c'"
  shows "commandLe s s'"
  unfolding commandLe_def assms(1) using assms(2) by blast

lemma commandLe_same:
  "gs_log s' = gs_log s \<Longrightarrow> ogs_commands (gs_db s') = ogs_commands (gs_db s) \<Longrightarrow> commandLe s s'"
  by (rule commandLe_rows) auto

lemma hasOutcome_not_deliverable: "hasOutcome c \<Longrightarrow> \<not> deliverable i before c"
  by (auto simp: hasOutcome_def deliverable_def)

lemma og_step_commandLe:
  assumes inv: "cmdInv s" and step: "og_step s s'"
  shows "commandLe s s'"
  using step
proof (cases rule: og_step.cases)
  case (enqueue E i erq k er db' k')
  then show ?thesis using enqueue_rows[OF enqueue(2)] by (intro commandLe_rows) auto
next
  case (internal E raw token stamp k ir db' k')
  then show ?thesis using internal_rows[OF internal(2)] by (intro commandLe_rows) auto
next
  case (ack E i authz c status detail ar db')
  then obtain f where f: "ogs_commands db' = map f (ogs_commands (gs_db s))"
    "\<And>x. oc_ID (f x) = oc_ID x" "\<And>x. f x = x \<or> hasOutcome (f x)"
    using ack_rows[OF ack(2)] by blast
  show ?thesis
  proof (rule commandLe_rows)
    fix c assume c: "c \<in> set (ogs_commands (gs_db s))" "hasOutcome c"
    have "f c \<in> set (ogs_commands (gs_db s'))" using c(1) f(1) ack(1) by simp
    moreover have "hasOutcome (f c)" using f(3)[of c] c(2) by metis
    ultimately show "\<exists>c'\<in>set (ogs_commands (gs_db s')). oc_ID c' = oc_ID c \<and> hasOutcome c'" using f(2) by blast
  qed (simp add: ack(1))
next
  case (claim locked i cancelled deadline start cmds db')
  note r = claim_rows[OF claim(2)]
  have no: "oc_ID c \<notin> oc_ID ` set cmds" if c: "c \<in> set (ogs_commands (gs_db s))" "hasOutcome c" for c
  proof
    assume "oc_ID c \<in> oc_ID ` set cmds"
    then obtain d where d: "d \<in> set cmds" "oc_ID d = oc_ID c" by auto
    then have "d = c" using r c(1) inv distinct_key[of oc_ID] unfolding cmdInv_def by blast
    then show False using d(1) r c(2) hasOutcome_not_deliverable by blast
  qed
  show ?thesis unfolding commandLe_def
  proof (intro ballI impI conjI)
    fix c assume c: "c \<in> set (ogs_commands (gs_db s))" "hasOutcome c"
    have "filter (\<lambda>l. fst l = oc_ID c) (map (\<lambda>x. (oc_ID x, i, gs_now s)) cmds) = []"
      using no[OF c] by (simp add: filter_empty_conv) (metis imageI)
    then show "filter (\<lambda>l. fst l = oc_ID c) (gs_log s') = filter (\<lambda>l. fst l = oc_ID c) (gs_log s)"
      unfolding claim(1) by simp
    have "c \<in> set (ogs_commands db')"
      using imageI[OF c(1), of "\<lambda>x. if oc_ID x \<in> oc_ID ` set cmds then x\<lparr>oc_Status := CmdClaimed, oc_ClaimedAt := Some (gs_now s)\<rparr> else x"]
        r no[OF c] unfolding if_not_P[OF no[OF c]] by (simp only: set_map)
    then show "\<exists>c'\<in>set (ogs_commands (gs_db s')). oc_ID c' = oc_ID c \<and> hasOutcome c'"
      using c(2) unfolding claim(1) by (intro bexI[of _ c]) simp_all
  qed
qed (auto intro!: commandLe_same dest: create_same delete_same register_same poll_same beat_same ingest_rows due_commands
      simp: same_defs)

interpretation queue: forward_system og_init og_step cmdInv commandLe
proof
  show "cmdInv s" if "og_init s" for s using that by (simp add: og_init_def cmdInv_def spaced_def)
  show "cmdInv s'" if "cmdInv s" "og_step s s'" for s s' using that by (rule og_step_cmdInv)
  show "commandLe s s" for s by (rule commandLe_refl)
  show "commandLe a c" if "commandLe a b" "commandLe b c" for a b c using that by (rule commandLe_trans)
  show "commandLe s s'" if "cmdInv s" "og_step s s'" for s s' using that by (rule og_step_commandLe)
qed

text \<open>
  C23: A command is handed out at least once and never in parallel: in every interleaving of requests,
  gateway replicas, failures and time, two hand-outs of one command go to the same outpost and lie
  more than the five minutes of the claim lease apart.
\<close>
theorem command_redelivery_spaced:
  assumes "og_init s0" "og_step\<^sup>*\<^sup>* s0 s" and "i < j" "j < length (gs_log s)"
    and "gs_log s ! i = (c, p, t)" "gs_log s ! j = (c, p', t')"
  shows "p' = p \<and> t + commandClaimLease < t'
    \<and> (\<exists>!r. r \<in> set (ogs_commands (gs_db s)) \<and> oc_ID r = c) \<and> (\<forall>r\<in>set (ogs_commands (gs_db s)). oc_ID r = c \<longrightarrow> oc_OutpostID r = p)"
proof -
  have inv: "cmdInv s" using queue.reachable_inv[OF assms(1,2)] .
  have l: "(c, p, t) \<in> set (gs_log s)" using assms(3-5) by (metis dual_order.strict_trans nth_mem)
  have "p' = p \<and> t + commandClaimLease < t'"
    using sorted_wrt_nth_less[OF _ assms(3,4)] inv unfolding cmdInv_def spaced_def
    by (fastforce simp: assms(5,6))
  moreover have "c \<in> oc_ID ` set (ogs_commands (gs_db s))" using inv l unfolding cmdInv_def by fast
  moreover have "r = r'" if "r \<in> set (ogs_commands (gs_db s))" "r' \<in> set (ogs_commands (gs_db s))" "oc_ID r = c" "oc_ID r' = c" for r r'
    using distinct_key[of oc_ID, OF _ that(1,2)] inv that(3,4) unfolding cmdInv_def by simp
  moreover have "oc_OutpostID r = p" if "r \<in> set (ogs_commands (gs_db s))" "oc_ID r = c" for r
    using inv l that unfolding cmdInv_def logFits_def by fast
  ultimately show ?thesis by blast
qed

text \<open>
  C24: An acknowledged command is done with: from then on it is never handed out again, by no replica
  and after no delay, and its status stays an outcome.
\<close>
theorem acked_command_silent:
  assumes "og_init s0" "og_step\<^sup>*\<^sup>* s0 s" "og_step\<^sup>*\<^sup>* s s'"
    and "c \<in> set (ogs_commands (gs_db s))" "oc_Status c \<in> {CmdDone, CmdFailed}"
  shows "filter (\<lambda>l. fst l = oc_ID c) (gs_log s') = filter (\<lambda>l. fst l = oc_ID c) (gs_log s)
    \<and> (\<exists>c'\<in>set (ogs_commands (gs_db s')). oc_ID c' = oc_ID c \<and> oc_Status c' \<in> {CmdDone, CmdFailed})"
  using queue.steps_le[OF assms(3) queue.reachable_inv[OF assms(1,2)]] assms(4,5)
  unfolding commandLe_def hasOutcome_def by auto

section \<open>Events\<close>


section \<open>Internal requests\<close>

lemma hexDigit_inj: "m < 16 \<Longrightarrow> n < 16 \<Longrightarrow> hexDigit m = hexDigit n \<Longrightarrow> m = n"
proof -
  have v: "(of_char (hexDigit k) :: nat) = (if k < 10 then 48 + k else 87 + k)" if "k < 16" for k
    using that unfolding hexDigit_def by (cases "k < 10") (simp_all only: if_True if_False of_char_of, simp_all)
  assume mn: "m < 16" "n < 16" "hexDigit m = hexDigit n"
  have "(if m < 10 then 48 + m else 87 + m) = (if n < 10 then 48 + n else 87 + n)"
    unfolding v[OF mn(1), symmetric] v[OF mn(2), symmetric] mn(3) ..
  then show "m = n" using mn(1,2) by presburger
qed

lemma hexEncode_inj: "hexEncode a = hexEncode b \<longleftrightarrow> a = b"
proof
  show "hexEncode a = hexEncode b \<Longrightarrow> a = b"
  proof (induction a arbitrary: b)
    case Nil
    then show ?case by (cases b) (auto simp: hexEncode_def)
  next
    case (Cons c cs)
    then obtain d ds where b: "b = d # ds" by (cases b) (auto simp: hexEncode_def)
    have lt: "(of_char x :: nat) div 16 < 16" for x :: char
      using nat_of_char_less_256[of x] by (simp add: div_less_iff_less_mult)
    have "of_char c div 16 = (of_char d div 16 :: nat)" "of_char c mod 16 = (of_char d mod 16 :: nat)"
      using Cons.prems unfolding b by (auto simp: hexEncode_def intro!: hexDigit_inj[OF lt lt] hexDigit_inj)
    then have "(of_char c :: nat) = of_char d" by (metis div_mult_mod_eq)
    moreover have "hexEncode cs = hexEncode ds" using Cons.prems unfolding b by (simp add: hexEncode_def)
    ultimately show ?case using Cons.IH b by (metis char_of_char)
  qed
qed simp

lemma sep_inj: "x \<notin> set a \<Longrightarrow> x \<notin> set b \<Longrightarrow> a @ x # r = b @ x # r' \<longleftrightarrow> a = b \<and> r = r'"
proof (induction a arbitrary: b)
  case Nil
  then show ?case by (cases b) auto
next
  case (Cons y a)
  then show ?case by (cases b) auto
qed

lemma macInput_inj:
  assumes "CHR '':'' \<notin> set p" "CHR '':'' \<notin> set p'" "CHR '':'' \<notin> set ts" "CHR '':'' \<notin> set ts'"
  shows "macInput p ts b = macInput p' ts' b' \<longleftrightarrow> p = p' \<and> ts = ts' \<and> b = b'"
  using sep_inj[OF assms(1,2)] sep_inj[OF assms(3,4)] by (simp add: macInput_def)

lemma isDigit_colon: "\<not> isDigit (CHR '':'')"
  by (simp add: isDigit_def)

lemma ParseInt64_no_colon: "ParseInt64 s = Some v \<Longrightarrow> CHR '':'' \<notin> set s"
  using isDigit_colon
  by (cases s) (auto simp: ParseInt64_def ParseUint_def Let_def split: if_splits option.splits)

lemma itoa_no_colon: "CHR '':'' \<notin> set (itoa v)"
  using itoa_chars[of "CHR '':''" v] isDigit_colon by auto

lemma window_exact:
  assumes "0 \<le> now" "now < 2 ^ 62" "0 \<le> ts" "ts < 2 ^ 62"
  shows "(30 <s (word_of_int now - word_of_int ts :: 64 word) \<or> (word_of_int now - word_of_int ts :: 64 word) <s - 30)
    \<longleftrightarrow> \<not> \<bar>now - ts\<bar> \<le> 30"
proof -
  have "sint (word_of_int now - word_of_int ts :: 64 word) = signed_take_bit 63 (now - ts)"
    by (simp only: wi_hom_sub sint_sbintrunc') simp
  also have "\<dots> = now - ts" using assms by (intro signed_take_bit_int_eq_self) auto
  finally have s: "sint (word_of_int now - word_of_int ts :: 64 word) = now - ts" .
  have "sint (30 :: 64 word) = 30" "sint (- 30 :: 64 word) = - 30" by simp_all
  then show ?thesis unfolding word_sless_alt s by linarith
qed


end
