(* ===== verification/Og_Enrol.thy ===== *)
theory Og_Enrol
  imports Og_Theorems
begin

text \<open>
  Enrolment of an outpost: the token of a new outpost is good for exactly one registration, whose
  key authenticates the outpost from then on.
\<close>

section \<open>Hexadecimal tokens\<close>

lemma hexDigit_plain:
  assumes "n < 16"
  shows "hexDigit n \<notin> set asciiSpaces \<and> (of_char (hexDigit n) :: nat) < 128"
proof -
  have "list_all (\<lambda>n. hexDigit n \<notin> set asciiSpaces \<and> (of_char (hexDigit n) :: nat) < 128) [0..<16]" by code_simp
  then show ?thesis using assms unfolding list_all_iff by simp
qed

lemma hexEncode_chars: "c \<in> set (hexEncode s) \<Longrightarrow> c \<notin> set asciiSpaces \<and> (of_char c :: nat) < 128"
proof -
  assume "c \<in> set (hexEncode s)"
  then obtain x where "c = hexDigit (of_char x div 16) \<or> c = hexDigit (of_char x mod 16)"
    by (auto simp: hexEncode_def)
  moreover have "(of_char x :: nat) div 16 < 16" using nat_of_char_less_256[of x] by (simp add: div_less_iff_less_mult)
  moreover have "(of_char x :: nat) mod 16 < 16" by simp
  ultimately show ?thesis using hexDigit_plain by blast
qed

lemma hexEncode_length: "length (hexEncode s) = 2 * length s"
  by (induction s) (simp_all add: hexEncode_def)

lemma outpostBearerToken_hex: "outpostBearerToken (''Bearer '' @ hexEncode s) = hexEncode s"
  using TrimSpace_plain[OF hexEncode_chars] by (simp add: outpostBearerToken_def HasPrefix_def)

lemma split_minted:
  assumes "i \<noteq> []" "CHR ''.'' \<notin> set i" "secret \<noteq> []"
  shows "splitEnrollmentToken (i @ ''.'' @ secret) = Some (i, secret)"
proof -
  have "strIndex (i @ ''.'' @ secret) ''.'' = Some (length i)"
    using assms(2)
  proof (induction i)
    case Nil
    then show ?case by (simp add: strIndex_Cons)
  next
    case (Cons c i)
    then have "c \<noteq> CHR ''.''" by auto
    with Cons show ?case by (simp add: strIndex_Cons)
  qed
  then show ?thesis using assms(1,3) by (simp add: splitEnrollmentToken_def)
qed

section \<open>One outpost among many\<close>

lemma getOutpost_only:
  assumes "\<not> ogs_down db TOutposts" "b \<in> set (ogs_outposts db)" "op_Active b"
    and "\<And>x. x \<in> set (ogs_outposts db) \<Longrightarrow> op_OutpostID x = op_OutpostID b \<Longrightarrow> x = b"
  shows "getOutpost db (op_OutpostID b) = Inr b"
proof -
  obtain x where x: "getOutpost db (op_OutpostID b) = Inr x"
    using firstRow_Inr_ex[OF assms(1,2), of "\<lambda>x. op_OutpostID x = op_OutpostID b \<and> op_Active x"] assms(3)
    unfolding getOutpost_def by auto
  then show ?thesis using assms(4) unfolding getOutpost_def by (auto dest: firstRow_Inr)
qed

lemma created_outpost:
  assumes "handleCreateOutpost E body t db k = (OgOK (out, token), db1, k1)"
  shows "op_OutpostID out = ge_uuid E k \<and> op_Active out \<and> op_Status out = OutpostPending
    \<and> token = op_OutpostID out @ ''.'' @ randToken E 24 (Suc k)
    \<and> ge_bcrypt E (Suc (Suc k)) (randToken E 24 (Suc k)) = Some (op_EnrollTokenHash out)
    \<and> op_OutpostID out \<notin> op_OutpostID ` set (ogs_outposts db) \<and> \<not> ogs_ro db TOutposts
    \<and> (\<forall>b\<in>set (ogs_outposts db). \<not> nameClash out b)
    \<and> db1 = db\<lparr>ogs_outposts := ogs_outposts db @ [out]\<rparr>"
  using assms
  by (auto simp: handleCreateOutpost_def mintEnrollmentToken_def addOutpost_def Let_def
      split: option.splits prod.splits sum.splits if_splits)

text \<open>
  C27: The enrolment token returned for a new outpost enrols it; the key returned then authenticates
  the outpost as its creator's; the token is refused ever after.  Assumed are bcrypt's contract
  (secrets up to 72 bytes have a hash, which is not empty and matches), full reads of random bytes
  and uuids without a dot.
\<close>
theorem enrollment_round_trip:
  assumes bcrypt: "\<And>n p h. ge_bcrypt E n p = Some h \<Longrightarrow> h \<noteq> [] \<and> ge_compare E h p"
      "\<And>n p. length p \<le> 72 \<Longrightarrow> ge_bcrypt E n p \<noteq> None"
    and rand: "\<And>n d. length (ge_rand E n d) = n"
    and uuid: "ge_uuid E k \<noteq> []" "CHR ''.'' \<notin> set (ge_uuid E k)"
    and created: "handleCreateOutpost E body t0 db k = (OgOK (out, token), db1, k1)"
    and up: "\<not> ogs_down db1 TOutposts"
  shows "\<exists>key db2 k3 out'. handleRegister E (Some token) t1 db1 k2 = (OgOK (op_OutpostID out, key, op_Modules out), db2, k3)
    \<and> authenticateOutpost E (op_OutpostID out) (''Bearer '' @ key) db2 = OgOK out'
    \<and> op_UserID out' = op_UserID out \<and> op_OrgID out' = op_OrgID out \<and> op_Modules out' = op_Modules out
    \<and> (\<forall>t k'. handleRegister E (Some token) t db2 k' = (OgErr 401 ''invalid or already-used enrollment token'', db2, k'))"
proof -
  let ?i = "op_OutpostID out" and ?secret = "randToken E 24 (Suc k)" and ?key = "randToken E 32 k2"
  have c: "?i = ge_uuid E k" "op_Active out" "op_Status out = OutpostPending" "token = ?i @ ''.'' @ ?secret"
    "ge_bcrypt E (Suc (Suc k)) ?secret = Some (op_EnrollTokenHash out)"
    "?i \<notin> op_OutpostID ` set (ogs_outposts db)" "\<not> ogs_ro db TOutposts"
    "\<And>b. b \<in> set (ogs_outposts db) \<Longrightarrow> \<not> nameClash out b"
    "db1 = db\<lparr>ogs_outposts := ogs_outposts db @ [out]\<rparr>"
    using created_outpost[OF created] by blast+
  have len: "length ?secret = 48" "length ?key = 64" by (simp_all add: randToken_def hexEncode_length rand)
  then have ne: "?secret \<noteq> []" "?key \<noteq> []" by auto
  have split: "splitEnrollmentToken token = Some (?i, ?secret)"
    unfolding c(4) by (rule split_minted) (use c(1) uuid ne in simp_all)
  obtain keyHash where kh: "ge_bcrypt E (Suc k2) ?key = Some keyHash" using bcrypt(2)[of ?key] len by fastforce
  have only: "x = out" if "x \<in> set (ogs_outposts db1)" "op_OutpostID x = ?i" for x
    using that c(6) unfolding c(9) by (auto simp: rev_image_eqI)
  have got: "getOutpost db1 ?i = Inr out"
    by (rule getOutpost_only[OF up _ c(2)]) (use only in \<open>auto simp: c(9)\<close>)
  define row where "row = out\<lparr>op_KeyHash := keyHash, op_EnrollTokenHash := [], op_Status := OutpostConnected, op_LastSeenAt := Some t1\<rparr>"
  define saved where "saved = row\<lparr>op_UpdatedAt := t1\<rparr>"
  define db2 where "db2 = db1\<lparr>ogs_outposts := map (\<lambda>b. if op_OutpostID b = ?i then saved else b) (ogs_outposts db1)\<rparr>"
  have started: "beginRegister E (Some token) t1 db1 k2 = (OgOK (row, ?key), k2 + 2)"
    using bcrypt(1)[OF c(5)] by (simp add: beginRegister_def split got c(3) mintOutpostKey_def Let_def kh row_def)
  have "nameClash saved b \<longleftrightarrow> nameClash out b" for b by (simp add: nameClash_def saved_def row_def)
  then have "saveOutpost row t1 db1 = Some db2"
    using c(6-8) by (auto simp: saveOutpost_def Let_def db2_def saved_def row_def c(9))
  then have reg: "handleRegister E (Some token) t1 db1 k2 = (OgOK (?i, ?key, op_Modules out), db2, k2 + 2)"
    by (simp add: handleRegister_def started finishRegister_def) (simp add: row_def)
  have id: "op_OutpostID saved = ?i" by (simp add: saved_def row_def)
  have got2: "getOutpost db2 ?i = Inr saved"
    unfolding id[symmetric]
    by (rule getOutpost_only) (use up c(2) in \<open>auto simp: db2_def c(9) id, auto simp: saved_def row_def\<close>)
  have "authenticateOutpost E ?i (''Bearer '' @ ?key) db2 = OgOK saved"
    using bcrypt(1)[OF kh] uuid(1) ne(2) got2 outpostBearerToken_hex[of "ge_rand E 32 k2"]
    by (simp add: authenticateOutpost_def Let_def randToken_def c(1)) (simp add: saved_def row_def)
  moreover have "handleRegister E (Some token) t db2 k' = (OgErr 401 ''invalid or already-used enrollment token'', db2, k')" for t k'
    by (simp add: handleRegister_def beginRegister_def split got2) (simp add: saved_def row_def)
  moreover have "op_UserID saved = op_UserID out" "op_OrgID saved = op_OrgID out" "op_Modules saved = op_Modules out"
    by (simp_all add: saved_def row_def)
  ultimately show ?thesis using reg by blast
qed

end
