(* ===== verification/Og_Examples.thy ===== *)
theory Og_Examples
  imports Og_Enrol
begin

text \<open>
  Concrete runs of the gateway: they instantiate its theorems, and show what goes wrong when
  requests overlap.
\<close>

section \<open>Concrete runs\<close>

definition demoGateway :: ogEnv where
  "demoGateway = \<lparr>ge_auth = (\<lambda>a r. Some (''alice'', ''acme'')), ge_rand = (\<lambda>n d. replicate n (char_of d)),
     ge_uuid = (\<lambda>k. replicate (Suc k) (CHR ''u'')), ge_bcrypt = (\<lambda>n p. Some (CHR ''h'' # p)),
     ge_compare = (\<lambda>h p. h = CHR ''h'' # p), ge_hmac = (\<lambda>k m. m), ge_internalKey = ''key'',
     ge_decodeCommand = (\<lambda>b. None),
     ge_decodeEvent = (\<lambda>b. Some \<lparr>in_EventID = b, in_Integration = ''chaos'', in_Type = ''t'', in_Payload = []\<rparr>),
     ge_encodeEvent = (\<lambda>e. Inr [])\<rparr>"

definition emptyGate :: ogDB where
  "emptyGate = \<lparr>ogs_outposts = [], ogs_commands = [], ogs_events = [], ogs_down = (\<lambda>t. False), ogs_ro = (\<lambda>t. False)\<rparr>"

definition demoOutpost :: Outpost where
  "demoOutpost = \<lparr>op_OutpostID = ''o1'', op_OrgID = ''acme'', op_UserID = ''alice'', op_Name = ''edge'', op_Modules = ''chaos'',
     op_Status = OutpostConnected, op_EnrollTokenHash = [], op_KeyHash = ''hkey'', op_Active = True,
     op_LastSeenAt = None, op_CreatedAt = 0, op_UpdatedAt = 0\<rparr>"

definition demoSys :: ogSys where
  "demoSys = \<lparr>gs_db = emptyGate\<lparr>ogs_outposts := [demoOutpost]\<rparr>, gs_now = 1, gs_log = [], gs_flight = []\<rparr>"

lemma demo_init: "og_init demoSys"
  by (simp add: og_init_def demoSys_def emptyGate_def)

text \<open>The steps the runs below take, as functions of the state.\<close>

definition doEnqueue :: "ogSys \<Rightarrow> ogSys" where
  "doEnqueue s = s\<lparr>gs_db := fst (snd (handleEnqueueOutpostCommand demoGateway ''o1''
     (Some \<lparr>ue_Integration = ''chaos'', ue_Type = ''kill'', ue_Payload = []\<rparr>) (gs_now s) (gs_db s) 0))\<rparr>"

definition doClaim :: "ogSys \<Rightarrow> ogSys" where
  "doClaim s = (case pollOnce {} ''o1'' False 0 (gs_now s) (gs_now s) (gs_db s) of
     (PollReply (OgOK cmds), db') \<Rightarrow> s\<lparr>gs_db := db', gs_log := gs_log s @ map (\<lambda>c. (oc_ID c, ''o1'', gs_now s)) cmds\<rparr>
   | _ \<Rightarrow> s)"

definition doAck :: "string \<Rightarrow> ogSys \<Rightarrow> ogSys" where
  "doAck status s = s\<lparr>gs_db := snd (handleAckCommand demoGateway ''o1'' ''Bearer key'' ''u'' status [] (gs_db s))\<rparr>"

definition doIngest :: "ogSys \<Rightarrow> ogSys" where
  "doIngest s = s\<lparr>gs_db := fst (snd (handleEvents demoGateway ''o1'' ''Bearer key'' ''e1'' (gs_now s) (gs_db s) 0))\<rparr>"

definition doDue :: "ogSys \<Rightarrow> ogSys" where
  "doDue s = (case claimDueEvents {} dispatchBatchSize dispatchLease (gs_now s) (gs_now s) (gs_db s) of
     (Inr events, db') \<Rightarrow> s\<lparr>gs_db := db', gs_flight := gs_flight s @ map (\<lambda>e. (e, gs_now s)) events\<rparr>
   | _ \<Rightarrow> s)"

definition later :: "int \<Rightarrow> ogSys \<Rightarrow> ogSys" where
  "later d s = s\<lparr>gs_now := gs_now s + \<bar>d\<bar>\<rparr>"

lemma do_enqueue: "og_step s (doEnqueue s)"
proof -
  obtain r db1 k1 where h: "handleEnqueueOutpostCommand demoGateway ''o1''
     (Some \<lparr>ue_Integration = ''chaos'', ue_Type = ''kill'', ue_Payload = []\<rparr>) (gs_now s) (gs_db s) 0 = (r, db1, k1)" by (metis prod_cases3)
  show ?thesis unfolding doEnqueue_def h fst_conv snd_conv by (rule og_step.enqueue[OF h])
qed

lemma do_claim: "doClaim s \<noteq> s \<Longrightarrow> og_step s (doClaim s)"
  unfolding doClaim_def by (auto split: prod.splits pollNext.splits ogReply.splits intro!: og_step.claim)

lemma do_ack: "og_step s (doAck st s)"
proof -
  obtain r db1 where h: "handleAckCommand demoGateway ''o1'' ''Bearer key'' ''u'' st [] (gs_db s) = (r, db1)" by fastforce
  show ?thesis unfolding doAck_def h fst_conv snd_conv by (rule og_step.ack[OF h])
qed

lemma do_ingest: "og_step s (doIngest s)"
proof -
  obtain r db1 k1 where h: "handleEvents demoGateway ''o1'' ''Bearer key'' ''e1'' (gs_now s) (gs_db s) 0 = (r, db1, k1)" by (metis prod_cases3)
  show ?thesis unfolding doIngest_def h fst_conv snd_conv by (rule og_step.ingest[OF h])
qed

lemma do_due: "doDue s \<noteq> s \<Longrightarrow> og_step s (doDue s)"
  unfolding doDue_def by (auto split: prod.splits sum.splits intro!: og_step.due)

lemma do_later: "og_step s (later d s)"
  unfolding later_def by (rule og_step.tick) simp

datatype demoStep = Enqueue | Claim | Ack string | Ingest | Due | Later int

fun demoDo :: "demoStep \<Rightarrow> ogSys \<Rightarrow> ogSys" where
  "demoDo Enqueue = doEnqueue"
| "demoDo Claim = doClaim"
| "demoDo (Ack st) = doAck st"
| "demoDo Ingest = doIngest"
| "demoDo Due = doDue"
| "demoDo (Later d) = later d"

definition demoRuns :: "demoStep list \<Rightarrow> ogSys \<Rightarrow> ogSys" where
  "demoRuns steps s = fold demoDo steps s"

lemma demoDo_reach: "og_step\<^sup>*\<^sup>* s (demoDo x s)"
  by (cases x; cases "demoDo x s = s")
    (auto dest: do_claim do_due intro: r_into_rtranclp[of og_step] do_enqueue do_ack do_ingest do_later)

lemma demoRuns_reach: "og_step\<^sup>*\<^sup>* s (demoRuns steps s)"
  unfolding demoRuns_def
  by (induction steps arbitrary: s) (auto intro: rtranclp_trans[OF demoDo_reach])

section \<open>Witnesses\<close>

text \<open>A command claimed, not acknowledged, and claimed again once its lease is over.\<close>

lemma command_redelivery_spaced_witness:
  "\<exists>s t t'. og_step\<^sup>*\<^sup>* demoSys s \<and> gs_log s = [(''u'', ''o1'', t), (''u'', ''o1'', t')] \<and> t + commandClaimLease < t'"
proof -
  let ?s = "demoRuns [Enqueue, Claim, Later (commandClaimLease + 1), Claim] demoSys"
  have l: "gs_log ?s = [(''u'', ''o1'', 1), (''u'', ''o1'', 300000000002)]" by code_simp
  have "1 + commandClaimLease < 300000000002"
    using command_redelivery_spaced[OF demo_init demoRuns_reach[of demoSys "[Enqueue, Claim, Later (commandClaimLease + 1), Claim]"],
        of 0 1 "''u''" "''o1''" 1 "''o1''" 300000000002] unfolding l by simp
  then show ?thesis using l demoRuns_reach by blast
qed

text \<open>A command acknowledged, then polled for long after.\<close>

lemma acked_command_silent_witness:
  "length (gs_log (demoRuns [Later 1000000000000, Claim] (demoRuns [Enqueue, Claim, Ack CmdFailed] demoSys))) = 1"
proof -
  let ?s = "demoRuns [Enqueue, Claim, Ack CmdFailed] demoSys"
  let ?s' = "demoRuns [Later 1000000000000, Claim] ?s"
  have "map (\<lambda>c. (oc_ID c, oc_Status c)) (ogs_commands (gs_db ?s)) = [(''u'', CmdFailed)]" by code_simp
  then obtain c where c: "c \<in> set (ogs_commands (gs_db ?s))" "oc_ID c = ''u''" "oc_Status c \<in> {CmdDone, CmdFailed}"
    by (auto simp: map_eq_Cons_conv)
  have "filter (\<lambda>l. fst l = ''u'') (gs_log ?s') = filter (\<lambda>l. fst l = ''u'') (gs_log ?s)"
    using acked_command_silent[OF demo_init demoRuns_reach demoRuns_reach c(1,3)] c(2) by simp
  moreover have "length (filter (\<lambda>l. fst l = ''u'') (gs_log ?s)) = 1" by code_simp
  moreover have all: "list_all (\<lambda>l. fst l = ''u'') (gs_log ?s')" by code_simp
  moreover from all have "filter (\<lambda>l. fst l = ''u'') (gs_log ?s') = gs_log ?s'"
    unfolding list_all_iff by (rule filter_True)
  ultimately show ?thesis by (simp only:)
qed

definition demoEvent :: OutpostEvent where
  "demoEvent = \<lparr>ev_ID = ''e1'', ev_OutpostID = ''o1'', ev_OrgID = ''acme'', ev_UserID = ''alice'', ev_Integration = ''chaos'',
     ev_Type = ''t'', ev_Payload = [], ev_Status = EvPending, ev_Attempt = 0, ev_LastError = [], ev_NextRetryAt = 1, ev_CreatedAt = 1\<rparr>"

lemma ingest_demo: "doIngest demoSys = demoSys\<lparr>gs_db := (gs_db demoSys)\<lparr>ogs_events := [demoEvent]\<rparr>\<rparr>"
proof -
  have t: "take maxBodyBytes ''e1'' = ''e1''" by (simp add: maxBodyBytes_def)
  have a: "authenticateOutpost demoGateway ''o1'' ''Bearer key'' (gs_db demoSys) = OgOK demoOutpost" by code_simp
  have m: "outpostHasModule demoOutpost ''chaos''" by code_simp
  show ?thesis unfolding doIngest_def handleEvents_def a t
    using m by (simp add: demoGateway_def addEvent_def demoSys_def emptyGate_def demoEvent_def demoOutpost_def)
qed



definition freshOutpost :: "(Outpost \<times> string) ogReply \<times> ogDB \<times> nat" where
  "freshOutpost = handleCreateOutpost demoGateway (Some \<lparr>cq_Name = '' edge '', cq_Modules = [''chaos'', [], '' argo'']\<rparr>) 5 emptyGate 0"

lemma enrollment_round_trip_witness:
  "\<exists>out token db1 k1 key db2 k3. freshOutpost = (OgOK (out, token), db1, k1) \<and> op_Modules out = ''chaos,argo''
     \<and> handleRegister demoGateway (Some token) 6 db1 k1 = (OgOK (''u'', key, ''chaos,argo''), db2, k3)
     \<and> (\<forall>t k'. \<exists>m. handleRegister demoGateway (Some token) t db2 k' = (OgErr 401 m, db2, k'))"
proof -
  have c: "(case freshOutpost of (OgOK (out, token), db1, k1) \<Rightarrow> op_OutpostID out = ''u'' \<and> op_Modules out = ''chaos,argo''
      \<and> \<not> ogs_down db1 TOutposts | _ \<Rightarrow> False)" by code_simp
  then obtain out token db1 k1 where f: "freshOutpost = (OgOK (out, token), db1, k1)" "op_OutpostID out = ''u''"
    "op_Modules out = ''chaos,argo''" "\<not> ogs_down db1 TOutposts"
    by (auto split: prod.splits ogReply.splits)
  have "\<exists>key db2 k3 out'. handleRegister demoGateway (Some token) 6 db1 k1 = (OgOK (op_OutpostID out, key, op_Modules out), db2, k3)
    \<and> authenticateOutpost demoGateway (op_OutpostID out) (''Bearer '' @ key) db2 = OgOK out'
    \<and> op_UserID out' = op_UserID out \<and> op_OrgID out' = op_OrgID out \<and> op_Modules out' = op_Modules out
    \<and> (\<forall>t k'. handleRegister demoGateway (Some token) t db2 k' = (OgErr 401 ''invalid or already-used enrollment token'', db2, k'))"
    by (rule enrollment_round_trip[OF _ _ _ _ _ f(1)[unfolded freshOutpost_def] f(4)]) (simp_all add: demoGateway_def)
  then obtain key db2 k3 where "handleRegister demoGateway (Some token) 6 db1 k1 = (OgOK (''u'', key, ''chaos,argo''), db2, k3)"
    "\<forall>t k'. handleRegister demoGateway (Some token) t db2 k' = (OgErr 401 ''invalid or already-used enrollment token'', db2, k')"
    unfolding f(2,3) by blast
  then show ?thesis using f(1,3) by blast
qed

section \<open>What goes wrong\<close>

definition pendingGate :: ogDB where
  "pendingGate = emptyGate\<lparr>ogs_outposts := [demoOutpost\<lparr>op_Status := OutpostPending, op_EnrollTokenHash := ''hsecret'', op_KeyHash := []\<rparr>]\<rparr>"

text \<open>The row and the key a registration has in hand; \<open>k\<close> numbers the draws of random bytes.\<close>

definition regOn :: "nat \<Rightarrow> Outpost" where
  "regOn k = (case beginRegister demoGateway (Some ''o1.secret'') 1 pendingGate k of (OgOK (out, key), k') \<Rightarrow> out | _ \<Rightarrow> demoOutpost)"

definition keyOf :: "nat \<Rightarrow> string" where
  "keyOf k = (case beginRegister demoGateway (Some ''o1.secret'') 1 pendingGate k of (OgOK (out, key), k') \<Rightarrow> key | _ \<Rightarrow> [])"

text \<open>
  The single-use token enrols twice when two registrations overlap: both pass the check and are
  answered with a key, and the key of the one that is saved first is dead.
\<close>
theorem enrollment_race:
  "keyOf 0 \<noteq> [] \<and> keyOf 2 \<noteq> []
   \<and> (let db1 = snd (finishRegister (regOn 0) 2 pendingGate); db2 = snd (finishRegister (regOn 2) 3 db1)
      in fst (finishRegister (regOn 0) 2 pendingGate) = OgOK () \<and> fst (finishRegister (regOn 2) 3 db1) = OgOK ()
         \<and> authenticateOutpost demoGateway ''o1'' (''Bearer '' @ keyOf 0) db2 = OgErr 401 ''invalid outpost key'')"
  by code_simp

text \<open>
  A registration that overlaps the deletion of its outpost brings it back: \<open>Save\<close> writes the row as
  it was read, active.
\<close>
theorem registration_undeletes:
  "(let db1 = snd (handleDeleteOutpost demoGateway ''o1'' pendingGate); db2 = snd (finishRegister (regOn 0) 3 db1)
    in fst (handleDeleteOutpost demoGateway ''o1'' pendingGate) = OgOK ()
       \<and> getOutpost db1 ''o1'' = Inl ErrRecordNotFound
       \<and> map op_Active (ogs_outposts db2) = [True])"
  by code_simp

text \<open>
  A reported outcome is not final: after a command was handed out a second time, the late
  acknowledgement of one of the two executions overwrites the outcome of the other.
\<close>
theorem late_ack_overwrites:
  "map oc_Status (ogs_commands (gs_db (demoRuns [Enqueue, Claim, Later (commandClaimLease + 1), Claim,
      Ack CmdDone] demoSys))) = [CmdDone]
   \<and> map oc_Status (ogs_commands (gs_db (demoRuns [Enqueue, Claim, Later (commandClaimLease + 1), Claim,
      Ack CmdDone, Ack CmdFailed] demoSys))) = [CmdFailed]"
  by (rule conjI; code_simp)

end
