(* ===== verification/Go_Net.thy ===== *)
theory Go_Net
  imports Go_Strings "HOL-Library.Word"
begin

text \<open>
  The parts of Go's package \<open>net\<close> that the egress proxy calls: the predicates of
  \<open>net.IP\<close> on byte slices, \<open>net.ParseCIDR\<close>'s result and \<open>IPNet.Contains\<close>, and
  \<open>net.SplitHostPort\<close>.  An address is the byte slice the Go type is: 4 bytes, 16 bytes, or
  any other length, which the predicates answer as Go's do.  The second half reads an
  address as the number its bytes spell, the form in which address ranges are usually
  written down.
\<close>

unbundle bit_operations_syntax

type_synonym byte = "8 word"
type_synonym netIP = "byte list"

section \<open>Addresses\<close>

text \<open>\<open>IP.To4\<close>: a 4-byte address, or the last four bytes of an IPv4-mapped one.\<close>

definition v4InV6Prefix :: "byte list" where
  "v4InV6Prefix = [0, 0, 0, 0, 0, 0, 0, 0, 0, 0, 0xFF, 0xFF]"

definition To4 :: "netIP \<Rightarrow> netIP option" where
  "To4 ip =
     (if length ip = 4 then Some ip
      else if length ip = 16 \<and> take 10 ip = replicate 10 0 \<and> ip ! 10 = 0xFF \<and> ip ! 11 = 0xFF
           then Some (take 4 (drop 12 ip))
      else None)"

definition To16 :: "netIP \<Rightarrow> netIP option" where
  "To16 ip =
     (if length ip = 4 then Some (v4InV6Prefix @ ip)
      else if length ip = 16 then Some ip else None)"

definition IPv4zero :: netIP where "IPv4zero = v4InV6Prefix @ [0, 0, 0, 0]"
definition IPv6unspecified :: netIP where "IPv6unspecified = replicate 16 0"
definition IPv6loopback :: netIP where "IPv6loopback = replicate 15 0 @ [1]"

text \<open>\<open>IP.Equal\<close>: an IPv4 address equals its mapped form.\<close>

definition IPEqual :: "netIP \<Rightarrow> netIP \<Rightarrow> bool" where
  "IPEqual ip x =
     (if length ip = length x then ip = x
      else if length ip = 4 \<and> length x = 16
           then take 12 x = v4InV6Prefix \<and> ip = drop 12 x
      else if length ip = 16 \<and> length x = 4
           then take 12 ip = v4InV6Prefix \<and> drop 12 ip = x
      else False)"

definition IsUnspecified :: "netIP \<Rightarrow> bool" where
  "IsUnspecified ip \<longleftrightarrow> IPEqual ip IPv4zero \<or> IPEqual ip IPv6unspecified"

definition IsLoopback :: "netIP \<Rightarrow> bool" where
  "IsLoopback ip =
     (case To4 ip of Some ip4 \<Rightarrow> ip4 ! 0 = 127 | None \<Rightarrow> IPEqual ip IPv6loopback)"

definition IsPrivate :: "netIP \<Rightarrow> bool" where
  "IsPrivate ip =
     (case To4 ip of
        Some ip4 \<Rightarrow> ip4 ! 0 = 10 \<or> ip4 ! 0 = 172 \<and> ip4 ! 1 AND 0xF0 = 16 \<or> ip4 ! 0 = 192 \<and> ip4 ! 1 = 168
      | None \<Rightarrow> length ip = 16 \<and> ip ! 0 AND 0xFE = 0xFC)"

definition IsMulticast :: "netIP \<Rightarrow> bool" where
  "IsMulticast ip =
     (case To4 ip of
        Some ip4 \<Rightarrow> ip4 ! 0 AND 0xF0 = 0xE0
      | None \<Rightarrow> length ip = 16 \<and> ip ! 0 = 0xFF)"

definition IsInterfaceLocalMulticast :: "netIP \<Rightarrow> bool" where
  "IsInterfaceLocalMulticast ip \<longleftrightarrow> length ip = 16 \<and> ip ! 0 = 0xFF \<and> ip ! 1 AND 0x0F = 0x01"

definition IsLinkLocalMulticast :: "netIP \<Rightarrow> bool" where
  "IsLinkLocalMulticast ip =
     (case To4 ip of
        Some ip4 \<Rightarrow> ip4 ! 0 = 224 \<and> ip4 ! 1 = 0 \<and> ip4 ! 2 = 0
      | None \<Rightarrow> length ip = 16 \<and> ip ! 0 = 0xFF \<and> ip ! 1 AND 0x0F = 0x02)"

definition IsLinkLocalUnicast :: "netIP \<Rightarrow> bool" where
  "IsLinkLocalUnicast ip =
     (case To4 ip of
        Some ip4 \<Rightarrow> ip4 ! 0 = 169 \<and> ip4 ! 1 = 254
      | None \<Rightarrow> length ip = 16 \<and> ip ! 0 = 0xFE \<and> ip ! 1 AND 0xC0 = 0x80)"

section \<open>Networks\<close>

text \<open>A network as \<open>net.ParseCIDR\<close> returns it: the masked address and the mask.\<close>

record ipNet =
  IPOf :: netIP
  MaskOf :: "byte list"

fun CIDRMask :: "nat \<Rightarrow> nat \<Rightarrow> byte list" where
  "CIDRMask ones 0 = []"
| "CIDRMask ones (Suc len) =
     (if 8 \<le> ones then 0xFF # CIDRMask (ones - 8) len
      else NOT (mask (8 - ones)) # CIDRMask 0 len)"

definition parseCIDR :: "netIP \<Rightarrow> nat \<Rightarrow> ipNet" where
  "parseCIDR addr ones =
     (let m = CIDRMask ones (length addr) in \<lparr>IPOf = map2 (AND) addr m, MaskOf = m\<rparr>)"

definition netContains :: "ipNet \<Rightarrow> netIP \<Rightarrow> bool" where
  "netContains n ip =
     (let ip' = (case To4 ip of Some x \<Rightarrow> x | None \<Rightarrow> ip)
      in length ip' = length (IPOf n)
         \<and> map2 (AND) (IPOf n) (MaskOf n) = map2 (AND) ip' (MaskOf n))"

section \<open>Host and port\<close>

datatype addrError = MissingPort | TooManyColons | MissingBracket | UnexpectedOpen | UnexpectedClose

fun lastIndexChar :: "char \<Rightarrow> string \<Rightarrow> nat option" where
  "lastIndexChar c [] = None"
| "lastIndexChar c (x # xs) =
     (case lastIndexChar c xs of Some i \<Rightarrow> Some (Suc i) | None \<Rightarrow> if x = c then Some 0 else None)"

definition colon :: char where "colon = CHR '':''"
definition openBr :: char where "openBr = CHR ''[''"
definition closeBr :: char where "closeBr = CHR '']''"

text \<open>\<open>j\<close> and \<open>k\<close> are where a bracket that does not belong is looked for.\<close>

definition splitTail :: "string \<Rightarrow> nat \<Rightarrow> string \<Rightarrow> nat \<Rightarrow> nat \<Rightarrow> addrError + string \<times> string" where
  "splitTail hostport i host j k =
     (if openBr \<in> set (drop j hostport) then Inl UnexpectedOpen
      else if closeBr \<in> set (drop k hostport) then Inl UnexpectedClose
      else Inr (host, drop (Suc i) hostport))"

definition SplitHostPort :: "string \<Rightarrow> addrError + string \<times> string" where
  "SplitHostPort hostport =
     (case lastIndexChar colon hostport of
        None \<Rightarrow> Inl MissingPort
      | Some i \<Rightarrow>
          if hostport ! 0 = openBr then
            (case strIndex hostport [closeBr] of
               None \<Rightarrow> Inl MissingBracket
             | Some e \<Rightarrow>
                 if e + 1 = length hostport then Inl MissingPort
                 else if e + 1 = i then splitTail hostport i (take (e - 1) (drop 1 hostport)) 1 (e + 1)
                 else if hostport ! (e + 1) = colon then Inl TooManyColons
                 else Inl MissingPort)
          else if colon \<in> set (take i hostport) then Inl TooManyColons
          else splitTail hostport i (take i hostport) 0 0)"

section \<open>Addresses as numbers\<close>

definition addrNum :: "byte list \<Rightarrow> nat" where
  "addrNum = foldl (\<lambda>n b. n * 256 + unat b) 0"

lemma addrNum_Nil [simp]: "addrNum [] = 0"
  by (simp add: addrNum_def)

lemma addrNum_snoc [simp]: "addrNum (bs @ [b]) = addrNum bs * 256 + unat b"
  by (simp add: addrNum_def)

lemma byte_bound: "unat (b :: byte) < 256"
  using unsigned_less[of b, where 'a=nat] by simp

lemma addrNum_append: "addrNum (as @ bs) = addrNum as * 256 ^ length bs + addrNum bs"
  by (induction bs rule: rev_induct) (simp_all add: append_assoc[symmetric] algebra_simps del: append_assoc)

lemma addrNum_lt: "addrNum bs < 256 ^ length bs"
proof (induction bs rule: rev_induct)
  case (snoc b bs)
  then have "addrNum bs * 256 + 256 \<le> 256 ^ length bs * 256" by simp
  then show ?case using byte_bound[of b] by simp
qed simp

text \<open>The leading bytes are the quotient, the trailing ones the remainder.\<close>

lemma addrNum_take: "m \<le> length bs \<Longrightarrow> addrNum bs div 256 ^ (length bs - m) = addrNum (take m bs)"
  using addrNum_append[of "take m bs" "drop m bs"] addrNum_lt[of "drop m bs"] by simp

lemma addrNum_drop: "m \<le> length bs \<Longrightarrow> addrNum bs mod 256 ^ (length bs - m) = addrNum (drop m bs)"
  using addrNum_append[of "take m bs" "drop m bs"] addrNum_lt[of "drop m bs"] by simp

lemma digit_inject:
  assumes "a < (k::nat)" "b < k"
  shows "x * k + a = y * k + b \<longleftrightarrow> x = y \<and> a = b"
proof
  assume eq: "x * k + a = y * k + b"
  have "(x * k + a) div k = x" "(y * k + b) div k = y" using assms by simp_all
  with eq show "x = y \<and> a = b" by simp
qed simp

lemma addrNum_inject: "length as = length bs \<Longrightarrow> addrNum as = addrNum bs \<longleftrightarrow> as = bs"
proof (induction as arbitrary: bs rule: rev_induct)
  case (snoc a as)
  then obtain b bs' where bs: "bs = bs' @ [b]" by (cases bs rule: rev_cases) auto
  have "addrNum as * 256 + unat a = addrNum bs' * 256 + unat b \<longleftrightarrow> addrNum as = addrNum bs' \<and> unat a = unat b"
    by (rule digit_inject[OF byte_bound byte_bound])
  then show ?case using snoc bs by (simp add: word_unat_eq_iff)
qed simp

text \<open>Prefixes whose length is no multiple of eight.\<close>

lemma addrNum_take_bits:
  assumes "m \<le> length bs"
  shows "addrNum bs div (256 ^ (length bs - m) * 2 ^ j) = addrNum (take m bs) div 2 ^ j"
  by (simp only: div_mult2_eq addrNum_take[OF assms])

end
