(* ===== verification/Go_Http.thy ===== *)
theory Go_Http
  imports Go_Net
begin

text \<open>
  The parts of \<open>strings\<close>, \<open>net/textproto\<close>, \<open>net/http\<close> and \<open>net/http/httputil\<close> the gateways
  call: lower case, \<open>ReplaceAll\<close>, and headers.  A header is a function from canonical names to
  values, with the empty list for an absent name; the server stores every name of a
  request in canonical form.
\<close>

section \<open>Case and replacement\<close>

text \<open>\<open>strings.ToLower\<close> and \<open>ToUpper\<close> on ASCII bytes.\<close>

definition lowerByte :: "char \<Rightarrow> char" where
  "lowerByte c = (if 65 \<le> (of_char c :: nat) \<and> (of_char c :: nat) \<le> 90
                  then char_of ((of_char c :: nat) + 32) else c)"

definition upperByte :: "char \<Rightarrow> char" where
  "upperByte c = (if 97 \<le> (of_char c :: nat) \<and> (of_char c :: nat) \<le> 122
                  then char_of ((of_char c :: nat) - 32) else c)"

text \<open>\<open>strings.ReplaceAll\<close> of a non-empty substring.\<close>

function replaceAll :: "string \<Rightarrow> string \<Rightarrow> string \<Rightarrow> string" where
  "replaceAll s old new =
     (if old = [] then s
      else case strIndex s old of
        None \<Rightarrow> s
      | Some i \<Rightarrow> take i s @ new @ replaceAll (drop (i + length old) s) old new)"
  by pat_completeness auto
termination
  by (relation "measure (\<lambda>(s, old, new). length s)") (auto dest!: strIndex_bound simp: length_greater_0_conv[symmetric] simp del: length_greater_0_conv)

declare replaceAll.simps [simp del]

section \<open>Header names\<close>

definition tokenByte :: "char \<Rightarrow> bool" where
  "tokenByte c \<longleftrightarrow> (let n = (of_char c :: nat) in
     (48 \<le> n \<and> n \<le> 57) \<or> (65 \<le> n \<and> n \<le> 90) \<or> (97 \<le> n \<and> n \<le> 122)
     \<or> c \<in> set ''!#$%&*+-.^_`|~'' \<or> n = 39)"

fun canonBytes :: "bool \<Rightarrow> string \<Rightarrow> string" where
  "canonBytes up [] = []"
| "canonBytes up (c # cs) = (if up then upperByte c else lowerByte c) # canonBytes (c = CHR ''-'') cs"

definition canonKey :: "string \<Rightarrow> string" where
  "canonKey k = (if list_all tokenByte k then canonBytes True k else k)"

section \<open>Headers\<close>

type_synonym hdrMap = "string \<Rightarrow> string list"

definition hdrGet :: "hdrMap \<Rightarrow> string \<Rightarrow> string" where
  "hdrGet h k = (case h (canonKey k) of [] \<Rightarrow> [] | v # vs \<Rightarrow> v)"

definition hdrSet :: "string \<Rightarrow> string \<Rightarrow> hdrMap \<Rightarrow> hdrMap" where
  "hdrSet k v h = h(canonKey k := [v])"

definition hdrDel :: "string \<Rightarrow> hdrMap \<Rightarrow> hdrMap" where
  "hdrDel k h = h(canonKey k := [])"

text \<open>
  What \<open>httputil.ReverseProxy\<close> does to the header after its director: it deletes the headers the
  \<open>Connection\<close> header lists and the hop-by-hop ones, and appends the peer to \<open>X-Forwarded-For\<close>.  (The
  \<open>Te\<close>, \<open>Connection\<close> and \<open>Upgrade\<close> it restores for an upgrade are left out.)
\<close>

definition connectionListed :: "hdrMap \<Rightarrow> string list" where
  "connectionListed h =
     filter (\<lambda>k. k \<noteq> []) (map TrimSpace (concat (map (splitChar (CHR '','')) (h ''Connection''))))"

definition hopHeaders :: "string list" where
  "hopHeaders =
     [''Connection'', ''Proxy-Connection'', ''Keep-Alive'', ''Proxy-Authenticate'', ''Proxy-Authorization'',
      ''Te'', ''Trailer'', ''Transfer-Encoding'', ''Upgrade'']"

definition removeHopByHop :: "hdrMap \<Rightarrow> hdrMap" where
  "removeHopByHop h = fold hdrDel (connectionListed h @ hopHeaders) h"

definition appendForwarded :: "string \<Rightarrow> hdrMap \<Rightarrow> hdrMap" where
  "appendForwarded remoteAddr h =
     (case SplitHostPort remoteAddr of
        Inl e \<Rightarrow> h
      | Inr (ip, port) \<Rightarrow>
          hdrSet ''X-Forwarded-For''
            (case h ''X-Forwarded-For'' of
               [] \<Rightarrow> ip
             | vs \<Rightarrow> concat (map (\<lambda>v. v @ '', '') vs) @ ip) h)"

section \<open>Facts\<close>

lemma hdrDel_apply: "hdrDel k h j = (if j = canonKey k then [] else h j)"
  by (simp add: hdrDel_def)

lemma hdrSet_apply: "hdrSet k v h j = (if j = canonKey k then [v] else h j)"
  by (simp add: hdrSet_def)

text \<open>Deleting headers only empties entries.\<close>

lemma fold_hdrDel: "fold hdrDel ks h j = (if j \<in> canonKey ` set ks then [] else h j)"
  by (induction ks arbitrary: h) (auto simp: hdrDel_apply)

lemma removeHopByHop_apply:
  "removeHopByHop h j = (if j \<in> canonKey ` set (connectionListed h @ hopHeaders) then [] else h j)"
  unfolding removeHopByHop_def by (rule fold_hdrDel)

end
