(* ===== verification/Ep_Proxy.thy ===== *)
theory Ep_Proxy
  imports Go_Http
begin

text \<open>
  The egress proxy, \<open>src/systems/egress-proxy/main.go\<close>: the allow list of host names, the
  guard on the address a name resolves to, dialling behind that guard, and the handlers of
  CONNECT and of plain proxied requests.  The resolver, the network, the transport's pool of
  idle connections and the server's connection hijacking are fields of \<open>epEnv\<close>: arbitrary
  functions, so that every theorem holds for a resolver an attacker controls.
\<close>

section \<open>The allow list\<close>

type_synonym allowlist = "string list"

definition parseAllowlist :: "string \<Rightarrow> allowlist" where
  "parseAllowlist s =
     (if s = [] then [] else filter (\<lambda>p. p \<noteq> []) (map TrimSpace (splitChar (CHR '','') s)))"

fun allowPermits :: "allowlist \<Rightarrow> string \<Rightarrow> bool" where
  "allowPermits [] host = False"
| "allowPermits (p # al) host =
     (if p = ''*'' then True
      else if p = host then True
      else if HasPrefix p ''*.'' \<and> HasSuffix host (drop 1 p) then True
      else allowPermits al host)"

definition allowsAll :: "allowlist \<Rightarrow> bool" where
  "allowsAll al \<longleftrightarrow> ''*'' \<in> set al"

section \<open>The address guard\<close>

definition nat64Prefix :: ipNet where
  "nat64Prefix = parseCIDR ([0x00, 0x64, 0xFF, 0x9B] @ replicate 12 0) 96"

definition disallowedCIDRs :: "ipNet list" where
  "disallowedCIDRs =
     [parseCIDR [100, 64, 0, 0] 10, parseCIDR [0, 0, 0, 0] 8, parseCIDR [240, 0, 0, 0] 4,
      parseCIDR ([0xFE, 0xC0] @ replicate 14 0) 10]"

text \<open>The predicates and the table, on the normalised address.\<close>

definition internalRange :: "netIP \<Rightarrow> bool" where
  "internalRange ip \<longleftrightarrow>
     IsLoopback ip \<or> IsPrivate ip \<or> IsLinkLocalUnicast ip \<or> IsLinkLocalMulticast ip
     \<or> IsInterfaceLocalMulticast ip \<or> IsMulticast ip \<or> IsUnspecified ip
     \<or> list_ex (\<lambda>n. netContains n ip) disallowedCIDRs"

lemma To16_length: "To16 ip = Some x \<Longrightarrow> length x = 16"
  by (auto simp: To16_def v4InV6Prefix_def split: if_splits)

text \<open>The recursion is on the four embedded bytes, which \<open>To4\<close> then takes.\<close>

function isDisallowedIP :: "netIP option \<Rightarrow> bool" where
  "isDisallowedIP None = True"
| "isDisallowedIP (Some ip) =
     (case To4 ip of
        Some v4 \<Rightarrow> internalRange v4
      | None \<Rightarrow>
          (case To16 ip of
             Some ip16 \<Rightarrow>
               if netContains nat64Prefix ip16 then isDisallowedIP (Some (take 4 (drop 12 ip16)))
               else internalRange ip
           | None \<Rightarrow> internalRange ip))"
  by pat_completeness auto
termination
proof (relation "measure (\<lambda>a. case a of None \<Rightarrow> 0 | Some ip \<Rightarrow> length ip)")
  fix ip ip16
  assume "To4 ip = None" "To16 ip = Some ip16"
  then have "length ip = 16" "length ip16 = 16"
    by (auto simp: To4_def To16_def split: if_splits)
  then show "(Some (take 4 (drop 12 ip16)), Some ip)
      \<in> measure (\<lambda>a. case a of None \<Rightarrow> 0 | Some ip \<Rightarrow> length ip)" by simp
qed simp

declare isDisallowedIP.simps(2) [simp del]

definition allowDialIP :: "netIP option \<Rightarrow> bool" where
  "allowDialIP ip \<longleftrightarrow> \<not> isDisallowedIP ip"

section \<open>Requests, answers and the environment\<close>

type_synonym hdrs = "(string \<times> string list) list"

record epRequest =
  rqMethod :: string
  rqScheme :: string
  rqURLHost :: string
  rqPath :: string
  rqURL :: string
  rqHost :: string
  rqHeader :: hdrs
  rqBody :: string

record epOut =
  outMethod :: string
  outURL :: string
  outHeader :: hdrs
  outBody :: string

record epResponse =
  rspStatus :: nat
  rspHeader :: hdrs
  rspBody :: string

datatype dialError =
    ErrAddr addrError
  | ErrLookup string
  | ErrNoAddress string
  | ErrBlocked "netIP option"
  | ErrDial string

datatype 'c epReply =
    EpReply nat string
  | EpRelayed epResponse
  | EpTunnel 'c
  | EpClosed

text \<open>
  \<open>dialIP\<close> is \<open>net.Dialer\<close> on a literal address, \<open>idleConn\<close> the transport's pool,
  \<open>canonicalAddr\<close> the address \<open>net/http\<close> derives from a URL, \<open>mkRequest\<close>
  \<open>http.NewRequestWithContext\<close> (whether method and URL are accepted), \<open>roundTrip\<close> one
  exchange on a connection, \<open>hijacks\<close>, \<open>hijackOk\<close> and \<open>greetOk\<close> the server's side of CONNECT.
\<close>

record 'c epEnv =
  lookupIPAddr :: "string \<Rightarrow> string + netIP option list"
  dialIP :: "netIP \<Rightarrow> string \<Rightarrow> string + 'c"
  idleConn :: "string \<Rightarrow> 'c option"
  canonicalAddr :: "string \<Rightarrow> string"
  mkRequest :: "string \<Rightarrow> string \<Rightarrow> bool"
  roundTrip :: "'c \<Rightarrow> epOut \<Rightarrow> string + epResponse"
  hijacks :: bool
  hijackOk :: bool
  greetOk :: bool

section \<open>Dialling\<close>

text \<open>The loop over the resolved addresses: the addresses dialled, and the connection or last error.\<close>

fun dialLoop :: "'c epEnv \<Rightarrow> string \<Rightarrow> netIP option list \<Rightarrow> dialError
    \<Rightarrow> (netIP \<times> string) list \<times> (dialError + 'c)" where
  "dialLoop env port [] lastErr = ([], Inl lastErr)"
| "dialLoop env port (ip # ips) lastErr =
     (if \<not> allowDialIP ip then dialLoop env port ips (ErrBlocked ip)
      else (case dialIP env (the ip) port of
              Inr c \<Rightarrow> ([(the ip, port)], Inr c)
            | Inl derr \<Rightarrow>
                let (tr, r) = dialLoop env port ips (ErrDial derr) in ((the ip, port) # tr, r)))"

definition safeDialContext :: "'c epEnv \<Rightarrow> string \<Rightarrow> (netIP \<times> string) list \<times> (dialError + 'c)" where
  "safeDialContext env addr =
     (case SplitHostPort addr of
        Inl e \<Rightarrow> ([], Inl (ErrAddr e))
      | Inr (host, port) \<Rightarrow>
          (case lookupIPAddr env host of
             Inl e \<Rightarrow> ([], Inl (ErrLookup e))
           | Inr ips \<Rightarrow> dialLoop env port ips (ErrNoAddress host)))"

section \<open>Headers\<close>

definition hopByHop :: "string \<Rightarrow> bool" where
  "hopByHop k \<longleftrightarrow> k \<in> set
     [''connection'', ''keep-alive'', ''proxy-authenticate'', ''proxy-authorization'',
      ''proxy-connection'', ''te'', ''trailers'', ''transfer-encoding'', ''upgrade'',
      ''x-forwarded-for'']"

definition copyRequestHeaders :: "hdrs \<Rightarrow> hdrs" where
  "copyRequestHeaders hs = filter (\<lambda>(k, vv). \<not> hopByHop (map lowerByte k)) hs"

fun headerAdd :: "string \<Rightarrow> string \<Rightarrow> hdrs \<Rightarrow> hdrs" where
  "headerAdd k v [] = [(k, [v])]"
| "headerAdd k v ((k', vv) # hs) =
     (if k' = k then (k', vv @ [v]) # hs else (k', vv) # headerAdd k v hs)"

definition copyResponseHeaders :: "hdrs \<Rightarrow> hdrs" where
  "copyResponseHeaders hs = fold (\<lambda>(k, vv). fold (headerAdd k) vv) hs []"

section \<open>The handlers\<close>

text \<open>What a request made the proxy do: the addresses dialled, the request sent on, the answer.\<close>

record 'c epTrace =
  tDials :: "(netIP \<times> string) list"
  tSent :: "epOut option"
  tReply :: "'c epReply"

definition plainAnswer :: "nat \<Rightarrow> string \<Rightarrow> 'c epTrace" where
  "plainAnswer code body = \<lparr>tDials = [], tSent = None, tReply = EpReply code body\<rparr>"

definition handleConnect :: "'c epEnv \<Rightarrow> allowlist \<Rightarrow> epRequest \<Rightarrow> 'c epTrace" where
  "handleConnect env al r =
     (let host = (case SplitHostPort (rqHost r) of Inl e \<Rightarrow> rqHost r | Inr (h, p) \<Rightarrow> h)
      in if \<not> allowPermits al host then plainAnswer 403 (''forbidden: '' @ host)
         else let (dials, target) = safeDialContext env (rqHost r) in
           \<lparr>tDials = dials, tSent = None,
            tReply = (case target of
                        Inl e \<Rightarrow> EpReply 502 ''dial failed''
                      | Inr c \<Rightarrow>
                          if \<not> hijacks env then EpReply 500 ''hijack unsupported''
                          else if \<not> hijackOk env then EpClosed
                          else if \<not> greetOk env then EpClosed
                          else EpTunnel c)\<rparr>)"

text \<open>
  \<open>fwdClient.Do\<close>: a connection of the pool, or one dialled by \<open>safeDialContext\<close>; a redirect is
  an answer like any other (\<open>CheckRedirect\<close> returns \<open>ErrUseLastResponse\<close>).
\<close>

definition fwdClientDo :: "'c epEnv \<Rightarrow> epOut \<Rightarrow> (netIP \<times> string) list \<times> (string + epResponse)" where
  "fwdClientDo env out =
     (let addr = canonicalAddr env (outURL out) in
      case idleConn env addr of
        Some c \<Rightarrow> ([], roundTrip env c out)
      | None \<Rightarrow>
          let (dials, target) = safeDialContext env addr in
          (dials, case target of Inl e \<Rightarrow> Inl ''dial'' | Inr c \<Rightarrow> roundTrip env c out))"

definition handleHTTP :: "'c epEnv \<Rightarrow> allowlist \<Rightarrow> epRequest \<Rightarrow> 'c epTrace" where
  "handleHTTP env al r =
     (let host = (case SplitHostPort (rqURLHost r) of Inl e \<Rightarrow> rqURLHost r | Inr (h, p) \<Rightarrow> h)
      in if \<not> allowPermits al host then plainAnswer 403 (''forbidden: '' @ host)
         else if \<not> mkRequest env (rqMethod r) (rqURL r) then plainAnswer 400 ''bad request''
         else let out = \<lparr>outMethod = rqMethod r, outURL = rqURL r,
                         outHeader = copyRequestHeaders (rqHeader r), outBody = rqBody r\<rparr>;
                  (dials, res) = fwdClientDo env out in
           \<lparr>tDials = dials, tSent = Some out,
            tReply = (case res of
                        Inl e \<Rightarrow> EpReply 502 ''upstream error''
                      | Inr rsp \<Rightarrow>
                          EpRelayed (rsp\<lparr>rspHeader := copyResponseHeaders (rspHeader rsp)\<rparr>))\<rparr>)"

definition ServeHTTP :: "'c epEnv \<Rightarrow> allowlist \<Rightarrow> epRequest \<Rightarrow> 'c epTrace" where
  "ServeHTTP env al r =
     (if rqMethod r = ''GET'' \<and> rqScheme r = [] \<and> rqPath r = ''/healthz'' then plainAnswer 200 []
      else if rqMethod r = ''CONNECT'' then handleConnect env al r
      else if rqScheme r = [] then plainAnswer 400 ''bad request''
      else handleHTTP env al r)"

end
