(* ===== verification/Ep_Tunnel.thy ===== *)
theory Ep_Tunnel
  imports Prelude
begin

text \<open>
  The end of \<open>handleConnect\<close>, \<open>src/systems/egress-proxy/main.go\<close>: the two goroutines that
  copy between the client and the target and the handler that tears the tunnel down, as a
  step relation over their interleavings.  A copy that is blocked on an open connection ends
  only when its peer lets it (a \<open>Peer\<close> step, which may never happen); the proxy's own steps
  assume of \<open>io.Copy\<close> only that it ends once both its connections are closed.
\<close>

section \<open>State\<close>

datatype copyState = Copying | Signalling | Exited

text \<open>The handler's position, the three statements after the goroutines, then the deferred closes.\<close>

datatype tunnelPc = AwaitFirst | CloseClient | CloseTarget | AwaitSecond | DeferClient | DeferTarget | TunnelOver

record tunnel =
  upCopy :: copyState
  downCopy :: copyState
  doneTokens :: nat
  clientOpen :: bool
  targetOpen :: bool
  tunnelPc :: tunnelPc

definition tunnelStart :: tunnel where
  "tunnelStart = \<lparr>upCopy = Copying, downCopy = Copying, doneTokens = 0,
                  clientOpen = True, targetOpen = True, tunnelPc = AwaitFirst\<rparr>"

section \<open>Steps\<close>

datatype actor = Peer | Own

inductive tunnelStep :: "actor \<Rightarrow> tunnel \<Rightarrow> tunnel \<Rightarrow> bool" where
  up_ended: "upCopy s = Copying \<Longrightarrow> tunnelStep Peer s (s\<lparr>upCopy := Signalling\<rparr>)"
| down_ended: "downCopy s = Copying \<Longrightarrow> tunnelStep Peer s (s\<lparr>downCopy := Signalling\<rparr>)"
| up_closed: "upCopy s = Copying \<Longrightarrow> \<not> clientOpen s \<Longrightarrow> \<not> targetOpen s
    \<Longrightarrow> tunnelStep Own s (s\<lparr>upCopy := Signalling\<rparr>)"
| down_closed: "downCopy s = Copying \<Longrightarrow> \<not> clientOpen s \<Longrightarrow> \<not> targetOpen s
    \<Longrightarrow> tunnelStep Own s (s\<lparr>downCopy := Signalling\<rparr>)"
| up_signal: "upCopy s = Signalling \<Longrightarrow> doneTokens s < 2
    \<Longrightarrow> tunnelStep Own s (s\<lparr>upCopy := Exited, doneTokens := Suc (doneTokens s)\<rparr>)"
| down_signal: "downCopy s = Signalling \<Longrightarrow> doneTokens s < 2
    \<Longrightarrow> tunnelStep Own s (s\<lparr>downCopy := Exited, doneTokens := Suc (doneTokens s)\<rparr>)"
| await_first: "tunnelPc s = AwaitFirst \<Longrightarrow> doneTokens s = Suc n
    \<Longrightarrow> tunnelStep Own s (s\<lparr>tunnelPc := CloseClient, doneTokens := n\<rparr>)"
| close_client: "tunnelPc s = CloseClient
    \<Longrightarrow> tunnelStep Own s (s\<lparr>tunnelPc := CloseTarget, clientOpen := False\<rparr>)"
| close_target: "tunnelPc s = CloseTarget
    \<Longrightarrow> tunnelStep Own s (s\<lparr>tunnelPc := AwaitSecond, targetOpen := False\<rparr>)"
| await_second: "tunnelPc s = AwaitSecond \<Longrightarrow> doneTokens s = Suc n
    \<Longrightarrow> tunnelStep Own s (s\<lparr>tunnelPc := DeferClient, doneTokens := n\<rparr>)"
| defer_client: "tunnelPc s = DeferClient
    \<Longrightarrow> tunnelStep Own s (s\<lparr>tunnelPc := DeferTarget, clientOpen := False\<rparr>)"
| defer_target: "tunnelPc s = DeferTarget
    \<Longrightarrow> tunnelStep Own s (s\<lparr>tunnelPc := TunnelOver, targetOpen := False\<rparr>)"

inductive_cases tunnelStepE: "tunnelStep a s t"

text \<open>A run of the tunnel, with its length.\<close>

inductive tunnelRun :: "nat \<Rightarrow> tunnel \<Rightarrow> bool" where
  start: "tunnelRun 0 tunnelStart"
| step: "tunnelRun n s \<Longrightarrow> tunnelStep a s t \<Longrightarrow> tunnelRun (Suc n) t"

section \<open>Every run is finite\<close>

fun copyRank :: "copyState \<Rightarrow> nat" where
  "copyRank Copying = 2" | "copyRank Signalling = 1" | "copyRank Exited = 0"

fun pcRank :: "tunnelPc \<Rightarrow> nat" where
  "pcRank AwaitFirst = 6" | "pcRank CloseClient = 5" | "pcRank CloseTarget = 4"
| "pcRank AwaitSecond = 3" | "pcRank DeferClient = 2" | "pcRank DeferTarget = 1"
| "pcRank TunnelOver = 0"

definition tunnelRank :: "tunnel \<Rightarrow> nat" where
  "tunnelRank s = copyRank (upCopy s) + copyRank (downCopy s) + pcRank (tunnelPc s)"

lemma tunnelStep_rank: "tunnelStep a s t \<Longrightarrow> tunnelRank t < tunnelRank s"
  by (induction rule: tunnelStep.induct) (simp_all add: tunnelRank_def)

lemma tunnelRank_start: "tunnelRank tunnelStart = 10"
  by (simp add: tunnelRank_def tunnelStart_def)

lemma tunnelRun_rank: "tunnelRun n s \<Longrightarrow> n + tunnelRank s \<le> 10"
  by (induction rule: tunnelRun.induct) (auto simp: tunnelRank_start dest: tunnelStep_rank)

section \<open>The invariant\<close>

definition exitedCopies :: "tunnel \<Rightarrow> nat" where
  "exitedCopies s = (if upCopy s = Exited then 1 else 0) + (if downCopy s = Exited then 1 else 0)"

text \<open>Tokens the handler has taken from the channel.\<close>

fun takenTokens :: "tunnelPc \<Rightarrow> nat" where
  "takenTokens AwaitFirst = 0" | "takenTokens CloseClient = 1" | "takenTokens CloseTarget = 1"
| "takenTokens AwaitSecond = 1" | "takenTokens DeferClient = 2" | "takenTokens DeferTarget = 2"
| "takenTokens TunnelOver = 2"

definition tunnelInv :: "tunnel \<Rightarrow> bool" where
  "tunnelInv s \<longleftrightarrow>
     doneTokens s + takenTokens (tunnelPc s) = exitedCopies s
     \<and> (clientOpen s \<longleftrightarrow> tunnelPc s \<in> {AwaitFirst, CloseClient})
     \<and> (targetOpen s \<longleftrightarrow> tunnelPc s \<in> {AwaitFirst, CloseClient, CloseTarget})"

lemma tunnelStep_inv: "tunnelStep a s t \<Longrightarrow> tunnelInv s \<Longrightarrow> tunnelInv t"
  by (induction rule: tunnelStep.induct) (simp_all add: tunnelInv_def exitedCopies_def split: if_splits)

lemma tunnelInv_start: "tunnelInv tunnelStart"
  by (simp add: tunnelInv_def tunnelStart_def exitedCopies_def)

lemma tunnelRun_inv: "tunnelRun n s \<Longrightarrow> tunnelInv s"
  by (induction rule: tunnelRun.induct)
     (simp_all add: tunnelStep_inv tunnelInv_start)

text \<open>Where the proxy itself has nothing left to do, it waits for the peers or has returned.\<close>

lemma tunnel_stuck:
  assumes inv: "tunnelInv s" and stuck: "\<And>t. \<not> tunnelStep Own s t"
  shows "tunnelPc s = AwaitFirst \<and> upCopy s = Copying \<and> downCopy s = Copying
    \<or> tunnelPc s = TunnelOver \<and> upCopy s = Exited \<and> downCopy s = Exited"
proof -
  have le: "exitedCopies s \<le> 2" by (simp add: exitedCopies_def)
  have up: "upCopy s \<noteq> Signalling"
    using stuck[of "s\<lparr>upCopy := Exited, doneTokens := Suc (doneTokens s)\<rparr>"] up_signal[of s] inv le
    by (auto simp: tunnelInv_def exitedCopies_def split: if_splits)
  have down: "downCopy s \<noteq> Signalling"
    using stuck[of "s\<lparr>downCopy := Exited, doneTokens := Suc (doneTokens s)\<rparr>"] down_signal[of s] inv le
    by (auto simp: tunnelInv_def exitedCopies_def split: if_splits)
  have noDefer: "tunnelPc s \<notin> {CloseClient, CloseTarget, DeferClient, DeferTarget}"
    using stuck close_client[of s] close_target[of s] defer_client[of s] defer_target[of s] by blast
  have await: "tunnelPc s = AwaitFirst \<or> tunnelPc s = AwaitSecond \<Longrightarrow> doneTokens s = 0"
    using stuck await_first[of s] await_second[of s] by (cases "doneTokens s") blast+
  have closed: "\<not> clientOpen s \<Longrightarrow> \<not> targetOpen s \<Longrightarrow> upCopy s = Exited \<and> downCopy s = Exited"
    using stuck up_closed[of s] down_closed[of s] up down by (meson copyState.exhaust)
  show ?thesis
  proof (cases "tunnelPc s")
    case AwaitFirst
    then have "exitedCopies s = 0" using inv await by (simp add: tunnelInv_def)
    then have "upCopy s \<noteq> Exited" "downCopy s \<noteq> Exited" by (auto simp: exitedCopies_def)
    with AwaitFirst up down show ?thesis by (meson copyState.exhaust)
  next
    case AwaitSecond
    then have "exitedCopies s = 1" "exitedCopies s = 2"
      using inv await closed by (simp_all add: tunnelInv_def exitedCopies_def)
    then show ?thesis by simp
  next
    case TunnelOver
    with inv closed show ?thesis by (simp add: tunnelInv_def)
  qed (use noDefer in simp_all)
qed

text \<open>The facts a run gives.\<close>

lemma tunnelRun_ends:
  assumes "tunnelRun n s" "\<And>t. \<not> tunnelStep Own s t"
    "upCopy s \<noteq> Copying \<or> downCopy s \<noteq> Copying"
  shows "tunnelPc s = TunnelOver" "\<not> clientOpen s" "\<not> targetOpen s" "upCopy s = Exited"
    "downCopy s = Exited" "doneTokens s = 0"
  using tunnel_stuck[OF tunnelRun_inv[OF assms(1)] assms(2)] assms(3) tunnelRun_inv[OF assms(1)]
  by (auto simp: tunnelInv_def exitedCopies_def)

end
