(* ===== verification/Ep_Theorems.thy ===== *)
theory Ep_Theorems
  imports Ep_Proxy Ep_Tunnel
begin

text \<open>
  What the egress proxy promises: the exact set of addresses it refuses to dial, that nothing else
  decides what is dialled, which headers are sent on, and that a tunnel never outlives its session.
\<close>

section \<open>Bytes under a mask\<close>

lemma clear_low: "(x :: byte) AND NOT (mask k) = push_bit k (drop_bit k x)"
  by (rule bit_eqI) (auto simp: bit_simps)

lemma unat_clear_low: "unat ((x :: byte) AND NOT (mask k)) = unat x div 2 ^ k * 2 ^ k"
proof -
  have le: "unat x div 2 ^ k * 2 ^ k < 256" using byte_bound[of x] by (meson div_times_less_eq_dividend le_less_trans)
  show ?thesis unfolding clear_low
    unfolding unsigned_push_bit_eq unsigned_drop_bit_eq
    using le byte_bound[of x] by (simp add: push_bit_eq_mult drop_bit_eq_div take_bit_eq_mod)
qed

lemma high_bits:
  assumes "unat (y :: byte) = v * 2 ^ k" "m = NOT (mask k)"
  shows "x AND m = y \<longleftrightarrow> unat x div 2 ^ k = v"
  unfolding assms(2) word_unat_eq_iff unat_clear_low assms(1) by simp

lemma byte_masks:
  "x AND 0xF0 = 16 \<longleftrightarrow> unat (x :: byte) div 16 = 1"
  "x AND 0xF0 = 0xE0 \<longleftrightarrow> unat x div 16 = 14"
  "x AND 0xF0 = 0xF0 \<longleftrightarrow> unat x div 16 = 15"
  "x AND 0xC0 = 0x40 \<longleftrightarrow> unat x div 64 = 1"
  "x AND 0xC0 = 0x80 \<longleftrightarrow> unat x div 64 = 2"
  "x AND 0xC0 = 0xC0 \<longleftrightarrow> unat x div 64 = 3"
  "x AND 0xFE = 0xFC \<longleftrightarrow> unat x div 2 = 126"
  using high_bits[of 16 1 4 "0xF0" x] high_bits[of "0xE0" 14 4 "0xF0" x] high_bits[of "0xF0" 15 4 "0xF0" x]
    high_bits[of "0x40" 1 6 "0xC0" x] high_bits[of "0x80" 2 6 "0xC0" x] high_bits[of "0xC0" 3 6 "0xC0" x]
    high_bits[of "0xFC" 126 1 "0xFE" x]
  by (simp_all add: mask_eq_decr_exp)

lemma and_FF: "(x :: byte) AND 0xFF = x"
proof -
  have ff: "(0xFF :: byte) = NOT (mask 0)" by simp
  show ?thesis unfolding ff word_unat_eq_iff unat_clear_low by simp
qed

section \<open>The refused addresses\<close>

text \<open>
  The ranges in the notation of the documentation: a block is a base address and the number of
  its leading bits, and an address lies in it when these bits agree.
\<close>

definition inBlock :: "netIP \<times> nat \<Rightarrow> nat \<Rightarrow> bool" where
  "inBlock blk n =
     (let free = 8 * length (fst blk) - snd blk in n div 2 ^ free = addrNum (fst blk) div 2 ^ free)"

definition internalV4 :: "(netIP \<times> nat) list" where
  "internalV4 =
     [([0, 0, 0, 0], 8), ([10, 0, 0, 0], 8), ([100, 64, 0, 0], 10), ([127, 0, 0, 0], 8),
      ([169, 254, 0, 0], 16), ([172, 16, 0, 0], 12), ([192, 168, 0, 0], 16),
      ([224, 0, 0, 0], 4), ([240, 0, 0, 0], 4)]"

definition internalV6 :: "(netIP \<times> nat) list" where
  "internalV6 =
     [(replicate 16 0, 128), (replicate 15 0 @ [1], 128), (0xFC # replicate 15 0, 7),
      ([0xFE, 0x80] @ replicate 14 0, 10), ([0xFE, 0xC0] @ replicate 14 0, 10),
      (0xFF # replicate 15 0, 8)]"

text \<open>
  An address of four bytes is judged by the IPv4 ranges; so are the low 32 bits of an address in
  \<open>::ffff:0:0/96\<close> and \<open>64:ff9b::/96\<close>; every other IPv6 address by the IPv6 ranges.
\<close>

definition internalNumber :: "nat \<Rightarrow> nat \<Rightarrow> bool" where
  "internalNumber len n =
     (if len = 4 then list_ex (\<lambda>b. inBlock b n) internalV4
      else if n div 2 ^ 32 \<in> {0xFFFF, 0x64FF9B * 2 ^ 64} then list_ex (\<lambda>b. inBlock b (n mod 2 ^ 32)) internalV4
      else list_ex (\<lambda>b. inBlock b n) internalV6)"

lemma cidrs:
"disallowedCIDRs =
   [\<lparr>IPOf = [100, 64, 0, 0], MaskOf = [0xFF, 0xC0, 0, 0]\<rparr>, \<lparr>IPOf = [0, 0, 0, 0], MaskOf = [0xFF, 0, 0, 0]\<rparr>,
    \<lparr>IPOf = [240, 0, 0, 0], MaskOf = [0xF0, 0, 0, 0]\<rparr>,
    \<lparr>IPOf = [0xFE, 0xC0] @ replicate 14 0, MaskOf = [0xFF, 0xC0] @ replicate 14 0\<rparr>]"
  by code_simp

lemma nat64: "nat64Prefix = \<lparr>IPOf = [0x00, 0x64, 0xFF, 0x9B] @ replicate 12 0, MaskOf = replicate 12 0xFF @ replicate 4 0\<rparr>"
  by code_simp

lemma length4: "length ip = 4 \<Longrightarrow> \<exists>a b c d. ip = [a, b, c, d]"
  by (auto simp: numeral_eq_Suc length_Suc_conv)

lemma unat_byte_eq: "x = (y :: byte) \<longleftrightarrow> unat x = unat y"
  by (simp add: word_unat_eq_iff)

text \<open>IPv4: the predicates and the table are the nine ranges.\<close>

lemma addrNum_short:
  "addrNum [a] = unat a" "addrNum [a, b] = unat a * 256 + unat b"
  by (simp_all add: addrNum_def)

lemma addr4:
  fixes a b c d :: byte
  defines "n \<equiv> addrNum [a, b, c, d]"
  shows "n div 2 ^ 24 = unat a" "n div 2 ^ 28 = unat a div 16" "n div 2 ^ 22 = unat a * 4 + unat b div 64"
    "n div 2 ^ 20 = unat a * 16 + unat b div 16" "n div 2 ^ 16 = unat a * 256 + unat b"
proof -
  have one: "n div 2 ^ 24 = unat a" and two: "n div 2 ^ 16 = unat a * 256 + unat b"
    using addrNum_take[of 1 "[a, b, c, d]"] addrNum_take[of 2 "[a, b, c, d]"]
    by (simp_all add: n_def addrNum_short)
  show "n div 2 ^ 24 = unat a" "n div 2 ^ 16 = unat a * 256 + unat b" by (fact one, fact two)
  have "(2::nat) ^ 28 = 2 ^ 24 * 16" "(2::nat) ^ 22 = 2 ^ 16 * 64" "(2::nat) ^ 20 = 2 ^ 16 * 16" by simp_all
  then show "n div 2 ^ 28 = unat a div 16" "n div 2 ^ 22 = unat a * 4 + unat b div 64"
    "n div 2 ^ 20 = unat a * 16 + unat b div 16"
    by (auto simp only: div_mult2_eq one two) 
qed

lemma To4_v4: "To4 [a, b, c, d] = Some [a, b, c, d]"
  by (simp add: To4_def)

lemma v4_predicates:
  "IsLoopback [a, b, c, d] \<longleftrightarrow> a = 127"
  "IsPrivate [a, b, c, d] \<longleftrightarrow> a = 10 \<or> a = 172 \<and> unat b div 16 = 1 \<or> a = 192 \<and> b = 168"
  "IsLinkLocalUnicast [a, b, c, d] \<longleftrightarrow> a = 169 \<and> b = 254"
  "IsLinkLocalMulticast [a, b, c, d] \<longleftrightarrow> a = 224 \<and> b = 0 \<and> c = 0"
  "IsInterfaceLocalMulticast [a, b, c, d] \<longleftrightarrow> False"
  "IsMulticast [a, b, c, d] \<longleftrightarrow> unat a div 16 = 14"
  by (simp_all add: IsLoopback_def IsPrivate_def IsLinkLocalUnicast_def IsLinkLocalMulticast_def
      IsInterfaceLocalMulticast_def IsMulticast_def To4_v4 byte_masks)

lemma v4_unspecified: "IsUnspecified [a, b, c, d] \<Longrightarrow> a = 0"
  by (auto simp: IsUnspecified_def IPEqual_def IPv4zero_def v4InV6Prefix_def IPv6unspecified_def numeral_eq_Suc)

lemma v4_table:
  "list_ex (\<lambda>n. netContains n [a, b, c, d]) disallowedCIDRs \<longleftrightarrow>
     a = 100 \<and> unat b div 64 = 1 \<or> a = 0 \<or> unat a div 16 = 15"
proof -
  have "100 AND (0xFF :: byte) = 100" "64 AND (0xC0 :: byte) = 0x40" "240 AND (0xF0 :: byte) = 0xF0" by simp_all
  then show ?thesis
    by (simp add: cidrs netContains_def To4_v4 Let_def and_FF eq_commute[of _ "_ AND _"] byte_masks)
qed

lemma internalRange_v4:
  "internalRange [a, b, c, d] \<longleftrightarrow> list_ex (\<lambda>blk. inBlock blk (addrNum [a, b, c, d])) internalV4"
proof -
  define x y where "x = unat a" and "y = unat b"
  have xy: "x < 256" "y < 256" by (simp_all add: x_def y_def byte_bound)
  have code: "internalRange [a, b, c, d] \<longleftrightarrow>
     x = 127 \<or> x = 10 \<or> x = 172 \<and> y div 16 = 1 \<or> x = 192 \<and> y = 168 \<or> x = 169 \<and> y = 254
     \<or> x div 16 = 14 \<or> x = 100 \<and> y div 64 = 1 \<or> x = 0 \<or> x div 16 = 15"
    using v4_unspecified[of a b c d]
    unfolding internalRange_def v4_predicates v4_table x_def y_def unat_byte_eq by auto
  have four: "inBlock ([p, q, r, s], 8) n \<longleftrightarrow> n div 2 ^ 24 = unat p"
    "inBlock ([p, q, r, s], 4) n \<longleftrightarrow> n div 2 ^ 28 = unat p div 16"
    "inBlock ([p, q, r, s], 10) n \<longleftrightarrow> n div 2 ^ 22 = unat p * 4 + unat q div 64"
    "inBlock ([p, q, r, s], 12) n \<longleftrightarrow> n div 2 ^ 20 = unat p * 16 + unat q div 16"
    "inBlock ([p, q, r, s], 16) n \<longleftrightarrow> n div 2 ^ 16 = unat p * 256 + unat q" for p q r s n
    using addr4[where a = p and b = q and c = r and d = s] by (simp_all add: inBlock_def)
  have digits: "x * 4 + y div 64 = 401 \<longleftrightarrow> x = 100 \<and> y div 64 = 1"
    "x * 16 + y div 16 = 2753 \<longleftrightarrow> x = 172 \<and> y div 16 = 1"
    "x * 256 + y = 43518 \<longleftrightarrow> x = 169 \<and> y = 254"
    "x * 256 + y = 49320 \<longleftrightarrow> x = 192 \<and> y = 168"
    using digit_inject[of "y div 64" 4 1 x 100] digit_inject[of "y div 16" 16 1 x 172]
      digit_inject[of y 256 254 x 169] digit_inject[of y 256 168 x 192] xy by simp_all
  have spec: "list_ex (\<lambda>blk. inBlock blk (addrNum [a, b, c, d])) internalV4 \<longleftrightarrow>
     x = 0 \<or> x = 10 \<or> (x = 100 \<and> y div 64 = 1) \<or> x = 127 \<or> (x = 169 \<and> y = 254) \<or> (x = 172 \<and> y div 16 = 1)
     \<or> (x = 192 \<and> y = 168) \<or> x div 16 = 14 \<or> x div 16 = 15"
    unfolding internalV4_def list_ex_iff list.set ball_simps bex_simps four addr4
    by (simp add: digits x_def[symmetric] y_def[symmetric])
  show ?thesis unfolding code spec by blast
qed

text \<open>IPv6: an address that is neither mapped nor translated.\<close>

lemma length16: "length ip = 16 \<Longrightarrow> \<exists>a b ys. ip = a # b # ys \<and> length ys = 14"
  by (auto simp: numeral_eq_Suc length_Suc_conv)

lemma addr16:
  fixes a b :: byte
  assumes "length ys = 14"
  defines "n \<equiv> addrNum (a # b # ys)"
  shows "n div 2 ^ 120 = unat a" "n div 2 ^ 121 = unat a div 2" "n div 2 ^ 118 = unat a * 4 + unat b div 64"
proof -
  have one: "n div 2 ^ 120 = unat a" and two: "n div 2 ^ 112 = unat a * 256 + unat b"
    using addrNum_take[of 1 "a # b # ys"] addrNum_take[of 2 "a # b # ys"] assms(1)
    by (simp_all add: n_def addrNum_short)
  show "n div 2 ^ 120 = unat a" by (fact one)
  have "(2::nat) ^ 121 = 2 ^ 120 * 2" "(2::nat) ^ 118 = 2 ^ 112 * 64" by simp_all
  then show "n div 2 ^ 121 = unat a div 2" "n div 2 ^ 118 = unat a * 4 + unat b div 64"
    by (auto simp only: div_mult2_eq one two)
qed

lemma To4_v6: "length ip = 16 \<Longrightarrow> To4 ip = (if take 12 ip = v4InV6Prefix then Some (drop 12 ip) else None)"
  by (auto simp: To4_def v4InV6Prefix_def numeral_eq_Suc length_Suc_conv)

lemma v6_plain:
  assumes len: "length ip = 16" and v6: "take 12 ip \<noteq> v4InV6Prefix"
  shows "To4 ip = None" "IsLoopback ip \<longleftrightarrow> ip = IPv6loopback" "IsUnspecified ip \<longleftrightarrow> ip = IPv6unspecified"
proof -
  show 1: "To4 ip = None" using To4_v6[OF len] v6 by simp
  show "IsLoopback ip \<longleftrightarrow> ip = IPv6loopback"
    using 1 len by (simp add: IsLoopback_def IPEqual_def IPv6loopback_def)
  have "ip \<noteq> IPv4zero" using v6 by (auto simp: IPv4zero_def v4InV6Prefix_def)
  moreover have "length IPv4zero = 16" by (simp add: IPv4zero_def v4InV6Prefix_def)
  ultimately show "IsUnspecified ip \<longleftrightarrow> ip = IPv6unspecified"
    using len by (simp add: IsUnspecified_def IPEqual_def IPv6unspecified_def)
qed

lemma map2_AND_zeros: "length ys = n \<Longrightarrow> map2 (AND) ys (replicate n (0::byte)) = replicate n 0"
  by (induction n arbitrary: ys) (auto simp: length_Suc_conv)

lemma v6_table:
  assumes len: "length ys = 14" and v6: "To4 (a # b # ys) = None"
  shows "list_ex (\<lambda>n. netContains n (a # b # ys)) disallowedCIDRs \<longleftrightarrow> a = 0xFE \<and> unat b div 64 = 3"
proof -
  have "map2 (AND) ys (replicate 14 (0::byte)) = replicate 14 0"
    "map2 (AND) (replicate 14 0) (replicate 14 (0::byte)) = replicate 14 0"
    using len by (simp_all only: map2_AND_zeros length_replicate)
  moreover have "0xFE AND (0xFF :: byte) = 0xFE" "0xC0 AND (0xC0 :: byte) = 0xC0" by simp_all
  ultimately show ?thesis
    using v6 len unfolding cidrs netContains_def
    by (simp add: Let_def and_FF eq_commute[of _ "_ AND _"] byte_masks)
qed

lemma v6_predicates:
  assumes "length ys = 14" "To4 (a # b # ys) = None"
  shows "IsPrivate (a # b # ys) \<longleftrightarrow> unat a div 2 = 126"
    "IsLinkLocalUnicast (a # b # ys) \<longleftrightarrow> a = 0xFE \<and> unat b div 64 = 2"
    "IsLinkLocalMulticast (a # b # ys) \<Longrightarrow> a = 0xFF"
    "IsInterfaceLocalMulticast (a # b # ys) \<Longrightarrow> a = 0xFF"
    "IsMulticast (a # b # ys) \<longleftrightarrow> a = 0xFF"
  using assms by (simp_all add: IsPrivate_def IsLinkLocalUnicast_def IsLinkLocalMulticast_def
      IsInterfaceLocalMulticast_def IsMulticast_def byte_masks)

lemma internalRange_v6:
  assumes len: "length ip = 16" and v6: "take 12 ip \<noteq> v4InV6Prefix"
  shows "internalRange ip \<longleftrightarrow> list_ex (\<lambda>blk. inBlock blk (addrNum ip)) internalV6"
proof -
  obtain a b ys where ip: "ip = a # b # ys" and ys: "length ys = 14" using length16[OF len] by blast
  note none = v6_plain(1)[OF len v6, unfolded ip]
  define x y where "x = unat a" and "y = unat b"
  have xy: "x < 256" "y < 256" by (simp_all add: x_def y_def byte_bound)
  have code: "internalRange ip \<longleftrightarrow> ip = IPv6loopback \<or> x div 2 = 126 \<or> x = 254 \<and> y div 64 = 2
      \<or> x = 255 \<or> ip = IPv6unspecified \<or> x = 254 \<and> y div 64 = 3"
    using v6_predicates(3,4)[OF ys none]
    unfolding ip internalRange_def v6_plain(2,3)[OF len v6, unfolded ip] v6_predicates(1,2,5)[OF ys none] v6_table[OF ys none]
      x_def y_def unat_byte_eq[of a] by auto
  have six: "inBlock (p # q # zs, 7) n \<longleftrightarrow> n div 2 ^ 121 = unat p div 2"
    "inBlock (p # q # zs, 8) n \<longleftrightarrow> n div 2 ^ 120 = unat p"
    "inBlock (p # q # zs, 10) n \<longleftrightarrow> n div 2 ^ 118 = unat p * 4 + unat q div 64"
    if "length zs = 14" for p q zs n
    using addr16[OF that, of p q] that by (simp_all add: inBlock_def)
  have full: "inBlock (zs, 128) (addrNum ip) \<longleftrightarrow> ip = zs" if "length zs = 16" for zs
    using addrNum_inject[of ip zs] len that by (simp add: inBlock_def)
  have r15: "replicate 15 (0 :: byte) = 0 # replicate 14 0" by (subst replicate_Suc[symmetric]) simp
  have digits: "x * 4 + y div 64 = 1018 \<longleftrightarrow> x = 254 \<and> y div 64 = 2"
    "x * 4 + y div 64 = 1019 \<longleftrightarrow> x = 254 \<and> y div 64 = 3"
    using digit_inject[of "y div 64" 4 2 x 254] digit_inject[of "y div 64" 4 3 x 254] xy by simp_all
  have blocks: "inBlock (0xFC # replicate 15 0, 7) (addrNum ip) \<longleftrightarrow> x div 2 = 126"
    "inBlock ([0xFE, 0x80] @ replicate 14 0, 10) (addrNum ip) \<longleftrightarrow> x * 4 + y div 64 = 1018"
    "inBlock ([0xFE, 0xC0] @ replicate 14 0, 10) (addrNum ip) \<longleftrightarrow> x * 4 + y div 64 = 1019"
    "inBlock (0xFF # replicate 15 0, 8) (addrNum ip) \<longleftrightarrow> x = 255"
    using six[of "replicate 14 0" "0xFC" 0 "addrNum ip"] six[of "replicate 14 0" "0xFE" "0x80" "addrNum ip"]
      six[of "replicate 14 0" "0xFE" "0xC0" "addrNum ip"] six[of "replicate 14 0" "0xFF" 0 "addrNum ip"]
      addr16[OF ys, of a b]
    by (simp_all add: ip x_def y_def r15)
  have spec: "list_ex (\<lambda>blk. inBlock blk (addrNum ip)) internalV6 \<longleftrightarrow>
     ip = replicate 16 0 \<or> ip = replicate 15 0 @ [1] \<or> x div 2 = 126 \<or> x = 254 \<and> y div 64 = 2
     \<or> x = 254 \<and> y div 64 = 3 \<or> x = 255"
    unfolding internalV6_def list_ex_iff list.set ball_simps bex_simps blocks digits
    using full[of "replicate 16 0"] full[of "replicate 15 0 @ [1]"] by simp
  show ?thesis unfolding code spec IPv6loopback_def IPv6unspecified_def by blast
qed

text \<open>The two prefixes under which an IPv6 address carries an IPv4 one.\<close>

lemma wrapped_parts:
  assumes "length ip = 16"
  shows "addrNum ip div 2 ^ 32 = addrNum (take 12 ip)" "addrNum ip mod 2 ^ 32 = addrNum (drop 12 ip)"
  using addrNum_take[of 12 ip] addrNum_drop[of 12 ip] assms by simp_all

definition nat64Bytes :: "byte list" where
  "nat64Bytes = [0x00, 0x64, 0xFF, 0x9B, 0, 0, 0, 0, 0, 0, 0, 0]"

lemma wrapped_prefixes:
  assumes len: "length ip = 16"
  shows mapped_prefix: "take 12 ip = v4InV6Prefix \<longleftrightarrow> addrNum ip div 2 ^ 32 = 0xFFFF"
    and nat64_prefix: "take 12 ip = nat64Bytes \<longleftrightarrow> addrNum ip div 2 ^ 32 = 0x64FF9B * 2 ^ 64"
proof -
  have "addrNum v4InV6Prefix = 0xFFFF" "addrNum (nat64Bytes) = 0x64FF9B * 2 ^ 64"
    by (simp_all add: addrNum_def v4InV6Prefix_def nat64Bytes_def)
  then show "take 12 ip = v4InV6Prefix \<longleftrightarrow> addrNum ip div 2 ^ 32 = 0xFFFF"
    "take 12 ip = nat64Bytes \<longleftrightarrow> addrNum ip div 2 ^ 32 = 0x64FF9B * 2 ^ 64"
    using addrNum_inject[of "take 12 ip" v4InV6Prefix] addrNum_inject[of "take 12 ip" "nat64Bytes"]
      len wrapped_parts(1)[OF len] by (simp_all add: v4InV6Prefix_def nat64Bytes_def)
qed

lemma map2_AND_ones: "length ys = n \<Longrightarrow> map2 (AND) ys (replicate n (0xFF::byte)) = ys"
  by (induction n arbitrary: ys) (auto simp: length_Suc_conv and_FF)

lemma map2_AND_prefix:
  assumes "length as = 12" "length bs = 4"
  shows "map2 (AND) (as @ bs) (replicate 12 (0xFF::byte) @ replicate 4 0) = as @ replicate 4 0"
proof -
  have "zip (as @ bs) (replicate 12 (0xFF::byte) @ replicate 4 0) = zip as (replicate 12 0xFF) @ zip bs (replicate 4 0)"
    using assms by (subst zip_append) simp_all
  then show ?thesis
    by (simp only: map_append map2_AND_ones[OF assms(1)] map2_AND_zeros[OF assms(2)])
qed

lemma nat64_contains:
  assumes len: "length ip = 16" and none: "To4 ip = None"
  shows "netContains nat64Prefix ip \<longleftrightarrow> take 12 ip = nat64Bytes"
proof -
  have ip: "map2 (AND) ip (replicate 12 0xFF @ replicate 4 0) = take 12 ip @ replicate 4 0"
    using map2_AND_prefix[of "take 12 ip" "drop 12 ip"] len by simp
  have net: "[0x00, 0x64, 0xFF, 0x9B] @ replicate 12 0 = nat64Bytes @ replicate 4 (0::byte)"
    by (simp add: nat64Bytes_def numeral_eq_Suc)
  have "map2 (AND) (nat64Bytes @ replicate 4 0) (replicate 12 0xFF @ replicate 4 0) = nat64Bytes @ replicate 4 0"
    by (rule map2_AND_prefix) (simp_all add: nat64Bytes_def)
  then show ?thesis
    unfolding nat64 netContains_def none option.case Let_def ipNet.simps net ip using len
    by (auto simp: nat64Bytes_def)
qed

text \<open>
  C38: for every address of four or sixteen bytes the guard refuses exactly the documented ranges, an
  address written as an IPv4-mapped or NAT64 IPv6 address being judged by the IPv4 address it carries.
\<close>

theorem disallowed_addresses_exact:
  assumes "length ip = 4 \<or> length ip = 16"
  shows "isDisallowedIP (Some ip) \<longleftrightarrow> internalNumber (length ip) (addrNum ip)"
proof -
  have v4: "internalRange x \<longleftrightarrow> list_ex (\<lambda>b. inBlock b (addrNum x)) internalV4" "To4 x = Some x"
    if "length x = 4" for x
    using length4[OF that] internalRange_v4 To4_v4 by blast+
  have four: "isDisallowedIP (Some x) \<longleftrightarrow> internalRange x" if "length x = 4" for x
    using v4(2)[OF that] by (simp add: isDisallowedIP.simps(2))
  show ?thesis
  proof (cases "length ip = 4")
    case True
    then show ?thesis using four v4 by (simp add: internalNumber_def)
  next
    case False
    with assms have len: "length ip = 16" by simp
    have tail: "length (drop 12 ip) = 4" using len by simp
    show ?thesis
    proof (cases "take 12 ip = v4InV6Prefix")
      case True
      then have "isDisallowedIP (Some ip) \<longleftrightarrow> internalRange (drop 12 ip)"
        by (simp add: isDisallowedIP.simps(2) To4_v6[OF len])
      then show ?thesis using True
        by (simp add: internalNumber_def len v4(1)[OF tail] mapped_prefix[OF len] wrapped_parts(2)[OF len, symmetric])
    next
      case v6: False
      note none = v6_plain(1)[OF len v6]
      have "isDisallowedIP (Some ip) \<longleftrightarrow>
          (if take 12 ip = nat64Bytes then internalRange (drop 12 ip) else internalRange ip)"
        using four[OF tail] len
        by (simp add: isDisallowedIP.simps(2) none To16_def nat64_contains[OF len none])
      then show ?thesis using v6 mapped_prefix[OF len] nat64_prefix[OF len]
        by (simp add: internalNumber_def len v4(1)[OF tail] internalRange_v6[OF len v6] wrapped_parts(2)[OF len, symmetric])
    qed
  qed
qed

lemma disallowed_addresses_exact_witness:
  "isDisallowedIP (Some [0x00, 0x64, 0xFF, 0x9B, 0, 0, 0, 0, 0, 0, 0, 0, 10, 0, 0, 1])
   \<and> isDisallowedIP (Some [100, 100, 100, 200]) \<and> \<not> isDisallowedIP (Some [8, 8, 8, 8])"
proof -
  have nums: "addrNum [0x00, 0x64, 0xFF, 0x9B, 0, 0, 0, 0, 0, 0, 0, 0, 10, 0, 0, 1] = 0x64FF9B * 2 ^ 96 + 0xA000001"
    "addrNum [100, 100, 100, 200] = 0x646464C8" "addrNum [8, 8, 8, 8] = 0x8080808"
    by (simp_all add: addrNum_def)
  have "internalNumber 16 (0x64FF9B * 2 ^ 96 + 0xA000001)" "internalNumber 4 0x646464C8" "\<not> internalNumber 4 0x8080808"
    by (simp_all add: internalNumber_def inBlock_def internalV4_def addrNum_def)
  moreover have "length [0x00, 0x64, 0xFF, 0x9B, 0, 0, 0, 0, 0, 0, 0, 0, 10, 0, 0, 1 :: byte] = 16"
    "length [100, 100, 100, 200 :: byte] = 4" "length [8, 8, 8, 8 :: byte] = 4" by simp_all
  ultimately show ?thesis
    using disallowed_addresses_exact[of "[0x00, 0x64, 0xFF, 0x9B, 0, 0, 0, 0, 0, 0, 0, 0, 10, 0, 0, 1]"]
      disallowed_addresses_exact[of "[100, 100, 100, 200]"] disallowed_addresses_exact[of "[8, 8, 8, 8]"]
    unfolding nums by (simp only: simp_thms)
qed

section \<open>What is dialled\<close>

lemma dialLoop_confined:
  "(ip, p) \<in> set (fst (dialLoop env port ips e)) \<Longrightarrow>
     p = port \<and> Some ip \<in> set ips \<and> \<not> isDisallowedIP (Some ip)"
proof (induction env port ips e rule: dialLoop.induct)
  case (2 env port a ips lastErr)
  then show ?case
    by (cases a) (auto simp: allowDialIP_def split: if_splits sum.splits prod.splits)
qed simp

lemma dialLoop_conn:
  "snd (dialLoop env port ips e) = Inr c \<Longrightarrow>
     \<exists>ip. (ip, port) \<in> set (fst (dialLoop env port ips e)) \<and> dialIP env ip port = Inr c"
proof (induction env port ips e rule: dialLoop.induct)
  case (2 env port a ips lastErr)
  then show ?case by (fastforce split: if_splits sum.splits prod.splits)
qed simp

lemma safeDial_confined:
  assumes "(ip, port) \<in> set (fst (safeDialContext env addr))"
  shows "\<exists>host ips. SplitHostPort addr = Inr (host, port) \<and> lookupIPAddr env host = Inr ips
    \<and> Some ip \<in> set ips \<and> \<not> isDisallowedIP (Some ip)"
  using assms by (auto simp: safeDialContext_def split: sum.splits prod.splits dest: dialLoop_confined)

lemma safeDial_conn:
  assumes "snd (safeDialContext env addr) = Inr c"
  shows "\<exists>ip port. (ip, port) \<in> set (fst (safeDialContext env addr)) \<and> dialIP env ip port = Inr c"
  using assms by (auto simp: safeDialContext_def split: sum.splits prod.splits) (blast dest: dialLoop_conn)

text \<open>The host a request names, as the handlers read it, and the address its connection is for.\<close>

definition namedHost :: "epRequest \<Rightarrow> string" where
  "namedHost r =
     (let a = (if rqMethod r = ''CONNECT'' then rqHost r else rqURLHost r)
      in case SplitHostPort a of Inl e \<Rightarrow> a | Inr (h, p) \<Rightarrow> h)"

definition targetAddr :: "'c epEnv \<Rightarrow> epRequest \<Rightarrow> string" where
  "targetAddr env r = (if rqMethod r = ''CONNECT'' then rqHost r else canonicalAddr env (rqURL r))"

lemma serve_connect:
  "rqMethod r = ''CONNECT'' \<Longrightarrow> ServeHTTP env al r = handleConnect env al r"
  by (simp add: ServeHTTP_def)

lemma serve_dials:
  "set (tDials (ServeHTTP env al r)) \<subseteq>
     (if allowPermits al (namedHost r) then set (fst (safeDialContext env (targetAddr env r))) else {})"
  by (auto simp: ServeHTTP_def handleConnect_def handleHTTP_def plainAnswer_def namedHost_def targetAddr_def
      fwdClientDo_def Let_def split: if_splits sum.splits prod.splits option.splits)

lemma serve_tunnel:
  "tReply (ServeHTTP env al r) = EpTunnel c \<Longrightarrow> rqMethod r = ''CONNECT''
     \<and> snd (safeDialContext env (rqHost r)) = Inr c
     \<and> tDials (ServeHTTP env al r) = fst (safeDialContext env (rqHost r))"
  by (auto simp: ServeHTTP_def handleConnect_def handleHTTP_def plainAnswer_def Let_def
      split: if_splits sum.splits prod.splits)


text \<open>A rebinding name: the resolver offers an internal address twice, once as IPv6, and then a public one.\<close>

definition epExEnv :: "string epEnv" where
  "epExEnv = \<lparr>lookupIPAddr = (\<lambda>h. Inr [Some [10, 0, 0, 1], Some (v4InV6Prefix @ [169, 254, 169, 254]), Some [8, 8, 8, 8]]),
     dialIP = (\<lambda>ip p. if ip = [8, 8, 8, 8] then Inr ''conn'' else Inl ''refused''),
     idleConn = (\<lambda>a. None), canonicalAddr = (\<lambda>u. ''example.com:80''), mkRequest = (\<lambda>m u. True),
     roundTrip = (\<lambda>c q. Inr \<lparr>rspStatus = 200, rspHeader = [(''Keep-Alive'', [''timeout=5''])], rspBody = ''ok''\<rparr>),
     hijacks = True, hijackOk = True, greetOk = True\<rparr>"

definition epExConnect :: epRequest where
  "epExConnect = \<lparr>rqMethod = ''CONNECT'', rqScheme = [], rqURLHost = ''api.example.com:443'', rqPath = [],
     rqURL = ''//api.example.com:443'', rqHost = ''api.example.com:443'', rqHeader = [], rqBody = []\<rparr>"

definition epExGet :: epRequest where
  "epExGet = \<lparr>rqMethod = ''GET'', rqScheme = ''http'', rqURLHost = ''example.com'', rqPath = ''/'',
     rqURL = ''http://example.com/'', rqHost = ''example.com'',
     rqHeader = [(''Proxy-Authorization'', [''secret'']), (''Accept'', [''*/*''])], rqBody = []\<rparr>"

lemma ep_connect:
  "tDials (ServeHTTP epExEnv [''*.example.com''] epExConnect) = [([8, 8, 8, 8], ''443'')]
   \<and> (case tReply (ServeHTTP epExEnv [''*.example.com''] epExConnect) of EpTunnel c \<Rightarrow> c = ''conn'' | _ \<Rightarrow> False)"
  by code_simp


section \<open>What is sent on\<close>

text \<open>
  A request that is sent on names a permitted host and keeps method, URL and body; of its headers exactly
  the hop-by-hop ones are missing, however they are spelled.
\<close>

theorem forwarded_request:
  assumes "tSent (ServeHTTP env al r) = Some out"
  shows "rqMethod r \<noteq> ''CONNECT'' \<and> rqScheme r \<noteq> [] \<and> allowPermits al (namedHost r)
    \<and> outMethod out = rqMethod r \<and> outURL out = rqURL r \<and> outBody out = rqBody r
    \<and> (\<forall>k vv. (k, vv) \<in> set (outHeader out) \<longleftrightarrow> (k, vv) \<in> set (rqHeader r) \<and> \<not> hopByHop (map lowerByte k))"
  using assms
  by (auto simp: ServeHTTP_def handleConnect_def handleHTTP_def plainAnswer_def namedHost_def Let_def
      copyRequestHeaders_def split: if_splits sum.splits prod.splits)

lemma forwarded_request_witness:
  "map fst (outHeader (the (tSent (ServeHTTP epExEnv [''*''] epExGet)))) = [''Accept'']
   \<and> allowPermits [''*''] (namedHost epExGet)"
proof -
  have "(case tSent (ServeHTTP epExEnv [''*''] epExGet) of None \<Rightarrow> False | Some q \<Rightarrow> map fst (outHeader q) = [''Accept''])"
    by code_simp
  then show ?thesis using forwarded_request[of epExEnv "[''*'']" epExGet] by (auto split: option.splits)
qed

section \<open>The tunnel\<close>

text \<open>
  C40: a tunnel takes at most ten steps, however its copies and its peers interleave; and once one
  direction has ended the proxy is never stuck before it has closed both connections, reaped both copies and
  returned, whether or not the peers ever close.
\<close>

theorem tunnel_torn_down:
  assumes "tunnelRun n s"
  shows "n \<le> 10 \<and> ((upCopy s \<noteq> Copying \<or> downCopy s \<noteq> Copying) \<longrightarrow> (\<forall>t. \<not> tunnelStep Own s t) \<longrightarrow>
    tunnelPc s = TunnelOver \<and> \<not> clientOpen s \<and> \<not> targetOpen s
    \<and> upCopy s = Exited \<and> downCopy s = Exited \<and> doneTokens s = 0)"
  using tunnelRun_rank[OF assms] tunnelRun_ends[OF assms] by auto

text \<open>The upload ends, the download never would: the run to the end.\<close>

lemma tunnel_half_closed:
  "tunnelRun 10 \<lparr>upCopy = Exited, downCopy = Exited, doneTokens = 0, clientOpen = False,
      targetOpen = False, tunnelPc = TunnelOver\<rparr>"
proof -
  let ?s = "\<lambda>u d k c t p. \<lparr>upCopy = u, downCopy = d, doneTokens = k, clientOpen = c, targetOpen = t, tunnelPc = p\<rparr>"
  have "tunnelRun 0 (?s Copying Copying 0 True True AwaitFirst)"
    using tunnelRun.start by (simp add: tunnelStart_def)
  from step[OF this up_ended] have "tunnelRun 1 (?s Signalling Copying 0 True True AwaitFirst)" by (simp add: numeral_eq_Suc)
  from step[OF this up_signal] have "tunnelRun 2 (?s Exited Copying 1 True True AwaitFirst)" by (simp add: numeral_eq_Suc)
  from step[OF this await_first] have "tunnelRun 3 (?s Exited Copying 0 True True CloseClient)" by (simp add: numeral_eq_Suc)
  from step[OF this close_client] have "tunnelRun 4 (?s Exited Copying 0 False True CloseTarget)" by (simp add: numeral_eq_Suc)
  from step[OF this close_target] have "tunnelRun 5 (?s Exited Copying 0 False False AwaitSecond)" by (simp add: numeral_eq_Suc)
  from step[OF this down_closed] have "tunnelRun 6 (?s Exited Signalling 0 False False AwaitSecond)" by (simp add: numeral_eq_Suc)
  from step[OF this down_signal] have "tunnelRun 7 (?s Exited Exited 1 False False AwaitSecond)" by (simp add: numeral_eq_Suc)
  from step[OF this await_second] have "tunnelRun 8 (?s Exited Exited 0 False False DeferClient)" by (simp add: numeral_eq_Suc)
  from step[OF this defer_client] have "tunnelRun 9 (?s Exited Exited 0 False False DeferTarget)" by (simp add: numeral_eq_Suc)
  from step[OF this defer_target] show ?thesis by (simp add: numeral_eq_Suc)
qed

lemma tunnel_torn_down_witness:
  "\<exists>s. tunnelRun 10 s \<and> tunnelPc s = TunnelOver \<and> \<not> clientOpen s \<and> \<not> targetOpen s"
proof -
  let ?t = "\<lparr>upCopy = Exited, downCopy = Exited, doneTokens = 0, clientOpen = False,
      targetOpen = False, tunnelPc = TunnelOver\<rparr>"
  have "\<not> tunnelStep Own ?t u" for u by (auto elim: tunnelStep.cases)
  then show ?thesis using tunnel_torn_down[OF tunnel_half_closed] tunnel_half_closed by (intro exI[of _ ?t]) auto
qed

section \<open>Where documentation and code differ\<close>

text \<open>Plain requests are proxied too, not only CONNECT.\<close>

lemma plain_request_proxied:
  "(case tReply (ServeHTTP epExEnv [''example.com''] epExGet) of EpRelayed rsp \<Rightarrow> rspStatus rsp = 200 | _ \<Rightarrow> False)"
  by code_simp

text \<open>A hop-by-hop header of the answer is passed back to the client.\<close>

lemma hop_by_hop_answer_relayed:
  "(case tReply (ServeHTTP epExEnv [''example.com''] epExGet) of
      EpRelayed rsp \<Rightarrow> rspHeader rsp = [(''Keep-Alive'', [''timeout=5''])] | _ \<Rightarrow> False)
   \<and> hopByHop (map lowerByte ''Keep-Alive'')"
  by code_simp

end
