(* ===== verification/Spec2Isabelle.thy ===== *)
theory Spec2Isabelle
  imports Wf_Typing Wf_MapLoopTheorems Wf_ApiFindings Gk_Examples Tk_Examples Og_Examples Ep_Theorems
begin

text \<open>
  Codearmory is a set of Go services under \<open>src/src/systems/\<close> that together form a
  software forge.  This development models the services whose correctness rests on logic of
  their own, and proves what that logic promises.

  \<^bold>\<open>The parts and how they interact.\<close>  A user's pipeline lives in \<open>workflows\<close>: a graph of steps
  with conditional routes, map regions and loops, validated when it is written and run by a
  frontier scheduler.  Every request to any service is admitted by \<open>gatekeeper\<close>, which keeps
  users, roles and permissions and answers whether a caller may act on a resource; a run acts
  with a role whose permissions are an attenuation of its owner's.  \<open>tickets\<close> keeps work items
  with versions, parents and dependencies, and asks gatekeeper on every request.
  \<open>outpost-gateway\<close> queues commands for agents in other networks and forwards their events to
  the forge and the runner service; here the answers of gatekeeper and of the consumers are inputs.
  \<open>egress-proxy\<close> is the way out for the code a run executes: it reaches permitted hosts at public
  addresses only.

  \<^bold>\<open>Reading the model.\<close>  A struct is a record whose fields carry the Go names behind a short
  prefix, a Go function is a HOL function of the same name, an error return is \<open>Inl\<close> of a
  datatype of errors, a request handler maps the state of the tables and the request to the new state
  and the reply.  \<open>Prelude\<close> says how strings, maps and slices are read and holds the locales
  of transition systems (\<open>invariant_system\<close>, \<open>forward_system\<close>, \<open>bounded_system\<close>) that the
  concurrent components interpret.  \<open>Go_Strings\<close> and \<open>Go_Numbers\<close> model the functions of
  \<open>strings\<close> and \<open>strconv\<close> the code calls, \<open>Go_Store\<close> the queries on a table of rows.

  \<^bold>\<open>workflows\<close> (theories \<open>Wf_\<close>*, files under \<open>systems/workflows/\<close>).
    \<^item> \<open>Wf_Types\<close>: the data of \<open>types.go\<close> and of the runtime graph.
    \<^item> \<open>Wf_Graph\<close>, \<open>Wf_Topo\<close>, \<open>Wf_Regions\<close>: \<open>graph.go\<close>, \<open>mapregion.go\<close>, \<open>loopregion.go\<close>: building
      the graph, the ancestor closure, Kahn's algorithm, the folding of regions into super-nodes.
    \<^item> \<open>Wf_Validate\<close>, \<open>Wf_GraphTheorems\<close>: the authoring-time validation and its exactness.
    \<^item> \<open>Wf_Scheduler\<close>: \<open>scheduler.go\<close>; \<open>sched_step\<close> is one turn of the loop of \<open>runGraph\<close>
      (launch what is ready, skip what cannot run, take one result), with the arrival order, the results
      and the cancellations arbitrary.  \<open>Wf_SchedInv\<close>, \<open>Wf_SchedRun\<close>, \<open>Wf_RunTheorems\<close> prove its
      behaviour on graphs without regions, \<open>Wf_Typing\<close> that on every graph all lookups are in range.
    \<^item> \<open>Wf_Subst\<close>: the references of \<open>substitution.go\<close>.  \<open>Wf_Fanout\<close>, \<open>Wf_FanoutTheorems\<close>: matrix and
      scatter of \<open>worker.go\<close> and \<open>scatter.go\<close>.  \<open>Wf_MapLoop\<close>, \<open>Wf_MapLoopTheorems\<close>: the
      goroutines of a map region as the step relation \<open>map_step\<close>, and loops.
    \<^item> \<open>Wf_Findings\<close>: accepted workflows that do not run as the comments say.
    \<^item> \<open>Wf_StateMachine\<close>: the state-machine document (\<open>statemachine.go\<close>), both conversions.
      \<open>Wf_StateOrder\<close>, \<open>Wf_StatePasses\<close>, \<open>Wf_StateRoundTrip\<close>, \<open>Wf_StateTheorems\<close>: the order of its steps,
      what each pass accepts, the round trip, independence of the iteration order of Go's maps.
    \<^item> \<open>Wf_Author\<close>: requests, their checks and the permissions of a pipeline (\<open>api_steps.go\<close>,
      \<open>api_workflows.go\<close>, \<open>names.go\<close>, \<open>project.go\<close>, \<open>ticket.go\<close>).  \<open>Wf_Api\<close>: the handlers over the
      database and the life of the role of a pipeline.  \<open>Wf_RunStore\<close>, \<open>Wf_RunApi\<close>: the statements on
      runs and step runs (\<open>db.go\<close>), triggering, cancelling and deciding (\<open>api_runs.go\<close>,
      \<open>api_internal.go\<close>), the end of a run in the worker.
    \<^item> \<open>Wf_RoleTheorems\<close>: what a role grants.  \<open>Wf_RunLife\<close>: the statements on runs interleaved as
      \<open>run_sql\<close>.  \<open>Wf_ApiTheorems\<close>: what every request (\<open>api_step\<close>) keeps of the stored pipelines.
      \<open>Wf_RoleLife\<close>: which roles are deleted.  \<open>Wf_EditTheorems\<close>: editing through the document.
      \<open>Wf_ApiExamples\<close>, \<open>Wf_ApiFindings\<close>: the service on concrete requests, and where it does less than
      its comments say.

  \<^bold>\<open>gatekeeper\<close> (\<open>Gk_\<close>*, files under \<open>systems/gatekeeper/\<close>).
    \<^item> \<open>Gk_Match\<close>: the pattern language of permissions (\<open>api_helpers.go\<close>).  \<open>Gk_Store\<close>: the rows
      of \<open>types.go\<close> and the queries of \<open>db.go\<close>.  \<open>Gk_Evaluate\<close>: the decision for users, scoped
      sessions and clients and the check endpoint.  \<open>Gk_Attenuate\<close>: namespace roles, run roles
      and scoped tokens (\<open>api_namespace_roles.go\<close>, \<open>api_workflow_roles.go\<close>, \<open>api_tokens.go\<close>).
    \<^item> \<open>Gk_Authority\<close> defines the authority of a session and its refinement by the evaluation;
      \<open>Gk_Theorems\<close> states the decisions, attenuation (locale \<open>attenuation\<close>) and revocation;
      \<open>Gk_Examples\<close> the instances and counterexamples.

  \<^bold>\<open>tickets\<close> (\<open>Tk_\<close>*, files under \<open>systems/tickets/\<close>).  \<open>Tk_Store\<close>: rows, queries, field definitions.
  \<open>Tk_Tickets\<close>: the handlers of \<open>api_tickets.go\<close> (but the listing), \<open>api_dependencies.go\<close> and
  \<open>concurrency.go\<close>.  \<open>Tk_Concurrent\<close>: interleaved requests as \<open>tk_step\<close>, refining atomic
  patches.  \<open>Tk_Theorems\<close>, \<open>Tk_Examples\<close>: acyclicity of dependencies, ETags, instances.

  \<^bold>\<open>outpost-gateway\<close> (\<open>Og_\<close>*, files under \<open>systems/outpost-gateway/\<close>).  \<open>Og_Store\<close>: rows and queries
  with their locked rows.  \<open>Og_Gateway\<close>: every handler, the authentication of outposts and
  services and the event dispatcher.  \<open>Og_Queue\<close>: requests, dispatchers and time
  interleaved as \<open>og_step\<close>; \<open>Og_Events\<close> the outbox; \<open>Og_Theorems\<close>, \<open>Og_Enrol\<close>, \<open>Og_Examples\<close> the
  guarantees and their limits.

  \<^bold>\<open>egress-proxy\<close> (\<open>Ep_\<close>*, \<open>systems/egress-proxy/main.go\<close>).  \<open>Go_Net\<close>, \<open>Go_Http\<close>: Go's addresses,
  networks and host-port pairs as byte lists, an address as a number, headers.  \<open>Ep_Proxy\<close>: the allow list, the address
  guard, dialling and the handlers.  \<open>Ep_Tunnel\<close>: the goroutines of a tunnel as the step relation
  \<open>tunnelStep\<close>.  \<open>Ep_Theorems\<close>: the exact set of refused addresses, confinement, teardown.

  \<^bold>\<open>What the theorems show.\<close>  For a run of a workflow: the readiness rule, exactness of route
  decisions, stability of visible outputs, termination within an explicit number of turns, progress and the
  meaning of each final status; for regions the failure verdict, the concurrency bound and
  termination; for templates exact success conditions.  For pipelines: the document round trip, validity of
  every stored pipeline, what its role grants and when it may go, and, across authoring, storage,
  assembly and scheduler, that a stored pipeline runs to the end (\<open>stored_pipeline_runs_through\<close>).  For the
  rows of runs, under every interleaving of statements: exclusive claims, a final status that stays, a
  parked run that can be decided.  For gatekeeper: decisions equal to a declarative specification and
  no amplification of authority; for tickets: acyclicity, atomic conditional updates; for the gateway:
  spacing of redeliveries, single dispatchers, binding of internal tokens, enrolment; for the egress proxy:
  no connection to an internal address.

  \<^bold>\<open>Bounds and termination.\<close>  No fuel stands in for a loop of the code.  Recursions that are not
  structural have measures: \<open>kahnLoop\<close> the nodes with positive in-degree, \<open>resolveQueue\<close>
  the undecided edges, \<open>wouldCycleLoop\<close> the tickets it may still visit, the loops of the string functions the
  length of the rest, \<open>isDisallowedIP\<close> the length of the address.  Two walks of the tickets
  service have the bounds of the code itself, \<open>maxDependencyNodes\<close> (256) and \<open>maxParentDepth\<close>
  (64); the theorems say what they do beyond them.  Go's \<open>int\<close> and \<open>int64\<close> are \<open>int\<close> where validated
  bounds keep them small and 64-bit words where they can wrap (token expiry, retry delay).

  \<^bold>\<open>Parameters.\<close>  What is not in the repository is an argument: the JSON library, the
  expression engine \<open>expr-lang/expr\<close> (compile and evaluate), bcrypt, HMAC-SHA256 and the JWT
  library, random bytes and uuids, \<open>time.Parse\<close>, the clock, the resolver and the network.  The database is a list of rows per table,
  with a flag per table that makes its queries fail; rows another transaction has locked are an
  argument of the claims.  The results of steps, of gatekeeper and of the consumers of events
  are arbitrary.  The hypotheses on parameters (a MAC that is injective on the messages compared, a
  supply of fresh uuids) stand in the theorems that need them, each with an instance.

  \<^bold>\<open>Not modelled.\<close>  HTTP servers, JSON and GORM tags, logging, metrics and caches; calls to
  other services beyond their answers; in workflows the execution of a step against its service, the
  catalog of actions, the comments on tickets and the cancelling of jobs; in gatekeeper accounts, OAuth,
  MFA and secrets; in tickets boards, comments and listings.  The remaining services, the command line client,
  the SDK and the Terraform provider are not part of the development: they drive container
  runtimes, object stores and git processes, or render pages, over the same kind of handlers and tables; the
  manifest gives the reason for each.
\<close>

section \<open>From validation to execution\<close>

lemma no_regions: "regionsOf steps [] = []" "loopsOf steps [] = []"
proof -
  have "fold addMapMember xs [] = []" for xs
    by (induction xs) (auto simp: addMapMember_def)
  then show "regionsOf steps [] = []" by (simp add: regionsOf_def)
  have climb: "climbLoops p i n k seen [] = []" for p i n k seen
    by (subst climbLoops.simps) simp
  have "fold (addLoopMember p) xs [] = []" for p xs
    by (induction xs) (auto simp: addLoopMember_def climb)
  then show "loopsOf steps [] = []" by (simp add: loopsOf_def)
qed

lemma buildGraph_flat:
  "buildGraph compile steps routes [] [] = newGraph compile steps (effectiveRoutes steps routes)"
  by (rule workflowGraph.equality)
     (simp_all add: buildGraph_def withLoops_def withMaps_def no_regions regionOfNode_def loopOfNode_def
       effectiveRoutes_def del: newGraph_entries newGraph_programs)

lemma validated_flat:
  assumes "distinct (names_of steps)" "steps \<noteq> []"
    and "validateGraph compile steps routes [] [] = None"
  shows "buildGraph compile steps routes [] [] = newGraph compile steps (effectiveRoutes steps routes)"
    and "acyclic (edges_of steps (effectiveRoutes steps routes))"
    and "\<forall>r\<in>set (effectiveRoutes steps routes). goodRoute compile steps r \<or> r_When r = []"
proof -
  show "buildGraph compile steps routes [] [] = newGraph compile steps (effectiveRoutes steps routes)"
    by (rule buildGraph_flat)
  have maps: "validateMaps steps [] routes = None" "validateLoops compile steps [] routes = None"
    using assms(3) by (simp_all add: validateGraph_def)
  have "routes = [] \<or> (\<forall>r\<in>set routes. goodRoute compile steps r) \<and> acyclic (edges_of steps routes)"
    using assms(3) maps routes_valid_iff[OF assms(1,2), of compile routes]
    by (simp add: validateGraph_def split: if_splits)
  moreover have "r_When r = []" if "r \<in> set (deriveRoutes steps)" for r
    using that by (auto simp: deriveRoutes_def)
  ultimately show "acyclic (edges_of steps (effectiveRoutes steps routes))"
    "\<forall>r\<in>set (effectiveRoutes steps routes). goodRoute compile steps r \<or> r_When r = []"
    using derived_acyclic[OF assms(1)] unfolding effectiveRoutes_def by (cases "routes = []"; auto)+
qed

lemma runs_through:
  assumes "distinct (names_of steps)" "steps \<noteq> []"
    and "validateGraph compile steps routes [] [] = None"
    and "runsTo C (buildGraph compile steps routes [] []) outs D s"
    and "sc_phase s = Returned x" "\<not> sc_cancelled s" "n \<in> set (names_of steps)"
  shows "\<exists>t. rs_nodes (sc_st s) n = Some t
     \<and> (terminal t \<or> t = NodeAwaiting
        \<or> t = NodePending \<and> (\<exists>a. (a, n) \<in> (edges_of steps (effectiveRoutes steps routes))\<^sup>+
                                \<and> rs_nodes (sc_st s) a = Some NodeAwaiting))"
proof -
  note v = validated_flat[OF assms(1-3)]
  have g: "flatGraph (newGraph compile steps (effectiveRoutes steps routes))"
    by (rule flatGraph_newGraph[OF assms(1) v(2)])
  have n: "n \<in> nodesOf (newGraph compile steps (effectiveRoutes steps routes))" using assms(7) by simp
  show ?thesis
    by (rule returned_nodes[OF g assms(4)[unfolded v(1)] assms(5) _ n]) (use assms(6) in auto)
qed

text \<open>A stored pipeline of inline steps, as \<open>getWorkflow\<close> returns it.\<close>

lemma got_shaped:
  assumes "(api_step compile catalog)\<^sup>*\<^sup>* w0 w" "wdb_workflows (aw_db w0) = []" "getWorkflow (aw_db w) i = Inr p"
  shows "pipelineShaped compile p"
proof -
  from assms(3) obtain p0 steps where p: "p0 \<in> set (wdb_workflows (aw_db w))" "enrichRefs (aw_db w) (wf_StepRefs p0) = Inr steps"
    "p = p0\<lparr>wf_Steps := steps\<rparr>"
    by (auto simp: getWorkflow_def dest!: firstRow_Inr enriched_Inr)
  moreover have "pipelineOk compile catalog p0"
    using api.reachable_inv[OF assms(2,1)] p(1) by (simp add: goodRows_def)
  ultimately show ?thesis
    using enrich_inline(1)[of "wf_StepRefs p0" "aw_db w"] by (auto simp: pipelineShaped_def pipelineOk_def)
qed

text \<open>
  C1: a workflow the validator accepts, without maps and loops, runs to the end.  Whatever the
  schedule and the results, a run of the graph built from it that returns without having been
  cancelled has finished every step, unless the step is a gate that waits or lies behind one.
\<close>
theorem validated_workflow_runs_through:
  assumes "distinct (names_of steps)" "steps \<noteq> []"
    and "validateGraph compile steps routes [] [] = None"
    and "runsTo C (buildGraph compile steps routes [] []) outs D s"
    and "sc_phase s = Returned x" "\<not> sc_cancelled s" "n \<in> set (names_of steps)"
  shows "\<exists>t. rs_nodes (sc_st s) n = Some t
     \<and> (terminal t \<or> t = NodeAwaiting
        \<or> t = NodePending \<and> (\<exists>a. (a, n) \<in> (edges_of steps (effectiveRoutes steps routes))\<^sup>+
                                \<and> rs_nodes (sc_st s) a = Some NodeAwaiting))"
  by (rule runs_through[OF assms])

lemma demo_validates: "validateGraph Inr demoSteps [plain_route ''a'' ''b''] [] [] = (None :: vmsg option)"
  by code_simp

lemma validated_workflow_runs_through_witness:
  "\<exists>s t. runsTo demoCtx (buildGraph Inr demoSteps [plain_route ''a'' ''b''] [] []) Map.empty {} s
     \<and> sc_phase s = Returned StatusCompleted \<and> rs_nodes (sc_st s) ''b'' = Some t"
proof -
  let ?g = "buildGraph Inr demoSteps [plain_route ''a'' ''b''] [] [] :: string workflowGraph"
  have "map_option (\<lambda>s. (sc_phase s, sc_cancelled s)) (demoRun demoCtx ?g
      [EvTop, EvResult 0 (result StatusCompleted), EvTop, EvResult 0 (result StatusCompleted), EvTop])
      = Some (Returned StatusCompleted, False)"
    by code_simp
  from demoRun_reaches[OF this] obtain s where s: "runsTo demoCtx ?g Map.empty {} s"
    "sc_phase s = Returned StatusCompleted" "\<not> sc_cancelled s"
    by (elim exE conjE) (simp only: prod.inject simp_thms)
  have "demoSteps \<noteq> []" "''b'' \<in> set (names_of demoSteps)" by (simp_all add: demoSteps_def)
  from validated_workflow_runs_through[OF demo_acyclic(1) this(1) demo_validates s this(2)] s(1,2)
  show ?thesis by blast
qed


text \<open>The pipeline of the examples: its step completes, its gate waits.\<close>

definition exStored :: Workflow where
  "exStored = (case getWorkflow (aw_db exCreated) ''id'' of Inr p \<Rightarrow> p | Inl _ \<Rightarrow> exFetched)"

lemma ex_stored: "getWorkflow (aw_db exCreated) ''id'' = Inr exStored"
proof -
  have "(case getWorkflow (aw_db exCreated) ''id'' of Inr q \<Rightarrow> True | Inl _ \<Rightarrow> False)" by code_simp
  then show ?thesis by (simp add: exStored_def split: sum.splits)
qed

lemma ex_stored_fields:
  "storedIDs (wf_StepRefs exStored) = [] \<and> wf_Maps exStored = [] \<and> wf_Loops exStored = []
   \<and> names_of (wf_Steps exStored) = [''a'', ''approval''] \<and> wf_Routes exStored = []"
  by code_simp


text \<open>
  in the graph built from an accepted workflow every conditional route has its compiled
  program, so the fallback of \<open>evalWhen\<close> for a missing one is never reached in a run.
\<close>
theorem validated_conditions_compiled:
  assumes "distinct (names_of steps)" "steps \<noteq> []"
    and "validateGraph compile steps routes [] [] = None"
    and "ri < length (effectiveRoutes steps routes)" "r_When (effectiveRoutes steps routes ! ri) \<noteq> []"
  shows "\<exists>p. compile (r_When (effectiveRoutes steps routes ! ri)) = Inr p
     \<and> g_programs (buildGraph compile steps routes [] []) ! ri = Some p"
proof -
  note v = validated_flat[OF assms(1-3)]
  have "goodRoute compile steps (effectiveRoutes steps routes ! ri)"
    using v(3) assms(4,5) by auto
  then show ?thesis using assms(4,5) unfolding v(1) by (auto simp: goodRoute_def compileWhen_def)
qed

lemma validated_conditions_compiled_witness:
  "g_programs (buildGraph Inr demoSteps [condRoute ''a'' ''b'' ''true''] [] [] :: string workflowGraph) ! 0
     = Some ''true''"
proof -
  have "validateGraph (Inr :: string \<Rightarrow> string + string) demoSteps [condRoute ''a'' ''b'' ''true''] [] [] = None"
    by code_simp
  moreover have "demoSteps \<noteq> []" "r_When (effectiveRoutes demoSteps [condRoute ''a'' ''b'' ''true''] ! 0) = ''true''"
    "0 < length (effectiveRoutes demoSteps [condRoute ''a'' ''b'' ''true''])"
    by (simp_all add: demoSteps_def effectiveRoutes_def condRoute_def)
  ultimately show ?thesis
    using validated_conditions_compiled[OF demo_acyclic(1), of Inr "[condRoute ''a'' ''b'' ''true'']" 0]
    by auto
qed

end
